(* ===== verification/Prelude.thy ===== *)
theory Prelude
  imports Main "HOL-Library.Word" "HOL-Library.Monad_Syntax"
begin

text \<open>
  Shared vocabulary of the development: names for the machine types of the C++ source,
  the reading of a failed assertion or of undefined behaviour as \<open>None\<close>, bounded reads and
  writes of byte vectors, and the interface \<open>reversible\<close> of every component that the trace
  viewer moves forwards and backwards.
\<close>

section \<open>Machine types\<close>

type_synonym u8 = "8 word"
type_synonym u16 = "16 word"
type_synonym u32 = "32 word"
type_synonym u64 = "64 word"
type_synonym byte = "8 word"

named_theorems bytes_simps \<open>equations for bounded reads and writes of byte vectors\<close>
named_theorems word_simps \<open>equations that move 64-bit addresses to natural numbers\<close>

section \<open>Assertions\<close>

text \<open>
  An operation of the source that may fail an \<open>assert\<close>, read outside a buffer or call
  a library function outside its contract returns an option: \<open>None\<close> is that failure.
\<close>

definition require :: "bool \<Rightarrow> unit option" where
  "require b = (if b then Some () else None)"

lemma require_simps [simp]:
  "require True = Some ()" "require False = None"
  by (simp_all add: require_def)

lemma require_eq_Some [simp]: "require b = Some u \<longleftrightarrow> b"
  by (simp add: require_def)

lemma require_bind_Some [simp]:
  "(require b \<bind> f) = Some x \<longleftrightarrow> b \<and> f () = Some x"
  by (simp add: require_def)

lemma require_bind_None [simp]:
  "(require b \<bind> f) = None \<longleftrightarrow> (b \<longrightarrow> f () = None)"
  by (simp add: require_def)

section \<open>Bounded reads and writes\<close>

text \<open>
  A \<open>std::vector\<close> range \<open>[o, o + n)\<close>: reading or writing outside the vector is
  undefined in the source.
\<close>

definition slice :: "nat \<Rightarrow> nat \<Rightarrow> 'a list \<Rightarrow> 'a list option" where
  "slice off n xs = (if off + n \<le> length xs then Some (take n (drop off xs)) else None)"

definition overwrite :: "nat \<Rightarrow> 'a list \<Rightarrow> 'a list \<Rightarrow> 'a list option" where
  "overwrite off ys xs =
     (if off + length ys \<le> length xs
      then Some (take off xs @ ys @ drop (off + length ys) xs) else None)"

text \<open>\<open>std::vector::resize\<close>: truncate, or extend with the given element.\<close>

definition vector_resize :: "nat \<Rightarrow> 'a \<Rightarrow> 'a list \<Rightarrow> 'a list" where
  "vector_resize n x xs = take n xs @ replicate (n - length xs) x"

lemma slice_Some_iff [bytes_simps]:
  "slice off n xs = Some ys \<longleftrightarrow> off + n \<le> length xs \<and> ys = take n (drop off xs)"
  by (auto simp: slice_def)

lemma overwrite_Some_iff [bytes_simps]:
  "overwrite off ys xs = Some zs \<longleftrightarrow>
     off + length ys \<le> length xs \<and> zs = take off xs @ ys @ drop (off + length ys) xs"
  by (auto simp: overwrite_def)

lemma length_slice: "slice off n xs = Some ys \<Longrightarrow> length ys = n"
  by (auto simp: slice_Some_iff min_def)

lemma length_overwrite: "overwrite off ys xs = Some zs \<Longrightarrow> length zs = length xs"
  by (simp add: overwrite_Some_iff)

lemma overwrite_slice: "slice off n xs = Some ys \<Longrightarrow> overwrite off ys xs = Some xs"
proof -
  assume "slice off n xs = Some ys"
  then have h: "off + n \<le> length xs" "ys = take n (drop off xs)" "length ys = n"
    by (auto simp: slice_Some_iff)
  have "drop (off + n) xs = drop n (drop off xs)" by (simp only: drop_drop add.commute)
  then have "take off xs @ ys @ drop (off + n) xs = xs"
    using h(2) by (simp only: append_take_drop_id)
  with h show ?thesis by (simp add: overwrite_Some_iff)
qed

lemma slice_overwrite: "overwrite off ys xs = Some zs \<Longrightarrow> slice off (length ys) zs = Some ys"
  by (simp add: slice_Some_iff overwrite_Some_iff)

lemma overwrite_overwrite:
  assumes "overwrite off ys xs = Some zs" and "length ws = length ys"
  shows "overwrite off ws zs = overwrite off ws xs"
  using assms by (auto simp: overwrite_def split: if_splits)

lemma overwrite_undo:
  assumes "slice off (length ws) xs = Some ys" and "overwrite off ws xs = Some zs"
  shows "overwrite off ys zs = Some xs"
proof -
  have "length ys = length ws" using assms(1) by (simp add: length_slice)
  then show ?thesis
    using overwrite_overwrite[OF assms(2)] overwrite_slice[OF assms(1)] by simp
qed

lemma nth_overwrite:
  assumes "overwrite off ys xs = Some zs" and "i < length xs"
  shows "zs ! i = (if off \<le> i \<and> i < off + length ys then ys ! (i - off) else xs ! i)"
proof -
  from assms have zs: "zs = take off xs @ ys @ drop (off + length ys) xs"
    and le: "off + length ys \<le> length xs" by (simp_all add: overwrite_Some_iff)
  consider "i < off" | "off \<le> i" "i < off + length ys" | "off + length ys \<le> i" by linarith
  then show ?thesis
  proof cases
    case 1
    with le show ?thesis by (simp add: zs nth_append)
  next
    case 2
    then have "i - off < length ys" by linarith
    with 2 le show ?thesis by (simp add: zs nth_append)
  next
    case 3
    then have "\<not> i < off" "\<not> i - off < length ys" by linarith+
    with 3 le assms(2) show ?thesis by (simp add: zs nth_append)
  qed
qed

lemma nth_slice: "slice off n xs = Some ys \<Longrightarrow> i < n \<Longrightarrow> ys ! i = xs ! (off + i)"
  by (auto simp: slice_Some_iff)

lemma overwrite_defined: "off + length ys \<le> length xs \<Longrightarrow> \<exists>zs. overwrite off ys xs = Some zs"
  by (simp add: overwrite_def)

lemma length_vector_resize [simp]: "length (vector_resize n x xs) = n"
  by (simp add: vector_resize_def)

lemma vector_resize_same [simp]: "vector_resize (length xs) x xs = xs"
  by (simp add: vector_resize_def)

lemma vector_resize_grow_shrink:
  "length xs \<le> n \<Longrightarrow> vector_resize (length xs) x (vector_resize n y xs) = xs"
  by (simp add: vector_resize_def)

lemma nth_vector_resize:
  "i < n \<Longrightarrow> vector_resize n x xs ! i = (if i < length xs then xs ! i else x)"
  by (simp add: vector_resize_def nth_append)

section \<open>Addresses\<close>

lemma unat_diff_le [word_simps]: "(a :: u64) \<le> b \<Longrightarrow> unat (b - a) = unat b - unat a"
  by (rule unat_sub)

lemma unat_add_no_wrap [word_simps]:
  "unat (a :: u64) + unat b < 2 ^ 64 \<Longrightarrow> unat (a + b) = unat a + unat b"
  by (rule unat_add_lem[THEN iffD1]) simp

lemma unat_of_nat_small [word_simps]: "n < 2 ^ 64 \<Longrightarrow> unat (of_nat n :: u64) = n"
  by (simp add: unsigned_of_nat take_bit_nat_eq_self)

lemma le_add_no_wrap:
  "unat (a :: u64) + unat b < 2 ^ 64 \<Longrightarrow> a \<le> a + b"
  by (simp add: word_le_nat_alt unat_add_no_wrap)

section \<open>Movement in both directions\<close>

text \<open>
  Components of the trace viewer's state are moved by operations that each have a backward
  counterpart. The contract: from a state that satisfies the invariant a successful and legal
  (\<open>ok\<close>) forward operation keeps the invariant, and its backward counterpart, applied to any
  state that looks like the result, returns to a state that looks like the original.
\<close>

locale reversible =
  fixes fwd :: "'op \<Rightarrow> 's \<Rightarrow> 's option"
    and bwd :: "'op \<Rightarrow> 's \<Rightarrow> 's option"
    and ok :: "'op \<Rightarrow> bool"
    and inv :: "'s \<Rightarrow> bool"
    and eqv :: "'s \<Rightarrow> 's \<Rightarrow> bool"
  assumes eqv_refl: "eqv s s"
    and eqv_trans: "eqv s t \<Longrightarrow> eqv t u \<Longrightarrow> eqv s u"
    and fwd_inv: "inv s \<Longrightarrow> ok x \<Longrightarrow> fwd x s = Some t \<Longrightarrow> inv t"
    and bwd_fwd: "inv s \<Longrightarrow> ok x \<Longrightarrow> fwd x s = Some t \<Longrightarrow> eqv t t' \<Longrightarrow>
                    \<exists>s'. bwd x t' = Some s' \<and> eqv s s'"

primrec run_ops :: "('op \<Rightarrow> 's \<Rightarrow> 's option) \<Rightarrow> 'op list \<Rightarrow> 's \<Rightarrow> 's option" where
  "run_ops f [] s = Some s"
| "run_ops f (x # xs) s = f x s \<bind> run_ops f xs"

lemma run_ops_append: "run_ops f (xs @ ys) s = run_ops f xs s \<bind> run_ops f ys"
  by (induction xs arbitrary: s) (auto split: bind_splits)

context reversible
begin

lemma run_inv: "inv s \<Longrightarrow> list_all ok xs \<Longrightarrow> run_ops fwd xs s = Some t \<Longrightarrow> inv t"
  by (induction xs arbitrary: s) (auto simp: bind_eq_Some_conv dest: fwd_inv)

lemma rewind_run:
  "inv s \<Longrightarrow> list_all ok xs \<Longrightarrow> run_ops fwd xs s = Some t \<Longrightarrow> eqv t t' \<Longrightarrow>
   \<exists>s'. run_ops bwd (rev xs) t' = Some s' \<and> eqv s s'"
proof (induction xs arbitrary: s)
  case Nil
  then show ?case by simp
next
  case (Cons x xs)
  from Cons.prems(2) have ok: "ok x" "list_all ok xs" by simp_all
  from Cons.prems(3) obtain u where u: "fwd x s = Some u" "run_ops fwd xs u = Some t"
    by (auto simp: bind_eq_Some_conv)
  from Cons.IH[OF fwd_inv[OF Cons.prems(1) ok(1) u(1)] ok(2) u(2) Cons.prems(4)]
  obtain u' where u': "run_ops bwd (rev xs) t' = Some u'" "eqv u u'" by blast
  from bwd_fwd[OF Cons.prems(1) ok(1) u(1) u'(2)] obtain s' where "bwd x u' = Some s'" "eqv s s'"
    by blast
  with u'(1) show ?case by (simp add: run_ops_append)
qed

lemma rewind_run_self:
  "inv s \<Longrightarrow> list_all ok xs \<Longrightarrow> run_ops fwd xs s = Some t \<Longrightarrow>
   \<exists>s'. run_ops bwd (rev xs) t = Some s' \<and> eqv s s'"
  by (rule rewind_run[OF _ _ _ eqv_refl])

end

end
