(* ===== verification/Interval.thy ===== *)
theory Interval
  imports Prelude
begin

text \<open>
  \<open>seec::Interval\<close> at \<open>uint64_t\<close> and \<open>seec::MemoryArea\<close>
  (\<open>include/seec/DSA/Interval.hpp\<close>, \<open>MemoryArea.hpp\<close>): half-open ranges of 64-bit addresses.
  The end is start plus length in machine arithmetic, so it wraps as the source's does.
  \<open>MemoryArea\<close> derives from \<open>Interval\<close>; the record extends the record of intervals.
  The abstract view of an interval is the set of addresses it covers.
\<close>

section \<open>Interval\<close>

record interval =
  iv_Start :: u64
  iv_End :: u64

definition withStartEnd :: "u64 \<Rightarrow> u64 \<Rightarrow> interval option" where
  "withStartEnd s e = do { require (s \<le> e); Some \<lparr>iv_Start = s, iv_End = e\<rparr> }"

definition withStartLength :: "u64 \<Rightarrow> u64 \<Rightarrow> interval" where
  "withStartLength s n = \<lparr>iv_Start = s, iv_End = s + n\<rparr>"

definition setStart :: "u64 \<Rightarrow> 'a interval_scheme \<Rightarrow> 'a interval_scheme option" where
  "setStart v i = do { require (v \<le> iv_End i); Some (i\<lparr>iv_Start := v\<rparr>) }"

definition setEnd :: "u64 \<Rightarrow> 'a interval_scheme \<Rightarrow> 'a interval_scheme option" where
  "setEnd v i = do { require (iv_Start i \<le> v); Some (i\<lparr>iv_End := v\<rparr>) }"

definition setStartEnd :: "u64 \<Rightarrow> u64 \<Rightarrow> 'a interval_scheme \<Rightarrow> 'a interval_scheme option" where
  "setStartEnd s e i = do { require (s \<le> e); Some (i\<lparr>iv_Start := s, iv_End := e\<rparr>) }"

definition withStart :: "u64 \<Rightarrow> 'a interval_scheme \<Rightarrow> interval option" where
  "withStart v i = do { require (v \<le> iv_End i); withStartEnd v (iv_End i) }"

definition withEnd :: "u64 \<Rightarrow> 'a interval_scheme \<Rightarrow> interval option" where
  "withEnd v i = do { require (iv_Start i \<le> v); withStartEnd (iv_Start i) v }"

definition interval_length :: "'a interval_scheme \<Rightarrow> u64" where
  "interval_length i = iv_End i - iv_Start i"

definition interval_last :: "'a interval_scheme \<Rightarrow> u64" where
  "interval_last i = (if iv_Start i \<noteq> iv_End i then iv_End i - 1 else iv_End i)"

definition contains_value :: "'a interval_scheme \<Rightarrow> u64 \<Rightarrow> bool" where
  "contains_value i v \<longleftrightarrow> iv_Start i \<le> v \<and> v < iv_End i"

definition contains_interval :: "'a interval_scheme \<Rightarrow> 'b interval_scheme \<Rightarrow> bool" where
  "contains_interval i j \<longleftrightarrow> iv_Start i \<le> iv_Start j \<and> iv_End j \<le> iv_End i"

definition intersects :: "'a interval_scheme \<Rightarrow> 'b interval_scheme \<Rightarrow> bool" where
  "intersects i j \<longleftrightarrow> iv_Start i < iv_End j \<and> iv_Start j < iv_End i"

definition intersection :: "'a interval_scheme \<Rightarrow> 'b interval_scheme \<Rightarrow> interval option" where
  "intersection i j =
     (if \<not> intersects i j then withStartEnd (iv_Start i) (iv_Start i)
      else let s = max (iv_Start i) (iv_Start j); e = min (iv_End i) (iv_End j)
           in withStartEnd s e)"

definition interval_eq :: "'a interval_scheme \<Rightarrow> 'b interval_scheme \<Rightarrow> bool" where
  "interval_eq i j \<longleftrightarrow> iv_Start i = iv_Start j \<and> iv_End i = iv_End j"

definition interval_neq :: "'a interval_scheme \<Rightarrow> 'b interval_scheme \<Rightarrow> bool" where
  "interval_neq i j \<longleftrightarrow> iv_Start i \<noteq> iv_Start j \<or> iv_End i \<noteq> iv_End j"

section \<open>MemoryArea\<close>

datatype MemoryPermission = NoAccess | ReadOnly | WriteOnly | ReadWrite

record MemoryArea = interval +
  area_Access :: MemoryPermission

definition area_with_access :: "u64 \<Rightarrow> u64 \<Rightarrow> MemoryPermission \<Rightarrow> MemoryArea" where
  "area_with_access a n p = interval.extend (withStartLength a n) \<lparr>area_Access = p\<rparr>"

definition area :: "u64 \<Rightarrow> u64 \<Rightarrow> MemoryArea" where
  "area a n = area_with_access a n ReadWrite"

definition area_lastAddress :: "MemoryArea \<Rightarrow> u64" where
  "area_lastAddress m = interval_last m"

definition area_withLength :: "u64 \<Rightarrow> MemoryArea \<Rightarrow> MemoryArea" where
  "area_withLength n m = area_with_access (iv_Start m) n (area_Access m)"

definition area_eq :: "MemoryArea \<Rightarrow> MemoryArea \<Rightarrow> bool" where
  "area_eq m n = interval_eq m n"

text \<open>\<open>MemoryArea::operator!=\<close> is written with \<open>Interval::operator==\<close> in the source.\<close>

definition area_neq :: "MemoryArea \<Rightarrow> MemoryArea \<Rightarrow> bool" where
  "area_neq m n = interval_eq m n"

section \<open>Laws\<close>

definition bytes_of :: "'a interval_scheme \<Rightarrow> u64 set" where
  "bytes_of i = {a. iv_Start i \<le> a \<and> a < iv_End i}"

definition interval_ok :: "'a interval_scheme \<Rightarrow> bool" where
  "interval_ok i \<longleftrightarrow> iv_Start i \<le> iv_End i"

lemma area_sel [simp]:
  "iv_Start (area a n) = a" "iv_End (area a n) = a + n" "area_Access (area a n) = ReadWrite"
  by (simp_all add: area_def area_with_access_def withStartLength_def interval.defs)

lemma area_length [simp]: "interval_length (area a n) = n"
  by (simp add: interval_length_def)

lemma area_contains_self [simp]: "contains_interval (area a n) (area a n)"
  by (simp add: contains_interval_def)

lemma area_inject [simp]: "area a n = area b m \<longleftrightarrow> a = b \<and> n = m"
  by (metis area_sel(1) area_length)

lemma contains_value_bytes: "contains_value i v \<longleftrightarrow> v \<in> bytes_of i"
  by (simp add: contains_value_def bytes_of_def)

lemma bytes_of_area:
  "unat a + unat n < 2 ^ 64 \<Longrightarrow> v \<in> bytes_of (area a n) \<longleftrightarrow>
     unat a \<le> unat v \<and> unat v < unat a + unat n"
  by (simp add: bytes_of_def word_le_nat_alt word_less_nat_alt unat_add_no_wrap)

lemma interval_ok_area: "unat a + unat n < 2 ^ 64 \<Longrightarrow> interval_ok (area a n)"
  by (simp add: interval_ok_def le_add_no_wrap)

lemma unat_interval_length:
  "interval_ok i \<Longrightarrow> unat (interval_length i) = unat (iv_End i) - unat (iv_Start i)"
  by (simp add: interval_ok_def interval_length_def unat_diff_le)

text \<open>
  The set semantics: containment of a non-empty interval is inclusion
  of its addresses, and the intersection covers exactly the common addresses.
\<close>

lemma contains_interval_subset:
  assumes "iv_Start j < iv_End j"
  shows "contains_interval i j \<longleftrightarrow> bytes_of j \<subseteq> bytes_of i"
proof
  assume "contains_interval i j"
  then show "bytes_of j \<subseteq> bytes_of i"
    by (auto simp: contains_interval_def bytes_of_def)
next
  assume sub: "bytes_of j \<subseteq> bytes_of i"
  from assms have "iv_Start j \<in> bytes_of j" by (simp add: bytes_of_def)
  with sub have s: "iv_Start i \<le> iv_Start j" by (auto simp: bytes_of_def)
  have last: "iv_End j - 1 \<in> bytes_of j"
    using assms by (simp add: bytes_of_def word_le_nat_alt word_less_nat_alt unat_sub_if')
  with sub have "iv_End j - 1 < iv_End i" by (auto simp: bytes_of_def)
  then have "iv_End j \<le> iv_End i" using assms by unat_arith
  with s show "contains_interval i j" by (simp add: contains_interval_def)
qed

lemma intersects_iff:
  assumes "iv_Start i < iv_End i" and "iv_Start j < iv_End j"
  shows "intersects i j \<longleftrightarrow> bytes_of i \<inter> bytes_of j \<noteq> {}"
proof
  assume "intersects i j"
  then have "max (iv_Start i) (iv_Start j) \<in> bytes_of i \<inter> bytes_of j"
    using assms by (auto simp: intersects_def bytes_of_def max_def)
  then show "bytes_of i \<inter> bytes_of j \<noteq> {}" by blast
qed (auto simp: intersects_def bytes_of_def)

lemma intersection_bytes:
  assumes "interval_ok i" and "interval_ok j"
  shows "\<exists>k. intersection i j = Some k \<and> bytes_of k = bytes_of i \<inter> bytes_of j \<and> interval_ok k"
proof (cases "intersects i j")
  case False
  then have "bytes_of i \<inter> bytes_of j = {}"
    by (auto simp: intersects_def bytes_of_def)
  with False show ?thesis
    by (auto simp: intersection_def withStartEnd_def interval_ok_def bytes_of_def)
next
  case True
  with assms have "max (iv_Start i) (iv_Start j) \<le> min (iv_End i) (iv_End j)"
    by (auto simp: intersects_def interval_ok_def)
  with True show ?thesis
    by (auto simp: intersection_def withStartEnd_def interval_ok_def bytes_of_def Let_def)
qed

lemma card_bytes_of:
  assumes "interval_ok i"
  shows "card (bytes_of i) = unat (interval_length i)"
proof -
  have "unat ` bytes_of i = {unat (iv_Start i)..<unat (iv_End i)}"
  proof (intro equalityI subsetI)
    fix n assume "n \<in> {unat (iv_Start i)..<unat (iv_End i)}"
    then have "n < 2 ^ 64" using unsigned_less[where ?'a = nat, of "iv_End i"] by simp
    then have "unat (of_nat n :: u64) = n" by (simp add: of_nat_inverse)
    with \<open>n \<in> _\<close> have "of_nat n \<in> bytes_of i" "n = unat (of_nat n :: u64)"
      by (simp_all add: bytes_of_def word_le_nat_alt word_less_nat_alt)
    then show "n \<in> unat ` bytes_of i" by blast
  qed (auto simp: bytes_of_def word_le_nat_alt word_less_nat_alt)
  then have "card (unat ` bytes_of i) = unat (iv_End i) - unat (iv_Start i)" by simp
  moreover have "inj_on unat (bytes_of i)" by (auto simp: inj_on_def intro: unsigned_word_eqI)
  ultimately show ?thesis using unat_interval_length[OF assms] by (simp add: card_image)
qed

lemma area_neq_is_eq: "area_neq m n \<longleftrightarrow> area_eq m n"
  by (simp add: area_neq_def area_eq_def)

lemma withStart_Some_iff:
  "withStart v i = Some j \<longleftrightarrow> v \<le> iv_End i \<and> j = \<lparr>iv_Start = v, iv_End = iv_End i\<rparr>"
  by (auto simp: withStart_def withStartEnd_def)

text \<open>
  Inside an area that does not wrap, the byte offset of a contained area and its end are the
  natural-number differences; this is what turns \<open>Data.begin() + Offset\<close> into an index.
\<close>

lemma contained_offset:
  assumes "contains_interval (area a n) i" and "interval_ok i" and "unat a + unat n < 2 ^ 64"
  shows "unat (iv_Start i - a) + unat (interval_length i) \<le> unat n"
proof -
  from assms(1) have s: "a \<le> iv_Start i" and e: "iv_End i \<le> a + n"
    by (simp_all add: contains_interval_def)
  have "unat (iv_Start i - a) = unat (iv_Start i) - unat a" using s by (rule unat_diff_le)
  moreover have "unat (interval_length i) = unat (iv_End i) - unat (iv_Start i)"
    using assms(2) by (rule unat_interval_length)
  moreover have "unat (iv_End i) \<le> unat a + unat n"
    using e assms(3) by (simp add: word_le_nat_alt unat_add_no_wrap)
  moreover have "unat a \<le> unat (iv_Start i)" "unat (iv_Start i) \<le> unat (iv_End i)"
    using s assms(2) by (simp_all add: word_le_nat_alt interval_ok_def)
  ultimately show ?thesis by linarith
qed

end
