(* ===== verification/MemoryAllocation.thy ===== *)
theory MemoryAllocation
  imports Interval
begin

text \<open>
  \<open>seec::trace::MemoryAllocation\<close> (\<open>include/seec/Trace/MemoryState.hpp\<close>,
  \<open>lib/Trace/MemoryState.cpp\<close>): one recreated allocation of the traced process, its bytes,
  their initialisation masks and the stacks of saved areas that let a write be rewound.
  The stacks grow at the end, as the source's vectors do. A failed assertion, or an access
  outside a vector, is \<open>None\<close>. The main fact is \<open>rewind_after_clear\<close>: whatever is written
  into an area after it was cleared, \<open>rewindArea\<close> restores the allocation up to the values of
  bytes that are not initialised, which the source does not save.
\<close>

section \<open>State\<close>

datatype EPreviousAreaType = Uninitialized | Partial | Complete

record MemoryAllocation =
  ma_Address :: u64
  ma_Size :: u64
  ma_Data :: "byte list"
  ma_Init :: "byte list"
  ma_PreviousType :: "EPreviousAreaType list"
  ma_PreviousData :: "byte list"
  ma_PreviousInit :: "byte list"

record MappedMemoryBlock =
  block_Address :: u64
  block_Data :: "byte list"

definition new_MemoryAllocation :: "u64 \<Rightarrow> u64 \<Rightarrow> MemoryAllocation" where
  "new_MemoryAllocation a n =
     \<lparr>ma_Address = a, ma_Size = n,
      ma_Data = replicate (unat n) 0, ma_Init = replicate (unat n) 0,
      ma_PreviousType = [], ma_PreviousData = [], ma_PreviousInit = []\<rparr>"

definition block_area :: "MappedMemoryBlock \<Rightarrow> MemoryArea" where
  "block_area b = area (block_Address b) (of_nat (length (block_Data b)))"

abbreviation ma_area :: "MemoryAllocation \<Rightarrow> MemoryArea" where
  "ma_area a \<equiv> area (ma_Address a) (ma_Size a)"

text \<open>The offset and length of an area inside an allocation.\<close>

abbreviation area_off :: "MemoryAllocation \<Rightarrow> MemoryArea \<Rightarrow> nat" where
  "area_off a r \<equiv> unat (iv_Start r - ma_Address a)"

abbreviation area_len :: "MemoryArea \<Rightarrow> nat" where
  "area_len r \<equiv> unat (interval_length r)"

section \<open>Queries\<close>

definition getAreaData :: "MemoryArea \<Rightarrow> MemoryAllocation \<Rightarrow> byte list option" where
  "getAreaData r a = do {
     require (contains_interval (ma_area a) r);
     slice (area_off a r) (area_len r) (ma_Data a)
   }"

definition getAreaInitialization :: "MemoryArea \<Rightarrow> MemoryAllocation \<Rightarrow> byte list option" where
  "getAreaInitialization r a = do {
     require (contains_interval (ma_area a) r);
     slice (area_off a r) (area_len r) (ma_Init a)
   }"

definition ma_isCompletelyInitialized :: "MemoryAllocation \<Rightarrow> bool" where
  "ma_isCompletelyInitialized a =
     (if ma_Init a = [] then False else list_all (\<lambda>b. b = 255) (ma_Init a))"

definition ma_isPartiallyInitialized :: "MemoryAllocation \<Rightarrow> bool" where
  "ma_isPartiallyInitialized a =
     (if ma_Init a = [] then False else list_ex (\<lambda>b. b \<noteq> 0) (ma_Init a))"

definition ma_isUninitialized :: "MemoryAllocation \<Rightarrow> bool" where
  "ma_isUninitialized a = list_all (\<lambda>b. b = 0) (ma_Init a)"

section \<open>Mutators\<close>

definition saved_type :: "byte list \<Rightarrow> EPreviousAreaType" where
  "saved_type init =
     (if list_all (\<lambda>c. c = 0) init then Uninitialized
      else if list_all (\<lambda>c. c = 255) init then Complete
      else Partial)"

definition clearArea :: "MemoryArea \<Rightarrow> MemoryAllocation \<Rightarrow> MemoryAllocation option" where
  "clearArea r a = do {
     require (contains_interval (ma_area a) r);
     require (interval_length r \<noteq> 0);
     let off = area_off a r;
     let n = area_len r;
     init \<leftarrow> slice off n (ma_Init a);
     let t = saved_type init;
     let a1 = a\<lparr>ma_PreviousType := ma_PreviousType a @ [t]\<rparr>;
     let a2 = (if t = Partial
               then a1\<lparr>ma_PreviousInit := ma_PreviousInit a1 @ init\<rparr> else a1);
     if t \<noteq> Uninitialized then do {
       data \<leftarrow> slice off n (ma_Data a2);
       init' \<leftarrow> overwrite off (replicate n 0) (ma_Init a2);
       Some (a2\<lparr>ma_PreviousData := ma_PreviousData a2 @ data, ma_Init := init'\<rparr>)
     } else Some a2
   }"

definition addBlock :: "MappedMemoryBlock \<Rightarrow> MemoryAllocation \<Rightarrow> MemoryAllocation option" where
  "addBlock b a = do {
     a1 \<leftarrow> clearArea (block_area b) a;
     let off = unat (block_Address b - ma_Address a1);
     data \<leftarrow> overwrite off (block_Data b) (ma_Data a1);
     init \<leftarrow> overwrite off (replicate (length (block_Data b)) 255) (ma_Init a1);
     Some (a1\<lparr>ma_Data := data, ma_Init := init\<rparr>)
   }"

text \<open>
  The arguments of \<open>addArea\<close> are views (\<open>llvm::ArrayRef\<close>), not copies. A view into the
  allocation's own vectors is read after \<open>clearArea\<close> has run, and \<open>memcpy\<close> between
  overlapping ranges is undefined.
\<close>

datatype array_view = OwnView nat nat | Bytes "byte list" "byte list"

primrec view_size :: "array_view \<Rightarrow> nat" where
  "view_size (OwnView off n) = n"
| "view_size (Bytes data init) = length data"

definition read_view :: "array_view \<Rightarrow> nat \<Rightarrow> MemoryAllocation \<Rightarrow> (byte list \<times> byte list) option" where
  "read_view v dst a = (case v of
     OwnView src n \<Rightarrow> do {
       require (src + n \<le> dst \<or> dst + n \<le> src);
       data \<leftarrow> slice src n (ma_Data a);
       init \<leftarrow> slice src n (ma_Init a);
       Some (data, init)
     }
   | Bytes data init \<Rightarrow> do { require (length data = length init); Some (data, init) })"

definition addArea :: "u64 \<Rightarrow> array_view \<Rightarrow> MemoryAllocation \<Rightarrow> MemoryAllocation option" where
  "addArea at v a = do {
     a1 \<leftarrow> clearArea (area at (of_nat (view_size v))) a;
     let off = unat (at - ma_Address a1);
     (d, i) \<leftarrow> read_view v off a1;
     data \<leftarrow> overwrite off d (ma_Data a1);
     init \<leftarrow> overwrite off i (ma_Init a1);
     Some (a1\<lparr>ma_Data := data, ma_Init := init\<rparr>)
   }"

definition rewindArea :: "MemoryArea \<Rightarrow> MemoryAllocation \<Rightarrow> MemoryAllocation option" where
  "rewindArea r a = do {
     require (contains_interval (ma_area a) r);
     require (interval_length r \<noteq> 0);
     let off = area_off a r;
     let n = area_len r;
     require (ma_PreviousType a \<noteq> []);
     let t = last (ma_PreviousType a);
     let a1 = a\<lparr>ma_PreviousType := butlast (ma_PreviousType a)\<rparr>;
     a2 \<leftarrow> (case t of
       Uninitialized \<Rightarrow> do {
         init \<leftarrow> overwrite off (replicate n 0) (ma_Init a1);
         Some (a1\<lparr>ma_Init := init\<rparr>)
       }
     | Partial \<Rightarrow> do {
         require (n \<le> length (ma_PreviousInit a1));
         let keep = length (ma_PreviousInit a1) - n;
         init \<leftarrow> overwrite off (drop keep (ma_PreviousInit a1)) (ma_Init a1);
         Some (a1\<lparr>ma_Init := init, ma_PreviousInit := take keep (ma_PreviousInit a1)\<rparr>)
       }
     | Complete \<Rightarrow> do {
         init \<leftarrow> overwrite off (replicate n 255) (ma_Init a1);
         Some (a1\<lparr>ma_Init := init\<rparr>)
       });
     if t \<noteq> Uninitialized then do {
       require (n \<le> length (ma_PreviousData a2));
       let keep = length (ma_PreviousData a2) - n;
       data \<leftarrow> overwrite off (drop keep (ma_PreviousData a2)) (ma_Data a2);
       Some (a2\<lparr>ma_Data := data, ma_PreviousData := take keep (ma_PreviousData a2)\<rparr>)
     } else Some a2
   }"

definition ma_resize :: "u64 \<Rightarrow> MemoryAllocation \<Rightarrow> MemoryAllocation" where
  "ma_resize n a = a\<lparr>ma_Data := vector_resize (unat n) 0 (ma_Data a),
                     ma_Init := vector_resize (unat n) 0 (ma_Init a),
                     ma_Size := n\<rparr>"

section \<open>Well-formedness and observation\<close>

definition alloc_wf :: "MemoryAllocation \<Rightarrow> bool" where
  "alloc_wf a \<longleftrightarrow> length (ma_Data a) = unat (ma_Size a) \<and> length (ma_Init a) = unat (ma_Size a)"

text \<open>Two byte vectors look the same where the masks mark any bit as initialised.\<close>

definition same_bytes :: "byte list \<Rightarrow> byte list \<Rightarrow> byte list \<Rightarrow> bool" where
  "same_bytes init d e \<longleftrightarrow>
     length d = length e \<and> (\<forall>i < length init. init ! i \<noteq> 0 \<longrightarrow> d ! i = e ! i)"

definition alloc_eqv :: "MemoryAllocation \<Rightarrow> MemoryAllocation \<Rightarrow> bool" where
  "alloc_eqv a b \<longleftrightarrow>
     ma_Address b = ma_Address a \<and> ma_Size b = ma_Size a \<and> ma_Init b = ma_Init a \<and>
     ma_PreviousType b = ma_PreviousType a \<and> ma_PreviousData b = ma_PreviousData a \<and>
     ma_PreviousInit b = ma_PreviousInit a \<and> same_bytes (ma_Init a) (ma_Data a) (ma_Data b)"

lemma same_bytes_refl [simp]: "same_bytes i d d"
  by (simp add: same_bytes_def)

lemma same_bytes_trans: "same_bytes i d e \<Longrightarrow> same_bytes i e f \<Longrightarrow> same_bytes i d f"
  by (simp add: same_bytes_def)

lemma same_bytes_nth: "same_bytes i d e \<Longrightarrow> k < length i \<Longrightarrow> i ! k \<noteq> 0 \<Longrightarrow> d ! k = e ! k"
  by (simp add: same_bytes_def)

lemma alloc_eqv_refl [simp]: "alloc_eqv a a"
  by (simp add: alloc_eqv_def)

lemma alloc_eqv_trans: "alloc_eqv a b \<Longrightarrow> alloc_eqv b c \<Longrightarrow> alloc_eqv a c"
  by (auto simp: alloc_eqv_def intro: same_bytes_trans)

lemma alloc_eqv_wf: "alloc_eqv a b \<Longrightarrow> alloc_wf b \<longleftrightarrow> alloc_wf a"
  by (simp add: alloc_eqv_def alloc_wf_def same_bytes_def)

lemma new_MemoryAllocation_wf [simp]: "alloc_wf (new_MemoryAllocation a n)"
  by (simp add: new_MemoryAllocation_def alloc_wf_def)

section \<open>Clearing and rewinding\<close>

text \<open>What \<open>clearArea\<close> leaves behind, in every case.\<close>

lemma clearArea_SomeD:
  assumes "clearArea r a = Some c"
  defines "init \<equiv> take (area_len r) (drop (area_off a r) (ma_Init a))"
    and "data \<equiv> take (area_len r) (drop (area_off a r) (ma_Data a))"
  shows "contains_interval (ma_area a) r" and "interval_length r \<noteq> 0"
    and "slice (area_off a r) (area_len r) (ma_Init a) = Some init"
    and "ma_Address c = ma_Address a" and "ma_Size c = ma_Size a" and "ma_Data c = ma_Data a"
    and "ma_PreviousType c = ma_PreviousType a @ [saved_type init]"
    and "ma_PreviousInit c = ma_PreviousInit a @ (if saved_type init = Partial then init else [])"
    and "ma_PreviousData c = ma_PreviousData a @ (if saved_type init = Uninitialized then [] else data)"
    and "saved_type init \<noteq> Uninitialized \<Longrightarrow> slice (area_off a r) (area_len r) (ma_Data a) = Some data"
    and "overwrite (area_off a r) (replicate (area_len r) 0) (ma_Init a) = Some (ma_Init c)"
proof -
  let ?off = "area_off a r" and ?n = "area_len r"
  from assms(1) show c: "contains_interval (ma_area a) r" and l: "interval_length r \<noteq> 0"
    by (simp_all add: clearArea_def)
  from assms(1) show s: "slice ?off ?n (ma_Init a) = Some init"
    by (auto simp: clearArea_def Let_def bind_eq_Some_conv init_def bytes_simps)
  note u = assms(1)[unfolded clearArea_def Let_def s]
  show "ma_Address c = ma_Address a" "ma_Size c = ma_Size a" "ma_Data c = ma_Data a"
    "ma_PreviousType c = ma_PreviousType a @ [saved_type init]"
    using u by (auto simp: bind_eq_Some_conv split: if_splits)
  show "ma_PreviousInit c = ma_PreviousInit a @ (if saved_type init = Partial then init else [])"
    using u by (auto simp: bind_eq_Some_conv split: if_splits)
  show "ma_PreviousData c = ma_PreviousData a @ (if saved_type init = Uninitialized then [] else data)"
    using u by (auto simp: bind_eq_Some_conv data_def bytes_simps split: if_splits)
  show "saved_type init \<noteq> Uninitialized \<Longrightarrow> slice ?off ?n (ma_Data a) = Some data"
    using u by (auto simp: bind_eq_Some_conv data_def bytes_simps split: if_splits)
  show "overwrite ?off (replicate ?n 0) (ma_Init a) = Some (ma_Init c)"
  proof (cases "saved_type init = Uninitialized")
    case True
    then have "list_all (\<lambda>c. c = 0) init" by (auto simp: saved_type_def split: if_splits)
    then have "init = replicate ?n 0"
      using length_slice[OF s] by (intro replicate_eqI) (auto simp: list_all_iff)
    moreover have "ma_Init c = ma_Init a"
      using u True by (auto split: if_splits)
    ultimately show ?thesis using overwrite_slice[OF s] by simp
  next
    case False
    then show ?thesis using u by (auto simp: bind_eq_Some_conv split: if_splits)
  qed
qed

lemma clearArea_wf: "clearArea r a = Some c \<Longrightarrow> alloc_wf a \<Longrightarrow> alloc_wf c"
  using clearArea_SomeD(5,6,11) by (metis alloc_wf_def length_overwrite)

text \<open>The type saved with an area tells its masks unless it is \<open>Partial\<close>.\<close>

lemma saved_type_Uninitialized:
  "saved_type init = Uninitialized \<Longrightarrow> i < length init \<Longrightarrow> init ! i = 0"
  by (auto simp: saved_type_def list_all_length split: if_splits)

lemma saved_type_Complete: "saved_type init = Complete \<Longrightarrow> i < length init \<Longrightarrow> init ! i = 255"
  by (auto simp: saved_type_def list_all_length split: if_splits)

lemma overwrite_restores:
  assumes len: "length ys = length xs" and bnd: "off + n \<le> length xs"
    and ws: "length ws = n" "\<forall>i < n. ws ! i = xs ! (off + i)"
    and out: "\<forall>i < length xs. i < off \<or> off + n \<le> i \<longrightarrow> ys ! i = xs ! i"
  shows "overwrite off ws ys = Some xs"
proof -
  obtain zs where zs: "overwrite off ws ys = Some zs"
    using overwrite_defined[of off ws ys] len bnd ws(1) by auto
  have "zs = xs"
  proof (rule nth_equalityI)
    show "length zs = length xs" using length_overwrite[OF zs] len by simp
    fix i assume "i < length zs"
    then have i: "i < length ys" using length_overwrite[OF zs] by simp
    have "ws ! (i - off) = xs ! i" if "off \<le> i" "i < off + n"
      using ws(2) that by (metis add_diff_inverse_nat nat_add_left_cancel_less not_less)
    then show "zs ! i = xs ! i"
      using nth_overwrite[OF zs i] out i len ws(1) by auto
  qed
  with zs show ?thesis by simp
qed

lemma rewind_after_clear:
  assumes wf: "alloc_wf a" and cl: "clearArea r a = Some c"
    and b: "ma_Address b = ma_Address c" "ma_Size b = ma_Size c"
      "ma_PreviousType b = ma_PreviousType c" "ma_PreviousData b = ma_PreviousData c"
      "ma_PreviousInit b = ma_PreviousInit c"
    and lenI: "length (ma_Init b) = length (ma_Init a)"
    and lenD: "length (ma_Data b) = length (ma_Data a)"
    and outI: "\<forall>i < length (ma_Init a). i < area_off a r \<or> area_off a r + area_len r \<le> i \<longrightarrow>
                 ma_Init b ! i = ma_Init a ! i"
    and outD: "\<forall>i < length (ma_Init a). i < area_off a r \<or> area_off a r + area_len r \<le> i \<longrightarrow>
                 ma_Init a ! i \<noteq> 0 \<longrightarrow> ma_Data a ! i = ma_Data b ! i"
  shows "\<exists>a'. rewindArea r b = Some a' \<and> alloc_eqv a a'"
proof -
  let ?off = "area_off a r" and ?n = "area_len r"
  define init where "init = take ?n (drop ?off (ma_Init a))"
  define data where "data = take ?n (drop ?off (ma_Data a))"
  note C = clearArea_SomeD[OF cl, folded init_def data_def]
  have bnd: "?off + ?n \<le> length (ma_Init a)" using C(3) by (simp add: bytes_simps)
  have bndD: "?off + ?n \<le> length (ma_Data a)" using bnd wf by (simp add: alloc_wf_def)
  have leni: "length init = ?n" "length data = ?n"
    using C(3) length_slice bndD by (auto simp: data_def)
  have nthi: "\<forall>i < ?n. init ! i = ma_Init a ! (?off + i)" using bnd by (simp add: init_def)
  have nthd: "\<forall>i < ?n. data ! i = ma_Data a ! (?off + i)" using bndD by (simp add: data_def)
  have head: "contains_interval (ma_area b) r" "area_off b r = ?off"
    using C(1) b C(4,5) by simp_all
  have restoreI: "overwrite ?off ws (ma_Init b) = Some (ma_Init a)"
    if "length ws = ?n" "\<forall>i < ?n. ws ! i = init ! i" for ws
    using overwrite_restores[OF lenI bnd that(1)] that(2) nthi outI by simp
  show ?thesis
  proof (cases "saved_type init = Uninitialized")
    case True
    have "overwrite ?off (replicate ?n 0) (ma_Init b) = Some (ma_Init a)"
      using saved_type_Uninitialized[OF True] leni by (intro restoreI) auto
    moreover have "ma_Data a ! i = ma_Data b ! i" if "i < length (ma_Init a)" "ma_Init a ! i \<noteq> 0" for i
    proof (cases "i < ?off \<or> ?off + ?n \<le> i")
      case inside: False
      then obtain j where j: "i = ?off + j" "j < ?n" by (metis le_Suc_ex nat_add_left_cancel_less not_less)
      then have "ma_Init a ! i = 0"
        using nthi saved_type_Uninitialized[OF True, of j] leni by simp
      with that show ?thesis by simp
    qed (use outD that in blast)
    ultimately show ?thesis
      using C(2,4,5,7,8,9) True head b lenD
      by (simp add: rewindArea_def Let_def alloc_eqv_def same_bytes_def)
  next
    case False
    have dat: "overwrite ?off data (ma_Data b) = Some d \<Longrightarrow> same_bytes (ma_Init a) (ma_Data a) d" for d
    proof -
      assume d: "overwrite ?off data (ma_Data b) = Some d"
      have "ma_Data a ! i = d ! i" if "i < length (ma_Init a)" "ma_Init a ! i \<noteq> 0" for i
      proof -
        have il: "i < length (ma_Data b)" using that(1) wf lenD by (simp add: alloc_wf_def)
        show ?thesis
        proof (cases "i < ?off \<or> ?off + ?n \<le> i")
          case True
          then show ?thesis using nth_overwrite[OF d il] outD that leni by auto
        next
          case inside: False
          then obtain j where j: "i = ?off + j" "j < ?n"
            by (metis le_Suc_ex nat_add_left_cancel_less not_less)
          then show ?thesis using nth_overwrite[OF d il] leni nthd by simp
        qed
      qed
      then show ?thesis using length_overwrite[OF d] lenD by (simp add: same_bytes_def)
    qed
    obtain d where d: "overwrite ?off data (ma_Data b) = Some d"
      using overwrite_defined[of ?off data "ma_Data b"] leni bndD lenD by auto
    show ?thesis
    proof (cases "saved_type init = Partial")
      case True
      have "overwrite ?off init (ma_Init b) = Some (ma_Init a)"
        using leni by (intro restoreI) auto
      with C(2,4,5,7,8,9) True head b d dat[OF d] leni show ?thesis
        by (simp add: rewindArea_def Let_def alloc_eqv_def)
    next
      case nP: False
      with False have comp: "saved_type init = Complete" by (cases "saved_type init") auto
      have "overwrite ?off (replicate ?n 255) (ma_Init b) = Some (ma_Init a)"
        using saved_type_Complete[OF comp] leni by (intro restoreI) auto
      with C(2,4,5,7,8,9) comp head b d dat[OF d] leni show ?thesis
        by (simp add: rewindArea_def Let_def alloc_eqv_def)
    qed
  qed
qed

section \<open>Every write is undone\<close>

text \<open>
  The shape shared by \<open>addBlock\<close> and \<open>addArea\<close>: clear an area, then write bytes and masks of
  the area's length at its offset.
\<close>

lemma rewind_after_write:
  assumes wf: "alloc_wf a" and cl: "clearArea r a = Some c"
    and d: "overwrite (area_off a r) ds (ma_Data c) = Some data"
    and i: "overwrite (area_off a r) ms (ma_Init c) = Some init"
    and len: "length ds = area_len r" "length ms = area_len r"
    and t: "alloc_eqv (c\<lparr>ma_Data := data, ma_Init := init\<rparr>) t"
  shows "\<exists>a'. rewindArea r t = Some a' \<and> alloc_eqv a a'"
proof (rule rewind_after_clear[OF wf cl])
  note C = clearArea_SomeD[OF cl]
  have l: "length (ma_Init c) = length (ma_Init a)" "length (ma_Data c) = length (ma_Data a)"
    using C(6) length_overwrite[OF C(11)] by simp_all
  have eq: "length (ma_Init a) = length (ma_Data a)" using wf by (simp add: alloc_wf_def)
  have nI: "init ! k = ma_Init a ! k"
    if "k < length (ma_Init a)" "k < area_off a r \<or> area_off a r + area_len r \<le> k" for k
    using nth_overwrite[OF i, of k] nth_overwrite[OF C(11), of k] that l len by auto
  show "\<forall>k < length (ma_Init a). k < area_off a r \<or> area_off a r + area_len r \<le> k \<longrightarrow>
          ma_Init t ! k = ma_Init a ! k"
    using nI t by (simp add: alloc_eqv_def)
  show "\<forall>k < length (ma_Init a). k < area_off a r \<or> area_off a r + area_len r \<le> k \<longrightarrow>
          ma_Init a ! k \<noteq> 0 \<longrightarrow> ma_Data a ! k = ma_Data t ! k"
  proof (intro allI impI)
    fix k assume k: "k < length (ma_Init a)" "ma_Init a ! k \<noteq> 0"
      and o: "k < area_off a r \<or> area_off a r + area_len r \<le> k"
    have "data ! k = ma_Data a ! k"
      using nth_overwrite[OF d, of k] k o l len eq C(6) by auto
    moreover have "data ! k = ma_Data t ! k"
      using t nI[OF k(1) o] k length_overwrite[OF i] l by (simp add: alloc_eqv_def same_bytes_def)
    ultimately show "ma_Data a ! k = ma_Data t ! k" by simp
  qed
qed (use t clearArea_SomeD(6)[OF cl] length_overwrite[OF d] length_overwrite[OF i]
      length_overwrite[OF clearArea_SomeD(11)[OF cl]] in \<open>simp_all add: alloc_eqv_def same_bytes_def\<close>)

lemma addBlock_SomeE:
  assumes "addBlock b a = Some t"
  obtains c data init where "clearArea (block_area b) a = Some c"
    and "overwrite (area_off a (block_area b)) (block_Data b) (ma_Data c) = Some data"
    and "overwrite (area_off a (block_area b)) (replicate (length (block_Data b)) 255) (ma_Init c) = Some init"
    and "t = c\<lparr>ma_Data := data, ma_Init := init\<rparr>"
proof -
  from assms obtain c where c: "clearArea (block_area b) a = Some c"
    by (auto simp: addBlock_def bind_eq_Some_conv)
  note C = clearArea_SomeD(4)[OF c]
  from assms c C show ?thesis
    by (auto simp: addBlock_def bind_eq_Some_conv block_area_def Let_def intro: that)
qed

lemma addArea_SomeE:
  assumes "addArea p v a = Some t"
  obtains c ds ms data init where "clearArea (area p (of_nat (view_size v))) a = Some c"
    and "read_view v (unat (p - ma_Address a)) c = Some (ds, ms)"
    and "overwrite (unat (p - ma_Address a)) ds (ma_Data c) = Some data"
    and "overwrite (unat (p - ma_Address a)) ms (ma_Init c) = Some init"
    and "t = c\<lparr>ma_Data := data, ma_Init := init\<rparr>"
proof -
  from assms obtain c where c: "clearArea (area p (of_nat (view_size v))) a = Some c"
    by (auto simp: addArea_def bind_eq_Some_conv)
  note C = clearArea_SomeD(4)[OF c]
  from assms c C show ?thesis
    by (auto simp: addArea_def bind_eq_Some_conv Let_def intro: that)
qed

lemma read_view_length:
  "read_view v p a = Some (ds, ms) \<Longrightarrow> length ds = view_size v \<and> length ms = view_size v"
  by (cases v) (auto simp: read_view_def bind_eq_Some_conv dest: length_slice)

lemma alloc_wf_bound: "alloc_wf a \<Longrightarrow> length (ma_Data a) < 2 ^ 64"
  using unsigned_less[of "ma_Size a"] by (simp add: alloc_wf_def)

lemma addBlock_wf: "addBlock b a = Some t \<Longrightarrow> alloc_wf a \<Longrightarrow> alloc_wf t"
  by (erule addBlock_SomeE) (auto simp: alloc_wf_def dest!: length_overwrite dest: clearArea_wf)

lemma addArea_wf: "addArea p v a = Some t \<Longrightarrow> alloc_wf a \<Longrightarrow> alloc_wf t"
  by (erule addArea_SomeE) (auto simp: alloc_wf_def dest!: length_overwrite dest: clearArea_wf)

text \<open>A successful write is no longer than the allocation, so its length fits in 64 bits.\<close>

lemma written_area_len:
  assumes "alloc_wf a" and "overwrite off ds (ma_Data a) = Some data"
  shows "area_len (area p (of_nat (length ds))) = length ds"
  using assms alloc_wf_bound[OF assms(1)] by (simp add: bytes_simps word_simps)

theorem addBlock_undone:
  assumes wf: "alloc_wf a" and add: "addBlock b a = Some t" and t: "alloc_eqv t t'"
  shows "\<exists>a'. rewindArea (block_area b) t' = Some a' \<and> alloc_eqv a a'"
proof -
  from add obtain c data init where c: "clearArea (block_area b) a = Some c"
    and d: "overwrite (area_off a (block_area b)) (block_Data b) (ma_Data c) = Some data"
    and i: "overwrite (area_off a (block_area b)) (replicate (length (block_Data b)) 255) (ma_Init c) = Some init"
    and te: "t = c\<lparr>ma_Data := data, ma_Init := init\<rparr>" by (rule addBlock_SomeE)
  have "length (block_Data b) = area_len (block_area b)"
    using written_area_len[OF clearArea_wf[OF c wf] d] by (simp add: block_area_def)
  then show ?thesis using rewind_after_write[OF wf c d i] t te by simp
qed

theorem addArea_undone:
  assumes wf: "alloc_wf a" and add: "addArea p v a = Some t" and t: "alloc_eqv t t'"
  shows "\<exists>a'. rewindArea (area p (of_nat (view_size v))) t' = Some a' \<and> alloc_eqv a a'"
proof -
  let ?r = "area p (of_nat (view_size v))"
  from add obtain c ds ms data init where c: "clearArea ?r a = Some c"
    and v: "read_view v (unat (p - ma_Address a)) c = Some (ds, ms)"
    and d: "overwrite (unat (p - ma_Address a)) ds (ma_Data c) = Some data"
    and i: "overwrite (unat (p - ma_Address a)) ms (ma_Init c) = Some init"
    and te: "t = c\<lparr>ma_Data := data, ma_Init := init\<rparr>" by (rule addArea_SomeE)
  have "area_len ?r = view_size v"
    using written_area_len[OF clearArea_wf[OF c wf] d] read_view_length[OF v] by simp
  then show ?thesis
    using rewind_after_write[OF wf c, of ds data ms init t'] d i t te read_view_length[OF v] by simp
qed

theorem clearArea_undone:
  assumes wf: "alloc_wf a" and c: "clearArea r a = Some c" and t: "alloc_eqv c t"
  shows "\<exists>a'. rewindArea r t = Some a' \<and> alloc_eqv a a'"
proof -
  let ?off = "area_off a r" and ?n = "area_len r"
  note C = clearArea_SomeD[OF c]
  have wfc: "alloc_wf c" by (rule clearArea_wf[OF c wf])
  obtain ds where ds: "slice ?off ?n (ma_Data c) = Some ds" "length ds = ?n"
    using C(3,6) wf by (auto simp: bytes_simps alloc_wf_def)
  have "slice ?off ?n (ma_Init c) = Some (replicate ?n 0)"
    using slice_overwrite[OF C(11)] by simp
  then have "overwrite ?off (replicate ?n 0) (ma_Init c) = Some (ma_Init c)"
    by (rule overwrite_slice)
  then show ?thesis
    using rewind_after_write[OF wf c overwrite_slice[OF ds(1)]] ds(2) t by simp
qed

section \<open>The effect of a write\<close>

text \<open>After \<open>addBlock\<close> the area holds the block's bytes, completely initialised.\<close>

theorem addBlock_effect:
  assumes wf: "alloc_wf a" and add: "addBlock b a = Some t"
  shows "getAreaData (block_area b) t = Some (block_Data b)"
    and "getAreaInitialization (block_area b) t = Some (replicate (length (block_Data b)) 255)"
proof -
  from add obtain c data init where c: "clearArea (block_area b) a = Some c"
    and d: "overwrite (area_off a (block_area b)) (block_Data b) (ma_Data c) = Some data"
    and i: "overwrite (area_off a (block_area b)) (replicate (length (block_Data b)) 255) (ma_Init c) = Some init"
    and te: "t = c\<lparr>ma_Data := data, ma_Init := init\<rparr>" by (rule addBlock_SomeE)
  have l: "area_len (block_area b) = length (block_Data b)"
    using written_area_len[OF clearArea_wf[OF c wf] d] by (simp add: block_area_def)
  note C = clearArea_SomeD(1,4,5)[OF c]
  show "getAreaData (block_area b) t = Some (block_Data b)"
    using slice_overwrite[OF d] C l by (simp add: getAreaData_def te)
  show "getAreaInitialization (block_area b) t = Some (replicate (length (block_Data b)) 255)"
    using slice_overwrite[OF i] C l by (simp add: getAreaInitialization_def te)
qed

text \<open>Shrinking or growing and then resizing back loses only what was cut off.\<close>

lemma ma_resize_wf [simp]: "alloc_wf (ma_resize n a)"
  by (simp add: ma_resize_def alloc_wf_def)

lemma ma_resize_back:
  "alloc_wf a \<Longrightarrow> unat (ma_Size a) \<le> unat n \<Longrightarrow> ma_resize (ma_Size a) (ma_resize n a) = a"
  using vector_resize_grow_shrink[of "ma_Data a" "unat n" 0 0]
    vector_resize_grow_shrink[of "ma_Init a" "unat n" 0 0]
  by (simp add: ma_resize_def alloc_wf_def)

end
