(* ===== verification/OrderedMap.thy ===== *)
theory OrderedMap
  imports Prelude
begin

text \<open>
  \<open>std::map\<close> as the source uses it: entries in increasing key order. The executable form is a
  strictly sorted association list. The locale \<open>ordered_map\<close> is the interface the components
  rely on (lookup laws, and the entry at or before a key, which is the idiom
  \<open>upper_bound\<close> followed by a decrement); it is interpreted on the association lists, so the
  facts proved from the laws alone are available as \<open>om.<name>\<close>.
\<close>

section \<open>The interface\<close>

locale ordered_map =
  fixes find :: "'m \<Rightarrow> 'k::linorder \<Rightarrow> 'v option"
    and insert :: "'k \<Rightarrow> 'v \<Rightarrow> 'm \<Rightarrow> 'm"
    and erase :: "'k \<Rightarrow> 'm \<Rightarrow> 'm"
    and before :: "'k \<Rightarrow> 'm \<Rightarrow> ('k \<times> 'v) option"
    and inv :: "'m \<Rightarrow> bool"
  assumes find_insert: "inv m \<Longrightarrow> find (insert k v m) = (find m)(k \<mapsto> v)"
    and find_erase: "inv m \<Longrightarrow> find (erase k m) = (find m)(k := None)"
    and inv_insert: "inv m \<Longrightarrow> inv (insert k v m)"
    and inv_erase: "inv m \<Longrightarrow> inv (erase k m)"
    and find_ext: "inv m \<Longrightarrow> inv n \<Longrightarrow> find m = find n \<Longrightarrow> m = n"
    and before_Some_iff: "inv m \<Longrightarrow> before k m = Some (a, v) \<longleftrightarrow>
           find m a = Some v \<and> a \<le> k \<and> (\<forall>b. b \<in> dom (find m) \<longrightarrow> b \<le> k \<longrightarrow> b \<le> a)"
    and before_None_iff: "inv m \<Longrightarrow> before k m = None \<longleftrightarrow> (\<forall>b \<in> dom (find m). k < b)"
begin

lemma erase_insert_fresh: "inv m \<Longrightarrow> find m k = None \<Longrightarrow> erase k (insert k v m) = m"
  by (rule find_ext) (auto simp: inv_insert inv_erase find_erase find_insert fun_eq_iff)

lemma insert_erase: "inv m \<Longrightarrow> find m k = Some v \<Longrightarrow> insert k v (erase k m) = m"
  by (rule find_ext) (auto simp: inv_insert inv_erase find_erase find_insert fun_eq_iff)

lemma insert_same: "inv m \<Longrightarrow> find m k = Some v \<Longrightarrow> insert k v m = m"
  by (rule find_ext) (auto simp: inv_insert find_insert fun_eq_iff)

lemma insert_insert: "inv m \<Longrightarrow> insert k v (insert k w m) = insert k v m"
  by (rule find_ext) (auto simp: inv_insert find_insert fun_eq_iff)

lemma insert_commute:
  "inv m \<Longrightarrow> k \<noteq> l \<Longrightarrow> insert k v (insert l w m) = insert l w (insert k v m)"
  by (rule find_ext) (auto simp: inv_insert find_insert fun_eq_iff)

lemma before_find: "inv m \<Longrightarrow> before k m = Some (a, v) \<Longrightarrow> find m a = Some v"
  by (simp add: before_Some_iff)

lemma before_le: "inv m \<Longrightarrow> before k m = Some (a, v) \<Longrightarrow> a \<le> k"
  by (simp add: before_Some_iff)

text \<open>Replacing the value of a present key does not change which entry is found.\<close>

lemma before_insert_present:
  assumes "inv m" and "find m a \<noteq> None"
  shows "before k (insert a w m) =
           (case before k m of None \<Rightarrow> None
            | Some (b, v) \<Rightarrow> Some (b, if b = a then w else v))"
proof (cases "before k m")
  case None
  then have "\<forall>b \<in> dom (find m). k < b" using assms by (simp add: before_None_iff)
  then have "\<forall>b \<in> dom (find (insert a w m)). k < b"
    using assms by (auto simp: find_insert)
  then have "before k (insert a w m) = None"
    using assms by (simp add: before_None_iff inv_insert)
  with None show ?thesis by simp
next
  case (Some bv)
  obtain b v where bv: "bv = (b, v)" by (cases bv)
  with Some assms have "find m b = Some v" "b \<le> k" "\<forall>c. c \<in> dom (find m) \<longrightarrow> c \<le> k \<longrightarrow> c \<le> b"
    by (auto simp: before_Some_iff)
  then have "before k (insert a w m) = Some (b, if b = a then w else v)"
    using assms by (auto simp: before_Some_iff inv_insert find_insert)
  with Some bv show ?thesis by simp
qed

lemma before_insert_hit:
  "inv m \<Longrightarrow> before k m = Some (a, v) \<Longrightarrow> before k (insert a w m) = Some (a, w)"
  by (simp add: before_insert_present before_find)

lemma before_self: "inv m \<Longrightarrow> find m k = Some v \<Longrightarrow> before k m = Some (k, v)"
  by (auto simp: before_Some_iff)

end

section \<open>Strictly sorted association lists\<close>

type_synonym ('k, 'v) omap = "('k \<times> 'v) list"

definition om_wf :: "('k::linorder, 'v) omap \<Rightarrow> bool" where
  "om_wf m = sorted_wrt (<) (map fst m)"

definition om_find :: "('k, 'v) omap \<Rightarrow> 'k \<Rightarrow> 'v option" where
  "om_find m k = map_of m k"

fun om_insert :: "'k::linorder \<Rightarrow> 'v \<Rightarrow> ('k, 'v) omap \<Rightarrow> ('k, 'v) omap" where
  "om_insert k v [] = [(k, v)]"
| "om_insert k v ((a, w) # m) =
     (if k < a then (k, v) # (a, w) # m
      else if k = a then (k, v) # m
      else (a, w) # om_insert k v m)"

definition om_erase :: "'k \<Rightarrow> ('k, 'v) omap \<Rightarrow> ('k, 'v) omap" where
  "om_erase k m = filter (\<lambda>e. fst e \<noteq> k) m"

fun om_before :: "'k::linorder \<Rightarrow> ('k, 'v) omap \<Rightarrow> ('k \<times> 'v) option" where
  "om_before k [] = None"
| "om_before k ((a, v) # m) =
     (if a \<le> k then (case om_before k m of None \<Rightarrow> Some (a, v) | Some e \<Rightarrow> Some e) else None)"

text \<open>The entries with a key in \<open>[lo, hi)\<close>, which is a pair of \<open>lower_bound\<close> calls.\<close>

definition om_range :: "'k::linorder \<Rightarrow> 'k \<Rightarrow> ('k, 'v) omap \<Rightarrow> ('k, 'v) omap" where
  "om_range lo hi m = filter (\<lambda>e. lo \<le> fst e \<and> fst e < hi) m"

lemma om_wf_Nil [simp]: "om_wf []"
  by (simp add: om_wf_def)

lemma om_wf_Cons: "om_wf ((a, v) # m) \<longleftrightarrow> (\<forall>k \<in> fst ` set m. a < k) \<and> om_wf m"
  by (auto simp: om_wf_def)

lemma om_find_Nil [simp]: "om_find [] k = None"
  by (simp add: om_find_def)

lemma om_find_Cons: "om_find ((a, v) # m) k = (if a = k then Some v else om_find m k)"
  by (simp add: om_find_def)

lemma om_find_SomeD: "om_find m k = Some v \<Longrightarrow> (k, v) \<in> set m"
  by (simp add: om_find_def map_of_SomeD)

lemma om_find_in_keys: "om_find m k \<noteq> None \<longleftrightarrow> k \<in> fst ` set m"
  by (simp add: om_find_def map_of_eq_None_iff)

lemma dom_om_find: "dom (om_find m) = fst ` set m"
  using om_find_in_keys[of m] by (auto simp: dom_def)

lemma set_om_insert: "fst ` set (om_insert k v m) = insert k (fst ` set m)"
  by (induction k v m rule: om_insert.induct) auto

lemma om_wf_insert: "om_wf m \<Longrightarrow> om_wf (om_insert k v m)"
  by (induction k v m rule: om_insert.induct) (auto simp: om_wf_Cons set_om_insert)

lemma om_find_insert: "om_wf m \<Longrightarrow> om_find (om_insert k v m) = (om_find m)(k \<mapsto> v)"
  by (induction k v m rule: om_insert.induct)
    (auto simp: om_wf_Cons om_find_Cons fun_eq_iff)

lemma om_wf_erase: "om_wf m \<Longrightarrow> om_wf (om_erase k m)"
  by (induction m) (auto simp: om_erase_def om_wf_Cons)

lemma om_find_erase: "om_find (om_erase k m) = (om_find m)(k := None)"
  by (induction m) (auto simp: om_erase_def om_find_Cons fun_eq_iff)

lemma om_find_iff: "om_wf m \<Longrightarrow> om_find m k = Some v \<longleftrightarrow> (k, v) \<in> set m"
  unfolding om_find_def om_wf_def strict_sorted_iff by (simp add: map_of_eq_Some_iff)

lemma om_keys_values: "om_wf m \<Longrightarrow> m = map (\<lambda>k. (k, the (om_find m k))) (map fst m)"
proof -
  assume wf: "om_wf m"
  have "the (om_find m (fst e)) = snd e" if "e \<in> set m" for e
    using that om_find_iff[OF wf, of "fst e" "snd e"] by simp
  then have "map (\<lambda>e. (fst e, the (om_find m (fst e)))) m = m" by (intro map_idI) simp
  then show ?thesis by (simp add: comp_def)
qed

lemma om_find_ext:
  assumes "om_wf m" and "om_wf n" and "om_find m = om_find n"
  shows "m = n"
proof -
  have "set (map fst n) = set (map fst m)"
    using dom_om_find[of m] dom_om_find[of n] assms(3) by simp
  then have "map fst m = map fst n"
    using assms(1,2) by (auto simp: om_wf_def intro: strict_sorted_equal)
  then show ?thesis
    using om_keys_values[OF assms(1)] om_keys_values[OF assms(2)] assms(3) by simp
qed

lemma om_before_None_iff: "om_wf m \<Longrightarrow> om_before k m = None \<longleftrightarrow> (\<forall>b \<in> dom (om_find m). k < b)"
  by (induction k m rule: om_before.induct)
    (auto simp: om_wf_Cons dom_om_find not_le split: option.splits)

lemma om_before_SomeD:
  "om_wf m \<Longrightarrow> om_before k m = Some (a, v) \<Longrightarrow>
     (a, v) \<in> set m \<and> a \<le> k \<and> (\<forall>b \<in> fst ` set m. b \<le> k \<longrightarrow> b \<le> a)"
proof (induction k m arbitrary: a v rule: om_before.induct)
  case (2 k c w m)
  then have wf: "om_wf m" and lt: "\<forall>x \<in> fst ` set m. c < x" and ck: "c \<le> k"
    by (auto simp: om_wf_Cons split: if_splits)
  show ?case
  proof (cases "om_before k m")
    case None
    then have "\<forall>x \<in> fst ` set m. \<not> x \<le> k"
      using om_before_None_iff[OF wf] by (auto simp: dom_om_find)
    with 2(3) None ck show ?thesis by auto
  next
    case (Some e)
    with 2(3) ck have "om_before k m = Some (a, v)" by simp
    from "2.IH"[OF ck wf this] lt show ?thesis by auto
  qed
qed simp

lemma om_before_Some_iff:
  assumes wf: "om_wf m"
  shows "om_before k m = Some (a, v) \<longleftrightarrow>
     om_find m a = Some v \<and> a \<le> k \<and> (\<forall>b. b \<in> dom (om_find m) \<longrightarrow> b \<le> k \<longrightarrow> b \<le> a)"
    (is "_ \<longleftrightarrow> ?R")
proof
  assume "om_before k m = Some (a, v)"
  from om_before_SomeD[OF wf this] show ?R
    unfolding dom_om_find om_find_iff[OF wf] by blast
next
  assume R: ?R
  then have "om_before k m \<noteq> None"
    using om_before_None_iff[OF wf, of k] by (metis domI not_le)
  then obtain c w where c: "om_before k m = Some (c, w)" by auto
  from om_before_SomeD[OF wf c] have d: "om_find m c = Some w" "c \<le> k" "a \<le> k \<longrightarrow> a \<le> c"
    using R dom_om_find[of m] by (auto simp: om_find_iff[OF wf])
  with R have "a = c" by (auto intro: antisym)
  with R c d show "om_before k m = Some (a, v)" by simp
qed

interpretation om: ordered_map om_find om_insert om_erase om_before om_wf
  by unfold_locales
    (auto simp: om_find_insert om_find_erase om_wf_insert om_wf_erase om_before_Some_iff
      om_before_None_iff intro: om_find_ext)

lemma om_range_find:
  "om_wf m \<Longrightarrow> om_find (om_range lo hi m) k = (if lo \<le> k \<and> k < hi then om_find m k else None)"
  by (induction m) (auto simp: om_range_def om_find_Cons om_wf_Cons)

lemma om_wf_range: "om_wf m \<Longrightarrow> om_wf (om_range lo hi m)"
  by (induction m) (auto simp: om_range_def om_wf_Cons)

lemmas om_laws = om.find_insert om.find_erase om.inv_insert om.inv_erase

section \<open>Maps that agree key by key\<close>

definition omap_rel :: "('v \<Rightarrow> 'w \<Rightarrow> bool) \<Rightarrow> ('k, 'v) omap \<Rightarrow> ('k, 'w) omap \<Rightarrow> bool" where
  "omap_rel R m n = list_all2 (\<lambda>e f. fst e = fst f \<and> R (snd e) (snd f)) m n"

lemma omap_rel_Nil [simp]: "omap_rel R [] n \<longleftrightarrow> n = []" "omap_rel R m [] \<longleftrightarrow> m = []"
  by (simp_all add: omap_rel_def)

lemma omap_rel_Cons: "omap_rel R ((k, v) # m) n \<longleftrightarrow>
    (\<exists>w n'. n = (k, w) # n' \<and> R v w \<and> omap_rel R m n')"
  by (auto simp: omap_rel_def list_all2_Cons1)

lemma omap_rel_refl: "(\<And>v. R v v) \<Longrightarrow> omap_rel R m m"
  by (induction m) (auto simp: omap_rel_Cons)

lemma omap_rel_trans:
  "(\<And>u v w. R u v \<Longrightarrow> R v w \<Longrightarrow> R u w) \<Longrightarrow> omap_rel R l m \<Longrightarrow> omap_rel R m n \<Longrightarrow> omap_rel R l n"
  unfolding omap_rel_def by (erule (1) list_all2_trans[rotated]) auto

lemma omap_rel_keys: "omap_rel R m n \<Longrightarrow> map fst n = map fst m"
  by (induction m arbitrary: n) (auto simp: omap_rel_Cons)

lemma omap_rel_wf: "omap_rel R m n \<Longrightarrow> om_wf n \<longleftrightarrow> om_wf m"
  by (simp add: om_wf_def omap_rel_keys)

lemma omap_rel_find: "omap_rel R m n \<Longrightarrow> rel_option R (om_find m k) (om_find n k)"
  by (induction m arbitrary: n) (auto simp: omap_rel_Cons om_find_Cons)

lemma omap_rel_findE:
  assumes "omap_rel R m n" and "om_find m k = Some v"
  obtains w where "om_find n k = Some w" and "R v w"
  using omap_rel_find[OF assms(1), of k] assms(2) by (auto simp: option_rel_Some1)

lemma omap_rel_find_None: "omap_rel R m n \<Longrightarrow> om_find n k = None \<longleftrightarrow> om_find m k = None"
  using omap_rel_find[of R m n k] by (auto simp: rel_option_iff split: option.splits)

lemma omap_rel_before:
  "omap_rel R m n \<Longrightarrow> rel_option (\<lambda>e f. fst e = fst f \<and> R (snd e) (snd f)) (om_before k m) (om_before k n)"
proof (induction m arbitrary: n)
  case (Cons e m)
  obtain a v where e: "e = (a, v)" by (cases e)
  with Cons.prems obtain w n' where n: "n = (a, w) # n'" "R v w" "omap_rel R m n'"
    by (auto simp: omap_rel_Cons)
  from Cons.IH[OF n(3)] show ?case
    by (cases "om_before k m"; cases "om_before k n'") (auto simp: e n)
qed simp

lemma omap_rel_beforeE:
  assumes "omap_rel R m n" and "om_before k m = Some (a, v)"
  obtains w where "om_before k n = Some (a, w)" and "R v w"
  using omap_rel_before[OF assms(1), of k] assms(2) by (auto simp: option_rel_Some1)

lemma omap_rel_before_None: "omap_rel R m n \<Longrightarrow> om_before k n = None \<longleftrightarrow> om_before k m = None"
  using omap_rel_before[of R m n k] by (auto simp: rel_option_iff split: option.splits)

lemma omap_rel_insert: "omap_rel R m n \<Longrightarrow> R v w \<Longrightarrow> omap_rel R (om_insert k v m) (om_insert k w n)"
  by (induction m arbitrary: n) (auto simp: omap_rel_Cons)

lemma omap_rel_erase: "omap_rel R m n \<Longrightarrow> omap_rel R (om_erase k m) (om_erase k n)"
  by (induction m arbitrary: n) (auto simp: omap_rel_Cons om_erase_def)

text \<open>The two ways a change at one key is undone in a map that only looks like the changed one.\<close>

lemma omap_rel_restore:
  assumes "om_wf m" and "om_find m k = Some v" and "omap_rel R (om_insert k u m) n" and "R v w"
  shows "omap_rel R m (om_insert k w n)"
  using omap_rel_insert[OF assms(3,4), of k] assms(1,2) by (simp add: om.insert_insert om.insert_same)

lemma omap_rel_unadd:
  assumes "om_wf m" and "om_find m k = None" and "omap_rel R (om_insert k u m) n"
  shows "omap_rel R m (om_erase k n)"
  using omap_rel_erase[OF assms(3), of k] assms(1,2) by (simp add: om.erase_insert_fresh)

lemma omap_rel_unremove:
  assumes "om_wf m" and "om_find m k = Some v" and "omap_rel R (om_erase k m) n" and "R v w"
  shows "omap_rel R m (om_insert k w n)"
  using omap_rel_insert[OF assms(3,4), of k] assms(1,2) by (simp add: om.insert_erase)

definition om_all :: "('k \<Rightarrow> 'v \<Rightarrow> bool) \<Rightarrow> ('k, 'v) omap \<Rightarrow> bool" where
  "om_all P m = list_all (\<lambda>e. P (fst e) (snd e)) m"

lemma om_all_find: "om_all P m \<Longrightarrow> om_find m k = Some v \<Longrightarrow> P k v"
  by (auto simp: om_all_def list_all_iff dest!: om_find_SomeD)

lemma om_all_insert: "om_all P m \<Longrightarrow> P k v \<Longrightarrow> om_all P (om_insert k v m)"
  by (induction m) (auto simp: om_all_def)

lemma om_all_erase: "om_all P m \<Longrightarrow> om_all P (om_erase k m)"
  by (auto simp: om_all_def om_erase_def list_all_iff)

lemma om_all_iff: "om_wf m \<Longrightarrow> om_all P m \<longleftrightarrow> (\<forall>k v. om_find m k = Some v \<longrightarrow> P k v)"
  by (auto simp: om_all_def list_all_iff om_find_iff)

end
