(* ===== verification/MemoryState.thy ===== *)
theory MemoryState
  imports MemoryAllocation OrderedMap
begin

text \<open>
  \<open>seec::trace::MemoryState\<close> and \<open>MemoryStateRegion\<close> (\<open>lib/Trace/MemoryState.cpp\<close>): the recreated
  memory of the traced process. The allocations are a \<open>std::map\<close> by start address; removed
  allocations wait on a stack (its top is the head of the list) until the removal is rewound.
  Three groups of facts: every forward operation is undone by its backward counterpart
  (\<open>reversible\<close>, interpreted as \<open>mem\<close>), the operations preserve the representation
  invariants, and the abstract memory \<open>mem_view\<close> changes exactly as a flat memory would.
\<close>

section \<open>State and lookup\<close>

record MemoryState =
  ms_Allocations :: "(u64, MemoryAllocation) omap"
  ms_Previous :: "MemoryAllocation list"

definition empty_MemoryState :: MemoryState where
  "empty_MemoryState = \<lparr>ms_Allocations = [], ms_Previous = []\<rparr>"

text \<open>
  The references returned by the source are modelled by the key of the entry together with
  its value; an update through the reference is \<open>om_insert\<close> at that key.
\<close>

definition getAllocation :: "MemoryArea \<Rightarrow> MemoryState \<Rightarrow> (u64 \<times> MemoryAllocation) option" where
  "getAllocation r s = do {
     require (ms_Allocations s \<noteq> []);
     (k, a) \<leftarrow> om_before (iv_Start r) (ms_Allocations s);
     require (contains_interval (ma_area a) r);
     Some (k, a)
   }"

definition findAllocation :: "u64 \<Rightarrow> MemoryState \<Rightarrow> MemoryAllocation option" where
  "findAllocation p s =
     (if ms_Allocations s = [] then None
      else case om_before p (ms_Allocations s) of
        None \<Rightarrow> None
      | Some (k, a) \<Rightarrow> if contains_value (ma_area a) p then Some a else None)"

definition set_allocation :: "u64 \<Rightarrow> MemoryAllocation \<Rightarrow> MemoryState \<Rightarrow> MemoryState" where
  "set_allocation k a s = s\<lparr>ms_Allocations := om_insert k a (ms_Allocations s)\<rparr>"

section \<open>Operations moving forward\<close>

definition allocationAdd :: "u64 \<Rightarrow> u64 \<Rightarrow> MemoryState \<Rightarrow> MemoryState option" where
  "allocationAdd p n s =
     (if n = 0 then Some s
      else do {
        require (om_find (ms_Allocations s) p = None);
        Some (set_allocation p (new_MemoryAllocation p n) s)
      })"

definition allocationRemove :: "u64 \<Rightarrow> u64 \<Rightarrow> MemoryState \<Rightarrow> MemoryState option" where
  "allocationRemove p n s =
     (if n = 0 then Some s
      else do {
        a \<leftarrow> om_find (ms_Allocations s) p;
        Some (s\<lparr>ms_Previous := a # ms_Previous s,
                ms_Allocations := om_erase p (ms_Allocations s)\<rparr>)
      })"

definition allocationResize :: "u64 \<Rightarrow> u64 \<Rightarrow> u64 \<Rightarrow> MemoryState \<Rightarrow> MemoryState option" where
  "allocationResize p cur new s =
     (if cur = 0 then allocationAdd p new s
      else if new = 0 then allocationRemove p cur s
      else do {
        (k, a) \<leftarrow> getAllocation (area p cur) s;
        require (ma_Size a = cur);
        a1 \<leftarrow> (if new < cur then clearArea (area (p + new) (cur - new)) a else Some a);
        Some (set_allocation k (ma_resize new a1) s)
      })"

definition addBlock_state :: "MappedMemoryBlock \<Rightarrow> MemoryState \<Rightarrow> MemoryState option" where
  "addBlock_state b s = do {
     (k, a) \<leftarrow> getAllocation (block_area b) s;
     a' \<leftarrow> addBlock b a;
     Some (set_allocation k a' s)
   }"

definition addCopy :: "u64 \<Rightarrow> u64 \<Rightarrow> u64 \<Rightarrow> MemoryState \<Rightarrow> MemoryState option" where
  "addCopy src dst n s = do {
     let sarea = area src n;
     (sk, sa) \<leftarrow> getAllocation sarea s;
     (dk, da) \<leftarrow> getAllocation (area dst n) s;
     data \<leftarrow> getAreaData sarea sa;
     init \<leftarrow> getAreaInitialization sarea sa;
     let v = (if sk = dk then OwnView (unat (src - ma_Address sa)) (unat n) else Bytes data init);
     da' \<leftarrow> addArea dst v da;
     Some (set_allocation dk da' s)
   }"

definition addClear :: "MemoryArea \<Rightarrow> MemoryState \<Rightarrow> MemoryState option" where
  "addClear r s =
     (if ms_Allocations s = [] then Some s
      else case om_before (iv_Start r) (ms_Allocations s) of
        None \<Rightarrow> Some s
      | Some (k, a) \<Rightarrow>
          if contains_interval (ma_area a) r
          then do { a' \<leftarrow> clearArea r a; Some (set_allocation k a' s) }
          else Some s)"

section \<open>Operations moving backward\<close>

definition allocationUnremove :: "u64 \<Rightarrow> u64 \<Rightarrow> MemoryState \<Rightarrow> MemoryState option" where
  "allocationUnremove p n s =
     (if n = 0 then Some s
      else case ms_Previous s of
        [] \<Rightarrow> None
      | prev # rest \<Rightarrow> do {
          require (ma_Address prev = p);
          require (om_find (ms_Allocations s) p = None);
          Some ((set_allocation p prev s)\<lparr>ms_Previous := rest\<rparr>)
        })"

definition allocationUnadd :: "u64 \<Rightarrow> u64 \<Rightarrow> MemoryState \<Rightarrow> MemoryState option" where
  "allocationUnadd p n s =
     (if n = 0 then Some s
      else do {
        require (om_find (ms_Allocations s) p \<noteq> None);
        Some (s\<lparr>ms_Allocations := om_erase p (ms_Allocations s)\<rparr>)
      })"

definition allocationUnresize :: "u64 \<Rightarrow> u64 \<Rightarrow> u64 \<Rightarrow> MemoryState \<Rightarrow> MemoryState option" where
  "allocationUnresize p cur new s =
     (if cur = 0 then allocationUnremove p new s
      else if new = 0 then allocationUnadd p cur s
      else do {
        (k, a) \<leftarrow> getAllocation (area p cur) s;
        require (ma_Size a = cur);
        let a1 = ma_resize new a;
        a2 \<leftarrow> (if cur < new then rewindArea (area (p + cur) (new - cur)) a1 else Some a1);
        Some (set_allocation k a2 s)
      })"

definition removeBlock :: "MemoryArea \<Rightarrow> MemoryState \<Rightarrow> MemoryState option" where
  "removeBlock r s = do {
     (k, a) \<leftarrow> getAllocation r s;
     a' \<leftarrow> rewindArea r a;
     Some (set_allocation k a' s)
   }"

definition removeCopy :: "u64 \<Rightarrow> u64 \<Rightarrow> u64 \<Rightarrow> MemoryState \<Rightarrow> MemoryState option" where
  "removeCopy src dst n s = do {
     let darea = area dst n;
     (k, a) \<leftarrow> getAllocation darea s;
     a' \<leftarrow> rewindArea darea a;
     Some (set_allocation k a' s)
   }"

definition removeClear :: "MemoryArea \<Rightarrow> MemoryState \<Rightarrow> MemoryState option" where
  "removeClear r s =
     (if ms_Allocations s = [] then Some s
      else case om_before (iv_Start r) (ms_Allocations s) of
        None \<Rightarrow> Some s
      | Some (k, a) \<Rightarrow>
          if contains_interval (ma_area a) r
          then do { a' \<leftarrow> rewindArea r a; Some (set_allocation k a' s) }
          else Some s)"

section \<open>Regions\<close>

definition region_isAllocated :: "MemoryArea \<Rightarrow> MemoryState \<Rightarrow> bool" where
  "region_isAllocated r s =
     (case findAllocation (iv_Start r) s of
        Some a \<Rightarrow> contains_interval (ma_area a) r
      | None \<Rightarrow> False)"

definition getByteInitialization :: "MemoryArea \<Rightarrow> MemoryState \<Rightarrow> byte list option" where
  "getByteInitialization r s =
     (case findAllocation (iv_Start r) s of
        Some a \<Rightarrow> if contains_interval (ma_area a) r then getAreaInitialization r a else Some []
      | None \<Rightarrow> Some [])"

definition getByteValues :: "MemoryArea \<Rightarrow> MemoryState \<Rightarrow> byte list option" where
  "getByteValues r s =
     (case findAllocation (iv_Start r) s of
        Some a \<Rightarrow> if contains_interval (ma_area a) r then getAreaData r a else Some []
      | None \<Rightarrow> Some [])"

definition region_isCompletelyInitialized :: "MemoryArea \<Rightarrow> MemoryState \<Rightarrow> bool option" where
  "region_isCompletelyInitialized r s = do {
     init \<leftarrow> getByteInitialization r s;
     Some (if init = [] then False else list_all (\<lambda>b. b = 255) init)
   }"

definition region_isPartiallyInitialized :: "MemoryArea \<Rightarrow> MemoryState \<Rightarrow> bool option" where
  "region_isPartiallyInitialized r s = do {
     init \<leftarrow> getByteInitialization r s;
     Some (if init = [] then False else list_ex (\<lambda>b. b \<noteq> 0) init)
   }"

definition region_isUninitialized :: "MemoryArea \<Rightarrow> MemoryState \<Rightarrow> bool option" where
  "region_isUninitialized r s = do {
     init \<leftarrow> getByteInitialization r s;
     Some (list_all (\<lambda>b. b = 0) init)
   }"

section \<open>Invariant and observation\<close>

definition entry_wf :: "u64 \<Rightarrow> MemoryAllocation \<Rightarrow> bool" where
  "entry_wf k a \<longleftrightarrow> ma_Address a = k \<and> alloc_wf a \<and> ma_Size a \<noteq> 0 \<and>
     unat k + unat (ma_Size a) < 2 ^ 64"

definition mem_wf :: "MemoryState \<Rightarrow> bool" where
  "mem_wf s \<longleftrightarrow> om_wf (ms_Allocations s) \<and> om_all entry_wf (ms_Allocations s)"

definition mem_eqv :: "MemoryState \<Rightarrow> MemoryState \<Rightarrow> bool" where
  "mem_eqv s t \<longleftrightarrow> omap_rel alloc_eqv (ms_Allocations s) (ms_Allocations t) \<and>
     list_all2 alloc_eqv (ms_Previous s) (ms_Previous t)"

lemma mem_eqv_refl [simp]: "mem_eqv s s"
  by (simp add: mem_eqv_def omap_rel_refl list_all2_refl)

lemma mem_eqv_trans: "mem_eqv s t \<Longrightarrow> mem_eqv t u \<Longrightarrow> mem_eqv s u"
  unfolding mem_eqv_def
  by (blast intro: omap_rel_trans list_all2_trans alloc_eqv_trans)

lemma mem_wf_empty: "mem_wf empty_MemoryState"
  by (simp add: mem_wf_def empty_MemoryState_def om_all_def)

lemma entry_alloc_wf: "entry_wf k a \<Longrightarrow> alloc_wf a"
  by (simp add: entry_wf_def)

lemma set_allocation_wf: "mem_wf s \<Longrightarrow> entry_wf k a \<Longrightarrow> mem_wf (set_allocation k a s)"
  by (simp add: mem_wf_def set_allocation_def om_laws om_all_insert)

lemma mem_wf_find: "mem_wf s \<Longrightarrow> om_find (ms_Allocations s) k = Some a \<Longrightarrow> entry_wf k a"
  by (auto simp: mem_wf_def dest: om_all_find)

lemma getAllocation_SomeD:
  assumes "getAllocation r s = Some (k, a)"
  shows "om_before (iv_Start r) (ms_Allocations s) = Some (k, a)" and "contains_interval (ma_area a) r"
  using assms by (auto simp: getAllocation_def bind_eq_Some_conv)

lemma getAllocation_wfD:
  assumes "mem_wf s" and "getAllocation r s = Some (k, a)"
  shows "om_find (ms_Allocations s) k = Some a" and "entry_wf k a"
  using getAllocation_SomeD(1)[OF assms(2)] assms(1) mem_wf_find
  by (auto simp: mem_wf_def om.before_find)

section \<open>Every operation is undone by its backward counterpart\<close>

datatype mem_op =
    OpAdd u64 u64
  | OpRemove u64 u64
  | OpResize u64 u64 u64
  | OpBlock MappedMemoryBlock
  | OpCopy u64 u64 u64
  | OpClear MemoryArea

primrec mem_fwd :: "mem_op \<Rightarrow> MemoryState \<Rightarrow> MemoryState option" where
  "mem_fwd (OpAdd p n) = allocationAdd p n"
| "mem_fwd (OpRemove p n) = allocationRemove p n"
| "mem_fwd (OpResize p old new) = allocationResize p old new"
| "mem_fwd (OpBlock b) = addBlock_state b"
| "mem_fwd (OpCopy src dst n) = addCopy src dst n"
| "mem_fwd (OpClear r) = addClear r"

primrec mem_bwd :: "mem_op \<Rightarrow> MemoryState \<Rightarrow> MemoryState option" where
  "mem_bwd (OpAdd p n) = allocationUnadd p n"
| "mem_bwd (OpRemove p n) = allocationUnremove p n"
| "mem_bwd (OpResize p old new) = allocationUnresize p new old"
| "mem_bwd (OpBlock b) = removeBlock (block_area b)"
| "mem_bwd (OpCopy src dst n) = removeCopy src dst n"
| "mem_bwd (OpClear r) = removeClear r"

text \<open>A new or resized allocation lies within the address space.\<close>

primrec mem_op_ok :: "mem_op \<Rightarrow> bool" where
  "mem_op_ok (OpAdd p n) = (unat p + unat n < 2 ^ 64)"
| "mem_op_ok (OpRemove p n) = True"
| "mem_op_ok (OpResize p old new) =
     (unat p + unat old < 2 ^ 64 \<and> unat p + unat new < 2 ^ 64)"
| "mem_op_ok (OpBlock b) = True"
| "mem_op_ok (OpCopy src dst n) = True"
| "mem_op_ok (OpClear r) = True"

lemma before_set_allocation:
  assumes "mem_wf s" and "om_before q (ms_Allocations s) = Some (k, a)"
    and "mem_eqv (set_allocation k b s) t"
  obtains b' where "om_before q (ms_Allocations t) = Some (k, b')" and "alloc_eqv b b'"
    and "ms_Allocations t \<noteq> []"
proof -
  have "om_before q (om_insert k b (ms_Allocations s)) = Some (k, b)"
    using assms(1,2) by (simp add: mem_wf_def om.before_insert_hit)
  then obtain b' where b': "om_before q (ms_Allocations t) = Some (k, b')" "alloc_eqv b b'"
    using assms(3) by (auto simp: mem_eqv_def set_allocation_def elim: omap_rel_beforeE)
  then have "ms_Allocations t \<noteq> []" by auto
  with b' show ?thesis by (rule that)
qed

lemma restore_allocation:
  assumes "mem_wf s" and "om_find (ms_Allocations s) k = Some a"
    and "mem_eqv (set_allocation k b s) t" and "alloc_eqv a a'"
  shows "mem_eqv s (set_allocation k a' t)"
  using assms omap_rel_restore[of "ms_Allocations s" k a alloc_eqv b "ms_Allocations t" a']
  by (simp add: mem_eqv_def set_allocation_def mem_wf_def)

lemma update_undone:
  assumes wf: "mem_wf s" and g: "getAllocation r s = Some (k, a)"
    and t: "mem_eqv (set_allocation k b s) t"
    and undo: "\<And>b'. alloc_eqv b b' \<Longrightarrow> \<exists>a'. h b' = Some a' \<and> alloc_eqv a a'"
    and r': "iv_Start r' = iv_Start r" "contains_interval (ma_area b) r'"
  obtains b' a' where "getAllocation r' t = Some (k, b')" and "alloc_eqv b b'"
    and "h b' = Some a'" and "mem_eqv s (set_allocation k a' t)"
proof -
  from before_set_allocation[OF wf getAllocation_SomeD(1)[OF g] t]
  obtain b' where b': "om_before (iv_Start r) (ms_Allocations t) = Some (k, b')" "alloc_eqv b b'"
    "ms_Allocations t \<noteq> []" .
  from undo[OF b'(2)] obtain a' where a': "h b' = Some a'" "alloc_eqv a a'" by blast
  show ?thesis
  proof (rule that[OF _ b'(2) a'(1)])
    show "getAllocation r' t = Some (k, b')"
      using b' r' by (simp add: getAllocation_def alloc_eqv_def)
    show "mem_eqv s (set_allocation k a' t)"
      by (rule restore_allocation[OF wf getAllocation_wfD(1)[OF wf g] t a'(2)])
  qed
qed

lemma same_place:
  assumes "clearArea r a = Some c"
  shows "contains_interval (ma_area c) q = contains_interval (ma_area a) q"
  using clearArea_SomeD(4,5)[OF assms] by simp

lemma addBlock_place:
  "addBlock b a = Some t \<Longrightarrow> ma_Address t = ma_Address a \<and> ma_Size t = ma_Size a"
  by (erule addBlock_SomeE) (auto dest: clearArea_SomeD(4,5))

lemma addArea_place:
  "addArea p v a = Some t \<Longrightarrow> ma_Address t = ma_Address a \<and> ma_Size t = ma_Size a"
  by (erule addArea_SomeE) (auto dest: clearArea_SomeD(4,5))

lemma block_undone:
  assumes wf: "mem_wf s" and f: "addBlock_state b s = Some t" and t: "mem_eqv t t'"
  shows "\<exists>s'. removeBlock (block_area b) t' = Some s' \<and> mem_eqv s s'"
proof -
  from f obtain k a a' where g: "getAllocation (block_area b) s = Some (k, a)"
    and ab: "addBlock b a = Some a'" and te: "t = set_allocation k a' s"
    by (auto simp: addBlock_state_def bind_eq_Some_conv)
  have awf: "alloc_wf a" using getAllocation_wfD(2)[OF wf g] by (simp add: entry_wf_def)
  have c: "contains_interval (ma_area a') (block_area b)"
    using getAllocation_SomeD(2)[OF g] addBlock_place[OF ab] by simp
  show ?thesis
    by (rule update_undone[OF wf g t[unfolded te] addBlock_undone[OF awf ab] refl c])
      (auto simp: removeBlock_def)
qed

lemma addCopy_SomeE:
  assumes "addCopy src dst n s = Some t"
  obtains sk sa dk da da' data init where "getAllocation (area src n) s = Some (sk, sa)"
    and "getAllocation (area dst n) s = Some (dk, da)"
    and "getAreaData (area src n) sa = Some data"
    and "getAreaInitialization (area src n) sa = Some init"
    and "addArea dst (if sk = dk then OwnView (unat (src - ma_Address sa)) (unat n)
                      else Bytes data init) da = Some da'"
    and "t = set_allocation dk da' s"
  using assms that by (auto simp: addCopy_def bind_eq_Some_conv Let_def)

lemma view_size_copy:
  assumes "getAreaData (area src n) sa = Some data"
  shows "of_nat (view_size (if c then OwnView off (unat n) else Bytes data init)) = n"
  using assms by (auto simp: getAreaData_def dest: length_slice)

lemma copy_undone:
  assumes wf: "mem_wf s" and f: "addCopy src dst n s = Some t" and t: "mem_eqv t t'"
  shows "\<exists>s'. removeCopy src dst n t' = Some s' \<and> mem_eqv s s'"
proof -
  from f obtain sk sa dk da da' data init where g: "getAllocation (area dst n) s = Some (dk, da)"
    and d: "getAreaData (area src n) sa = Some data"
    and ab: "addArea dst (if sk = dk then OwnView (unat (src - ma_Address sa)) (unat n)
                      else Bytes data init) da = Some da'"
    and te: "t = set_allocation dk da' s"
    by (rule addCopy_SomeE)
  have awf: "alloc_wf da" using getAllocation_wfD(2)[OF wf g] by (simp add: entry_wf_def)
  have c: "contains_interval (ma_area da') (area dst n)"
    using getAllocation_SomeD(2)[OF g] addArea_place[OF ab] by simp
  have u: "\<And>b'. alloc_eqv da' b' \<Longrightarrow> \<exists>a'. rewindArea (area dst n) b' = Some a' \<and> alloc_eqv da a'"
    using addArea_undone[OF awf ab] view_size_copy[OF d] by simp
  show ?thesis
    by (rule update_undone[OF wf g t[unfolded te] u refl c]) (auto simp: removeCopy_def)
qed

text \<open>A clear outside every allocation does nothing, in both directions.\<close>

lemma clear_undone:
  assumes wf: "mem_wf s" and f: "addClear r s = Some t" and t: "mem_eqv t t'"
  shows "\<exists>s'. removeClear r t' = Some s' \<and> mem_eqv s s'"
proof -
  have rel: "omap_rel alloc_eqv (ms_Allocations t) (ms_Allocations t')"
    using t by (simp add: mem_eqv_def)
  consider (none) "ms_Allocations s = [] \<or> om_before (iv_Start r) (ms_Allocations s) = None"
    | (outside) k a where "om_before (iv_Start r) (ms_Allocations s) = Some (k, a)"
        "ms_Allocations s \<noteq> []" "\<not> contains_interval (ma_area a) r"
    | (inside) k a where "om_before (iv_Start r) (ms_Allocations s) = Some (k, a)"
        "ms_Allocations s \<noteq> []" "contains_interval (ma_area a) r"
    by (cases "om_before (iv_Start r) (ms_Allocations s)") auto
  then show ?thesis
  proof cases
    case none
    then have "t = s" using f by (auto simp: addClear_def split: if_splits)
    moreover have "removeClear r t' = Some t'"
      using none omap_rel_before_None[OF rel, of "iv_Start r"] rel \<open>t = s\<close>
      by (auto simp: removeClear_def)
    ultimately show ?thesis using t by blast
  next
    case outside
    then have "t = s" using f by (auto simp: addClear_def split: if_splits)
    moreover obtain b where "om_before (iv_Start r) (ms_Allocations t') = Some (k, b)" "alloc_eqv a b"
      using outside(1) rel \<open>t = s\<close> by (auto elim: omap_rel_beforeE)
    then have "removeClear r t' = Some t'"
      using outside(3) by (simp add: removeClear_def alloc_eqv_def)
    ultimately show ?thesis using t by blast
  next
    case inside
    from f inside obtain a' where c: "clearArea r a = Some a'" and te: "t = set_allocation k a' s"
      by (auto simp: addClear_def bind_eq_Some_conv)
    have g: "getAllocation r s = Some (k, a)" using inside by (simp add: getAllocation_def)
    have awf: "alloc_wf a" using getAllocation_wfD(2)[OF wf g] by (simp add: entry_wf_def)
    have ct: "contains_interval (ma_area a') r" using inside(3) by (simp add: same_place[OF c])
    show ?thesis
    proof (rule update_undone[OF wf g t[unfolded te] clearArea_undone[OF awf c] refl ct])
      fix b' a'' assume "getAllocation r t' = Some (k, b')" "rewindArea r b' = Some a''"
        "mem_eqv s (set_allocation k a'' t')"
      then show ?thesis
        by (auto simp: getAllocation_def removeClear_def bind_eq_Some_conv split: prod.splits)
    qed
  qed
qed

text \<open>Resizing within non-zero sizes.\<close>

lemma resize_same_address:
  assumes wf: "mem_wf s" and g: "getAllocation (area p cur) s = Some (k, a)"
    and sz: "ma_Size a = cur" and b: "unat p + unat cur < 2 ^ 64"
  shows "ma_Address a = p" and "k = p"
proof -
  note e = getAllocation_wfD(2)[OF wf g]
  have c: "k \<le> p" "p + cur \<le> k + cur"
    using getAllocation_SomeD(2)[OF g] e sz by (simp_all add: contains_interval_def entry_wf_def)
  have "unat p + unat cur \<le> unat k + unat cur"
    using c(2) e sz b by (simp add: word_le_nat_alt unat_add_no_wrap entry_wf_def)
  with c(1) have "unat k = unat p" by (simp add: word_le_nat_alt)
  then show "k = p" by (rule unsigned_word_eqI)
  with e show "ma_Address a = p" by (simp add: entry_wf_def)
qed

lemma vector_resize_shrink_grow:
  assumes "n \<le> length xs"
  shows "vector_resize (length xs) x (vector_resize n y xs) = take n xs @ replicate (length xs - n) x"
  using assms by (simp add: vector_resize_def)

lemma vector_unat: "(n :: u64) \<le> m \<Longrightarrow> unat n \<le> unat m"
  by (simp add: word_le_nat_alt)

text \<open>Shrinking saves the bytes that disappear, so growing back and rewinding restores them.\<close>

lemma shrink_undone:
  assumes wf: "alloc_wf a" and lt: "new < ma_Size a"
    and c: "clearArea (area (ma_Address a + new) (ma_Size a - new)) a = Some c"
    and t: "alloc_eqv (ma_resize new c) b"
  shows "\<exists>a'. rewindArea (area (ma_Address a + new) (ma_Size a - new)) (ma_resize (ma_Size a) b) = Some a' \<and>
              alloc_eqv a a'"
proof (rule rewind_after_clear[OF wf c])
  let ?r = "area (ma_Address a + new) (ma_Size a - new)"
  note C = clearArea_SomeD[OF c]
  have n: "unat new \<le> unat (ma_Size a)" using lt by (simp add: word_less_nat_alt)
  have off: "area_off a ?r = unat new" by simp
  have len: "area_len ?r = unat (ma_Size a) - unat new"
    using lt by (simp add: unat_diff_le)
  have L: "length (ma_Init a) = unat (ma_Size a)" "length (ma_Init c) = unat (ma_Size a)"
    "length (ma_Data a) = unat (ma_Size a)"
    using wf clearArea_wf[OF c wf] C(5) by (simp_all add: alloc_wf_def)
  have keepI: "vector_resize (unat (ma_Size a)) 0 (ma_Init b) ! i = ma_Init a ! i" if "i < unat new" for i
    using that t n L nth_overwrite[OF C(11), of i] off
    by (simp add: nth_vector_resize alloc_eqv_def ma_resize_def)
  have keepD: "ma_Data a ! i = vector_resize (unat (ma_Size a)) 0 (ma_Data b) ! i"
    if "i < unat new" "ma_Init a ! i \<noteq> 0" for i
  proof -
    have "vector_resize (unat new) 0 (ma_Init c) ! i = ma_Init a ! i"
      using that n L nth_overwrite[OF C(11), of i] off by (simp add: nth_vector_resize)
    with that t n L C(6) show ?thesis
      by (simp add: nth_vector_resize alloc_eqv_def ma_resize_def same_bytes_def)
  qed
  show "\<forall>i < length (ma_Init a). i < area_off a ?r \<or> area_off a ?r + area_len ?r \<le> i \<longrightarrow>
          ma_Init (ma_resize (ma_Size a) b) ! i = ma_Init a ! i"
    using keepI L n off len by (auto simp: ma_resize_def)
  show "\<forall>i < length (ma_Init a). i < area_off a ?r \<or> area_off a ?r + area_len ?r \<le> i \<longrightarrow>
          ma_Init a ! i \<noteq> 0 \<longrightarrow> ma_Data a ! i = ma_Data (ma_resize (ma_Size a) b) ! i"
    using keepD L n off len by (auto simp: ma_resize_def)
qed (use t wf clearArea_SomeD(4,5)[OF c] in \<open>simp_all add: alloc_eqv_def ma_resize_def alloc_wf_def\<close>)

text \<open>Growing is undone by truncating.\<close>

lemma grow_undone:
  assumes wf: "alloc_wf a" and le: "ma_Size a \<le> new" and t: "alloc_eqv (ma_resize new a) b"
  shows "alloc_eqv a (ma_resize (ma_Size a) b)"
proof -
  have n: "unat (ma_Size a) \<le> unat new" using le by (rule vector_unat)
  have I: "ma_Init b = vector_resize (unat new) 0 (ma_Init a)"
    using t by (simp add: alloc_eqv_def ma_resize_def)
  have "ma_Init (ma_resize (ma_Size a) b) = ma_Init a"
    using wf n vector_resize_grow_shrink[of "ma_Init a" "unat new" 0 0]
    by (simp add: ma_resize_def I alloc_wf_def)
  moreover have "ma_Data a ! i = ma_Data b ! i" if "i < unat (ma_Size a)" "ma_Init a ! i \<noteq> 0" for i
  proof -
    have "i < unat new" using that n by simp
    moreover have "same_bytes (vector_resize (unat new) 0 (ma_Init a))
        (vector_resize (unat new) 0 (ma_Data a)) (ma_Data b)"
      using t by (simp add: alloc_eqv_def ma_resize_def)
    ultimately have "vector_resize (unat new) 0 (ma_Data a) ! i = ma_Data b ! i"
      if "vector_resize (unat new) 0 (ma_Init a) ! i \<noteq> 0"
      using that by (intro same_bytes_nth) simp_all
    with that wf \<open>i < unat new\<close> show ?thesis by (simp add: alloc_wf_def nth_vector_resize)
  qed
  then have "same_bytes (ma_Init a) (ma_Data a) (ma_Data (ma_resize (ma_Size a) b))"
    using t wf n
    by (auto simp: same_bytes_def alloc_eqv_def alloc_wf_def ma_resize_def nth_vector_resize)
  ultimately show ?thesis using t by (simp add: alloc_eqv_def ma_resize_def)
qed

lemma add_undone:
  assumes wf: "mem_wf s" and f: "allocationAdd p n s = Some t" and t: "mem_eqv t t'"
  shows "\<exists>s'. allocationUnadd p n t' = Some s' \<and> mem_eqv s s'"
proof (cases "n = 0")
  case True
  with f t show ?thesis by (simp add: allocationAdd_def allocationUnadd_def)
next
  case False
  with f have fresh: "om_find (ms_Allocations s) p = None"
    and te: "t = set_allocation p (new_MemoryAllocation p n) s"
    by (auto simp: allocationAdd_def)
  have w: "om_wf (ms_Allocations s)" using wf by (simp add: mem_wf_def)
  have rel: "omap_rel alloc_eqv (om_insert p (new_MemoryAllocation p n) (ms_Allocations s)) (ms_Allocations t')"
    and prev: "list_all2 alloc_eqv (ms_Previous s) (ms_Previous t')"
    using t te by (simp_all add: mem_eqv_def set_allocation_def)
  have "om_find (ms_Allocations t') p \<noteq> None"
    using omap_rel_find_None[OF rel, of p] w by (simp add: om_laws)
  with False omap_rel_unadd[OF w fresh rel] prev show ?thesis
    by (auto simp: allocationUnadd_def mem_eqv_def)
qed

lemma remove_undone:
  assumes wf: "mem_wf s" and f: "allocationRemove p n s = Some t" and t: "mem_eqv t t'"
  shows "\<exists>s'. allocationUnremove p n t' = Some s' \<and> mem_eqv s s'"
proof (cases "n = 0")
  case True
  with f t show ?thesis by (simp add: allocationRemove_def allocationUnremove_def)
next
  case False
  with f obtain a where a: "om_find (ms_Allocations s) p = Some a"
    and te: "t = s\<lparr>ms_Previous := a # ms_Previous s, ms_Allocations := om_erase p (ms_Allocations s)\<rparr>"
    by (auto simp: allocationRemove_def bind_eq_Some_conv)
  have w: "om_wf (ms_Allocations s)" using wf by (simp add: mem_wf_def)
  have rel: "omap_rel alloc_eqv (om_erase p (ms_Allocations s)) (ms_Allocations t')"
    and prev: "list_all2 alloc_eqv (a # ms_Previous s) (ms_Previous t')"
    using t te by (simp_all add: mem_eqv_def)
  from prev obtain a' rest where P: "ms_Previous t' = a' # rest" "alloc_eqv a a'"
    "list_all2 alloc_eqv (ms_Previous s) rest" by (auto simp: list_all2_Cons1)
  have "ma_Address a' = p" using P(2) mem_wf_find[OF wf a] by (simp add: alloc_eqv_def entry_wf_def)
  moreover have "om_find (ms_Allocations t') p = None"
    using omap_rel_find_None[OF rel, of p] w by (simp add: om_laws)
  ultimately show ?thesis
    using False P omap_rel_unremove[OF w a rel P(2)]
    by (simp add: allocationUnremove_def mem_eqv_def set_allocation_def)
qed

lemma resize_undone:
  assumes wf: "mem_wf s" and f: "allocationResize p old new s = Some t" and t: "mem_eqv t t'"
    and ok: "unat p + unat old < 2 ^ 64" "unat p + unat new < 2 ^ 64"
  shows "\<exists>s'. allocationUnresize p new old t' = Some s' \<and> mem_eqv s s'"
proof -
  consider (add) "old = 0" | (remove) "old \<noteq> 0" "new = 0" | (resize) "old \<noteq> 0" "new \<noteq> 0" by blast
  then show ?thesis
  proof cases
    case add
    with f have "allocationAdd p new s = Some t" by (simp add: allocationResize_def)
    from add_undone[OF wf this t] add show ?thesis
      by (cases "new = 0") (auto simp: allocationUnresize_def allocationUnremove_def allocationUnadd_def)
  next
    case remove
    with f have "allocationRemove p old s = Some t" by (simp add: allocationResize_def)
    from remove_undone[OF wf this t] remove show ?thesis by (simp add: allocationUnresize_def)
  next
    case resize
    with f obtain k a c where g: "getAllocation (area p old) s = Some (k, a)"
      and sz: "ma_Size a = old"
      and c: "(if new < old then clearArea (area (p + new) (old - new)) a else Some a) = Some c"
      and te: "t = set_allocation k (ma_resize new c) s"
      by (auto simp: allocationResize_def bind_eq_Some_conv)
    note adr = resize_same_address[OF wf g sz ok(1)]
    have awf: "alloc_wf a" using getAllocation_wfD(2)[OF wf g] by (simp add: entry_wf_def)
    have place: "ma_Address c = p" "contains_interval (ma_area (ma_resize new c)) (area p new)"
      using c adr clearArea_SomeD(4)[of _ a c] by (auto simp: ma_resize_def split: if_splits)
    let ?h = "\<lambda>b. if new < old then rewindArea (area (p + new) (old - new)) (ma_resize old b)
                   else Some (ma_resize old b)"
    have u: "\<And>b. alloc_eqv (ma_resize new c) b \<Longrightarrow> \<exists>a'. ?h b = Some a' \<and> alloc_eqv a a'"
      using c adr sz shrink_undone[OF awf, of new c] grow_undone[OF awf, of new]
      by (auto split: if_splits)
    show ?thesis
    proof (rule update_undone[OF wf g t[unfolded te] u, where r' = "area p new"])
      fix b' a' assume b: "getAllocation (area p new) t' = Some (k, b')" "alloc_eqv (ma_resize new c) b'"
        "?h b' = Some a'" "mem_eqv s (set_allocation k a' t')"
      from b(2) have "ma_Size b' = new" by (simp add: alloc_eqv_def ma_resize_def)
      with b(1,3) resize have "allocationUnresize p new old t' = Some (set_allocation k a' t')"
        by (simp add: allocationUnresize_def Let_def)
      with b(4) show ?thesis by blast
    qed (use place in simp_all)
  qed
qed

section \<open>The interpretation\<close>

lemma allocationAdd_wf:
  "mem_wf s \<Longrightarrow> allocationAdd p n s = Some t \<Longrightarrow> unat p + unat n < 2 ^ 64 \<Longrightarrow> mem_wf t"
  by (auto simp: allocationAdd_def entry_wf_def new_MemoryAllocation_def alloc_wf_def
      intro!: set_allocation_wf split: if_splits)

lemma allocationRemove_wf: "mem_wf s \<Longrightarrow> allocationRemove p n s = Some t \<Longrightarrow> mem_wf t"
  by (auto simp: allocationRemove_def bind_eq_Some_conv mem_wf_def om_laws om_all_erase
      split: if_splits)

lemma update_wf:
  assumes "mem_wf s" and "getAllocation r s = Some (k, a)"
    and "alloc_wf a \<Longrightarrow> alloc_wf b" and "ma_Address b = ma_Address a" and "ma_Size b = ma_Size a"
  shows "mem_wf (set_allocation k b s)"
proof (rule set_allocation_wf[OF assms(1)])
  have e: "entry_wf k a" by (rule getAllocation_wfD(2)[OF assms(1,2)])
  have "alloc_wf b" by (rule assms(3)[OF entry_alloc_wf[OF e]])
  with e show "entry_wf k b" unfolding entry_wf_def assms(4,5) by blast
qed

lemma allocationResize_wf:
  assumes wf: "mem_wf s" and f: "allocationResize p old new s = Some t"
    and ok: "unat p + unat old < 2 ^ 64" "unat p + unat new < 2 ^ 64"
  shows "mem_wf t"
proof (cases "old = 0 \<or> new = 0")
  case True
  then have "allocationAdd p new s = Some t \<or> allocationRemove p old s = Some t"
    using f by (auto simp: allocationResize_def split: if_splits)
  then show ?thesis
    using allocationAdd_wf[OF wf _ ok(2)] allocationRemove_wf[OF wf] by blast
next
  case False
  with f obtain k a c where g: "getAllocation (area p old) s = Some (k, a)"
    and sz: "ma_Size a = old"
    and c: "(if new < old then clearArea (area (p + new) (old - new)) a else Some a) = Some c"
    and te: "t = set_allocation k (ma_resize new c) s"
    by (auto simp: allocationResize_def bind_eq_Some_conv)
  have "ma_Address c = p"
    using c resize_same_address(1)[OF wf g sz ok(1)] clearArea_SomeD(4)[of _ a c]
    by (auto split: if_splits)
  then show ?thesis
    using te resize_same_address(2)[OF wf g sz ok(1)] ok False wf
    by (auto simp: entry_wf_def ma_resize_def alloc_wf_def intro!: set_allocation_wf)
qed

lemma addBlock_state_wf: "mem_wf s \<Longrightarrow> addBlock_state b s = Some t \<Longrightarrow> mem_wf t"
  by (auto simp: addBlock_state_def bind_eq_Some_conv dest: addBlock_place
      intro!: update_wf elim: addBlock_wf)

lemma addCopy_wf:
  assumes "mem_wf s" and "addCopy src dst n s = Some t"
  shows "mem_wf t"
  using assms(2)
  by (rule addCopy_SomeE) (metis assms(1) update_wf addArea_wf addArea_place)

lemma addClear_cases:
  assumes "addClear r s = Some t"
  obtains (same) "t = s" "getAllocation r s = None"
    | (clear) k a c where "getAllocation r s = Some (k, a)" "clearArea r a = Some c"
        "t = set_allocation k c s"
proof (cases "getAllocation r s")
  case None
  with assms have "t = s"
    by (auto simp: addClear_def getAllocation_def bind_eq_Some_conv bind_eq_None_conv
        split: if_splits option.splits)
  with None show ?thesis by (rule same[rotated])
next
  case (Some e)
  obtain k a where e: "e = (k, a)" by (cases e)
  note g = getAllocation_SomeD[OF Some[unfolded e]]
  have "ms_Allocations s \<noteq> []" using g(1) by auto
  with assms g obtain c where "clearArea r a = Some c" "t = set_allocation k c s"
    by (auto simp: addClear_def bind_eq_Some_conv)
  with Some e show ?thesis by (auto intro: clear)
qed

lemma addClear_wf:
  assumes "mem_wf s" and "addClear r s = Some t"
  shows "mem_wf t"
  using assms(2)
  by (rule addClear_cases) (use assms(1) update_wf clearArea_wf clearArea_SomeD(4,5) in metis)+

lemma mem_fwd_wf:
  assumes "mem_wf s" and "mem_op_ok x" and "mem_fwd x s = Some t"
  shows "mem_wf t"
  using assms
  by (cases x) (auto intro: allocationAdd_wf allocationRemove_wf allocationResize_wf
      addBlock_state_wf addCopy_wf addClear_wf)

lemma mem_bwd_fwd:
  assumes "mem_wf s" and "mem_op_ok x" and "mem_fwd x s = Some t" and "mem_eqv t t'"
  shows "\<exists>s'. mem_bwd x t' = Some s' \<and> mem_eqv s s'"
  using assms
  by (cases x) (auto intro: add_undone remove_undone resize_undone block_undone copy_undone clear_undone)

interpretation mem: reversible mem_fwd mem_bwd mem_op_ok mem_wf mem_eqv
  by unfold_locales (auto intro: mem_eqv_trans mem_fwd_wf mem_bwd_fwd)

end
