(* ===== verification/MemoryView.thy ===== *)
theory MemoryView
  imports MemoryState
begin

text \<open>
  The abstract contract of \<open>MemoryState\<close>: a flat memory, mapping each allocated address to
  its value and initialisation mask. \<open>mem_refines\<close> shows that the map of allocations, with its
  saved areas and in-place updates, implements the flat memory as long as allocations do
  not overlap, and that no operation makes them overlap.
\<close>

section \<open>The flat memory\<close>

type_synonym flat_memory = "u64 \<Rightarrow> (byte \<times> byte) option"

definition cell :: "MemoryAllocation \<Rightarrow> u64 \<Rightarrow> byte \<times> byte" where
  "cell a p = (ma_Data a ! unat (p - ma_Address a), ma_Init a ! unat (p - ma_Address a))"

definition mem_view :: "MemoryState \<Rightarrow> flat_memory" where
  "mem_view s p = map_option (\<lambda>a. cell a p) (findAllocation p s)"

fun flat_step :: "mem_op \<Rightarrow> flat_memory \<Rightarrow> flat_memory" where
  "flat_step (OpAdd p n) m = (\<lambda>q. if q \<in> bytes_of (area p n) then Some (0, 0) else m q)"
| "flat_step (OpRemove p n) m = (\<lambda>q. if q \<in> bytes_of (area p n) then None else m q)"
| "flat_step (OpResize p old new) m =
     (\<lambda>q. if q \<in> bytes_of (area p old) \<inter> bytes_of (area p new) then m q
          else if q \<in> bytes_of (area p new) then Some (0, 0)
          else if q \<in> bytes_of (area p old) then None
          else m q)"
| "flat_step (OpBlock b) m =
     (\<lambda>q. if q \<in> bytes_of (block_area b) then Some (block_Data b ! unat (q - block_Address b), 255)
          else m q)"
| "flat_step (OpCopy src dst n) m =
     (\<lambda>q. if q \<in> bytes_of (area dst n) then m (src + (q - dst)) else m q)"
| "flat_step (OpClear r) m =
     (\<lambda>q. if q \<in> bytes_of r then map_option (\<lambda>(d, i). (d, 0)) (m q) else m q)"

text \<open>
  What the recorder guarantees of the operations it records: new memory was free, an
  allocation is removed or resized with its own size, and an area that is cleared lies in
  one allocation or is not allocated at all.
\<close>

fun mem_op_pre :: "mem_op \<Rightarrow> MemoryState \<Rightarrow> bool" where
  "mem_op_pre (OpAdd p n) s \<longleftrightarrow> mem_op_ok (OpAdd p n) \<and> (\<forall>q \<in> bytes_of (area p n). mem_view s q = None)"
| "mem_op_pre (OpRemove p n) s \<longleftrightarrow>
     (case om_find (ms_Allocations s) p of Some a \<Rightarrow> n = ma_Size a | None \<Rightarrow> n = 0)"
| "mem_op_pre (OpResize p old new) s \<longleftrightarrow>
     mem_op_ok (OpResize p old new) \<and>
     (old \<noteq> 0 \<longrightarrow> map_option ma_Size (om_find (ms_Allocations s) p) = Some old) \<and>
     (\<forall>q \<in> bytes_of (area p new) - bytes_of (area p old). mem_view s q = None)"
| "mem_op_pre (OpBlock b) s \<longleftrightarrow> True"
| "mem_op_pre (OpCopy src dst n) s \<longleftrightarrow> True"
| "mem_op_pre (OpClear r) s \<longleftrightarrow> region_isAllocated r s \<or> (\<forall>q \<in> bytes_of r. mem_view s q = None)"

section \<open>Separation\<close>

definition mem_sep :: "MemoryState \<Rightarrow> bool" where
  "mem_sep s \<longleftrightarrow> (\<forall>k a l b. om_find (ms_Allocations s) k = Some a \<longrightarrow>
     om_find (ms_Allocations s) l = Some b \<longrightarrow> k < l \<longrightarrow> unat k + unat (ma_Size a) \<le> unat l)"

lemma in_entry:
  "entry_wf k a \<Longrightarrow> p \<in> bytes_of (ma_area a) \<longleftrightarrow> unat k \<le> unat p \<and> unat p < unat k + unat (ma_Size a)"
  by (simp add: entry_wf_def bytes_of_area)

lemma findAllocation_iff:
  assumes wf: "mem_wf s" and sep: "mem_sep s"
  shows "findAllocation p s = Some a \<longleftrightarrow>
     (\<exists>k. om_find (ms_Allocations s) k = Some a \<and> p \<in> bytes_of (ma_area a))"
proof
  assume "findAllocation p s = Some a"
  then show "\<exists>k. om_find (ms_Allocations s) k = Some a \<and> p \<in> bytes_of (ma_area a)"
    using wf om.before_find[of "ms_Allocations s" p]
    by (auto simp: findAllocation_def mem_wf_def contains_value_bytes split: option.splits if_splits)
next
  assume "\<exists>k. om_find (ms_Allocations s) k = Some a \<and> p \<in> bytes_of (ma_area a)"
  then obtain k where k: "om_find (ms_Allocations s) k = Some a" "p \<in> bytes_of (ma_area a)" by blast
  have w: "om_wf (ms_Allocations s)" using wf by (simp add: mem_wf_def)
  have e: "unat k \<le> unat p" "unat p < unat k + unat (ma_Size a)"
    using in_entry[OF mem_wf_find[OF wf k(1)]] k(2) by simp_all
  have "l \<le> k" if l: "om_find (ms_Allocations s) l = Some b" "l \<le> p" for l b
  proof (rule ccontr)
    assume "\<not> l \<le> k"
    then have "unat k + unat (ma_Size a) \<le> unat l"
      using sep k(1) l(1) by (auto simp: mem_sep_def)
    with e l(2) show False by (simp add: word_le_nat_alt)
  qed
  then have "om_before p (ms_Allocations s) = Some (k, a)"
    using om.before_Some_iff[OF w] k(1) e(1) by (auto simp: word_le_nat_alt)
  then show "findAllocation p s = Some a"
    using k(2) by (auto simp: findAllocation_def contains_value_bytes)
qed

lemma findAllocation_key:
  assumes "mem_wf s" and "mem_sep s" and "findAllocation p s = Some a"
  shows "om_find (ms_Allocations s) (ma_Address a) = Some a" and "p \<in> bytes_of (ma_area a)"
  using assms mem_wf_find[OF assms(1)] by (auto simp: findAllocation_iff entry_wf_def)

lemma option_ext: "(\<And>v. x = Some v \<longleftrightarrow> y = Some v) \<Longrightarrow> x = y"
  by (cases x; cases y) auto

text \<open>Replacing one allocation by another of any size at the same address.\<close>

lemma view_set:
  assumes wf: "mem_wf s" and sep: "mem_sep s" and b: "entry_wf k b"
    and old: "om_find (ms_Allocations s) k = Some a \<or> om_find (ms_Allocations s) k = None \<and> U = {}"
    and U: "om_find (ms_Allocations s) k = Some a \<Longrightarrow> U = bytes_of (ma_area a)"
    and free: "\<forall>q \<in> bytes_of (ma_area b) - U. mem_view s q = None"
  shows "mem_sep (set_allocation k b s)"
    and "mem_view (set_allocation k b s) p =
           (if p \<in> bytes_of (ma_area b) then Some (cell b p) else if p \<in> U then None else mem_view s p)"
proof -
  let ?A = "ms_Allocations s"
  have w: "om_wf ?A" using wf by (simp add: mem_wf_def)
  have F: "om_find (om_insert k b ?A) = (om_find ?A)(k \<mapsto> b)" using w by (rule om.find_insert)
  have apart: "bytes_of (ma_area c) \<inter> bytes_of (ma_area b) = {}"
    if c: "om_find ?A l = Some c" "l \<noteq> k" for l c
  proof (rule ccontr)
    assume "bytes_of (ma_area c) \<inter> bytes_of (ma_area b) \<noteq> {}"
    then obtain q where q: "q \<in> bytes_of (ma_area c)" "q \<in> bytes_of (ma_area b)" by blast
    have fc: "findAllocation q s = Some c" using c q(1) findAllocation_iff[OF wf sep] by blast
    then have "mem_view s q \<noteq> None" by (simp add: mem_view_def)
    have qO: "q \<in> U"
    proof (rule ccontr)
      assume "q \<notin> U"
      with q(2) have "q \<in> bytes_of (ma_area b) - U" by (rule DiffI)
      with free have "mem_view s q = None" by (rule bspec)
      with \<open>mem_view s q \<noteq> None\<close> show False by simp
    qed
    with old U have oa: "om_find ?A k = Some a" "q \<in> bytes_of (ma_area a)" by auto
    then have "findAllocation q s = Some a" using findAllocation_iff[OF wf sep] by blast
    with fc oa c have "a = c" by simp
    with c oa mem_wf_find[OF wf] have "k = l" by (metis entry_wf_def)
    with c show False by simp
  qed
  have sepb: "unat l + unat (ma_Size c) \<le> unat k" if c: "om_find ?A l = Some c" "l < k" for l c
  proof (rule ccontr)
    assume "\<not> unat l + unat (ma_Size c) \<le> unat k"
    then have "k \<in> bytes_of (ma_area c)"
      using in_entry[OF mem_wf_find[OF wf c(1)]] c(2) by (simp add: word_less_nat_alt)
    moreover have "k \<in> bytes_of (ma_area b)"
      using in_entry[OF b] b by (simp add: entry_wf_def unat_gt_0)
    ultimately show False using apart[OF c(1)] c(2) by auto
  qed
  have sepa: "unat k + unat (ma_Size b) \<le> unat l" if c: "om_find ?A l = Some c" "k < l" for l c
  proof (rule ccontr)
    assume "\<not> unat k + unat (ma_Size b) \<le> unat l"
    then have "l \<in> bytes_of (ma_area b)"
      using in_entry[OF b] c(2) by (simp add: word_less_nat_alt)
    moreover have "l \<in> bytes_of (ma_area c)"
      using in_entry[OF mem_wf_find[OF wf c(1)]] mem_wf_find[OF wf c(1)]
      by (simp add: entry_wf_def unat_gt_0)
    ultimately show False using apart[OF c(1)] c(2) by auto
  qed
  show sep': "mem_sep (set_allocation k b s)"
    using sep sepa sepb by (auto simp: mem_sep_def set_allocation_def F)
  have wf': "mem_wf (set_allocation k b s)" using wf b by (rule set_allocation_wf)
  have find: "findAllocation p (set_allocation k b s) = Some c \<longleftrightarrow>
      (if p \<in> bytes_of (ma_area b) then c = b else p \<notin> U \<and> findAllocation p s = Some c)" for c
  proof -
    have i: "p \<notin> U" if "om_find ?A l = Some c" "l \<noteq> k" "p \<in> bytes_of (ma_area c)" for l
    proof
      assume "p \<in> U"
      with old U have oa: "om_find ?A k = Some a" "p \<in> bytes_of (ma_area a)" by auto
      then have "findAllocation p s = Some a" "findAllocation p s = Some c"
        using that findAllocation_iff[OF wf sep] by blast+
      with that oa mem_wf_find[OF wf] show False by (metis entry_wf_def option.inject)
    qed
    have ii: "p \<notin> bytes_of (ma_area b)"
      if "om_find ?A l = Some c" "l \<noteq> k" "p \<in> bytes_of (ma_area c)" for l
      using apart[OF that(1,2)] that(3) by blast
    have iii: "l \<noteq> k" if "om_find ?A l = Some c" "p \<in> bytes_of (ma_area c)" "p \<notin> U" for l
      using that old U by auto
    have E: "findAllocation p (set_allocation k b s) = Some c \<longleftrightarrow>
        (\<exists>l. (if l = k then b = c else om_find ?A l = Some c) \<and> p \<in> bytes_of (ma_area c))"
      unfolding findAllocation_iff[OF wf' sep'] by (simp add: set_allocation_def F)
    have E': "findAllocation p s = Some c \<longleftrightarrow>
        (\<exists>l. om_find ?A l = Some c \<and> p \<in> bytes_of (ma_area c))"
      by (rule findAllocation_iff[OF wf sep])
    show ?thesis
    proof (cases "p \<in> bytes_of (ma_area b)")
      case True
      have "c = b" if "(if l = k then b = c else om_find ?A l = Some c)" "p \<in> bytes_of (ma_area c)" for l
        using that ii[of l] True by (cases "l = k") auto
      with True E show ?thesis by auto
    next
      case False
      have "p \<notin> U \<and> om_find ?A l = Some c"
        if "(if l = k then b = c else om_find ?A l = Some c)" "p \<in> bytes_of (ma_area c)" for l
        using that i[of l] False by (cases "l = k") auto
      with False E E' iii show ?thesis by metis
    qed
  qed
  show "mem_view (set_allocation k b s) p =
      (if p \<in> bytes_of (ma_area b) then Some (cell b p) else if p \<in> U then None else mem_view s p)"
  proof (cases "p \<in> bytes_of (ma_area b)")
    case True
    then show ?thesis using find[of b] by (simp add: mem_view_def)
  next
    case out: False
    show ?thesis
    proof (cases "p \<in> U")
      case True
      then have "findAllocation p (set_allocation k b s) = None"
        using find out by (cases "findAllocation p (set_allocation k b s)") auto
      with True out show ?thesis by (simp add: mem_view_def)
    next
      case False
      then have "findAllocation p (set_allocation k b s) = findAllocation p s"
        using find out by (intro option_ext) simp
      with False out show ?thesis by (simp add: mem_view_def)
    qed
  qed
qed

text \<open>The case of the in-place updates: same place, same size.\<close>

lemma view_update:
  assumes wf: "mem_wf s" and sep: "mem_sep s" and a: "om_find (ms_Allocations s) k = Some a"
    and b: "alloc_wf b" "ma_Address b = ma_Address a" "ma_Size b = ma_Size a"
  shows "mem_sep (set_allocation k b s)"
    and "mem_view (set_allocation k b s) p =
           (if p \<in> bytes_of (ma_area a) then Some (cell b p) else mem_view s p)"
proof -
  have e: "entry_wf k b" using mem_wf_find[OF wf a] b by (simp add: entry_wf_def)
  note v = view_set[OF wf sep e, of a "bytes_of (ma_area a)"]
  show "mem_sep (set_allocation k b s)" using v(1) a b by simp
  show "mem_view (set_allocation k b s) p =
           (if p \<in> bytes_of (ma_area a) then Some (cell b p) else mem_view s p)"
    using v(2) a b by simp
qed

lemma view_inside:
  assumes "mem_wf s" and "mem_sep s" and "om_find (ms_Allocations s) k = Some a"
    and "p \<in> bytes_of (ma_area a)"
  shows "mem_view s p = Some (cell a p)"
  using findAllocation_iff[OF assms(1,2)] assms(3,4) by (auto simp: mem_view_def)

text \<open>A position of a contained area, as an index into the vectors.\<close>

lemma area_index:
  assumes e: "entry_wf k a" and s: "k \<le> iv_Start r"
    and b: "unat (iv_Start r - k) + area_len r \<le> unat (ma_Size a)"
    and p: "p \<in> bytes_of (ma_area a)"
  shows "p \<in> bytes_of r \<longleftrightarrow>
    unat (iv_Start r - k) \<le> unat (p - k) \<and> unat (p - k) < unat (iv_Start r - k) + area_len r"
proof -
  have ks: "unat (iv_Start r - k) = unat (iv_Start r) - unat k" using s by (rule unat_diff_le)
  have k: "unat k + unat (ma_Size a) < 2 ^ 64" using e by (simp add: entry_wf_def)
  have sk: "unat k \<le> unat (iv_Start r)" using s by (simp add: word_le_nat_alt)
  have bb: "unat (iv_Start r) + area_len r \<le> unat k + unat (ma_Size a)"
    using b ks sk by linarith
  have "iv_End r = iv_Start r + interval_length r" by (simp add: interval_length_def)
  then have end_r: "unat (iv_End r) = unat (iv_Start r) + area_len r"
    using bb k by (simp add: unat_add_no_wrap)
  have pk: "unat k \<le> unat p" using in_entry[OF e] p by simp
  then have "unat (p - k) = unat p - unat k" by (simp add: unat_diff_le word_le_nat_alt)
  with ks sk pk end_r show ?thesis
    by (auto simp: bytes_of_def word_le_nat_alt word_less_nat_alt)
qed

lemma in_bytes_offset: "p \<in> bytes_of r \<Longrightarrow> unat (p - iv_Start r) < area_len r"
  by (auto simp: bytes_of_def interval_length_def word_le_nat_alt word_less_nat_alt unat_diff_le
      intro: diff_less_mono)

lemma contained_start:
  "entry_wf k a \<Longrightarrow> contains_interval (ma_area a) r \<Longrightarrow> k \<le> iv_Start r"
  by (simp add: entry_wf_def contains_interval_def)

section \<open>The operations refine the flat memory\<close>

text \<open>
  A write into area \<open>r\<close> of an allocation: the cells of the area are the written bytes and
  masks, all others are as before.
\<close>

lemma view_write:
  assumes wf: "mem_wf s" and sep: "mem_sep s" and g: "getAllocation r s = Some (k, a)"
    and c: "clearArea r a = Some c"
    and d: "overwrite (area_off a r) ds (ma_Data c) = Some data"
    and i: "overwrite (area_off a r) ms (ma_Init c) = Some init"
    and len: "length ds = area_len r" "length ms = area_len r"
  defines "t \<equiv> set_allocation k (c\<lparr>ma_Data := data, ma_Init := init\<rparr>) s"
  shows "mem_sep t"
    and "mem_view t p = (if p \<in> bytes_of r
           then Some (ds ! unat (p - iv_Start r), ms ! unat (p - iv_Start r)) else mem_view s p)"
proof -
  note e = getAllocation_wfD[OF wf g] and G = getAllocation_SomeD[OF g]
  note C = clearArea_SomeD[OF c] and st = contained_start[OF e(2) G(2)]
  have ak: "ma_Address a = k" and awf: "alloc_wf a" using e(2) by (simp_all add: entry_wf_def)
  let ?b = "c\<lparr>ma_Data := data, ma_Init := init\<rparr>"
  have bwf: "alloc_wf ?b"
    using clearArea_wf[OF c awf] length_overwrite[OF d] length_overwrite[OF i]
    by (simp add: alloc_wf_def)
  note u = view_update[OF wf sep e(1) bwf] 
  show "mem_sep t" unfolding t_def using C(4,5) by (intro u(1)) simp_all
  have v: "mem_view t p = (if p \<in> bytes_of (ma_area a) then Some (cell ?b p) else mem_view s p)"
    unfolding t_def using C(4,5) by (intro u(2)) simp_all
  have L: "length (ma_Data c) = unat (ma_Size a)" "length (ma_Init c) = unat (ma_Size a)"
    "length (ma_Init a) = unat (ma_Size a)"
    using clearArea_wf[OF c awf] C(5) awf by (simp_all add: alloc_wf_def)
  have bnd: "area_off a r + area_len r \<le> unat (ma_Size a)"
    using d L len by (simp add: bytes_simps)
  have sub: "p \<in> bytes_of (ma_area a)" if "p \<in> bytes_of r"
    using that G(2) by (auto simp: bytes_of_def contains_interval_def)
  show "mem_view t p = (if p \<in> bytes_of r
           then Some (ds ! unat (p - iv_Start r), ms ! unat (p - iv_Start r)) else mem_view s p)"
  proof (cases "p \<in> bytes_of (ma_area a)")
    case False
    with sub v show ?thesis by auto
  next
    case True
    have pi: "unat (p - k) < unat (ma_Size a)"
      using in_entry[OF e(2)] True by (auto simp: unat_diff_le word_le_nat_alt)
    note ix = area_index[OF e(2) st bnd[unfolded ak] True]
    show ?thesis
    proof (cases "p \<in> bytes_of r")
      case inside: True
      then have "iv_Start r \<le> p" by (simp add: bytes_of_def)
      then have "unat (p - iv_Start r) = unat (p - k) - unat (iv_Start r - k)"
        using st by (simp add: unat_diff_le)
          (metis diff_diff_left le_add_diff_inverse word_le_nat_alt)
      with inside True v ix pi L len nth_overwrite[OF d, of "unat (p - k)"]
        nth_overwrite[OF i, of "unat (p - k)"] C(4) ak
      show ?thesis by (simp add: cell_def)
    next
      case outside: False
      have "ma_Init c ! unat (p - k) = ma_Init a ! unat (p - k)"
        using nth_overwrite[OF C(11), of "unat (p - k)"] ix outside pi L ak by auto
      with outside True v ix pi L len nth_overwrite[OF d, of "unat (p - k)"]
        nth_overwrite[OF i, of "unat (p - k)"] C(4,6) ak view_inside[OF wf sep e(1) True]
      show ?thesis by (auto simp: cell_def)
    qed
  qed
qed

lemma view_block:
  assumes wf: "mem_wf s" and sep: "mem_sep s" and f: "addBlock_state b s = Some t"
  shows "mem_sep t \<and> mem_view t = flat_step (OpBlock b) (mem_view s)"
proof -
  from f obtain k a a' where g: "getAllocation (block_area b) s = Some (k, a)"
    and ab: "addBlock b a = Some a'" and te: "t = set_allocation k a' s"
    by (auto simp: addBlock_state_def bind_eq_Some_conv)
  from ab obtain c data init where c: "clearArea (block_area b) a = Some c"
    and d: "overwrite (area_off a (block_area b)) (block_Data b) (ma_Data c) = Some data"
    and i: "overwrite (area_off a (block_area b)) (replicate (length (block_Data b)) 255) (ma_Init c) = Some init"
    and ae: "a' = c\<lparr>ma_Data := data, ma_Init := init\<rparr>" by (rule addBlock_SomeE)
  have awf: "alloc_wf a" using getAllocation_wfD(2)[OF wf g] by (rule entry_alloc_wf)
  have len: "length (block_Data b) = area_len (block_area b)"
    using written_area_len[OF clearArea_wf[OF c awf] d] by (simp add: block_area_def)
  then have len': "length (replicate (length (block_Data b)) (255 :: byte)) = area_len (block_area b)"
    by simp
  note v = view_write[OF wf sep g c d i len len', folded ae te]
  have "unat (p - block_Address b) < length (block_Data b)" if "p \<in> bytes_of (block_area b)" for p
    using in_bytes_offset[OF that, folded len] by (simp add: block_area_def)
  then have "mem_view t p = flat_step (OpBlock b) (mem_view s) p" for p
    using v(2)[of p] by (simp add: block_area_def)
  with v(1) show ?thesis by blast
qed

text \<open>What the view handed to \<open>addArea\<close> by \<open>addCopy\<close> reads: the source's cells before the copy.\<close>

lemma copied_bytes:
  assumes g: "sk = dk \<Longrightarrow> sa = da"
    and d: "getAreaData (area src n) sa = Some data"
    and i: "getAreaInitialization (area src n) sa = Some init"
    and c: "clearArea (area dst n) da = Some c"
    and v: "read_view (if sk = dk then OwnView (unat (src - ma_Address sa)) (unat n) else Bytes data init)
              (unat (dst - ma_Address da)) c = Some (ds, ms)"
    and len: "length (ma_Init da) = length (ma_Data da)" and j: "j < unat n"
  shows "ds ! j = ma_Data sa ! (unat (src - ma_Address sa) + j)"
    and "ms ! j = ma_Init sa ! (unat (src - ma_Address sa) + j)"
proof -
  let ?so = "unat (src - ma_Address sa)" and ?do = "unat (dst - ma_Address da)"
  note C = clearArea_SomeD[OF c]
  have D: "slice ?so (unat n) (ma_Data sa) = Some data" "slice ?so (unat n) (ma_Init sa) = Some init"
    using d i by (simp_all add: getAreaData_def getAreaInitialization_def)
  have "ds ! j = ma_Data sa ! (?so + j) \<and> ms ! j = ma_Init sa ! (?so + j)"
  proof (cases "sk = dk")
    case False
    with v D show ?thesis using nth_slice j by (auto simp: read_view_def bind_eq_Some_conv)
  next
    case True
    with v have r: "?so + unat n \<le> ?do \<or> ?do + unat n \<le> ?so"
      "slice ?so (unat n) (ma_Data c) = Some ds" "slice ?so (unat n) (ma_Init c) = Some ms"
      by (auto simp: read_view_def bind_eq_Some_conv)
    have "ms ! j = ma_Init c ! (?so + j)" "ds ! j = ma_Data c ! (?so + j)"
      using r(2,3) j by (auto dest: nth_slice)
    moreover have "ma_Init c ! (?so + j) = ma_Init da ! (?so + j)"
      using nth_overwrite[OF C(11), of "?so + j"] r(1,3) j length_overwrite[OF C(11)]
      by (auto simp: bytes_simps)
    ultimately show ?thesis using g[OF True] C(6) by simp
  qed
  then show "ds ! j = ma_Data sa ! (?so + j)" "ms ! j = ma_Init sa ! (?so + j)" by simp_all
qed

lemma view_copy:
  assumes wf: "mem_wf s" and sep: "mem_sep s" and f: "addCopy src dst n s = Some t"
  shows "mem_sep t \<and> mem_view t = flat_step (OpCopy src dst n) (mem_view s)"
proof -
  from f obtain sk sa dk da da' data init where gs: "getAllocation (area src n) s = Some (sk, sa)"
    and g: "getAllocation (area dst n) s = Some (dk, da)"
    and d: "getAreaData (area src n) sa = Some data"
    and i: "getAreaInitialization (area src n) sa = Some init"
    and ab: "addArea dst (if sk = dk then OwnView (unat (src - ma_Address sa)) (unat n)
                      else Bytes data init) da = Some da'"
    and te: "t = set_allocation dk da' s"
    by (rule addCopy_SomeE)
  let ?v = "if sk = dk then OwnView (unat (src - ma_Address sa)) (unat n) else Bytes data init"
  note vs = view_size_copy[OF d, of "sk = dk" _ init]
  note es = getAllocation_wfD[OF wf gs] and ed = getAllocation_wfD[OF wf g]
  from ab obtain c ds ms data' init' where c: "clearArea (area dst n) da = Some c"
    and v: "read_view ?v (unat (dst - ma_Address da)) c = Some (ds, ms)"
    and dd: "overwrite (unat (dst - ma_Address da)) ds (ma_Data c) = Some data'"
    and di: "overwrite (unat (dst - ma_Address da)) ms (ma_Init c) = Some init'"
    and ae: "da' = c\<lparr>ma_Data := data', ma_Init := init'\<rparr>"
    by (rule addArea_SomeE) (use vs in simp)
  have vl: "view_size ?v = unat n" using d by (auto simp: getAreaData_def dest: length_slice)
  have l: "length ds = area_len (area dst n)" "length ms = area_len (area dst n)"
    using read_view_length[OF v] vl by simp_all
  note vw = view_write[OF wf sep g c, of ds data' ms init', folded ae te]
  have same: "sk = dk \<Longrightarrow> sa = da" using es(1) ed(1) by simp
  have lda: "length (ma_Init da) = length (ma_Data da)"
    using ed(2) by (simp add: entry_wf_def alloc_wf_def)
  have "mem_view t q = flat_step (OpCopy src dst n) (mem_view s) q" for q
  proof (cases "q \<in> bytes_of (area dst n)")
    case True
    let ?j = "unat (q - dst)" and ?p = "src + (q - dst)"
    have j: "?j < unat n" using in_bytes_offset[OF True] by simp
    have sz: "unat (src - ma_Address sa) + unat n \<le> unat (ma_Size sa)"
      using d entry_alloc_wf[OF es(2)] by (auto simp: getAreaData_def bytes_simps alloc_wf_def)
    have sk: "ma_Address sa = sk" "unat sk + unat (ma_Size sa) < 2 ^ 64" using es(2) by (simp_all add: entry_wf_def)
    have le: "sk \<le> src" using contained_start[OF es(2) getAllocation_SomeD(2)[OF gs]] by simp
    then have off: "unat (src - sk) = unat src - unat sk" "unat sk \<le> unat src"
      by (simp_all add: unat_diff_le word_le_nat_alt)
    have up: "unat ?p = unat src + ?j"
      using sz[unfolded sk(1)] sk(2) off j by (intro unat_add_no_wrap) linarith
    have pin: "?p \<in> bytes_of (ma_area sa)"
      using in_entry[OF es(2)] up sz sk off j by simp
    have ix: "unat (?p - sk) = unat (src - sk) + ?j"
      using up off by (simp add: unat_diff_le word_le_nat_alt)
    note cb = copied_bytes[OF same d i c v lda j]
    have "mem_view s ?p = Some (ds ! ?j, ms ! ?j)"
      using view_inside[OF wf sep es(1) pin] cb ix sk by (simp add: cell_def)
    with True vw(2) dd di l show ?thesis by simp
  qed (use vw(2) dd di l in simp)
  with vw(1) dd di l show ?thesis by (simp add: fun_eq_iff)
qed

lemma view_clear:
  assumes wf: "mem_wf s" and sep: "mem_sep s" and f: "addClear r s = Some t"
    and pre: "mem_op_pre (OpClear r) s"
  shows "mem_sep t \<and> mem_view t = flat_step (OpClear r) (mem_view s)"
  using f
proof (cases rule: addClear_cases)
  case same
  have "\<not> region_isAllocated r s"
    using same(2) by (auto simp: region_isAllocated_def findAllocation_def getAllocation_def
        bind_eq_None_conv split: option.splits if_splits)
  with pre have "\<forall>q \<in> bytes_of r. mem_view s q = None" by simp
  with same(1) sep show ?thesis by (auto simp: fun_eq_iff)
next
  case (clear k a c)
  note C = clearArea_SomeD[OF clear(2)]
  note e = getAllocation_wfD[OF wf clear(1)]
  let ?off = "area_off a r" and ?n = "area_len r"
  have cwf: "alloc_wf c" by (rule clearArea_wf[OF clear(2) entry_alloc_wf[OF e(2)]])
  have Is: "slice ?off ?n (ma_Init c) = Some (replicate ?n 0)"
    using slice_overwrite[OF C(11)] by simp
  then obtain ds where ds: "slice ?off ?n (ma_Data c) = Some ds"
    using cwf by (auto simp: bytes_simps alloc_wf_def)
  note vw = view_write[OF wf sep clear(1,2) overwrite_slice[OF ds] overwrite_slice[OF Is]
      length_slice[OF ds] length_replicate]
  have te: "t = set_allocation k (c\<lparr>ma_Data := ma_Data c, ma_Init := ma_Init c\<rparr>) s"
    using clear(3) by simp
  have "mem_view t q = flat_step (OpClear r) (mem_view s) q" for q
  proof (cases "q \<in> bytes_of r")
    case True
    have j: "unat (q - iv_Start r) < ?n" by (rule in_bytes_offset[OF True])
    have qa: "q \<in> bytes_of (ma_area a)"
      using True C(1) by (auto simp: bytes_of_def contains_interval_def)
    have le: "ma_Address a \<le> iv_Start r" "iv_Start r \<le> q"
      using C(1) True by (simp_all add: contains_interval_def bytes_of_def)
    then have ix: "unat (q - ma_Address a) = ?off + unat (q - iv_Start r)"
      by (simp add: unat_diff_le word_le_nat_alt)
    have "ds ! unat (q - iv_Start r) = ma_Data a ! unat (q - ma_Address a)"
      using nth_slice[OF ds j] C(6) ix by simp
    with vw(2)[of q] True view_inside[OF wf sep e(1) qa] j te show ?thesis by (simp add: cell_def)
  qed (use vw(2) te in simp)
  with vw(1) te show ?thesis by (simp add: fun_eq_iff)
qed

lemma bytes_of_empty [simp]: "bytes_of (area p 0) = {}"
  by (auto simp: bytes_of_def)

lemma new_cell: "unat (q - p) < unat n \<Longrightarrow> cell (new_MemoryAllocation p n) q = (0, 0)"
  by (simp add: cell_def new_MemoryAllocation_def)

lemma view_add:
  assumes wf: "mem_wf s" and sep: "mem_sep s" and f: "allocationAdd p n s = Some t"
    and pre: "unat p + unat n < 2 ^ 64" "\<forall>q \<in> bytes_of (area p n). mem_view s q = None"
  shows "mem_sep t \<and> mem_view t = flat_step (OpAdd p n) (mem_view s)"
proof (cases "n = 0")
  case True
  with f sep show ?thesis by (simp add: allocationAdd_def)
next
  case False
  with f have fresh: "om_find (ms_Allocations s) p = None"
    and te: "t = set_allocation p (new_MemoryAllocation p n) s"
    by (auto simp: allocationAdd_def)
  have sel: "ma_Address (new_MemoryAllocation p n) = p" "ma_Size (new_MemoryAllocation p n) = n"
    by (simp_all add: new_MemoryAllocation_def)
  have e: "entry_wf p (new_MemoryAllocation p n)"
    using False pre(1) by (simp add: entry_wf_def sel)
  note v = view_set[OF wf sep e, where U = "{}", folded te, unfolded sel]
  have "mem_view t q = flat_step (OpAdd p n) (mem_view s) q" for q
    using v(2)[of undefined q] fresh pre(2) in_bytes_offset[of q "area p n"]
    by (auto simp: new_cell)
  with v(1) fresh pre(2) show ?thesis by (simp add: fun_eq_iff)
qed

lemma view_remove:
  assumes wf: "mem_wf s" and sep: "mem_sep s" and f: "allocationRemove p n s = Some t"
    and pre: "mem_op_pre (OpRemove p n) s"
  shows "mem_sep t \<and> mem_view t = flat_step (OpRemove p n) (mem_view s)"
proof (cases "n = 0")
  case True
  with f sep show ?thesis by (simp add: allocationRemove_def)
next
  case False
  let ?A = "ms_Allocations s"
  from False f obtain a where a: "om_find ?A p = Some a"
    and te: "t = s\<lparr>ms_Previous := a # ms_Previous s, ms_Allocations := om_erase p ?A\<rparr>"
    by (auto simp: allocationRemove_def bind_eq_Some_conv)
  have n: "n = ma_Size a" and ap: "ma_Address a = p"
    using pre a mem_wf_find[OF wf a] by (simp_all add: entry_wf_def)
  have w: "om_wf ?A" using wf by (simp add: mem_wf_def)
  have F: "om_find (ms_Allocations t) = (om_find ?A)(p := None)"
    using om.find_erase[OF w] te by simp
  have wf': "mem_wf t" by (rule allocationRemove_wf[OF wf f])
  have sep': "mem_sep t" using sep by (auto simp: mem_sep_def F)
  have R: "findAllocation q t = Some c \<longleftrightarrow> q \<notin> bytes_of (area p n) \<and> findAllocation q s = Some c" for q c
  proof -
    have "q \<in> bytes_of (area p n) \<longleftrightarrow> findAllocation q s = Some a"
      using a n ap findAllocation_iff[OF wf sep] by auto
    moreover have "findAllocation q t = Some c \<longleftrightarrow> findAllocation q s = Some c \<and> c \<noteq> a"
    proof -
      have "c = a \<longleftrightarrow> l = p" if "om_find ?A l = Some c" for l
      proof
        assume "c = a"
        with mem_wf_find[OF wf that] ap show "l = p" unfolding entry_wf_def by blast
      qed (use that a in simp)
      then show ?thesis
        unfolding findAllocation_iff[OF wf' sep'] findAllocation_iff[OF wf sep] F fun_upd_apply
        by (metis option.distinct(1))
    qed
    ultimately show ?thesis by auto
  qed
  have "findAllocation q t = (if q \<in> bytes_of (area p n) then None else findAllocation q s)" for q
    by (rule option_ext) (simp add: R)
  then have "mem_view t q = flat_step (OpRemove p n) (mem_view s) q" for q
    by (simp add: mem_view_def)
  with sep' show ?thesis by (simp add: fun_eq_iff)
qed

lemma resized_cell:
  assumes "alloc_wf a" and "unat (q - ma_Address a) < unat n"
  shows "cell (ma_resize n a) q =
    (if unat (q - ma_Address a) < unat (ma_Size a) then cell a q else (0, 0))"
  using assms by (simp add: cell_def ma_resize_def nth_vector_resize alloc_wf_def)

lemma view_resize:
  assumes wf: "mem_wf s" and sep: "mem_sep s" and f: "allocationResize p old new s = Some t"
    and pre: "mem_op_pre (OpResize p old new) s"
  shows "mem_sep t \<and> mem_view t = flat_step (OpResize p old new) (mem_view s)"
proof -
  have ok: "unat p + unat old < 2 ^ 64" "unat p + unat new < 2 ^ 64"
    and free: "\<forall>q \<in> bytes_of (area p new) - bytes_of (area p old). mem_view s q = None"
    using pre by simp_all
  consider (add) "old = 0" | (remove) "old \<noteq> 0" "new = 0" | (resize) "old \<noteq> 0" "new \<noteq> 0" by blast
  then show ?thesis
  proof cases
    case add
    with f have "allocationAdd p new s = Some t" by (simp add: allocationResize_def)
    from view_add[OF wf sep this ok(2)] free add show ?thesis by (simp cong: if_cong)
  next
    case remove
    with f have r: "allocationRemove p old s = Some t" by (simp add: allocationResize_def)
    have "mem_op_pre (OpRemove p old) s" using pre remove by (auto split: option.splits)
    from view_remove[OF wf sep r this] remove show ?thesis by (simp cong: if_cong)
  next
    case resize
    with f obtain k a c where g: "getAllocation (area p old) s = Some (k, a)"
      and sz: "ma_Size a = old"
      and c: "(if new < old then clearArea (area (p + new) (old - new)) a else Some a) = Some c"
      and te: "t = set_allocation k (ma_resize new c) s"
      by (auto simp: allocationResize_def bind_eq_Some_conv)
    note e = getAllocation_wfD[OF wf g] and adr = resize_same_address[OF wf g sz ok(1)]
    have awf: "alloc_wf a" using e(2) by (rule entry_alloc_wf)
    have cwf: "alloc_wf c" using c awf clearArea_wf by (auto split: if_splits)
    have cs: "ma_Address c = p" "ma_Size c = old"
      using c adr sz clearArea_SomeD(4,5)[of _ a c] by (auto split: if_splits)
    have place: "ma_Address (ma_resize new c) = p" "ma_Size (ma_resize new c) = new"
      using cs by (simp_all add: ma_resize_def)
    have e': "entry_wf p (ma_resize new c)"
      using ok resize place by (simp add: entry_wf_def)
    have keep: "cell c q = cell a q" if "unat (q - p) < unat new" "unat (q - p) < unat old" for q
    proof (cases "new < old")
      case True
      with c have cl: "clearArea (area (p + new) (old - new)) a = Some c" by simp
      have "unat (q - p) < length (ma_Init a)" using that sz awf by (simp add: alloc_wf_def)
      then show ?thesis
        using nth_overwrite[OF clearArea_SomeD(11)[OF cl], of "unat (q - p)"] that adr
          clearArea_SomeD(4,6)[OF cl] by (simp add: cell_def)
    qed (use c in simp)
    have fa: "om_find (ms_Allocations s) p = Some a" using e(1) adr(2) by simp
    have inside: "mem_view s q = Some (cell a q)" if "q \<in> bytes_of (area p old)" for q
      using view_inside[OF wf sep fa] that adr sz by simp
    have te': "t = set_allocation p (ma_resize new c) s" using te adr(2) by simp
    note v = view_set[OF wf sep e', of a "bytes_of (area p old)", folded te', unfolded place]

    have bo: "bytes_of (area p old) = bytes_of (ma_area a)" using adr(1) sz by simp
    have v1: "mem_sep t" by (rule v(1)) (use fa bo free in simp_all)
    have v2: "mem_view t q = (if q \<in> bytes_of (area p new) then Some (cell (ma_resize new c) q)
        else if q \<in> bytes_of (area p old) then None else mem_view s q)" for q
      by (rule v(2)) (use fa bo free in simp_all)
    have "mem_view t q = flat_step (OpResize p old new) (mem_view s) q" for q
    proof (cases "q \<in> bytes_of (area p new)")
      case True
      have n: "unat (q - p) < unat new" using in_bytes_offset[OF True] by simp
      have pq: "p \<le> q" using True by (simp add: bytes_of_def)
      then have "unat (q - p) = unat q - unat p" "unat p \<le> unat q"
        by (simp_all add: unat_diff_le word_le_nat_alt)
      then have o: "q \<in> bytes_of (area p old) \<longleftrightarrow> unat (q - p) < unat old"
        unfolding bytes_of_area[OF ok(1)] by linarith
      have "cell (ma_resize new c) q = (if unat (q - p) < unat old then cell c q else (0, 0))"
        using resized_cell[OF cwf, of q new] n unfolding cs by simp
      then show ?thesis
        using True o keep[OF n] inside[of q] by (simp add: v2)
    next
      case False
      then show ?thesis by (simp add: v2)
    qed
    with v1 show ?thesis by (simp add: fun_eq_iff)
  qed
qed

lemma mem_step_refines:
  assumes "mem_wf s" and "mem_sep s" and "mem_op_pre x s" and "mem_fwd x s = Some t"
  shows "mem_sep t \<and> mem_view t = flat_step x (mem_view s)"
proof (cases x)
  case (OpAdd p n)
  then show ?thesis using assms view_add by simp
next
  case (OpRemove p n)
  then show ?thesis using assms(4) view_remove[OF assms(1,2)] assms(3) by simp
next
  case (OpResize p old new)
  then show ?thesis using assms(4) view_resize[OF assms(1,2)] assms(3) by simp
next
  case (OpBlock b)
  then show ?thesis using assms(4) view_block[OF assms(1,2)] by simp
next
  case (OpCopy src dst n)
  then show ?thesis using assms(4) view_copy[OF assms(1,2)] by simp
next
  case (OpClear r)
  then show ?thesis using assms(4) view_clear[OF assms(1,2)] assms(3) by simp
qed

section \<open>Properties\<close>

text \<open>A recorded history whose operations all meet their preconditions.\<close>

fun mem_history_ok :: "mem_op list \<Rightarrow> MemoryState \<Rightarrow> bool" where
  "mem_history_ok [] s \<longleftrightarrow> True"
| "mem_history_ok (x # xs) s \<longleftrightarrow>
     mem_op_pre x s \<and> mem_op_ok x \<and> (case mem_fwd x s of None \<Rightarrow> True | Some t \<Rightarrow> mem_history_ok xs t)"

lemma mem_history_refines:
  "mem_wf s \<Longrightarrow> mem_sep s \<Longrightarrow> mem_history_ok xs s \<Longrightarrow> run_ops mem_fwd xs s = Some t \<Longrightarrow>
   mem_sep t \<and> mem_view t = fold flat_step xs (mem_view s)"
proof (induction xs arbitrary: s)
  case (Cons x xs)
  from Cons.prems(4) obtain u where u: "mem_fwd x s = Some u" "run_ops mem_fwd xs u = Some t"
    by (auto simp: bind_eq_Some_conv)
  with Cons.prems(3) have ok: "mem_op_pre x s" "mem_op_ok x" "mem_history_ok xs u" by simp_all
  note r = mem_step_refines[OF Cons.prems(1,2) ok(1) u(1)]
  from Cons.IH[OF mem_fwd_wf[OF Cons.prems(1) ok(2) u(1)] _ ok(3) u(2)] r show ?case by simp
qed simp

lemma mem_sep_empty: "mem_sep empty_MemoryState"
  by (simp add: mem_sep_def empty_MemoryState_def)

lemma mem_view_empty: "mem_view empty_MemoryState = (\<lambda>_. None)"
  by (simp add: mem_view_def findAllocation_def empty_MemoryState_def fun_eq_iff)

text \<open>A short history used by the witnesses: every kind of operation occurs.\<close>

definition sample_history :: "mem_op list" where
  "sample_history =
     [OpAdd 16 4, OpBlock \<lparr>block_Address = 16, block_Data = [7, 9]\<rparr>, OpCopy 16 18 2,
      OpResize 16 4 3, OpAdd 32 2, OpCopy 17 32 2, OpClear (area 17 2),
      OpRemove 32 2, OpClear (area 64 8)]"

text \<open>C4: Rewinding any recorded sequence of memory operations (allocation, deallocation,
  resizing, writes, copies, clears), newest first, succeeds and restores the recreated memory
  as it was before the sequence, up to the values of bytes that were not initialised.\<close>

theorem memory_rewinds:
  assumes "mem_wf s" and "list_all mem_op_ok xs" and "run_ops mem_fwd xs s = Some t"
  shows "\<exists>s'. run_ops mem_bwd (rev xs) t = Some s' \<and> mem_eqv s s'"
  using assms by (rule mem.rewind_run_self)

lemma sample_history_runs:
  "run_ops mem_fwd sample_history empty_MemoryState \<noteq> None"
  by code_simp

theorem memory_rewinds_witness:
  "\<exists>s'. run_ops mem_bwd (rev sample_history)
       (the (run_ops mem_fwd sample_history empty_MemoryState)) = Some s' \<and>
     mem_eqv empty_MemoryState s'"
  by (rule memory_rewinds[OF mem_wf_empty])
    (use sample_history_runs in \<open>auto simp: sample_history_def\<close>)

text \<open>C5: From the empty state, the recreated memory after a recorded history is exactly the
  flat memory obtained by applying each operation's effect on addresses: what a byte holds
  and which of its bits are initialised depends only on the history, not on how the
  allocations and saved areas represent it.\<close>

theorem memory_refines_flat:
  assumes "mem_history_ok xs empty_MemoryState"
    and "run_ops mem_fwd xs empty_MemoryState = Some t"
  shows "mem_view t = fold flat_step xs (\<lambda>_. None)"
  using mem_history_refines[OF mem_wf_empty mem_sep_empty assms] by (simp add: mem_view_empty)

definition sample_prefix :: "mem_op list" where
  "sample_prefix =
     [OpAdd 16 4, OpBlock \<lparr>block_Address = 16, block_Data = [7, 9]\<rparr>, OpCopy 16 18 2]"

lemma sample_prefix_ok: "mem_history_ok sample_prefix empty_MemoryState"
  by (simp add: sample_prefix_def mem_view_empty split: option.splits)

lemma sample_prefix_runs:
  "run_ops mem_fwd sample_prefix empty_MemoryState \<noteq> None"
  by code_simp

theorem memory_refines_flat_witness:
  "mem_view (the (run_ops mem_fwd sample_prefix empty_MemoryState)) 19 = Some (9, 255)"
proof -
  have "mem_view (the (run_ops mem_fwd sample_prefix empty_MemoryState)) =
      fold flat_step sample_prefix (\<lambda>_. None)"
    by (rule memory_refines_flat[OF sample_prefix_ok]) (use sample_prefix_runs in simp)
  then show ?thesis
    by (simp add: sample_prefix_def bytes_of_def block_area_def)
qed

end
