(* ===== verification/IntervalMap.thy ===== *)
theory IntervalMap
  imports Prelude
begin

text \<open>
  \<open>seec::IntervalMapVector\<close> (\<open>include/seec/DSA/IntervalMapVector.hpp\<close>): a vector of closed
  intervals \<open>[Begin, End]\<close> with values, kept in increasing order of \<open>Begin\<close>. Iterators are
  positions in the vector; \<open>end()\<close> is its length. \<open>std::upper_bound\<close> on a sorted vector is
  the length of the prefix of items whose \<open>Begin\<close> is at most the key.
\<close>

section \<open>Operations\<close>

record ('k, 'v) IntervalMapItem =
  item_Begin :: 'k
  item_End :: 'k
  item_Value :: 'v

type_synonym ('k, 'v) imap = "('k, 'v) IntervalMapItem list"

definition makeIntervalMapItem :: "'k \<Rightarrow> 'k \<Rightarrow> 'v \<Rightarrow> ('k, 'v) IntervalMapItem" where
  "makeIntervalMapItem b e v = \<lparr>item_Begin = b, item_End = e, item_Value = v\<rparr>"

definition imv_upper_bound :: "'k::linorder \<Rightarrow> ('k, 'v) imap \<Rightarrow> nat" where
  "imv_upper_bound k m = length (takeWhile (\<lambda>it. item_Begin it \<le> k) m)"

definition imv_find :: "'k::linorder \<Rightarrow> ('k, 'v) imap \<Rightarrow> nat" where
  "imv_find k m =
     (let it = imv_upper_bound k m in
      if it = 0 then length m
      else if k \<le> item_End (m ! (it - 1)) then it - 1
      else length m)"

definition imv_count :: "'k::linorder \<Rightarrow> ('k, 'v) imap \<Rightarrow> nat" where
  "imv_count k m = (if imv_find k m \<noteq> length m then 1 else 0)"

text \<open>
  \<open>count(range)\<close>: the loop \<open>while (It->Begin <= range.second)\<close> reads the item before it
  compares with the end, so entering it at the end of the vector reads past the end.
\<close>

function imv_count_loop :: "'k::linorder \<Rightarrow> ('k, 'v) imap \<Rightarrow> nat \<Rightarrow> nat \<Rightarrow> nat option" where
  "imv_count_loop hi m it num =
     (if it < length m then
        if item_Begin (m ! it) \<le> hi then
          if it + 1 = length m then Some (num + 1) else imv_count_loop hi m (it + 1) (num + 1)
        else Some num
      else None)"
  by pat_completeness auto
termination
  by (relation "measure (\<lambda>(hi, m, it, num). length m - it)") auto

declare imv_count_loop.simps [simp del]

definition imv_count_range :: "'k::linorder \<Rightarrow> 'k \<Rightarrow> ('k, 'v) imap \<Rightarrow> nat option" where
  "imv_count_range lo hi m =
     (let it = imv_upper_bound lo m;
          num = (if it \<noteq> 0 \<and> lo \<le> item_End (m ! (it - 1)) then 1 else 0)
      in imv_count_loop hi m it num)"

definition imv_lower_bound :: "'k::linorder \<Rightarrow> ('k, 'v) imap \<Rightarrow> nat" where
  "imv_lower_bound k m =
     (let it = imv_upper_bound k m in
      if it \<noteq> 0 \<and> k \<le> item_End (m ! (it - 1)) then it - 1 else it)"

definition imv_equal_range :: "'k::linorder \<Rightarrow> ('k, 'v) imap \<Rightarrow> nat \<times> nat" where
  "imv_equal_range k m =
     (let it = imv_lower_bound k m in
      if it \<noteq> length m \<and> item_Begin (m ! it) \<le> k \<and> k \<le> item_End (m ! it)
      then (it, it + 1) else (it, it))"

definition imv_insert :: "'k::linorder \<Rightarrow> 'k \<Rightarrow> 'v \<Rightarrow> ('k, 'v) imap \<Rightarrow> ('k, 'v) imap \<times> nat \<times> bool" where
  "imv_insert b e v m =
     (let it = imv_upper_bound b m in
      if it \<noteq> 0 \<and> b \<le> item_End (m ! (it - 1)) then (m, it - 1, False)
      else (take it m @ makeIntervalMapItem b e v # drop it m, it, True))"

fun imv_insert_range :: "('k::linorder, 'v) IntervalMapItem list \<Rightarrow> ('k, 'v) imap \<Rightarrow> ('k, 'v) imap" where
  "imv_insert_range [] m = m"
| "imv_insert_range (x # xs) m =
     (let it = imv_upper_bound (item_Begin x) m in
      if it \<noteq> 0 \<and> item_Begin x \<le> item_End (m ! (it - 1)) then imv_insert_range xs m
      else imv_insert_range xs (take it m @ x # drop it m))"

definition imv_erase_at :: "nat \<Rightarrow> ('k, 'v) imap \<Rightarrow> ('k, 'v) imap" where
  "imv_erase_at i m = take i m @ drop (i + 1) m"

definition imv_erase :: "'k::linorder \<Rightarrow> ('k, 'v) imap \<Rightarrow> ('k, 'v) imap \<times> nat" where
  "imv_erase k m =
     (let it = imv_find k m in if it = length m then (m, 0) else (imv_erase_at it m, 1))"

section \<open>Invariant and abstract view\<close>

text \<open>Items do not overlap and are in order.\<close>

fun imv_ok :: "('k::linorder, 'v) imap \<Rightarrow> bool" where
  "imv_ok [] = True"
| "imv_ok (x # m) =
     (item_Begin x \<le> item_End x \<and> (\<forall>y \<in> set m. item_End x < item_Begin y) \<and> imv_ok m)"

text \<open>The item that covers a key, by a plain search.\<close>

definition covers :: "'k::linorder \<Rightarrow> ('k, 'v) IntervalMapItem \<Rightarrow> bool" where
  "covers k it \<longleftrightarrow> item_Begin it \<le> k \<and> k \<le> item_End it"

definition imv_lookup :: "('k::linorder, 'v) imap \<Rightarrow> 'k \<Rightarrow> ('k, 'v) IntervalMapItem option" where
  "imv_lookup m k = List.find (covers k) m"

lemma imv_ok_append:
  "imv_ok (xs @ ys) \<longleftrightarrow> imv_ok xs \<and> imv_ok ys \<and>
     (\<forall>x \<in> set xs. \<forall>y \<in> set ys. item_End x < item_Begin y)"
  by (induction xs) auto

lemma imv_ok_item: "imv_ok m \<Longrightarrow> x \<in> set m \<Longrightarrow> item_Begin x \<le> item_End x"
  by (induction m) auto

lemma imv_ok_sorted: "imv_ok m \<Longrightarrow> sorted_wrt (<) (map item_Begin m)"
  by (induction m) (auto intro: le_less_trans)

lemma imv_ok_distinct_begin:
  "imv_ok m \<Longrightarrow> x \<in> set m \<Longrightarrow> y \<in> set m \<Longrightarrow> covers k x \<Longrightarrow> covers k y \<Longrightarrow> x = y"
proof (induction m)
  case (Cons z m)
  have "False" if "x = z" "y \<in> set m" "covers k x" "covers k y" for x y
    using that Cons.prems(1) by (auto simp: covers_def)
  with Cons show ?case by (metis imv_ok.simps(2) set_ConsD)
qed simp

lemma imv_lookup_iff:
  "imv_ok m \<Longrightarrow> imv_lookup m k = Some x \<longleftrightarrow> x \<in> set m \<and> covers k x"
  unfolding imv_lookup_def
  by (metis find_None_iff find_Some_iff imv_ok_distinct_begin not_None_eq nth_mem)

lemma imv_lookup_None_iff: "imv_lookup m k = None \<longleftrightarrow> (\<forall>x \<in> set m. \<not> covers k x)"
  by (auto simp: imv_lookup_def find_None_iff)

text \<open>The position \<open>upper_bound\<close> splits the vector into smaller-or-equal and larger begins.\<close>

lemma upper_bound_split:
  assumes "imv_ok m" and "n = imv_upper_bound k m"
  shows "n \<le> length m"
    and "\<forall>x \<in> set (take n m). item_Begin x \<le> k"
    and "\<forall>x \<in> set (drop n m). k < item_Begin x"
proof -
  let ?P = "\<lambda>it. item_Begin it \<le> k"
  have n: "take n m = takeWhile ?P m" "drop n m = dropWhile ?P m"
    using takeWhile_eq_take[of ?P m] dropWhile_eq_drop[of ?P m]
    by (simp_all add: assms(2) imv_upper_bound_def)
  show "n \<le> length m" using assms(2) by (simp add: imv_upper_bound_def length_takeWhile_le)
  show "\<forall>x \<in> set (take n m). item_Begin x \<le> k" unfolding n by (auto dest: set_takeWhileD)
  show "\<forall>x \<in> set (drop n m). k < item_Begin x"
  proof (cases "dropWhile ?P m")
    case Nil
    then have "drop n m = []" by (simp only: n)
    then show ?thesis by (simp only: list.set ball_empty)
  next
    case (Cons y ys)
    have "\<not> ?P y" using hd_dropWhile[of ?P m] Cons by simp
    moreover have "imv_ok (y # ys)"
      using assms(1) imv_ok_append[of "takeWhile ?P m" "y # ys"] Cons
      by (metis takeWhile_dropWhile_id)
    ultimately show ?thesis unfolding n Cons by (auto intro: less_trans order.strict_trans1)
  qed
qed

text \<open>Only the item just before \<open>upper_bound\<close> can cover the key.\<close>

lemma covers_only_last:
  assumes ok: "imv_ok m" and n: "n = imv_upper_bound k m" and x: "x \<in> set m" "covers k x"
  shows "n \<noteq> 0 \<and> x = m ! (n - 1)"
proof -
  note s = upper_bound_split[OF ok n]
  have "x \<notin> set (drop n m)" using s(3) x(2) by (auto simp: covers_def)
  then have xin: "x \<in> set (take n m)" using x(1) by (metis UnE append_take_drop_id set_append)
  then have n0: "n \<noteq> 0" by (cases n) auto
  have tk: "take n m = take (n - 1) m @ [m ! (n - 1)]"
    using n0 s(1) by (metis Suc_diff_1 Suc_le_eq neq0_conv take_Suc_conv_app_nth)
  have "x \<notin> set (take (n - 1) m)"
  proof
    assume h: "x \<in> set (take (n - 1) m)"
    have "imv_ok (take n m)" using ok imv_ok_append[of "take n m" "drop n m"] by simp
    then have "imv_ok (take (n - 1) m @ [m ! (n - 1)])" by (simp only: tk[symmetric])
    then have "item_End x < item_Begin (m ! (n - 1))"
      using h unfolding imv_ok_append by simp
    moreover have "item_Begin (m ! (n - 1)) \<le> k" using s(2) tk by simp
    ultimately show False using x(2) by (auto simp: covers_def)
  qed
  with xin tk n0 show ?thesis by simp
qed

lemma last_before:
  assumes "imv_ok m" and "n = imv_upper_bound k m" and "n \<noteq> 0"
  shows "n - 1 < length m" and "m ! (n - 1) \<in> set m" and "item_Begin (m ! (n - 1)) \<le> k"
proof -
  note s = upper_bound_split[OF assms(1,2)]
  show l: "n - 1 < length m" using s(1) assms(3) by linarith
  then show "m ! (n - 1) \<in> set m" by simp
  have "m ! (n - 1) \<in> set (take n m)"
    using l assms(3) s(1) by (metis diff_less in_set_conv_nth length_take less_numeral_extra(1) min.absorb2 neq0_conv nth_take)
  with s(2) show "item_Begin (m ! (n - 1)) \<le> k" by blast
qed

lemma imv_find_correct:
  assumes "imv_ok m"
  shows "imv_lookup m k = (if imv_find k m = length m then None else Some (m ! imv_find k m))"
proof -
  define n where "n = imv_upper_bound k m"
  show ?thesis
  proof (cases "n \<noteq> 0 \<and> k \<le> item_End (m ! (n - 1))")
    case True
    note lb = last_before[OF assms n_def] True
    then have "imv_lookup m k = Some (m ! (n - 1))"
      using assms by (simp add: imv_lookup_iff covers_def)
    moreover have "imv_find k m = n - 1" "n - 1 \<noteq> length m"
      using True lb(1) by (auto simp: imv_find_def Let_def simp flip: n_def)
    ultimately show ?thesis by simp
  next
    case False
    then have "imv_find k m = length m" by (auto simp: imv_find_def Let_def simp flip: n_def)
    moreover have "imv_lookup m k = None"
      using False covers_only_last[OF assms n_def] by (auto simp: imv_lookup_None_iff covers_def)
    ultimately show ?thesis by simp
  qed
qed

text \<open>Inserting an interval that overlaps nothing, and erasing one.\<close>

lemma imv_lookup_append:
  "imv_lookup (xs @ ys) k = (case imv_lookup xs k of None \<Rightarrow> imv_lookup ys k | Some x \<Rightarrow> Some x)"
  by (induction xs) (auto simp: imv_lookup_def)

lemma imv_insert_fresh:
  assumes ok: "imv_ok m" and be: "b \<le> e"
    and fresh: "\<forall>x \<in> set m. e < item_Begin x \<or> item_End x < b"
  shows "\<exists>m' i. imv_insert b e v m = (m', i, True) \<and> imv_ok m' \<and>
           set m' = insert (makeIntervalMapItem b e v) (set m)"
proof -
  define n where "n = imv_upper_bound b m"
  let ?x = "makeIntervalMapItem b e v"
  note s = upper_bound_split[OF ok n_def]
  have no: "\<not> (n \<noteq> 0 \<and> b \<le> item_End (m ! (n - 1)))"
  proof
    assume h: "n \<noteq> 0 \<and> b \<le> item_End (m ! (n - 1))"
    note lb = last_before[OF ok n_def]
    from fresh lb(2) h have "e < item_Begin (m ! (n - 1))" by auto
    with lb(3) h be show False by auto
  qed
  have split: "m = take n m @ drop n m" by simp
  have okp: "imv_ok (take n m)" "imv_ok (drop n m)"
    "\<forall>x \<in> set (take n m). \<forall>y \<in> set (drop n m). item_End x < item_Begin y"
    using ok imv_ok_append[of "take n m" "drop n m"] by auto
  have below: "item_End x < b" if "x \<in> set (take n m)" for x
    using that s(2) fresh be by (meson in_set_takeD leD order.strict_trans1)
  have above: "e < item_Begin x" if "x \<in> set (drop n m)" for x
    using that s(3) fresh be imv_ok_item[OF ok, of x] by (meson in_set_dropD leD less_trans order.strict_trans2)
  have "imv_ok (take n m @ ?x # drop n m)"
    using okp below above be by (auto simp: imv_ok_append makeIntervalMapItem_def)
  moreover have "set (take n m @ ?x # drop n m) = insert ?x (set m)"
    using arg_cong[OF split, of set] by (simp only: set_append list.set) blast
  ultimately show ?thesis using no by (auto simp: imv_insert_def Let_def simp flip: n_def)
qed

lemma imv_insert_occupied:
  assumes "imv_ok m" and "x \<in> set m" and "covers b x"
  shows "imv_insert b e v m = (m, imv_find b m, False)"
proof -
  note c = covers_only_last[OF assms(1) refl assms(2,3)]
  then show ?thesis
    using assms(3) by (auto simp: imv_insert_def imv_find_def Let_def covers_def)
qed

lemma imv_erase_at_split:
  assumes ok: "imv_ok m" and i: "i < length m"
  shows "imv_ok (imv_erase_at i m)" and "set (imv_erase_at i m) = set m - {m ! i}"
proof -
  have m: "m = take i m @ m ! i # drop (i + 1) m" using i by (simp add: id_take_nth_drop)
  have "imv_ok (take i m @ m ! i # drop (i + 1) m)" using ok m by simp
  then have a: "imv_ok (take i m)" "imv_ok (drop (i + 1) m)"
    "\<forall>x \<in> set (take i m). \<forall>y \<in> set (drop (i + 1) m). item_End x < item_Begin y"
    "\<forall>x \<in> set (take i m). item_End x < item_Begin (m ! i)"
    "\<forall>y \<in> set (drop (i + 1) m). item_End (m ! i) < item_Begin y"
    "item_Begin (m ! i) \<le> item_End (m ! i)"
    by (simp_all add: imv_ok_append)
  then show "imv_ok (imv_erase_at i m)"
    unfolding imv_erase_at_def imv_ok_append by blast
  have "item_Begin x \<le> item_End x" if "x \<in> set (take i m)" for x
    using that a(1) imv_ok_item by blast
  then have "m ! i \<notin> set (take i m)" "m ! i \<notin> set (drop (i + 1) m)"
    using a(4,5,6) by fastforce+
  moreover have "set m = set (take i m) \<union> insert (m ! i) (set (drop (i + 1) m))"
    using arg_cong[OF m, of set] by (simp only: set_append list.set)
  ultimately show "set (imv_erase_at i m) = set m - {m ! i}"
    unfolding imv_erase_at_def set_append by blast
qed

lemma imv_erase_correct:
  assumes "imv_ok m"
  shows "imv_ok (fst (imv_erase k m))"
    and "set (fst (imv_erase k m)) = {x \<in> set m. \<not> covers k x}"
    and "snd (imv_erase k m) = (if imv_lookup m k = None then 0 else 1)"
proof -
  let ?i = "imv_find k m"
  note f = imv_find_correct[OF assms, of k]
  show "snd (imv_erase k m) = (if imv_lookup m k = None then 0 else 1)"
    using f by (simp add: imv_erase_def Let_def)
  show "imv_ok (fst (imv_erase k m))"
  proof (cases "?i = length m")
    case True
    then show ?thesis using assms by (simp add: imv_erase_def)
  next
    case False
    moreover have "?i \<le> length m"
      using upper_bound_split(1)[OF assms refl, of k] by (auto simp: imv_find_def Let_def)
    ultimately show ?thesis using imv_erase_at_split(1)[OF assms] by (simp add: imv_erase_def Let_def)
  qed
  show "set (fst (imv_erase k m)) = {x \<in> set m. \<not> covers k x}"
  proof (cases "?i = length m")
    case True
    then have "imv_lookup m k = None" using f by simp
    with True show ?thesis by (auto simp: imv_erase_def imv_lookup_None_iff)
  next
    case False
    moreover have "?i \<le> length m"
      using upper_bound_split(1)[OF assms refl, of k] by (auto simp: imv_find_def Let_def)
    ultimately have l: "?i < length m" by simp
    have "m ! ?i \<in> set m \<and> covers k (m ! ?i)"
      using f False imv_lookup_iff[OF assms] by simp
    then have "{x \<in> set m. \<not> covers k x} = set m - {m ! ?i}"
      using imv_ok_distinct_begin[OF assms] by blast
    with imv_erase_at_split(2)[OF assms l] False show ?thesis by (simp add: imv_erase_def Let_def)
  qed
qed

text \<open>Vectors of non-overlapping items are determined by their sets of items.\<close>

lemma imv_set_ext: "imv_ok m \<Longrightarrow> imv_ok n \<Longrightarrow> set m = set n \<Longrightarrow> m = n"
proof (induction m arbitrary: n)
  case (Cons x m)
  then obtain y n' where n: "n = y # n'" by (cases n) auto
  have "x = y"
  proof (rule ccontr)
    assume "x \<noteq> y"
    then have "x \<in> set n'" "y \<in> set m" using Cons.prems(3) n by auto
    then have "item_End y < item_Begin x" "item_End x < item_Begin y"
      using Cons.prems(1,2) n by auto
    moreover have "item_Begin x \<le> item_End x" "item_Begin y \<le> item_End y"
      using Cons.prems(1,2) n by auto
    ultimately show False by auto
  qed
  moreover have "x \<notin> set m" "y \<notin> set n'" using Cons.prems(1,2) n by auto
  ultimately have "set m = set n'" using Cons.prems(3) n by auto
  then show ?case using Cons.IH[of n'] Cons.prems(1,2) n \<open>x = y\<close> by simp
qed simp

lemma imv_erase_insert:
  assumes "imv_ok m" and "b \<le> e" and "\<forall>x \<in> set m. e < item_Begin x \<or> item_End x < b"
  shows "fst (imv_erase b (fst (imv_insert b e v m))) = m"
proof -
  obtain m' i where m': "imv_insert b e v m = (m', i, True)" "imv_ok m'"
    "set m' = insert (makeIntervalMapItem b e v) (set m)"
    using imv_insert_fresh[OF assms] by blast
  have "\<forall>x \<in> set m. \<not> covers b x" using assms(2,3) by (auto simp: covers_def)
  then have "set (fst (imv_erase b m')) = set m"
    using imv_erase_correct(2)[OF m'(2), of b] m'(3) assms(2)
    by (auto simp: covers_def makeIntervalMapItem_def)
  then show ?thesis
    using imv_set_ext imv_erase_correct(1)[OF m'(2)] assms(1) m'(1) by auto
qed

lemma imv_insert_erase:
  assumes "imv_ok m" and "x \<in> set m"
  shows "fst (imv_insert (item_Begin x) (item_End x) (item_Value x)
                (fst (imv_erase (item_Begin x) m))) = m"
proof -
  let ?m = "fst (imv_erase (item_Begin x) m)"
  have le: "item_Begin x \<le> item_End x" using assms by (rule imv_ok_item)
  have cx: "covers (item_Begin x) x" using le by (simp add: covers_def)
  have s: "set ?m = set m - {x}"
    using imv_erase_correct(2)[OF assms(1), of "item_Begin x"] cx assms
      imv_ok_distinct_begin[OF assms(1)] by blast
  have "item_End x < item_Begin y \<or> item_End y < item_Begin x" if "y \<in> set m" "y \<noteq> x" for y
    using assms that by (induction m) auto
  then have fresh: "\<forall>y \<in> set ?m. item_End x < item_Begin y \<or> item_End y < item_Begin x"
    using s by blast
  obtain m' i where m': "imv_insert (item_Begin x) (item_End x) (item_Value x) ?m = (m', i, True)"
    "imv_ok m'" "set m' = insert (makeIntervalMapItem (item_Begin x) (item_End x) (item_Value x)) (set ?m)"
    using imv_insert_fresh[OF imv_erase_correct(1)[OF assms(1)] le fresh] by blast
  have "makeIntervalMapItem (item_Begin x) (item_End x) (item_Value x) = x"
    by (simp add: makeIntervalMapItem_def)
  then have "set m' = set m" using m'(3) s assms(2) by auto
  then show ?thesis using imv_set_ext[OF m'(2) assms(1)] m'(1) by simp
qed

section \<open>Counting\<close>

lemma option_eqI: "(\<And>v. x = Some v \<longleftrightarrow> y = Some v) \<Longrightarrow> x = y"
  by (cases x; cases y) auto

lemma count_loop:
  "it < length m \<Longrightarrow>
     imv_count_loop hi m it num = Some (num + length (takeWhile (\<lambda>x. item_Begin x \<le> hi) (drop it m)))"
proof (induction hi m it num rule: imv_count_loop.induct)
  case (1 hi m it num)
  have d: "drop it m = m ! it # drop (it + 1) m" using "1.prems" by (simp add: Cons_nth_drop_Suc)
  show ?case
  proof (cases "item_Begin (m ! it) \<le> hi \<and> it + 1 \<noteq> length m")
    case True
    with "1.prems" have "it + 1 < length m" by linarith
    from "1.IH"[OF "1.prems" _ _ this] True "1.prems" d show ?thesis
      by (subst imv_count_loop.simps) simp
  next
    case False
    with "1.prems" d show ?thesis by (subst imv_count_loop.simps) auto
  qed
qed

lemma sorted_takeWhile_filter:
  "imv_ok m \<Longrightarrow> takeWhile (\<lambda>x. item_Begin x \<le> hi) m = filter (\<lambda>x. item_Begin x \<le> hi) m"
proof (induction m)
  case (Cons x m)
  have "item_Begin x < item_Begin y" if "y \<in> set m" for y
    using Cons.prems that by (auto intro: le_less_trans)
  then have "filter (\<lambda>x. item_Begin x \<le> hi) m = []" if "\<not> item_Begin x \<le> hi"
    using that by (force simp: filter_empty_conv)
  with Cons show ?case by auto
qed simp

lemma count_before:
  assumes "imv_ok m" and "n = imv_upper_bound lo m"
  shows "length (filter (\<lambda>x. lo \<le> item_End x) (take n m)) =
           (if n \<noteq> 0 \<and> lo \<le> item_End (m ! (n - 1)) then 1 else 0)"
proof -
  note s = upper_bound_split[OF assms]
  have only: "x = m ! (n - 1)" if "x \<in> set (take n m)" "lo \<le> item_End x" for x
    using covers_only_last[OF assms, of x] s(2) that by (auto simp: covers_def dest: in_set_takeD)
  show ?thesis
  proof (cases n)
    case (Suc k)
    have kl: "k < length m" using s(1) Suc by simp
    have t: "take n m = take k m @ [m ! k]" using kl Suc by (simp add: take_Suc_conv_app_nth)
    have m: "m = take k m @ m ! k # drop (Suc k) m" using kl by (rule id_take_nth_drop)
    have "\<forall>x \<in> set (take k m). \<forall>y \<in> set (m ! k # drop (Suc k) m). item_End x < item_Begin y"
      using assms(1) m imv_ok_append[of "take k m" "m ! k # drop (Suc k) m"] by metis
    then have before: "item_End x < item_Begin (m ! k)" if "x \<in> set (take k m)" for x
      using that by simp
    have "item_Begin (m ! k) \<le> item_End (m ! k)" using imv_ok_item[OF assms(1) nth_mem[OF kl]] .
    then have ne: "x \<noteq> m ! k" if "x \<in> set (take k m)" for x
      using before[OF that] by auto
    have "\<not> lo \<le> item_End x" if "x \<in> set (take k m)" for x
    proof
      assume "lo \<le> item_End x"
      moreover have "x \<in> set (take n m)" unfolding t using that by simp
      ultimately have "x = m ! (n - 1)" by (rule only[rotated])
      then show False using ne[OF that] Suc by simp
    qed
    then have "filter (\<lambda>x. lo \<le> item_End x) (take k m) = []"
      by (simp only: filter_empty_conv) blast
    then show ?thesis unfolding t by (simp add: Suc)
  qed simp
qed

lemma imv_count_range_eq:
  fixes m :: "('k::linorder, 'v) imap"
  assumes ok: "imv_ok m" and le: "lo \<le> hi"
  shows "imv_count_range lo hi m =
    (if \<exists>x \<in> set m. lo < item_Begin x
     then Some (length (filter (\<lambda>x. item_Begin x \<le> hi \<and> lo \<le> item_End x) m)) else None)"
proof -
  define n where "n = imv_upper_bound lo m"
  note s = upper_bound_split[OF ok n_def]
  let ?P = "\<lambda>x. item_Begin x \<le> hi \<and> lo \<le> item_End x"
  have some: "(\<exists>x \<in> set m. lo < item_Begin x) \<longleftrightarrow> n < length m"
  proof
    assume "\<exists>x \<in> set m. lo < item_Begin x"
    then obtain x where x: "x \<in> set m" "lo < item_Begin x" by blast
    then have "x \<notin> set (take n m)" using s(2) by auto
    then show "n < length m" using x(1) by (cases "n < length m") auto
  next
    assume "n < length m"
    then show "\<exists>x \<in> set m. lo < item_Begin x"
      using s(3) by (intro bexI[of _ "m ! n"]) (metis Cons_nth_drop_Suc list.set_intros(1), simp)
  qed
  have ok': "imv_ok (take n m)" "imv_ok (drop n m)"
    using ok imv_ok_append[of "take n m" "drop n m"] by simp_all
  have "filter ?P (take n m) = filter (\<lambda>x. lo \<le> item_End x) (take n m)"
    using s(2) le by (intro filter_cong) (auto intro: order_trans)
  moreover have "filter ?P (drop n m) = takeWhile (\<lambda>x. item_Begin x \<le> hi) (drop n m)"
    unfolding sorted_takeWhile_filter[OF ok'(2)]
    using s(3) imv_ok_item[OF ok'(2)] by (intro filter_cong) (auto intro: less_imp_le less_le_trans)
  moreover have "filter ?P m = filter ?P (take n m) @ filter ?P (drop n m)"
    by (simp flip: filter_append)
  ultimately have "length (filter ?P m) =
      (if n \<noteq> 0 \<and> lo \<le> item_End (m ! (n - 1)) then 1 else 0) +
      length (takeWhile (\<lambda>x. item_Begin x \<le> hi) (drop n m))"
    by (simp only: count_before[OF ok n_def] length_append)
  then show ?thesis
    using some count_loop[of n m hi]
    by (auto simp: imv_count_range_def n_def[symmetric] imv_count_loop.simps[of hi m n])
qed

section \<open>Properties\<close>

definition sample_imap :: "(nat, string) imap" where
  "sample_imap = [makeIntervalMapItem 1 3 ''a'']"

text \<open>C26: An interval map answers searches like a finite function from keys: after inserting
  an interval that meets no other, \<open>find\<close> gives the new item for the keys of the interval and
  what it gave before for all others, and the vector stays sorted and free of overlaps.\<close>

theorem interval_map_insert:
  assumes "imv_ok m" and "b \<le> e" and "\<forall>x \<in> set m. e < item_Begin x \<or> item_End x < b"
  shows "case imv_insert b e v m of (m', i, fresh) \<Rightarrow> fresh \<and> imv_ok m' \<and>
    (\<forall>k. (if imv_find k m' = length m' then None else Some (m' ! imv_find k m')) =
         (if b \<le> k \<and> k \<le> e then Some (makeIntervalMapItem b e v)
          else if imv_find k m = length m then None else Some (m ! imv_find k m)))"
proof -
  obtain m' i where m': "imv_insert b e v m = (m', i, True)" "imv_ok m'"
    "set m' = insert (makeIntervalMapItem b e v) (set m)"
    using imv_insert_fresh[OF assms] by blast
  have "imv_lookup m' k = (if b \<le> k \<and> k \<le> e then Some (makeIntervalMapItem b e v) else imv_lookup m k)" for k
  proof (rule option_eqI)
    fix x
    show "imv_lookup m' k = Some x \<longleftrightarrow>
      (if b \<le> k \<and> k \<le> e then Some (makeIntervalMapItem b e v) else imv_lookup m k) = Some x"
      using m'(3) assms(2,3) imv_lookup_iff[OF m'(2)] imv_lookup_iff[OF assms(1)]
      by (auto simp: covers_def makeIntervalMapItem_def)
  qed
  then show ?thesis
    using m'(1,2) imv_find_correct[OF m'(2)] imv_find_correct[OF assms(1)] by simp
qed

theorem interval_map_insert_witness:
  "case imv_insert 5 7 ''b'' sample_imap of (m', i, fresh) \<Rightarrow> fresh \<and> imv_ok m' \<and>
    (\<forall>k. (if imv_find k m' = length m' then None else Some (m' ! imv_find k m')) =
         (if 5 \<le> k \<and> k \<le> 7 then Some (makeIntervalMapItem 5 7 ''b'')
          else if imv_find k sample_imap = length sample_imap then None
          else Some (sample_imap ! imv_find k sample_imap)))"
  by (rule interval_map_insert) (simp_all add: sample_imap_def makeIntervalMapItem_def)

text \<open>C27: Erasing a key from an interval map removes exactly the interval that covers it: the
  keys of that interval are no longer found, all others are found as before, and the result
  tells whether there was one.\<close>

theorem interval_map_erase:
  assumes "imv_ok m"
  shows "case imv_erase k m of (m', n) \<Rightarrow> imv_ok m' \<and> (n = 1 \<longleftrightarrow> imv_count k m = 1) \<and>
    (\<forall>j. imv_count j m' = (if (\<exists>x \<in> set m. covers j x \<and> covers k x) then 0 else imv_count j m))"
proof -
  obtain m' n where e: "imv_erase k m = (m', n)" by fastforce
  note E = imv_erase_correct[OF assms, of k, unfolded e fst_conv snd_conv]
  have C: "imv_count j w = (if \<exists>x \<in> set w. covers j x then 1 else 0)" if "imv_ok w" for j w
    using imv_find_correct[OF that, of j] imv_lookup_None_iff[of w j] by (auto simp: imv_count_def)
  have one: "x = y" if "x \<in> set m" "y \<in> set m" "covers j x" "covers j y" for j x y
    using imv_ok_distinct_begin[OF assms that] .
  have J: "imv_count j m' = (if (\<exists>x \<in> set m. covers j x \<and> covers k x) then 0 else imv_count j m)" for j
  proof (cases "\<exists>x \<in> set m. covers j x \<and> covers k x")
    case True
    then obtain x where x: "x \<in> set m" "covers j x" "covers k x" by blast
    have "\<not> (\<exists>y \<in> set m'. covers j y)"
    proof
      assume "\<exists>y \<in> set m'. covers j y"
      then obtain y where "y \<in> set m" "covers j y" "\<not> covers k y" using E(2) by blast
      with one[OF x(1) _ x(2), of y] x(3) show False by simp
    qed
    with True show ?thesis unfolding C[OF E(1)] by simp
  next
    case False
    then have "(\<exists>y \<in> set m'. covers j y) \<longleftrightarrow> (\<exists>y \<in> set m. covers j y)" using E(2) by blast
    with False show ?thesis unfolding C[OF E(1)] C[OF assms] by simp
  qed
  have N: "n = 1 \<longleftrightarrow> imv_count k m = 1"
    using E(3) imv_find_correct[OF assms, of k] by (auto simp: imv_count_def)
  show ?thesis using E(1) N J by (simp add: e)
qed

theorem interval_map_erase_witness:
  "case imv_erase 2 sample_imap of (m', n) \<Rightarrow> imv_ok m' \<and> (n = 1 \<longleftrightarrow> imv_count 2 sample_imap = 1) \<and>
     (\<forall>j. imv_count j m' = (if (\<exists>x \<in> set sample_imap. covers j x \<and> covers 2 x) then 0
       else imv_count j sample_imap))"
  by (rule interval_map_erase) (simp add: sample_imap_def makeIntervalMapItem_def)

text \<open>C28: \<open>count\<close> over a range gives the number of intervals that meet the range, except that
  it reads past the end of the vector when no interval begins after the start of the range.\<close>

theorem interval_map_count_range:
  assumes "imv_ok m" and "lo \<le> hi"
  shows "imv_count_range lo hi m =
    (if \<exists>x \<in> set m. lo < item_Begin x
     then Some (length (filter (\<lambda>x. item_Begin x \<le> hi \<and> lo \<le> item_End x) m)) else None)"
  using assms by (rule imv_count_range_eq)

theorem interval_map_count_range_witness:
  "imv_count_range 2 6 [makeIntervalMapItem (1::nat) 3 ''a'', makeIntervalMapItem 5 9 ''b''] = Some 2 \<and>
   imv_count_range 2 6 [makeIntervalMapItem (1::nat) 3 ''a''] = None"
  using interval_map_count_range[of "[makeIntervalMapItem (1::nat) 3 ''a'', makeIntervalMapItem 5 9 ''b'']" 2 6]
    interval_map_count_range[of "[makeIntervalMapItem (1::nat) 3 ''a'']" 2 6]
  by (simp add: makeIntervalMapItem_def)

end
