(* ===== verification/Streams.thy ===== *)
theory Streams
  imports OrderedMap
begin

text \<open>
  Input/output streams. The viewer's side (\<open>StreamState\<close>, \<open>DIRState\<close>,
  \<open>include/seec/Trace/StreamState.hpp\<close>, \<open>lib/Trace/StreamState.cpp\<close>) keeps what was written to each
  open stream and where each write ended, so that a write can be undone and the write that
  covers a position can be found. The recorder's side (\<open>TraceStreams\<close>, \<open>TraceDirs\<close>,
  \<open>lib/Trace/TraceStreams.cpp\<close>) only remembers which streams are open and where their names are
  in the trace.
\<close>

section \<open>Stream state\<close>

datatype StandardStreamKind = Kind_none | Kind_in | Kind_out | Kind_err

record StreamState =
  ss_Address :: u64
  ss_Kind :: StandardStreamKind
  ss_Filename :: "byte list"
  ss_Mode :: "byte list"
  ss_Written :: "byte list"
  ss_Writes :: "nat list"

definition new_StreamState :: "u64 \<Rightarrow> StandardStreamKind \<Rightarrow> byte list \<Rightarrow> byte list \<Rightarrow> StreamState" where
  "new_StreamState a k f m =
     \<lparr>ss_Address = a, ss_Kind = k, ss_Filename = f, ss_Mode = m, ss_Written = [], ss_Writes = []\<rparr>"

definition isstd :: "StreamState \<Rightarrow> bool" where
  "isstd s \<longleftrightarrow> ss_Kind s \<noteq> Kind_none"

record StreamWrite =
  sw_Begin :: nat
  sw_End :: nat

definition write_at_index :: "nat \<Rightarrow> nat list \<Rightarrow> StreamWrite" where
  "write_at_index i ws = \<lparr>sw_Begin = (if i = 0 then 0 else ws ! (i - 1)), sw_End = ws ! i\<rparr>"

definition getWriteAt :: "nat \<Rightarrow> StreamState \<Rightarrow> StreamWrite option" where
  "getWriteAt p s = do {
     let it = length (takeWhile (\<lambda>w. \<not> p < w) (ss_Writes s));
     require (it \<noteq> length (ss_Writes s));
     Some (write_at_index it (ss_Writes s))
   }"

definition getWriteCount :: "StreamState \<Rightarrow> nat" where
  "getWriteCount s = length (ss_Writes s)"

definition getWrite :: "nat \<Rightarrow> StreamState \<Rightarrow> StreamWrite option" where
  "getWrite i s = do {
     require (i < length (ss_Writes s));
     Some (write_at_index i (ss_Writes s))
   }"

definition stream_write :: "byte list \<Rightarrow> StreamState \<Rightarrow> StreamState" where
  "stream_write d s =
     (let s1 = s\<lparr>ss_Written := ss_Written s @ d\<rparr>
      in s1\<lparr>ss_Writes := ss_Writes s1 @ [length (ss_Written s1)]\<rparr>)"

definition stream_unwrite :: "nat \<Rightarrow> StreamState \<Rightarrow> StreamState option" where
  "stream_unwrite n s = do {
     require (n \<le> length (ss_Written s));
     let s1 = s\<lparr>ss_Written := take (length (ss_Written s) - n) (ss_Written s)\<rparr>;
     require (ss_Writes s1 \<noteq> []);
     let s2 = s1\<lparr>ss_Writes := butlast (ss_Writes s1)\<rparr>;
     require (ss_Writes s2 = [] \<or> last (ss_Writes s2) = length (ss_Written s2));
     Some s2
   }"

record DIRState =
  ds_Address :: u64
  ds_Dirname :: "byte list"

section \<open>The recorder's maps of open streams and directories\<close>

record TraceStream =
  ts_FilenameOffset :: u64
  ts_ModeOffset :: u64

type_synonym TraceStreams = "(u64, TraceStream) omap"
type_synonym TraceDirs = "(u64, u64) omap"

text \<open>\<open>std::map::insert\<close> leaves an entry that is already present as it is.\<close>

definition map_insert :: "'k::linorder \<Rightarrow> 'v \<Rightarrow> ('k, 'v) omap \<Rightarrow> ('k, 'v) omap \<times> bool" where
  "map_insert k v m =
     (case om_find m k of Some w \<Rightarrow> (m, False) | None \<Rightarrow> (om_insert k v m, True))"

definition streamOpened :: "u64 \<Rightarrow> u64 \<Rightarrow> u64 \<Rightarrow> TraceStreams \<Rightarrow> TraceStreams" where
  "streamOpened p name mode m =
     fst (map_insert p \<lparr>ts_FilenameOffset = name, ts_ModeOffset = mode\<rparr> m)"

definition streamWillClose :: "u64 \<Rightarrow> TraceStreams \<Rightarrow> bool" where
  "streamWillClose p m \<longleftrightarrow> om_find m p \<noteq> None"

definition streamInfo :: "u64 \<Rightarrow> TraceStreams \<Rightarrow> TraceStream option" where
  "streamInfo p m = om_find m p"

definition streamClosed :: "u64 \<Rightarrow> TraceStreams \<Rightarrow> TraceStreams option" where
  "streamClosed p m = do { require (om_find m p \<noteq> None); Some (om_erase p m) }"

definition DIROpened :: "u64 \<Rightarrow> u64 \<Rightarrow> TraceDirs \<Rightarrow> TraceDirs" where
  "DIROpened p name m = fst (map_insert p name m)"

definition DIRWillClose :: "u64 \<Rightarrow> TraceDirs \<Rightarrow> bool" where
  "DIRWillClose p m \<longleftrightarrow> om_find m p \<noteq> None"

definition DIRInfo :: "u64 \<Rightarrow> TraceDirs \<Rightarrow> u64 option" where
  "DIRInfo p m = om_find m p"

definition DIRClosed :: "u64 \<Rightarrow> TraceDirs \<Rightarrow> TraceDirs option" where
  "DIRClosed p m = do { require (om_find m p \<noteq> None); Some (om_erase p m) }"

section \<open>Laws\<close>

lemma map_insert_fresh: "om_find m k = None \<Longrightarrow> map_insert k v m = (om_insert k v m, True)"
  by (simp add: map_insert_def)

lemma map_insert_wf: "om_wf m \<Longrightarrow> om_wf (fst (map_insert k v m))"
  by (auto simp: map_insert_def om_laws split: option.splits)

lemma map_insert_same: "om_find m k = Some w \<Longrightarrow> map_insert k v m = (m, False)"
  by (simp add: map_insert_def)

text \<open>The recorded ends of the writes: in order, the last one at the end of the stream.\<close>

definition stream_ok :: "StreamState \<Rightarrow> bool" where
  "stream_ok s \<longleftrightarrow> sorted (ss_Writes s) \<and>
     length (ss_Written s) = (if ss_Writes s = [] then 0 else last (ss_Writes s))"

lemma stream_ok_new [simp]: "stream_ok (new_StreamState a k f m)"
  by (simp add: stream_ok_def new_StreamState_def)

lemma sorted_last: "sorted ws \<Longrightarrow> w \<in> set ws \<Longrightarrow> w \<le> (last ws :: nat)"
  by (induction ws) (auto split: if_splits)

lemma stream_write_ok: "stream_ok s \<Longrightarrow> stream_ok (stream_write d s)"
  using sorted_last[of "ss_Writes s"]
  by (fastforce simp: stream_ok_def stream_write_def Let_def sorted_append)

lemma stream_unwrite_write: "stream_ok s \<Longrightarrow> stream_unwrite (length d) (stream_write d s) = Some s"
  by (auto simp: stream_unwrite_def stream_write_def stream_ok_def Let_def)

text \<open>The write found for a position of the stream is the first that ends beyond it.\<close>

lemma getWriteAt_index:
  assumes ok: "stream_ok s" and p: "p < length (ss_Written s)"
  obtains i where "getWriteAt p s = Some (write_at_index i (ss_Writes s))"
    and "i < length (ss_Writes s)" and "sw_Begin (write_at_index i (ss_Writes s)) \<le> p"
    and "p < sw_End (write_at_index i (ss_Writes s))"
proof -
  let ?ws = "ss_Writes s"
  let ?i = "length (takeWhile (\<lambda>w. \<not> p < w) ?ws)"
  have "?ws \<noteq> []" "p < last ?ws" using ok p by (auto simp: stream_ok_def split: if_splits)
  then have "\<not> (\<forall>w \<in> set ?ws. \<not> p < w)" using last_in_set by blast
  then have "takeWhile (\<lambda>w. \<not> p < w) ?ws \<noteq> ?ws" by (simp add: takeWhile_eq_all_conv)
  then have lt: "?i < length ?ws"
    by (metis length_takeWhile_le nat_less_le takeWhile_eq_take take_all order_refl)
  have e: "p < ?ws ! ?i" using nth_length_takeWhile[OF lt] by simp
  have "?ws ! (?i - 1) \<le> p" if "?i \<noteq> 0"
  proof -
    have "?i - 1 < ?i" using that by simp
    then have "takeWhile (\<lambda>w. \<not> p < w) ?ws ! (?i - 1) = ?ws ! (?i - 1)"
      by (rule takeWhile_nth)
    moreover have "takeWhile (\<lambda>w. \<not> p < w) ?ws ! (?i - 1) \<in> set (takeWhile (\<lambda>w. \<not> p < w) ?ws)"
      using \<open>?i - 1 < ?i\<close> by (rule nth_mem)
    ultimately show ?thesis by (metis not_less set_takeWhileD)
  qed
  with lt e show ?thesis
    by (intro that[of ?i]) (auto simp: getWriteAt_def write_at_index_def Let_def)
qed

section \<open>Properties\<close>

abbreviation written :: "byte list list \<Rightarrow> StreamState \<Rightarrow> StreamState" where
  "written ds \<equiv> fold stream_write ds"

lemma written_stream:
  "ss_Written (written ds (new_StreamState a k f m)) = concat ds \<and>
   ss_Writes (written ds (new_StreamState a k f m)) = map (\<lambda>i. length (concat (take (Suc i) ds))) [0..<length ds]"
proof (induction ds rule: rev_induct)
  case Nil
  then show ?case by (simp add: new_StreamState_def)
next
  case (snoc d ds)
  then show ?case by (simp add: stream_write_def Let_def)
qed

lemma length_concat_take_mono: "i \<le> j \<Longrightarrow> length (concat (take i ds)) \<le> length (concat (take j ds))"
proof -
  assume "i \<le> j"
  then have "take j ds = take i ds @ take (j - i) (drop i ds)"
    by (metis le_add_diff_inverse take_add)
  then show ?thesis by simp
qed

text \<open>C30: Every byte of a stream belongs to the write that produced it: after any sequence of writes to
  a new stream, \<open>getWriteAt\<close> at a position inside the \<open>i\<close>-th written data gives the \<open>i\<close>-th
  write, the bytes between its bounds are exactly that data, and \<open>unwrite\<close> of the last data
  gives the stream before it.\<close>

theorem write_found_at_position:
  assumes "i < length ds" and "q < length (ds ! i)"
  shows "\<exists>w. getWriteAt (length (concat (take i ds)) + q) (written ds (new_StreamState a k f m)) = Some w \<and>
      getWrite i (written ds (new_StreamState a k f m)) = Some w \<and>
      slice (sw_Begin w) (sw_End w - sw_Begin w) (ss_Written (written ds (new_StreamState a k f m))) = Some (ds ! i) \<and>
      stream_unwrite (length (last ds)) (written ds (new_StreamState a k f m)) =
        Some (written (butlast ds) (new_StreamState a k f m))"
proof -
  let ?s = "written ds (new_StreamState a k f m)"
  let ?e = "\<lambda>i. length (concat (take (Suc i) ds))"
  let ?p = "length (concat (take i ds)) + q"
  have ws: "ss_Written ?s = concat ds" "ss_Writes ?s = map ?e [0..<length ds]"
    using written_stream[of ds a k f m] by simp_all
  have ei: "?e i = length (concat (take i ds)) + length (ds ! i)"
    using assms(1) by (simp add: take_Suc_conv_app_nth)
  have before: "?e j \<le> ?p" if "j < i" for j
    using length_concat_take_mono[of "Suc j" i ds] that by simp
  have "takeWhile (\<lambda>w. \<not> ?p < w) (ss_Writes ?s) = take i (ss_Writes ?s)"
    by (rule takeWhile_eq_take_P_nth) (use before ei assms in \<open>auto simp: ws not_less\<close>)
  then have g: "getWriteAt ?p ?s = Some (write_at_index i (ss_Writes ?s))"
    using assms(1) by (simp add: getWriteAt_def ws)
  have b: "sw_Begin (write_at_index i (ss_Writes ?s)) = length (concat (take i ds))"
    "sw_End (write_at_index i (ss_Writes ?s)) = ?e i"
    using assms(1) by (auto simp: write_at_index_def ws)
  have c: "concat ds = concat (take i ds) @ ds ! i @ concat (drop (Suc i) ds)"
    using id_take_nth_drop[OF assms(1)] by (metis concat.simps(2) concat_append)
  have "ds \<noteq> []" using assms(1) by auto
  then have "?s = stream_write (last ds) (written (butlast ds) (new_StreamState a k f m))"
    by (metis append_butlast_last_id comp_apply fold.simps(1,2) fold_append id_apply)
  moreover have "stream_ok (written xs (new_StreamState a k f m))" for xs
    by (induction xs rule: rev_induct) (simp_all add: stream_write_ok)
  ultimately have u: "stream_unwrite (length (last ds)) ?s = Some (written (butlast ds) (new_StreamState a k f m))"
    using stream_unwrite_write by metis
  show ?thesis
    using g u assms(1) b ei c by (auto simp: getWrite_def ws slice_def)
qed

theorem write_found_at_position_witness:
  "\<exists>w. getWriteAt 3 (written [[1, 2], [3, 4]] (new_StreamState 9 Kind_none [] [])) = Some w \<and>
     slice (sw_Begin w) (sw_End w - sw_Begin w)
       (ss_Written (written [[1, 2], [3, 4]] (new_StreamState 9 Kind_none [] []))) = Some [3, 4]"
  using write_found_at_position[of 1 "[[1, 2], [3, 4]]" 1 9 Kind_none "[]" "[]"] by (auto simp: numeral_eq_Suc)

end
