(* ===== verification/ProcessState.thy ===== *)
theory ProcessState
  imports MemoryView IntervalMap Streams
begin

text \<open>
  \<open>seec::trace::ProcessState\<close> (\<open>include/seec/Trace/ProcessState.hpp\<close>, \<open>lib/Trace/ProcessState.cpp\<close>):
  the state shared by all threads of the recreated process: its time, dynamic allocations,
  memory, known regions, open streams and directories. The thread states live beside it
  (theory \<open>StateMovement\<close>), because they are not used here except to search their stacks.
  The trace the state is built from is the record \<open>ProcessTrace\<close>; what the source asks of
  the LLVM module is the record \<open>ModuleInfo\<close>, a parameter.
\<close>

section \<open>The trace and the module\<close>

text \<open>An \<open>llvm::Instruction\<close> is named by its function's index and its index therein.\<close>

type_synonym Instr = "u32 \<times> u32"

record ProcessTrace =
  pt_Data :: "byte list"
  pt_GlobalVariableAddresses :: "u64 list"
  pt_GlobalVariableInitialData :: "u64 list"
  pt_FunctionAddresses :: "u64 list"
  pt_StreamsInitial :: "u64 list"

record GlobalInfo =
  gv_Size :: u64
  gv_isConstant :: bool

definition getData :: "ProcessTrace \<Rightarrow> u64 \<Rightarrow> u64 \<Rightarrow> byte list option" where
  "getData pt off n = slice (unat off) (unat n) (pt_Data pt)"

text \<open>A C string in the data: up to the first zero byte.\<close>

definition getDataString :: "ProcessTrace \<Rightarrow> u64 \<Rightarrow> byte list option" where
  "getDataString pt off = do {
     require (unat off \<le> length (pt_Data pt));
     let tail = drop (unat off) (pt_Data pt);
     require (0 \<in> set tail);
     Some (takeWhile (\<lambda>c. c \<noteq> 0) tail)
   }"

definition getGlobalVariableAddress :: "ProcessTrace \<Rightarrow> nat \<Rightarrow> u64 option" where
  "getGlobalVariableAddress pt i = do {
     require (i < length (pt_GlobalVariableAddresses pt));
     Some (pt_GlobalVariableAddresses pt ! i)
   }"

definition getGlobalVariableInitialData :: "ProcessTrace \<Rightarrow> nat \<Rightarrow> u64 \<Rightarrow> byte list option" where
  "getGlobalVariableInitialData pt i n = do {
     require (i < length (pt_GlobalVariableInitialData pt));
     getData pt (pt_GlobalVariableInitialData pt ! i) n
   }"

definition getFunctionAddress :: "ProcessTrace \<Rightarrow> nat \<Rightarrow> u64 option" where
  "getFunctionAddress pt i = do {
     require (i < length (pt_FunctionAddresses pt));
     Some (pt_FunctionAddresses pt ! i)
   }"

fun index_of_address :: "u64 \<Rightarrow> u64 list \<Rightarrow> nat \<Rightarrow> nat option" where
  "index_of_address a [] i = None"
| "index_of_address a (x # xs) i = (if x = a then Some i else index_of_address a xs (i + 1))"

definition getIndexOfFunctionAt :: "ProcessTrace \<Rightarrow> u64 \<Rightarrow> nat option" where
  "getIndexOfFunctionAt pt a = index_of_address a (pt_FunctionAddresses pt) 0"

section \<open>Dynamic allocations\<close>

record MallocState =
  mst_Address :: u64
  mst_Size :: u64
  mst_Allocators :: "Instr option list"

definition new_MallocState :: "u64 \<Rightarrow> u64 \<Rightarrow> Instr option \<Rightarrow> MallocState" where
  "new_MallocState a n i = \<lparr>mst_Address = a, mst_Size = n, mst_Allocators = [i]\<rparr>"

definition getAllocator :: "MallocState \<Rightarrow> Instr option option" where
  "getAllocator m = do { require (mst_Allocators m \<noteq> []); Some (last (mst_Allocators m)) }"

definition pushAllocator :: "Instr option \<Rightarrow> MallocState \<Rightarrow> MallocState" where
  "pushAllocator i m = m\<lparr>mst_Allocators := mst_Allocators m @ [i]\<rparr>"

definition popAllocator :: "MallocState \<Rightarrow> MallocState option" where
  "popAllocator m = do {
     require (mst_Allocators m \<noteq> []);
     let m1 = m\<lparr>mst_Allocators := butlast (mst_Allocators m)\<rparr>;
     require (mst_Allocators m1 \<noteq> []);
     Some m1
   }"

definition setSize :: "u64 \<Rightarrow> MallocState \<Rightarrow> MallocState" where
  "setSize n m = m\<lparr>mst_Size := n\<rparr>"

section \<open>Process state\<close>

record ProcessState =
  ps_ProcessTime :: u64
  ps_Mallocs :: "(u64, MallocState) omap"
  ps_PreviousMallocs :: "MallocState list"
  ps_Memory :: MemoryState
  ps_KnownMemory :: "(u64, MemoryPermission) imap"
  ps_Streams :: "(u64, StreamState) omap"
  ps_StreamsClosed :: "StreamState list"
  ps_Dirs :: "(u64, DIRState) omap"

definition addMalloc :: "u64 \<Rightarrow> u64 \<Rightarrow> Instr option \<Rightarrow> ProcessState \<Rightarrow> ProcessState" where
  "addMalloc a n i s = s\<lparr>ps_Mallocs := fst (map_insert a (new_MallocState a n i) (ps_Mallocs s))\<rparr>"

definition unaddMalloc :: "u64 \<Rightarrow> ProcessState \<Rightarrow> ProcessState option" where
  "unaddMalloc a s = do {
     require (om_find (ps_Mallocs s) a \<noteq> None);
     Some (s\<lparr>ps_Mallocs := om_erase a (ps_Mallocs s)\<rparr>)
   }"

definition removeMalloc :: "u64 \<Rightarrow> ProcessState \<Rightarrow> ProcessState option" where
  "removeMalloc a s = do {
     m \<leftarrow> om_find (ps_Mallocs s) a;
     Some (s\<lparr>ps_PreviousMallocs := ps_PreviousMallocs s @ [m],
             ps_Mallocs := om_erase a (ps_Mallocs s)\<rparr>)
   }"

definition unremoveMalloc :: "u64 \<Rightarrow> ProcessState \<Rightarrow> ProcessState option" where
  "unremoveMalloc a s = do {
     require (ps_PreviousMallocs s \<noteq> []);
     require (mst_Address (last (ps_PreviousMallocs s)) = a);
     Some (s\<lparr>ps_Mallocs := fst (map_insert a (last (ps_PreviousMallocs s)) (ps_Mallocs s)),
             ps_PreviousMallocs := butlast (ps_PreviousMallocs s)\<rparr>)
   }"

definition addKnownMemory :: "u64 \<Rightarrow> u64 \<Rightarrow> MemoryPermission \<Rightarrow> ProcessState \<Rightarrow> ProcessState" where
  "addKnownMemory a n p s =
     s\<lparr>ps_KnownMemory := fst (imv_insert a (a + (n - 1)) p (ps_KnownMemory s))\<rparr>"

definition removeKnownMemory :: "u64 \<Rightarrow> ProcessState \<Rightarrow> ProcessState \<times> bool" where
  "removeKnownMemory a s =
     (let (m, n) = imv_erase a (ps_KnownMemory s)
      in (s\<lparr>ps_KnownMemory := m\<rparr>, n \<noteq> 0))"

definition addStream :: "StreamState \<Rightarrow> ProcessState \<Rightarrow> ProcessState \<times> bool" where
  "addStream st s =
     (let (m, fresh) = map_insert (ss_Address st) st (ps_Streams s)
      in (s\<lparr>ps_Streams := m\<rparr>, fresh))"

definition removeStream :: "u64 \<Rightarrow> ProcessState \<Rightarrow> ProcessState \<times> bool" where
  "removeStream a s =
     (s\<lparr>ps_Streams := om_erase a (ps_Streams s)\<rparr>, om_find (ps_Streams s) a \<noteq> None)"

definition closeStream :: "u64 \<Rightarrow> ProcessState \<Rightarrow> ProcessState \<times> bool" where
  "closeStream a s =
     (case om_find (ps_Streams s) a of
        None \<Rightarrow> (s, False)
      | Some st \<Rightarrow> (s\<lparr>ps_StreamsClosed := ps_StreamsClosed s @ [st],
                      ps_Streams := om_erase a (ps_Streams s)\<rparr>, True))"

definition restoreStream :: "u64 \<Rightarrow> ProcessState \<Rightarrow> ProcessState \<times> bool" where
  "restoreStream a s =
     (if ps_StreamsClosed s = [] \<or> ss_Address (last (ps_StreamsClosed s)) \<noteq> a then (s, False)
      else (s\<lparr>ps_Streams := fst (map_insert a (last (ps_StreamsClosed s)) (ps_Streams s)),
              ps_StreamsClosed := butlast (ps_StreamsClosed s)\<rparr>, True))"

definition getStream :: "u64 \<Rightarrow> ProcessState \<Rightarrow> StreamState option" where
  "getStream a s = om_find (ps_Streams s) a"

definition getStreamStdout :: "ProcessTrace \<Rightarrow> ProcessState \<Rightarrow> StreamState option" where
  "getStreamStdout pt s =
     (if 2 \<le> length (pt_StreamsInitial pt) then getStream (pt_StreamsInitial pt ! 1) s else None)"

definition addDir :: "DIRState \<Rightarrow> ProcessState \<Rightarrow> ProcessState \<times> bool" where
  "addDir d s =
     (let (m, fresh) = map_insert (ds_Address d) d (ps_Dirs s)
      in (s\<lparr>ps_Dirs := m\<rparr>, fresh))"

definition removeDir :: "u64 \<Rightarrow> ProcessState \<Rightarrow> ProcessState \<times> bool" where
  "removeDir a s = (s\<lparr>ps_Dirs := om_erase a (ps_Dirs s)\<rparr>, om_find (ps_Dirs s) a \<noteq> None)"

definition getDir :: "u64 \<Rightarrow> ProcessState \<Rightarrow> DIRState option" where
  "getDir a s = om_find (ps_Dirs s) a"

section \<open>Construction\<close>

text \<open>
  The constructor's loop over the module's globals. Overlapping globals that contain each other keep
  the larger one; other overlaps end the program.
\<close>

datatype init_error = Overlapping_globals

definition add_global ::
  "ProcessTrace \<Rightarrow> nat \<Rightarrow> GlobalInfo \<Rightarrow> MemoryState \<Rightarrow> (init_error + MemoryState) option" where
  "add_global pt i g mem = do {
     data \<leftarrow> getGlobalVariableInitialData pt i (gv_Size g);
     start \<leftarrow> getGlobalVariableAddress pt i;
     let new_area = area start (gv_Size g);
     let add = (\<lambda>m. do {
       m1 \<leftarrow> allocationAdd start (gv_Size g) m;
       m2 \<leftarrow> addBlock_state \<lparr>block_Address = start, block_Data = data\<rparr> m1;
       Some (Inr m2) });
     (case findAllocation start mem of
        Some prior \<Rightarrow>
          if contains_interval (ma_area prior) new_area then Some (Inr mem)
          else if contains_interval new_area (ma_area prior)
          then do { m \<leftarrow> allocationRemove (ma_Address prior) (ma_Size prior) mem; add m }
          else Some (Inl Overlapping_globals)
      | None \<Rightarrow> add mem)
   }"

fun add_globals ::
  "ProcessTrace \<Rightarrow> nat \<Rightarrow> GlobalInfo list \<Rightarrow> MemoryState \<Rightarrow> (init_error + MemoryState) option" where
  "add_globals pt i [] mem = Some (Inr mem)"
| "add_globals pt i (g # gs) mem =
     (case add_global pt i g mem of
        None \<Rightarrow> None
      | Some (Inl e) \<Rightarrow> Some (Inl e)
      | Some (Inr mem') \<Rightarrow> add_globals pt (i + 1) gs mem')"

definition str :: "string \<Rightarrow> byte list" where
  "str cs = map of_char cs"

definition initial_streams :: "u64 list \<Rightarrow> ProcessState \<Rightarrow> ProcessState" where
  "initial_streams as s =
     (let s1 = (if 3 \<le> length as then fst (addStream (new_StreamState (as ! 2) Kind_err (str ''stderr'') (str ''w'')) s) else s);
          s2 = (if 2 \<le> length as then fst (addStream (new_StreamState (as ! 1) Kind_out (str ''stdout'') (str ''w'')) s1) else s1);
          s3 = (if 1 \<le> length as then fst (addStream (new_StreamState (as ! 0) Kind_in (str ''stdin'') (str ''r'')) s2) else s2)
      in s3)"

definition empty_ProcessState :: ProcessState where
  "empty_ProcessState =
     \<lparr>ps_ProcessTime = 0, ps_Mallocs = [], ps_PreviousMallocs = [], ps_Memory = empty_MemoryState,
      ps_KnownMemory = [], ps_Streams = [], ps_StreamsClosed = [], ps_Dirs = []\<rparr>"

definition new_ProcessState :: "ProcessTrace \<Rightarrow> GlobalInfo list \<Rightarrow> (init_error + ProcessState) option" where
  "new_ProcessState pt gs =
     (case add_globals pt 0 gs empty_MemoryState of
        None \<Rightarrow> None
      | Some (Inl e) \<Rightarrow> Some (Inl e)
      | Some (Inr mem) \<Rightarrow>
          Some (Inr (initial_streams (pt_StreamsInitial pt) (empty_ProcessState\<lparr>ps_Memory := mem\<rparr>))))"

section \<open>Which allocation owns an address\<close>

fun find_global :: "ProcessTrace \<Rightarrow> nat \<Rightarrow> GlobalInfo list \<Rightarrow> u64 \<Rightarrow> MemoryArea option option" where
  "find_global pt i [] p = Some None"
| "find_global pt i (g # gs) p = do {
     b \<leftarrow> getGlobalVariableAddress pt i;
     if p < b then find_global pt (i + 1) gs p
     else
       let perm = (if gv_isConstant g then ReadOnly else ReadWrite);
           ar = area_with_access b (gv_Size g) perm
       in if contains_value ar p then Some (Some ar) else find_global pt (i + 1) gs p
   }"

definition isContainedByGlobalVariable :: "ProcessTrace \<Rightarrow> GlobalInfo list \<Rightarrow> u64 \<Rightarrow> bool option" where
  "isContainedByGlobalVariable pt gs p = map_option (\<lambda>r. r \<noteq> None) (find_global pt 0 gs p)"

text \<open>
  The search of the shared state; \<open>stacks\<close> are the answers of the thread states, in order
  (\<open>ThreadState::getContainingMemoryArea\<close>).
\<close>

definition getContainingMemoryArea ::
  "ProcessTrace \<Rightarrow> GlobalInfo list \<Rightarrow> MemoryArea option list \<Rightarrow> u64 \<Rightarrow> ProcessState \<Rightarrow>
   MemoryArea option option" where
  "getContainingMemoryArea pt gs stacks p s = do {
     g \<leftarrow> find_global pt 0 gs p;
     case g of Some ar \<Rightarrow> Some (Some ar) | None \<Rightarrow>
       let dyn = (case om_before p (ps_Mallocs s) of
                    None \<Rightarrow> None
                  | Some (k, m) \<Rightarrow>
                      let ar = area (mst_Address m) (mst_Size m)
                      in if contains_value ar p then Some ar else None)
       in case dyn of Some ar \<Rightarrow> Some (Some ar) | None \<Rightarrow>
         let it = imv_find p (ps_KnownMemory s)
         in if it \<noteq> length (ps_KnownMemory s)
            then let item = ps_KnownMemory s ! it
                 in Some (Some (area_with_access (item_Begin item)
                      ((item_End item - item_Begin item) + 1) (item_Value item)))
            else (case filter (\<lambda>a. a \<noteq> None) stacks of
                    [] \<Rightarrow> Some None
                  | a # as \<Rightarrow> Some a)
   }"

end
