(* ===== verification/BlockStore.thy ===== *)
theory BlockStore
  imports Prelude
begin

text \<open>
  \<open>seec::trace::value_store\<close> (\<open>include/seec/Trace/BlockValueStore.hpp\<close>,
  \<open>lib/Trace/BlockValueStore.cpp\<close>): where the run-time values of the instructions of one basic
  block are kept. \<open>BasicBlockInfo\<close> lays out one slot per recordable instruction, either an offset
  into a byte buffer or an index into a vector of long doubles; \<open>BasicBlockStore\<close> holds the
  values. What the source asks of LLVM about a function is the record \<open>FunctionIndex\<close>: the
  types of its instructions, block by block, numbered in order (\<open>FunctionIndex\<close> of
  \<open>include/seec/Util/ModuleIndex.hpp\<close>). Memory from \<open>new[]\<close> that has not been written is \<open>None\<close>;
  floating-point values are their bit patterns.
\<close>

section \<open>Instructions and types\<close>

datatype IRType = IntegerTy nat | PointerTy | FloatTy | DoubleTy | X86_FP80Ty | FP128Ty | PPC_FP128Ty | OtherTy

definition isRecordableType :: "IRType \<Rightarrow> bool" where
  "isRecordableType t = (case t of IntegerTy w \<Rightarrow> w \<le> 64 | OtherTy \<Rightarrow> False | _ \<Rightarrow> True)"

definition isLongDoubleType :: "IRType \<Rightarrow> bool" where
  "isLongDoubleType t \<longleftrightarrow> t = X86_FP80Ty \<or> t = FP128Ty \<or> t = PPC_FP128Ty"

definition getRecreatedStoreSizeForType :: "IRType \<Rightarrow> nat option" where
  "getRecreatedStoreSizeForType t = (case t of
     IntegerTy w \<Rightarrow> if w \<le> 64 then Some 8 else None
   | PointerTy \<Rightarrow> Some 8
   | FloatTy \<Rightarrow> Some 4
   | DoubleTy \<Rightarrow> Some 8
   | _ \<Rightarrow> None)"

record FunctionIndex =
  fn_Blocks :: "IRType list list"
  fn_DbgDeclare :: "(nat \<times> nat) list"
  fn_ArgCount :: nat

definition instruction_types :: "FunctionIndex \<Rightarrow> IRType list" where
  "instruction_types f = concat (fn_Blocks f)"

definition getInstructionCount :: "FunctionIndex \<Rightarrow> nat" where
  "getInstructionCount f = length (instruction_types f)"

text \<open>The basic block that holds an instruction, and the index of a block's first one.\<close>

fun block_of :: "IRType list list \<Rightarrow> nat \<Rightarrow> nat option" where
  "block_of [] i = None"
| "block_of (b # bs) i = (if i < length b then Some 0 else map_option Suc (block_of bs (i - length b)))"

definition block_base :: "IRType list list \<Rightarrow> nat \<Rightarrow> nat" where
  "block_base bs k = length (concat (take k bs))"

section \<open>Layout of a basic block\<close>

record IndexOrOffsetRecord =
  io_IsAPFloatIndex :: "bool option"
  io_IsDataOffset :: "bool option"
  io_Value :: "nat option"

definition no_record :: IndexOrOffsetRecord where
  "no_record = \<lparr>io_IsAPFloatIndex = None, io_IsDataOffset = None, io_Value = None\<rparr>"

record BasicBlockInfo =
  bi_InstrIndexBase :: nat
  bi_InstrCount :: nat
  bi_LongDoubleInstrCount :: nat
  bi_TotalDataSize :: nat
  bi_IndicesAndOffsets :: "IndexOrOffsetRecord list"

text \<open>
  One round of the constructor's loop. The array starts uninitialised and only the flag that
  applies is set; the value is a bit-field of 30 bits.
\<close>

definition bbinfo_step :: "IRType \<Rightarrow> BasicBlockInfo \<Rightarrow> BasicBlockInfo option" where
  "bbinfo_step t b =
     (let next = b\<lparr>bi_InstrCount := bi_InstrCount b + 1\<rparr>; recs = bi_IndicesAndOffsets b in
      if isRecordableType t then
        (if isLongDoubleType t then
           Some (next\<lparr>bi_LongDoubleInstrCount := bi_LongDoubleInstrCount b + 1,
                      bi_IndicesAndOffsets := recs @
                        [no_record\<lparr>io_IsAPFloatIndex := Some True,
                                   io_Value := Some (bi_LongDoubleInstrCount b mod 2 ^ 30)\<rparr>]\<rparr>)
         else case getRecreatedStoreSizeForType t of
           Some n \<Rightarrow>
             Some (next\<lparr>bi_TotalDataSize := bi_TotalDataSize b + n,
                        bi_IndicesAndOffsets := recs @
                          [no_record\<lparr>io_IsDataOffset := Some True,
                                     io_Value := Some (bi_TotalDataSize b mod 2 ^ 30)\<rparr>]\<rparr>)
         | None \<Rightarrow> None)
      else Some (next\<lparr>bi_IndicesAndOffsets := recs @ [no_record]\<rparr>))"

fun bbinfo_loop :: "IRType list \<Rightarrow> BasicBlockInfo \<Rightarrow> BasicBlockInfo option" where
  "bbinfo_loop [] b = Some b"
| "bbinfo_loop (t # ts) b = bbinfo_step t b \<bind> bbinfo_loop ts"

definition new_BasicBlockInfo :: "nat \<Rightarrow> IRType list \<Rightarrow> BasicBlockInfo option" where
  "new_BasicBlockInfo base ts =
     bbinfo_loop ts \<lparr>bi_InstrIndexBase = (if ts = [] then 0 else base), bi_InstrCount = 0,
       bi_LongDoubleInstrCount = 0, bi_TotalDataSize = 0, bi_IndicesAndOffsets = []\<rparr>"

definition getBasicBlockInfo :: "FunctionIndex \<Rightarrow> nat \<Rightarrow> BasicBlockInfo option" where
  "getBasicBlockInfo f k =
     (if k < length (fn_Blocks f)
      then new_BasicBlockInfo (block_base (fn_Blocks f) k) (fn_Blocks f ! k) else None)"

definition getAdjustedIndex :: "BasicBlockInfo \<Rightarrow> nat \<Rightarrow> nat option" where
  "getAdjustedIndex b i = do {
     require (bi_InstrIndexBase b \<le> i);
     let k = i - bi_InstrIndexBase b;
     require (k < bi_InstrCount b);
     Some k
   }"

definition getDataOffset :: "BasicBlockInfo \<Rightarrow> nat \<Rightarrow> nat option option" where
  "getDataOffset b i = do {
     k \<leftarrow> getAdjustedIndex b i;
     let r = bi_IndicesAndOffsets b ! k;
     flag \<leftarrow> io_IsDataOffset r;
     if flag then do { v \<leftarrow> io_Value r; Some (Some v) } else Some None
   }"

definition getAPFloatIndex :: "BasicBlockInfo \<Rightarrow> nat \<Rightarrow> nat option option" where
  "getAPFloatIndex b i = do {
     k \<leftarrow> getAdjustedIndex b i;
     let r = bi_IndicesAndOffsets b ! k;
     flag \<leftarrow> io_IsAPFloatIndex r;
     if flag then do { v \<leftarrow> io_Value r; Some (Some v) } else Some None
   }"

section \<open>Values\<close>

datatype APFloat = APFloat_single_zero | APFloat_x87 u64 u64

text \<open>Objects in memory, least significant byte first.\<close>

fun le_bytes :: "nat \<Rightarrow> nat \<Rightarrow> byte list" where
  "le_bytes 0 x = []"
| "le_bytes (Suc n) x = of_nat (x mod 256) # le_bytes n (x div 256)"

fun of_le_bytes :: "byte list \<Rightarrow> nat" where
  "of_le_bytes [] = 0"
| "of_le_bytes (b # bs) = unat b + 256 * of_le_bytes bs"

record BasicBlockStore =
  bs_Data :: "byte option list"
  bs_ValuesSet :: "bool list"
  bs_LongDoubles :: "APFloat list"

definition new_BasicBlockStore :: "BasicBlockInfo \<Rightarrow> BasicBlockStore" where
  "new_BasicBlockStore b =
     \<lparr>bs_Data = replicate (bi_TotalDataSize b) None,
      bs_ValuesSet = replicate (bi_InstrCount b) False,
      bs_LongDoubles = replicate (bi_LongDoubleInstrCount b) APFloat_single_zero\<rparr>"

definition bs_hasValue :: "BasicBlockInfo \<Rightarrow> nat \<Rightarrow> BasicBlockStore \<Rightarrow> bool option" where
  "bs_hasValue b i s = do {
     k \<leftarrow> getAdjustedIndex b i;
     require (k < length (bs_ValuesSet s));
     Some (bs_ValuesSet s ! k)
   }"

definition bs_setHasValue :: "BasicBlockInfo \<Rightarrow> nat \<Rightarrow> BasicBlockStore \<Rightarrow> BasicBlockStore option" where
  "bs_setHasValue b i s = do {
     k \<leftarrow> getAdjustedIndex b i;
     require (k < length (bs_ValuesSet s));
     Some (s\<lparr>bs_ValuesSet := (bs_ValuesSet s)[k := True]\<rparr>)
   }"

text \<open>\<open>getValue<T>\<close> for a type of \<open>n\<close> bytes; the inner option is the source's.\<close>

definition bs_getValue :: "nat \<Rightarrow> BasicBlockInfo \<Rightarrow> nat \<Rightarrow> BasicBlockStore \<Rightarrow> nat option option" where
  "bs_getValue n b i s = do {
     has \<leftarrow> bs_hasValue b i s;
     if has then do {
       off \<leftarrow> getDataOffset b i;
       case off of
         None \<Rightarrow> Some None
       | Some o' \<Rightarrow> do {
           require (o' \<le> bi_TotalDataSize b \<and> n \<le> bi_TotalDataSize b - o');
           raw \<leftarrow> slice o' n (bs_Data s);
           require (list_all (\<lambda>x. x \<noteq> None) raw);
           Some (Some (of_le_bytes (map the raw)))
         }
     } else Some None
   }"

text \<open>
  \<open>setUInt64\<close>, \<open>setPtr\<close>, \<open>setFloat\<close> and \<open>setDouble\<close> differ in the size of the value and in the
  comparison of the assertion that a value set again is the same.
\<close>

definition bs_setValue ::
  "nat \<Rightarrow> (nat \<Rightarrow> nat \<Rightarrow> bool) \<Rightarrow> BasicBlockInfo \<Rightarrow> nat \<Rightarrow> nat \<Rightarrow> BasicBlockStore \<Rightarrow> BasicBlockStore option" where
  "bs_setValue n eq b i v s = do {
     off \<leftarrow> getDataOffset b i;
     case off of
       None \<Rightarrow> Some s
     | Some o' \<Rightarrow> do {
         has \<leftarrow> bs_hasValue b i s;
         if has then do {
           old \<leftarrow> bs_getValue n b i s;
           w \<leftarrow> old;
           require (eq w v);
           Some s
         } else do {
           data \<leftarrow> overwrite o' (map Some (le_bytes n v)) (bs_Data s);
           bs_setHasValue b i (s\<lparr>bs_Data := data\<rparr>)
         }
       }
   }"

text \<open>IEEE equality of bit patterns: not-a-number differs from itself, the zeros are equal.\<close>

definition ieee_eq :: "nat \<Rightarrow> nat \<Rightarrow> nat \<Rightarrow> nat \<Rightarrow> bool" where
  "ieee_eq ebits fbits x y =
     (let nan = (\<lambda>z. z div 2 ^ fbits mod 2 ^ ebits = 2 ^ ebits - 1 \<and> z mod 2 ^ fbits \<noteq> 0);
          zero = (\<lambda>z. z mod 2 ^ (ebits + fbits) = 0)
      in \<not> nan x \<and> \<not> nan y \<and> (x = y \<or> zero x \<and> zero y))"

definition bs_setUInt64 :: "BasicBlockInfo \<Rightarrow> nat \<Rightarrow> u64 \<Rightarrow> BasicBlockStore \<Rightarrow> BasicBlockStore option" where
  "bs_setUInt64 b i v = bs_setValue 8 (=) b i (unat v)"

definition bs_setPtr :: "BasicBlockInfo \<Rightarrow> nat \<Rightarrow> u64 \<Rightarrow> BasicBlockStore \<Rightarrow> BasicBlockStore option" where
  "bs_setPtr b i v = bs_setValue 8 (=) b i (unat v)"

definition bs_setFloat :: "BasicBlockInfo \<Rightarrow> nat \<Rightarrow> u32 \<Rightarrow> BasicBlockStore \<Rightarrow> BasicBlockStore option" where
  "bs_setFloat b i v = bs_setValue 4 (ieee_eq 8 23) b i (unat v)"

definition bs_setDouble :: "BasicBlockInfo \<Rightarrow> nat \<Rightarrow> u64 \<Rightarrow> BasicBlockStore \<Rightarrow> BasicBlockStore option" where
  "bs_setDouble b i v = bs_setValue 8 (ieee_eq 11 52) b i (unat v)"

definition bs_setAPFloat :: "BasicBlockInfo \<Rightarrow> nat \<Rightarrow> APFloat \<Rightarrow> BasicBlockStore \<Rightarrow> BasicBlockStore option" where
  "bs_setAPFloat b i v s = do {
     ix \<leftarrow> getAPFloatIndex b i;
     case ix of
       None \<Rightarrow> Some s
     | Some k \<Rightarrow> do {
         require (k < length (bs_LongDoubles s));
         bs_setHasValue b i (s\<lparr>bs_LongDoubles := (bs_LongDoubles s)[k := v]\<rparr>)
       }
   }"

definition bs_getUInt64 :: "BasicBlockInfo \<Rightarrow> nat \<Rightarrow> BasicBlockStore \<Rightarrow> u64 option option" where
  "bs_getUInt64 b i s = map_option (map_option of_nat) (bs_getValue 8 b i s)"

definition bs_getPtr :: "BasicBlockInfo \<Rightarrow> nat \<Rightarrow> BasicBlockStore \<Rightarrow> u64 option option" where
  "bs_getPtr b i s = map_option (map_option of_nat) (bs_getValue 8 b i s)"

definition bs_getFloat :: "BasicBlockInfo \<Rightarrow> nat \<Rightarrow> BasicBlockStore \<Rightarrow> u32 option option" where
  "bs_getFloat b i s = map_option (map_option of_nat) (bs_getValue 4 b i s)"

definition bs_getDouble :: "BasicBlockInfo \<Rightarrow> nat \<Rightarrow> BasicBlockStore \<Rightarrow> u64 option option" where
  "bs_getDouble b i s = map_option (map_option of_nat) (bs_getValue 8 b i s)"

definition bs_getAPFloat :: "BasicBlockInfo \<Rightarrow> nat \<Rightarrow> BasicBlockStore \<Rightarrow> APFloat option option" where
  "bs_getAPFloat b i s = do {
     has \<leftarrow> bs_hasValue b i s;
     if has then do {
       ix \<leftarrow> getAPFloatIndex b i;
       case ix of
         None \<Rightarrow> Some None
       | Some k \<Rightarrow> do { require (k < length (bs_LongDoubles s)); Some (Some (bs_LongDoubles s ! k)) }
     } else Some None
   }"

section \<open>Laws\<close>

lemma length_le_bytes [simp]: "length (le_bytes n x) = n"
  by (induction n x rule: le_bytes.induct) simp_all

lemma of_le_bytes_le_bytes: "of_le_bytes (le_bytes n x) = x mod 256 ^ n"
proof (induction n x rule: le_bytes.induct)
  case (2 n x)
  have "unat (of_nat (x mod 256) :: byte) = x mod 256"
    by (simp add: unsigned_of_nat take_bit_eq_mod)
  with 2 show ?case by (simp add: mod_mult2_eq)
qed simp

text \<open>The slots of a block: where each instruction's value goes.\<close>

definition slot_size :: "IRType \<Rightarrow> nat" where
  "slot_size t = (if isRecordableType t \<and> \<not> isLongDoubleType t
                  then (case getRecreatedStoreSizeForType t of Some n \<Rightarrow> n | None \<Rightarrow> 0) else 0)"

definition slot_offset :: "IRType list \<Rightarrow> nat \<Rightarrow> nat" where
  "slot_offset ts k = sum_list (map slot_size (take k ts))"

fun layout :: "IRType list \<Rightarrow> nat \<Rightarrow> nat \<Rightarrow> IndexOrOffsetRecord list" where
  "layout [] ld off = []"
| "layout (t # ts) ld off =
     (if isRecordableType t then
        if isLongDoubleType t
        then no_record\<lparr>io_IsAPFloatIndex := Some True, io_Value := Some (ld mod 2 ^ 30)\<rparr>
             # layout ts (ld + 1) off
        else no_record\<lparr>io_IsDataOffset := Some True, io_Value := Some (off mod 2 ^ 30)\<rparr>
             # layout ts ld (off + slot_size t)
      else no_record # layout ts ld off)"

lemma recordable_size:
  "isRecordableType t \<Longrightarrow> \<not> isLongDoubleType t \<Longrightarrow>
   getRecreatedStoreSizeForType t = Some (slot_size t) \<and> 0 < slot_size t"
  by (cases t) (auto simp: isRecordableType_def isLongDoubleType_def slot_size_def
      getRecreatedStoreSizeForType_def)

lemma bbinfo_loop_layout:
  "bbinfo_loop ts b = Some (b\<lparr>bi_InstrCount := bi_InstrCount b + length ts,
     bi_LongDoubleInstrCount := bi_LongDoubleInstrCount b + length (filter isLongDoubleType ts),
     bi_TotalDataSize := bi_TotalDataSize b + sum_list (map slot_size ts),
     bi_IndicesAndOffsets := bi_IndicesAndOffsets b @
       layout ts (bi_LongDoubleInstrCount b) (bi_TotalDataSize b)\<rparr>)"
proof (induction ts arbitrary: b)
  case (Cons t ts)
  consider (ld) "isRecordableType t" "isLongDoubleType t"
    | (data) "isRecordableType t" "\<not> isLongDoubleType t" | (none) "\<not> isRecordableType t" by blast
  then show ?case
  proof cases
    case ld
    then show ?thesis by (simp add: bbinfo_step_def Let_def Cons.IH slot_size_def)
  next
    case data
    then show ?thesis using recordable_size[OF data]
      by (simp add: bbinfo_step_def Let_def Cons.IH)
  next
    case none
    then have "\<not> isLongDoubleType t"
      by (auto simp: isRecordableType_def isLongDoubleType_def)
    with none show ?thesis by (simp add: bbinfo_step_def Let_def Cons.IH slot_size_def)
  qed
qed simp

lemma length_layout [simp]: "length (layout ts ld off) = length ts"
  by (induction ts ld off rule: layout.induct) simp_all

lemma nth_layout_data:
  "k < length ts \<Longrightarrow> isRecordableType (ts ! k) \<Longrightarrow> \<not> isLongDoubleType (ts ! k) \<Longrightarrow>
   layout ts ld off ! k =
     no_record\<lparr>io_IsDataOffset := Some True, io_Value := Some ((off + slot_offset ts k) mod 2 ^ 30)\<rparr>"
proof (induction ts ld off arbitrary: k rule: layout.induct)
  case (2 t ts ld off)
  show ?case
  proof (cases k)
    case 0
    with 2 show ?thesis by (simp add: slot_offset_def)
  next
    case (Suc j)
    with 2 show ?thesis
      by (cases "isRecordableType t"; cases "isLongDoubleType t")
        (simp_all add: slot_offset_def slot_size_def add.assoc)
  qed
qed simp

lemma slot_offset_bound:
  "k < length ts \<Longrightarrow> slot_offset ts k + slot_size (ts ! k) \<le> sum_list (map slot_size ts)"
proof (induction ts arbitrary: k)
  case (Cons t ts)
  then show ?case by (cases k) (auto simp: slot_offset_def)
qed simp

lemma slot_offset_order:
  "j < k \<Longrightarrow> k < length ts \<Longrightarrow> slot_offset ts j + slot_size (ts ! j) \<le> slot_offset ts k"
proof (induction ts arbitrary: j k)
  case (Cons t ts)
  then obtain k' where k: "k = Suc k'" by (cases k) auto
  with Cons show ?case by (cases j) (auto simp: slot_offset_def)
qed simp

text \<open>The information of a block of given types, when its data fits the 30-bit offsets.\<close>

definition info_for :: "BasicBlockInfo \<Rightarrow> nat \<Rightarrow> IRType list \<Rightarrow> bool" where
  "info_for b base ts \<longleftrightarrow> new_BasicBlockInfo base ts = Some b \<and> bi_TotalDataSize b < 2 ^ 30"

definition data_slot :: "IRType list \<Rightarrow> nat \<Rightarrow> nat \<Rightarrow> bool" where
  "data_slot ts k n \<longleftrightarrow> k < length ts \<and> isRecordableType (ts ! k) \<and> \<not> isLongDoubleType (ts ! k) \<and>
     slot_size (ts ! k) = n"

lemma info_forD:
  assumes "info_for b base ts"
  shows "bi_InstrCount b = length ts" and "bi_TotalDataSize b = sum_list (map slot_size ts)"
    and "bi_LongDoubleInstrCount b = length (filter isLongDoubleType ts)"
    and "bi_IndicesAndOffsets b = layout ts 0 0" and "ts \<noteq> [] \<Longrightarrow> bi_InstrIndexBase b = base"
    and "sum_list (map slot_size ts) < 2 ^ 30"
  using assms by (auto simp: info_for_def new_BasicBlockInfo_def bbinfo_loop_layout)

lemma adjusted_index:
  assumes "info_for b base ts" and "k < length ts"
  shows "getAdjustedIndex b (base + k) = Some k"
proof -
  from assms(2) have "ts \<noteq> []" by auto
  then show ?thesis using info_forD[OF assms(1)] assms(2) by (simp add: getAdjustedIndex_def)
qed

lemma data_offset:
  assumes "info_for b base ts" and "data_slot ts k n"
  shows "getDataOffset b (base + k) = Some (Some (slot_offset ts k))"
proof -
  have k: "k < length ts" "isRecordableType (ts ! k)" "\<not> isLongDoubleType (ts ! k)"
    using assms(2) by (simp_all add: data_slot_def)
  have "slot_offset ts k < 2 ^ 30"
    using slot_offset_bound[OF k(1)] info_forD(6)[OF assms(1)] by linarith
  then show ?thesis
    using adjusted_index[OF assms(1) k(1)] nth_layout_data[OF k, of 0 0] info_forD(4)[OF assms(1)]
    by (simp add: getDataOffset_def)
qed

definition store_ok :: "IRType list \<Rightarrow> BasicBlockStore \<Rightarrow> bool" where
  "store_ok ts s \<longleftrightarrow> length (bs_Data s) = sum_list (map slot_size ts) \<and>
     length (bs_ValuesSet s) = length ts \<and>
     length (bs_LongDoubles s) = length (filter isLongDoubleType ts) \<and>
     (\<forall>k n. data_slot ts k n \<longrightarrow> bs_ValuesSet s ! k \<longrightarrow>
        (\<forall>i < n. bs_Data s ! (slot_offset ts k + i) \<noteq> None))"

lemma store_ok_new: "info_for b base ts \<Longrightarrow> store_ok ts (new_BasicBlockStore b)"
  using info_forD[of b base ts] by (auto simp: store_ok_def new_BasicBlockStore_def data_slot_def)

lemma hasValue_eq:
  "info_for b base ts \<Longrightarrow> store_ok ts s \<Longrightarrow> k < length ts \<Longrightarrow>
   bs_hasValue b (base + k) s = Some (bs_ValuesSet s ! k)"
  by (simp add: bs_hasValue_def adjusted_index store_ok_def)

lemma getValue_eq:
  assumes i: "info_for b base ts" and ok: "store_ok ts s" and d: "data_slot ts k n"
  shows "bs_getValue n b (base + k) s =
    Some (if bs_ValuesSet s ! k
          then Some (of_le_bytes (map the (take n (drop (slot_offset ts k) (bs_Data s))))) else None)"
proof -
  have k: "k < length ts" and n: "slot_size (ts ! k) = n" using d by (simp_all add: data_slot_def)
  have bnd: "slot_offset ts k + n \<le> sum_list (map slot_size ts)"
    using slot_offset_bound[OF k] n by simp
  have len: "length (bs_Data s) = sum_list (map slot_size ts)" using ok by (simp add: store_ok_def)
  let ?raw = "take n (drop (slot_offset ts k) (bs_Data s))"
  have "list_all (\<lambda>x. x \<noteq> None) ?raw" if "bs_ValuesSet s ! k"
    using ok d that bnd len by (auto simp: store_ok_def list_all_length)
  then show ?thesis
    using hasValue_eq[OF i ok k] data_offset[OF i d] info_forD(2)[OF i] bnd len
    by (auto simp: bs_getValue_def slice_def)
qed

text \<open>A value set for the first time is read back, and every other slot keeps its own.\<close>

lemma setValue_fresh:
  assumes i: "info_for b base ts" and ok: "store_ok ts s" and d: "data_slot ts k n"
    and new: "\<not> bs_ValuesSet s ! k"
  shows "\<exists>s'. bs_setValue n eq b (base + k) v s = Some s' \<and> store_ok ts s' \<and>
     bs_ValuesSet s' = (bs_ValuesSet s)[k := True] \<and> bs_LongDoubles s' = bs_LongDoubles s \<and>
     overwrite (slot_offset ts k) (map Some (le_bytes n v)) (bs_Data s) = Some (bs_Data s')"
proof -
  have k: "k < length ts" and n: "slot_size (ts ! k) = n" using d by (simp_all add: data_slot_def)
  have bnd: "slot_offset ts k + n \<le> sum_list (map slot_size ts)"
    using slot_offset_bound[OF k] n by simp
  have len: "length (bs_Data s) = sum_list (map slot_size ts)" "length (bs_ValuesSet s) = length ts"
    using ok by (simp_all add: store_ok_def)
  obtain data where dt: "overwrite (slot_offset ts k) (map Some (le_bytes n v)) (bs_Data s) = Some data"
    using overwrite_defined[of "slot_offset ts k" "map Some (le_bytes n v)" "bs_Data s"] bnd len by auto
  let ?s = "s\<lparr>bs_Data := data, bs_ValuesSet := (bs_ValuesSet s)[k := True]\<rparr>"
  have "bs_setValue n eq b (base + k) v s = Some ?s"
    using hasValue_eq[OF i ok k] data_offset[OF i d] new dt adjusted_index[OF i k] len k
    by (simp add: bs_setValue_def bs_setHasValue_def)
  moreover have "store_ok ts ?s"
  proof -
    have "data ! (slot_offset ts j + m) \<noteq> None"
      if j: "data_slot ts j q" "(bs_ValuesSet s)[k := True] ! j" "m < q" for j q m
    proof -
      have jl: "j < length ts" "slot_size (ts ! j) = q" using j(1) by (simp_all add: data_slot_def)
      have jb: "slot_offset ts j + m < length (bs_Data s)"
        using slot_offset_bound[OF jl(1)] jl(2) j(3) len by simp
      note nt = nth_overwrite[OF dt jb]
      show ?thesis
      proof (cases "j = k")
        case True
        then show ?thesis using nt j(3) n jl by simp
      next
        case False
        then have "bs_Data s ! (slot_offset ts j + m) \<noteq> None"
          using ok j jl by (auto simp: store_ok_def nth_list_update)
        moreover have "slot_offset ts j + m < slot_offset ts k \<or> slot_offset ts k + n \<le> slot_offset ts j + m"
          using False slot_offset_order[of j k ts] slot_offset_order[of k j ts] k jl j(3) n
          by (cases "j < k") auto
        ultimately show ?thesis using nt by auto
      qed
    qed
    then show ?thesis using ok length_overwrite[OF dt] by (auto simp: store_ok_def)
  qed
  ultimately show ?thesis using dt by auto
qed

lemma getValue_after_set:
  assumes i: "info_for b base ts" and ok: "store_ok ts s" "store_ok ts s'" and d: "data_slot ts k n"
    and j: "data_slot ts j m"
    and set: "bs_ValuesSet s' = (bs_ValuesSet s)[k := True]"
      "overwrite (slot_offset ts k) (map Some (le_bytes n v)) (bs_Data s) = Some (bs_Data s')"
  shows "bs_getValue m b (base + j) s' =
     (if j = k then Some (Some (v mod 256 ^ n)) else bs_getValue m b (base + j) s)"
proof -
  have k: "k < length ts" "slot_size (ts ! k) = n" and jl: "j < length ts" "slot_size (ts ! j) = m"
    using d j by (simp_all add: data_slot_def)
  have len: "length (bs_ValuesSet s) = length ts" "length (bs_Data s) = sum_list (map slot_size ts)"
    using ok(1) by (simp_all add: store_ok_def)
  have jb: "slot_offset ts j + m \<le> length (bs_Data s)"
    using slot_offset_bound[OF jl(1)] jl(2) len by simp
  show ?thesis
  proof (cases "j = k")
    case True
    have "take n (drop (slot_offset ts k) (bs_Data s')) = map Some (le_bytes n v)"
      using slice_overwrite[OF set(2)] by (simp add: bytes_simps)
    with True set(1) len k jl getValue_eq[OF i ok(2) j] show ?thesis
      by (simp add: of_le_bytes_le_bytes comp_def)
  next
    case False
    have "slot_offset ts j + m \<le> slot_offset ts k \<or> slot_offset ts k + n \<le> slot_offset ts j"
      using False slot_offset_order[of j k ts] slot_offset_order[of k j ts] k jl
      by (cases "j < k") auto
    then have "bs_Data s' ! (slot_offset ts j + q) = bs_Data s ! (slot_offset ts j + q)" if "q < m" for q
      using that jb nth_overwrite[OF set(2), of "slot_offset ts j + q"] by auto
    then have "take m (drop (slot_offset ts j) (bs_Data s')) = take m (drop (slot_offset ts j) (bs_Data s))"
      using jb length_overwrite[OF set(2)] by (intro nth_equalityI) auto
    with False set(1) getValue_eq[OF i ok(2) j] getValue_eq[OF i ok(1) j] show ?thesis by simp
  qed
qed

section \<open>Properties\<close>

text \<open>C29: The layout of a basic block's store gives every instruction with a value of its own a slot
  inside the store, wide enough for its type, and different instructions never share a byte,
  as long as the block's data fits the 30-bit offsets.\<close>

theorem store_slots_disjoint:
  assumes "new_BasicBlockInfo base ts = Some b" and "bi_TotalDataSize b < 2 ^ 30"
    and "data_slot ts j n" and "data_slot ts k m" and "j \<noteq> k"
  shows "\<exists>p q. getDataOffset b (base + j) = Some (Some p) \<and> getDataOffset b (base + k) = Some (Some q) \<and>
    p + n \<le> length (bs_Data (new_BasicBlockStore b)) \<and> q + m \<le> length (bs_Data (new_BasicBlockStore b)) \<and>
    (p + n \<le> q \<or> q + m \<le> p)"
proof -
  have i: "info_for b base ts" using assms(1,2) by (simp add: info_for_def)
  have l: "j < length ts" "slot_size (ts ! j) = n" "k < length ts" "slot_size (ts ! k) = m"
    using assms(3,4) by (simp_all add: data_slot_def)
  have "length (bs_Data (new_BasicBlockStore b)) = sum_list (map slot_size ts)"
    using store_ok_new[OF i] by (simp add: store_ok_def)
  moreover have "slot_offset ts j + n \<le> slot_offset ts k \<or> slot_offset ts k + m \<le> slot_offset ts j"
    using slot_offset_order[of j k ts] slot_offset_order[of k j ts] l assms(5) by (cases "j < k") auto
  ultimately show ?thesis
    using data_offset[OF i assms(3)] data_offset[OF i assms(4)]
      slot_offset_bound[OF l(1)] slot_offset_bound[OF l(3)] l by auto
qed

definition sample_types :: "IRType list" where
  "sample_types = [IntegerTy 8, OtherTy, PointerTy, X86_FP80Ty, DoubleTy]"

theorem store_slots_disjoint_witness:
  "\<exists>p q. getDataOffset (the (new_BasicBlockInfo 5 sample_types)) (5 + 2) = Some (Some p) \<and>
     getDataOffset (the (new_BasicBlockInfo 5 sample_types)) (5 + 4) = Some (Some q) \<and> (p + 8 \<le> q \<or> q + 8 \<le> p)"
proof -
  have d: "data_slot sample_types 2 8" "data_slot sample_types 4 8"
    by (simp_all add: data_slot_def sample_types_def isRecordableType_def isLongDoubleType_def slot_size_def
        getRecreatedStoreSizeForType_def)
  obtain b where b: "new_BasicBlockInfo 5 sample_types = Some b" "bi_TotalDataSize b < 2 ^ 30"
    by (simp add: new_BasicBlockInfo_def bbinfo_loop_layout sample_types_def slot_size_def isRecordableType_def
        isLongDoubleType_def getRecreatedStoreSizeForType_def)
  show ?thesis using store_slots_disjoint[OF b d] b(1) by auto
qed

end
