(* ===== verification/Events.thy ===== *)
theory Events
  imports Prelude
begin

text \<open>
  The event records of a thread's trace (\<open>include/seec/Trace/Events.def\<close>, \<open>TraceFormat.hpp\<close>), the
  searches over them (\<open>TraceSearch.hpp\<close>), and the runtime errors that are spread over several
  records (\<open>deserializeRuntimeError\<close> of \<open>lib/Trace/TraceReader.cpp\<close>). A thread's events are a
  list; an \<open>EventReference\<close> is a position in it and the file offsets of events are those
  positions. An \<open>EventRange\<close> is a pair of positions.
\<close>

section \<open>Event records\<close>

datatype (plugins only: code size) Event =
    TraceEnd u64
  | FunctionStart u32 nat nat u64 u64
  | FunctionEnd nat
  | NewProcessTime u64
  | NewThreadTime u64
  | PreInstruction nat
  | Instruction nat
  | InstructionWithUInt8 u8 nat
  | InstructionWithUInt16 u16 nat
  | InstructionWithUInt32 u32 nat
  | InstructionWithUInt64 nat u64
  | InstructionWithPtr nat u64
  | InstructionWithFloat nat u32
  | InstructionWithDouble nat u64
  | InstructionWithLongDouble nat u64 u64
  | Alloca u64 u64
  | StackRestore nat
  | StackRestoreAlloca nat
  | Malloc u64 u64
  | Free u64 u64
  | Realloc u64 u64 u64 u64
  | StateTyped u64 u64 u64
  | StateUntypedSmall u8 u64 u64 u64
  | StateUntyped u64 u64 u64 u64
  | StateMemmove u64 u64 u64 u64
  | StateClear u64 u64 u64
  | KnownRegionAdd u64 u64 bool bool
  | KnownRegionRemove u64 u64 bool bool
  | ByValRegionAdd u16 u64 u64
  | FileOpen u64 u64 u64 u64
  | FileWrite u64 u64 u64 u64
  | FileWriteFromMemory u64 u64 u64 u64
  | FileClose u64 u64 u64 u64
  | DirOpen u64 u64 u64
  | DirClose u64 u64 u64
  | RuntimeError u16 u8 u8 bool
  | RuntimeErrorArgument u8 u64

fun ev_ProcessTime :: "Event \<Rightarrow> u64 option" where
  "ev_ProcessTime (NewProcessTime t) = Some t"
| "ev_ProcessTime (Malloc n t) = Some t"
| "ev_ProcessTime (Free a t) = Some t"
| "ev_ProcessTime (Realloc a old new t) = Some t"
| "ev_ProcessTime (StateTyped a t off) = Some t"
| "ev_ProcessTime (StateUntypedSmall n a t d) = Some t"
| "ev_ProcessTime (StateUntyped a t off n) = Some t"
| "ev_ProcessTime (StateMemmove t src dst n) = Some t"
| "ev_ProcessTime (StateClear a t n) = Some t"
| "ev_ProcessTime (FileOpen t f name mode) = Some t"
| "ev_ProcessTime (FileWrite t f off n) = Some t"
| "ev_ProcessTime (FileWriteFromMemory t f a n) = Some t"
| "ev_ProcessTime (FileClose t f name mode) = Some t"
| "ev_ProcessTime (DirOpen t d name) = Some t"
| "ev_ProcessTime (DirClose t d name) = Some t"
| "ev_ProcessTime _ = None"

fun ev_Index :: "Event \<Rightarrow> nat option" where
  "ev_Index (PreInstruction i) = Some i"
| "ev_Index (Instruction i) = Some i"
| "ev_Index (InstructionWithUInt8 v i) = Some i"
| "ev_Index (InstructionWithUInt16 v i) = Some i"
| "ev_Index (InstructionWithUInt32 v i) = Some i"
| "ev_Index (InstructionWithUInt64 i v) = Some i"
| "ev_Index (InstructionWithPtr i v) = Some i"
| "ev_Index (InstructionWithFloat i v) = Some i"
| "ev_Index (InstructionWithDouble i v) = Some i"
| "ev_Index (InstructionWithLongDouble i v w) = Some i"
| "ev_Index _ = None"

section \<open>Event traits\<close>

text \<open>In \<open>Events.def\<close> exactly the instruction events have an \<open>Index\<close> member.\<close>

definition is_instruction :: "Event \<Rightarrow> bool" where
  "is_instruction e \<longleftrightarrow> ev_Index e \<noteq> None"

definition is_block_start :: "Event \<Rightarrow> bool" where
  "is_block_start e \<longleftrightarrow> is_instruction e \<or>
     (case e of TraceEnd _ \<Rightarrow> True | FunctionStart _ _ _ _ _ \<Rightarrow> True | FunctionEnd _ \<Rightarrow> True
      | NewProcessTime _ \<Rightarrow> True | NewThreadTime _ \<Rightarrow> True | _ \<Rightarrow> False)"

definition is_subservient :: "Event \<Rightarrow> bool" where
  "is_subservient e \<longleftrightarrow>
     (case e of StackRestoreAlloca _ \<Rightarrow> True | RuntimeErrorArgument _ _ \<Rightarrow> True | _ \<Rightarrow> False)"

definition is_function_level :: "Event \<Rightarrow> bool" where
  "is_function_level e \<longleftrightarrow> is_instruction e \<or>
     (case e of NewThreadTime _ \<Rightarrow> True | Alloca _ _ \<Rightarrow> True | StackRestore _ \<Rightarrow> True
      | StackRestoreAlloca _ \<Rightarrow> True | ByValRegionAdd _ _ _ \<Rightarrow> True
      | RuntimeError _ _ _ _ \<Rightarrow> True | _ \<Rightarrow> False)"

definition modifies_shared_state :: "Event \<Rightarrow> bool" where
  "modifies_shared_state e \<longleftrightarrow>
     (case e of KnownRegionAdd _ _ _ _ \<Rightarrow> True | KnownRegionRemove _ _ _ _ \<Rightarrow> True
      | NewProcessTime _ \<Rightarrow> False | _ \<Rightarrow> ev_ProcessTime e \<noteq> None)"

definition is_memory_state :: "Event \<Rightarrow> bool" where
  "is_memory_state e \<longleftrightarrow>
     (case e of StateTyped _ _ _ \<Rightarrow> True | StateUntypedSmall _ _ _ _ \<Rightarrow> True
      | StateUntyped _ _ _ _ \<Rightarrow> True | StateMemmove _ _ _ _ \<Rightarrow> True | _ \<Rightarrow> False)"

section \<open>Ranges\<close>

type_synonym EventRange = "nat \<times> nat"

definition events_range :: "Event list \<Rightarrow> EventRange" where
  "events_range es = (0, length es)"

definition rangeBefore :: "EventRange \<Rightarrow> nat \<Rightarrow> EventRange option" where
  "rangeBefore r e = do { require (fst r \<le> e \<and> e \<le> snd r); Some (fst r, e) }"

definition rangeBeforeIncluding :: "EventRange \<Rightarrow> nat \<Rightarrow> EventRange option" where
  "rangeBeforeIncluding r e = do {
     require (fst r \<le> e \<and> e \<le> snd r);
     Some (fst r, if e \<noteq> snd r then e + 1 else e)
   }"

definition rangeAfter :: "EventRange \<Rightarrow> nat \<Rightarrow> EventRange option" where
  "rangeAfter r e = do {
     require (fst r \<le> e \<and> e \<le> snd r);
     Some (if e \<noteq> snd r then (e + 1, snd r) else (e, e))
   }"

definition rangeAfterIncluding :: "EventRange \<Rightarrow> nat \<Rightarrow> EventRange option" where
  "rangeAfterIncluding r e = do { require (fst r \<le> e \<and> e \<le> snd r); Some (e, snd r) }"

section \<open>Searches\<close>

function find_event :: "(Event \<Rightarrow> bool) \<Rightarrow> Event list \<Rightarrow> nat \<Rightarrow> nat \<Rightarrow> nat option" where
  "find_event P es lo hi =
     (if lo < hi then if P (es ! lo) then Some lo else find_event P es (lo + 1) hi else None)"
  by pat_completeness auto
termination by (relation "measure (\<lambda>(P, es, lo, hi). hi - lo)") auto

fun rfind_event :: "(Event \<Rightarrow> bool) \<Rightarrow> Event list \<Rightarrow> nat \<Rightarrow> nat \<Rightarrow> nat option" where
  "rfind_event P es lo 0 = None"
| "rfind_event P es lo (Suc it) =
     (if Suc it \<le> lo then None
      else if P (es ! it) then Some it
      else if it = lo then None
      else rfind_event P es lo it)"

definition is_FunctionStart :: "Event \<Rightarrow> bool" where
  "is_FunctionStart e = (case e of FunctionStart _ _ _ _ _ \<Rightarrow> True | _ \<Rightarrow> False)"

definition is_FunctionEnd :: "Event \<Rightarrow> bool" where
  "is_FunctionEnd e = (case e of FunctionEnd _ \<Rightarrow> True | _ \<Rightarrow> False)"

text \<open>The offset fields of the records that start and end a function.\<close>

definition start_of_end :: "Event \<Rightarrow> nat option" where
  "start_of_end e = (case e of FunctionEnd s \<Rightarrow> Some s | _ \<Rightarrow> None)"

definition end_of_start :: "Event \<Rightarrow> nat option" where
  "end_of_start e = (case e of FunctionStart _ _ f _ _ \<Rightarrow> Some f | _ \<Rightarrow> None)"

text \<open>
  The searches that skip the events of child functions. A \<open>FunctionEnd\<close> that does not come
  after its start (or a start after its end) makes the source search outside its range;
  this is \<open>None\<close>.
\<close>

function rfindInFunction :: "(Event \<Rightarrow> bool) \<Rightarrow> Event list \<Rightarrow> nat \<Rightarrow> nat \<Rightarrow> nat option option" where
  "rfindInFunction P es lo hi =
     (if hi \<le> lo then Some None
      else let it = hi - 1 in
        if is_FunctionStart (es ! it) then Some None
        else case start_of_end (es ! it) of
          Some start \<Rightarrow>
            if start < it then
              if start < lo then Some None
              else if start = lo then Some None
              else rfindInFunction P es lo start
            else None
        | None \<Rightarrow>
            if P (es ! it) then Some (Some it)
            else if it = lo then Some None
            else rfindInFunction P es lo it)"
  by pat_completeness auto
termination by (relation "measure (\<lambda>(P, es, lo, hi). hi)") auto

function findInFunction :: "(Event \<Rightarrow> bool) \<Rightarrow> Event list \<Rightarrow> nat \<Rightarrow> nat \<Rightarrow> nat option option" where
  "findInFunction P es it hi =
     (if hi \<le> it then Some None
      else case end_of_start (es ! it) of
          Some e \<Rightarrow> if it < e \<and> e < hi then findInFunction P es (e + 1) hi else None
        | None \<Rightarrow>
            if is_FunctionEnd (es ! it) then Some None
            else if P (es ! it) then Some (Some it) else findInFunction P es (it + 1) hi)"
  by pat_completeness auto
termination by (relation "measure (\<lambda>(P, es, it, hi). hi - it)") auto

fun lastSuccessfulApply :: "(Event \<Rightarrow> 'a option) \<Rightarrow> Event list \<Rightarrow> nat \<Rightarrow> nat \<Rightarrow> 'a option" where
  "lastSuccessfulApply f es lo 0 = None"
| "lastSuccessfulApply f es lo (Suc it) =
     (if Suc it \<le> lo then None
      else case f (es ! it) of
        Some v \<Rightarrow> Some v
      | None \<Rightarrow> if it = lo then None else lastSuccessfulApply f es lo it)"

definition getHighestProcessTimeInThread :: "Event list \<Rightarrow> u64" where
  "getHighestProcessTimeInThread es =
     (case lastSuccessfulApply ev_ProcessTime es 0 (length es) of Some t \<Rightarrow> t | None \<Rightarrow> 0)"

definition getHighestProcessTimeInThreads :: "Event list list \<Rightarrow> u64" where
  "getHighestProcessTimeInThreads ess = foldl max 0 (map getHighestProcessTimeInThread ess)"

text \<open>The allocas named by the \<open>StackRestoreAlloca\<close> records at the start of a range.\<close>

definition restored_alloca :: "Event \<Rightarrow> nat option" where
  "restored_alloca e = (case e of StackRestoreAlloca a \<Rightarrow> Some a | _ \<Rightarrow> None)"

fun leading_restores :: "Event list \<Rightarrow> nat list" where
  "leading_restores [] = []"
| "leading_restores (e # es) =
     (case restored_alloca e of Some a \<Rightarrow> a # leading_restores es | None \<Rightarrow> [])"

definition getLeadingBlock :: "Event list \<Rightarrow> EventRange \<Rightarrow> nat list" where
  "getLeadingBlock es r = leading_restores (take (snd r - fst r) (drop (fst r) es))"

section \<open>Runtime errors\<close>

datatype RunError = RunError u16 "(u8 \<times> u64) list" "RunError list"

text \<open>
  \<open>deserializeRuntimeErrorImpl\<close>: the error at the front of a list of records, and the
  records after the last one it used. A record of the wrong type where an argument is
  expected fails an assertion; a missing additional error gives the null error. The
  recursion consumes a record per call, so the number of records is enough fuel.
\<close>

definition error_header :: "Event \<Rightarrow> (u16 \<times> nat \<times> nat) option" where
  "error_header e = (case e of RuntimeError t argc addc isTop \<Rightarrow> Some (t, unat argc, unat addc) | _ \<Rightarrow> None)"

definition error_argument :: "Event \<Rightarrow> (u8 \<times> u64) option" where
  "error_argument e = (case e of RuntimeErrorArgument t d \<Rightarrow> Some (t, d) | _ \<Rightarrow> None)"

fun read_args :: "nat \<Rightarrow> Event list \<Rightarrow> ((u8 \<times> u64) list \<times> Event list) option" where
  "read_args 0 es = Some ([], es)"
| "read_args (Suc n) [] = None"
| "read_args (Suc n) (e # es) = do {
     a \<leftarrow> error_argument e;
     (as, rest) \<leftarrow> read_args n es;
     Some (a # as, rest)
   }"

fun deserializeRuntimeErrorImpl :: "nat \<Rightarrow> Event list \<Rightarrow> (RunError option \<times> Event list) option"
  and read_additional :: "nat \<Rightarrow> nat \<Rightarrow> Event list \<Rightarrow> (RunError list option \<times> Event list) option" where
  "deserializeRuntimeErrorImpl 0 es = None"
| "deserializeRuntimeErrorImpl (Suc fuel) [] = None"
| "deserializeRuntimeErrorImpl (Suc fuel) (e # rest) = (case error_header e of
     None \<Rightarrow> Some (None, e # rest)
   | Some (t, argc, addc) \<Rightarrow> do {
       (args, rest1) \<leftarrow> read_args argc rest;
       (adds, rest2) \<leftarrow> read_additional fuel addc rest1;
       Some (map_option (RunError t args) adds, rest2)
     })"
| "read_additional fuel 0 es = Some (Some [], es)"
| "read_additional 0 (Suc n) es = None"
| "read_additional (Suc fuel) (Suc n) es = do {
     (e, rest) \<leftarrow> deserializeRuntimeErrorImpl fuel es;
     case e of
       None \<Rightarrow> Some (None, rest)
     | Some err \<Rightarrow> do {
         (errs, rest') \<leftarrow> read_additional fuel n rest;
         Some (map_option (Cons err) errs, rest')
       }
   }"

text \<open>The equations in the form that evaluation with target-language numbers accepts.\<close>

lemma read_args_code [code]:
  "read_args k es = (case k of 0 \<Rightarrow> Some ([], es) | Suc n \<Rightarrow>
     (case es of [] \<Rightarrow> None | e # es' \<Rightarrow> do {
        a \<leftarrow> error_argument e;
        (as, rest) \<leftarrow> read_args n es';
        Some (a # as, rest)
      }))"
  by (simp split: nat.split list.split)

lemma deserialize_code [code]:
  "deserializeRuntimeErrorImpl k es = (case k of 0 \<Rightarrow> None | Suc fuel \<Rightarrow>
     (case es of [] \<Rightarrow> None | e # rest \<Rightarrow> (case error_header e of
        None \<Rightarrow> Some (None, e # rest)
      | Some (t, argc, addc) \<Rightarrow> do {
          (args, rest1) \<leftarrow> read_args argc rest;
          (adds, rest2) \<leftarrow> read_additional fuel addc rest1;
          Some (map_option (RunError t args) adds, rest2)
        })))"
  "read_additional k m es = (case m of 0 \<Rightarrow> Some (Some [], es) | Suc n \<Rightarrow>
     (case k of 0 \<Rightarrow> None | Suc fuel \<Rightarrow> do {
        (e, rest) \<leftarrow> deserializeRuntimeErrorImpl fuel es;
        case e of
          None \<Rightarrow> Some (None, rest)
        | Some err \<Rightarrow> do {
            (errs, rest') \<leftarrow> read_additional fuel n rest;
            Some (map_option (Cons err) errs, rest')
          }
      }))"
  by (simp_all split: nat.split list.split)

definition deserializeRuntimeError :: "Event list \<Rightarrow> RunError option option" where
  "deserializeRuntimeError es =
     map_option fst (deserializeRuntimeErrorImpl (2 * length es + 2) es)"

text \<open>\<open>writeError\<close> of \<open>lib/Trace/TraceThreadListener.cpp\<close>: the counts are written as bytes.\<close>

fun writeError :: "bool \<Rightarrow> RunError \<Rightarrow> Event list" where
  "writeError isTop (RunError t args adds) =
     RuntimeError t (of_nat (length args)) (of_nat (length adds)) isTop #
       map (\<lambda>(ty, d). RuntimeErrorArgument ty d) args @ concat (map (writeError False) adds)"

section \<open>Laws of the searches\<close>

declare find_event.simps [simp del] rfindInFunction.simps [simp del] findInFunction.simps [simp del]

lemma find_event_Some:
  "find_event P es lo hi = Some i \<longleftrightarrow>
     lo \<le> i \<and> i < hi \<and> P (es ! i) \<and> (\<forall>j. lo \<le> j \<and> j < i \<longrightarrow> \<not> P (es ! j))"
proof (induction P es lo hi rule: find_event.induct)
  case (1 P es lo hi)
  show ?case
  proof (cases "lo < hi \<and> \<not> P (es ! lo)")
    case True
    then have "find_event P es lo hi = find_event P es (lo + 1) hi"
      by (subst find_event.simps) simp
    with 1 True show ?thesis by (auto simp: Suc_le_eq) (metis le_neq_implies_less)+
  next
    case False
    then show ?thesis by (subst find_event.simps) (auto simp: le_less)
  qed
qed

lemma rfind_event_Some:
  "rfind_event P es lo hi = Some i \<longleftrightarrow>
     lo \<le> i \<and> i < hi \<and> P (es ! i) \<and> (\<forall>j. i < j \<and> j < hi \<longrightarrow> \<not> P (es ! j))"
proof (induction hi)
  case (Suc it)
  show ?case
  proof (cases "lo < it \<and> \<not> P (es ! it)")
    case True
    with Suc show ?thesis by (auto simp: less_Suc_eq)
  next
    case False
    then show ?thesis by (auto simp: less_Suc_eq le_less)
  qed
qed simp

lemma rfind_event_None:
  "rfind_event P es lo hi = None \<longleftrightarrow> (\<forall>i. lo \<le> i \<and> i < hi \<longrightarrow> \<not> P (es ! i))"
proof (induction hi)
  case (Suc it)
  consider "Suc it \<le> lo" | "lo \<le> it" "P (es ! it)" | "it = lo" "\<not> P (es ! it)"
    | "lo < it" "\<not> P (es ! it)" by linarith
  then show ?case
    by cases (use Suc in \<open>auto simp: less_Suc_eq\<close>)
qed simp

lemma lastSuccessfulApply_rfind:
  "lastSuccessfulApply f es lo hi =
     (case rfind_event (\<lambda>e. f e \<noteq> None) es lo hi of None \<Rightarrow> None | Some i \<Rightarrow> f (es ! i))"
  by (induction f es lo hi rule: lastSuccessfulApply.induct) (auto split: option.splits)

section \<open>Round trip of runtime errors\<close>

text \<open>Every count fits a byte.\<close>

fun error_fits :: "RunError \<Rightarrow> bool" where
  "error_fits (RunError t args adds) \<longleftrightarrow>
     length args < 256 \<and> length adds < 256 \<and> list_all error_fits adds"

fun error_size :: "RunError \<Rightarrow> nat" where
  "error_size (RunError t args adds) = 1 + sum_list (map (\<lambda>e. 1 + error_size e) adds)"

lemma read_args_written:
  "read_args (length args) (map (\<lambda>(ty, d). RuntimeErrorArgument ty d) args @ rest) = Some (args, rest)"
  by (induction args) (auto simp: error_argument_def)

lemma unat_of_nat_byte: "n < 256 \<Longrightarrow> unat (of_nat n :: byte) = n"
  by (simp add: unsigned_of_nat take_bit_nat_eq_self)

lemma read_additional_written:
  assumes "\<And>e fuel r. e \<in> set adds \<Longrightarrow> error_size e \<le> fuel \<Longrightarrow>
      deserializeRuntimeErrorImpl fuel (writeError False e @ r) = Some (Some e, r)"
  shows "sum_list (map (\<lambda>e. 1 + error_size e) adds) \<le> fuel \<Longrightarrow>
    read_additional fuel (length adds) (concat (map (writeError False) adds) @ rest) = Some (Some adds, rest)"
  using assms
proof (induction adds arbitrary: fuel)
  case (Cons e adds)
  then obtain fuel' where f: "fuel = Suc fuel'" "error_size e \<le> fuel'"
    "sum_list (map (\<lambda>e. 1 + error_size e) adds) \<le> fuel'"
    by (cases fuel) auto
  have "deserializeRuntimeErrorImpl fuel' (writeError False e @ concat (map (writeError False) adds) @ rest) =
      Some (Some e, concat (map (writeError False) adds) @ rest)"
    using Cons.prems(2)[of e fuel'] f(2) by simp
  moreover have "read_additional fuel' (length adds) (concat (map (writeError False) adds) @ rest) = Some (Some adds, rest)"
    using Cons.IH[OF f(3)] Cons.prems(2) by simp
  ultimately show ?case by (simp add: f(1))
qed simp

lemma deserialize_written:
  "error_fits e \<Longrightarrow> error_size e \<le> fuel \<Longrightarrow>
   deserializeRuntimeErrorImpl fuel (writeError b e @ rest) = Some (Some e, rest)"
proof (induction e arbitrary: fuel b rest)
  case (RunError t args adds)
  then obtain fuel' where f: "fuel = Suc fuel'" "sum_list (map (\<lambda>e. 1 + error_size e) adds) \<le> fuel'"
    by (cases fuel) auto
  have "read_additional fuel' (length adds) (concat (map (writeError False) adds) @ rest) = Some (Some adds, rest)"
    using RunError.prems(1) by (intro read_additional_written[OF _ f(2)] RunError.IH) (auto simp: list_all_iff)
  with RunError.prems(1) show ?case
    by (simp add: f(1) error_header_def unat_of_nat_byte read_args_written)
qed

lemma error_size_le: "error_size e + 1 \<le> 2 * length (writeError b e)"
proof (induction e arbitrary: b)
  case (RunError t args adds)
  have "sum_list (map (\<lambda>e. 1 + error_size e) adds) \<le> sum_list (map (\<lambda>e. 2 * length (writeError False e)) adds)"
    using RunError.IH by (intro sum_list_mono) (simp add: add.commute)
  moreover have "sum_list (map (\<lambda>e. 2 * length (writeError False e)) adds) =
      2 * length (concat (map (writeError False) adds))"
    by (induction adds) simp_all
  ultimately show ?case by simp
qed

lemma deserializeRuntimeError_written:
  assumes "error_fits e"
  shows "deserializeRuntimeError (writeError b e @ rest) = Some (Some e)"
proof -
  have "error_size e \<le> 2 * length (writeError b e @ rest) + 2"
    using error_size_le[of e b] by simp
  from deserialize_written[OF assms this] show ?thesis
    by (simp add: deserializeRuntimeError_def)
qed

section \<open>Properties\<close>

text \<open>C22: A runtime error that the recorder writes as a sequence of records is read back as it was,
  with all its arguments and, recursively, its additional errors, whatever records follow it,
  if every count fits the byte it is written to.\<close>

theorem runtime_error_roundtrip:
  assumes "error_fits e"
  shows "deserializeRuntimeError (writeError b e @ rest) = Some (Some e)"
  using assms by (rule deserializeRuntimeError_written)

theorem runtime_error_roundtrip_witness:
  "deserializeRuntimeError (writeError True (RunError 3 [(1, 7), (2, 9)] [RunError 4 [] []]) @ [TraceEnd 0]) =
     Some (Some (RunError 3 [(1, 7), (2, 9)] [RunError 4 [] []]))"
  by (rule runtime_error_roundtrip) simp

text \<open>A thread's process times never decrease.\<close>

definition times_ordered :: "Event list \<Rightarrow> bool" where
  "times_ordered es \<longleftrightarrow> sorted_wrt (\<lambda>d e. case (ev_ProcessTime d, ev_ProcessTime e) of
     (Some s, Some t) \<Rightarrow> s \<le> t | _ \<Rightarrow> True) es"

lemma times_ordered_le:
  assumes "times_ordered es" and "i < j" "j < length es"
    and "ev_ProcessTime (es ! i) = Some s" "ev_ProcessTime (es ! j) = Some t"
  shows "s \<le> t"
  using sorted_wrt_nth_less[OF assms(1)[unfolded times_ordered_def] assms(2,3)] assms(4,5) by simp

lemma highest_time_in_thread:
  assumes "times_ordered es" and "ev_ProcessTime e = Some t" and "e \<in> set es"
  shows "t \<le> getHighestProcessTimeInThread es"
proof -
  from assms(3) obtain i where i: "i < length es" "es ! i = e" by (auto simp: in_set_conv_nth)
  let ?r = "rfind_event (\<lambda>e. ev_ProcessTime e \<noteq> None) es 0 (length es)"
  obtain j where j: "?r = Some j"
    using i assms(2) rfind_event_None[of "\<lambda>e. ev_ProcessTime e \<noteq> None" es 0 "length es"] by (cases ?r) auto
  then have jj: "j < length es" "ev_ProcessTime (es ! j) \<noteq> None" "\<forall>k. j < k \<and> k < length es \<longrightarrow> ev_ProcessTime (es ! k) = None"
    by (auto simp: rfind_event_Some)
  then obtain s where s: "ev_ProcessTime (es ! j) = Some s" by blast
  have "i \<le> j" using jj(3) i assms(2) by (metis not_less option.distinct(1))
  then have "t \<le> s" using times_ordered_le[OF assms(1), of i j t s] i jj(1) s assms(2) by (cases "i = j") auto
  then show ?thesis 
    using j s by (simp add: getHighestProcessTimeInThread_def lastSuccessfulApply_rfind del: not_None_eq)
qed

lemma foldl_max_ge: "(x :: 'a :: linorder) \<in> insert a (set xs) \<Longrightarrow> x \<le> foldl max a xs"
proof (induction xs arbitrary: a x)
  case (Cons y ys)
  have "max a y \<le> foldl max (max a y) ys" using Cons.IH[of "max a y" "max a y"] by simp
  with Cons.IH[of x "max a y"] Cons.prems show ?case by auto
qed simp

lemma foldl_max_in: "foldl max (a :: 'a :: linorder) xs \<in> insert a (set xs)"
proof (induction xs arbitrary: a)
  case (Cons y ys)
  from Cons.IH[of "max a y"] show ?case by (auto simp: max_def split: if_splits)
qed simp

text \<open>C31: The process time that the reader reports as the highest of a trace is an upper bound of the
  process time of every event of every thread, and is zero or the time of an event, if the
  times of each thread are recorded in order.\<close>

theorem highest_process_time:
  assumes "list_all times_ordered ess"
  shows "(\<forall>es \<in> set ess. \<forall>e \<in> set es. \<forall>t. ev_ProcessTime e = Some t \<longrightarrow> t \<le> getHighestProcessTimeInThreads ess) \<and>
    (getHighestProcessTimeInThreads ess = 0 \<or>
     (\<exists>es \<in> set ess. \<exists>e \<in> set es. ev_ProcessTime e = Some (getHighestProcessTimeInThreads ess)))"
proof (intro conjI ballI allI impI)
  fix es e t assume "es \<in> set ess" "e \<in> set es" "ev_ProcessTime e = Some t"
  then have "t \<le> getHighestProcessTimeInThread es"
    using assms by (auto simp: list_all_iff intro: highest_time_in_thread)
  also have "\<dots> \<le> getHighestProcessTimeInThreads ess"
    unfolding getHighestProcessTimeInThreads_def using \<open>es \<in> set ess\<close> by (intro foldl_max_ge) simp
  finally show "t \<le> getHighestProcessTimeInThreads ess" .
next
  have "getHighestProcessTimeInThreads ess = 0 \<or> getHighestProcessTimeInThreads ess \<in> getHighestProcessTimeInThread ` set ess"
    using foldl_max_in[of 0 "map getHighestProcessTimeInThread ess"] by (auto simp: getHighestProcessTimeInThreads_def)
  moreover have "getHighestProcessTimeInThread es = 0 \<or> (\<exists>e \<in> set es. ev_ProcessTime e = Some (getHighestProcessTimeInThread es))" for es
    by (auto simp: getHighestProcessTimeInThread_def lastSuccessfulApply_rfind rfind_event_Some split: option.splits)
  ultimately show "getHighestProcessTimeInThreads ess = 0 \<or>
     (\<exists>es \<in> set ess. \<exists>e \<in> set es. ev_ProcessTime e = Some (getHighestProcessTimeInThreads ess))" by fastforce
qed

theorem highest_process_time_witness:
  "NewProcessTime 4 \<in> set [Malloc 1 2, NewProcessTime 4] \<and>
   (4 :: u64) \<le> getHighestProcessTimeInThreads [[Malloc 1 2, NewProcessTime 4], [Free 8 3]]"
  using highest_process_time[of "[[Malloc 1 2, NewProcessTime 4], [Free 8 3]]"] by (auto simp: times_ordered_def)

end
