(* ===== verification/FunctionState.thy ===== *)
theory FunctionState
  imports BlockStore Interval OrderedMap Events
begin

text \<open>
  \<open>seec::trace::FunctionState\<close> (\<open>include/seec/Trace/FunctionState.hpp\<close>,
  \<open>lib/Trace/FunctionState.cpp\<close>): one function invocation of the recreated process. It keeps the
  active instruction, the stack allocations, the areas of by-value parameters, the runtime
  errors, and the values of the basic blocks that execution has passed since the last
  backwards jump over them. A backwards jump moves the stores of the blocks it jumps over to
  \<open>ClearedBlocks\<close> so that rewinding the jump can bring them back. Blocks are numbered in
  the order of the function, so \<open>getNextNode\<close> is the successor. Instruction indices are
  compared and used as positions only, and are natural numbers.
\<close>

section \<open>State\<close>

record AllocaState =
  al_InstructionIndex :: nat
  al_Address :: u64
  al_ElementSize :: u64
  al_ElementCount :: u64

definition getTotalSize :: "AllocaState \<Rightarrow> u64" where
  "getTotalSize a = al_ElementSize a * al_ElementCount a"

record ParamByValState =
  pbv_Argument :: nat
  pbv_Area :: MemoryArea

record RuntimeErrorState =
  re_InstructionIndex :: nat
  re_Error :: RunError
  re_ThreadTime :: u64

record BackwardsJump =
  bj_FromBlock :: nat
  bj_NumCleared :: nat

record FunctionTrace =
  ft_Index :: u32
  ft_EventStart :: nat
  ft_EventEnd :: nat
  ft_ThreadTimeEntered :: u64
  ft_ThreadTimeExited :: u64

record FunctionState =
  fs_Lookup :: FunctionIndex
  fs_Index :: u32
  fs_Trace :: FunctionTrace
  fs_ActiveInstruction :: "nat option"
  fs_ActiveInstructionComplete :: bool
  fs_Allocas :: "AllocaState list"
  fs_ParamByVals :: "ParamByValState list"
  fs_RuntimeErrors :: "RuntimeErrorState list"
  fs_ActiveBlocks :: "(nat, BasicBlockStore) omap"
  fs_BackwardsJumps :: "BackwardsJump list"
  fs_ClearedBlocks :: "(nat \<times> BasicBlockStore) list"

definition new_FunctionState :: "FunctionIndex \<Rightarrow> FunctionTrace \<Rightarrow> FunctionState" where
  "new_FunctionState f tr =
     \<lparr>fs_Lookup = f, fs_Index = ft_Index tr, fs_Trace = tr, fs_ActiveInstruction = None,
      fs_ActiveInstructionComplete = False, fs_Allocas = [], fs_ParamByVals = [],
      fs_RuntimeErrors = [], fs_ActiveBlocks = [], fs_BackwardsJumps = [], fs_ClearedBlocks = []\<rparr>"

definition blocks_of :: "FunctionState \<Rightarrow> IRType list list" where
  "blocks_of s = fn_Blocks (fs_Lookup s)"

text \<open>\<open>nullptr\<close> when there is no instruction with the index.\<close>

definition getInstruction :: "nat \<Rightarrow> FunctionState \<Rightarrow> nat option" where
  "getInstruction i s = (if i < getInstructionCount (fs_Lookup s) then Some i else None)"

definition getActiveInstruction :: "FunctionState \<Rightarrow> nat option" where
  "getActiveInstruction s = (case fs_ActiveInstruction s of None \<Rightarrow> None | Some i \<Rightarrow> getInstruction i s)"

section \<open>Moving between instructions\<close>

text \<open>The loop of \<open>forwardingToInstruction\<close> over the blocks that a jump clears.\<close>

fun clear_blocks :: "nat list \<Rightarrow> nat \<Rightarrow> FunctionState \<Rightarrow> nat \<times> FunctionState" where
  "clear_blocks [] n s = (n, s)"
| "clear_blocks (bb # bbs) n s =
     (case om_find (fs_ActiveBlocks s) bb of
        Some store \<Rightarrow>
          clear_blocks bbs (n + 1)
            (s\<lparr>fs_ClearedBlocks := fs_ClearedBlocks s @ [(bb, store)],
               fs_ActiveBlocks := om_erase bb (fs_ActiveBlocks s)\<rparr>)
      | None \<Rightarrow> clear_blocks bbs n s)"

definition jump_back :: "nat \<Rightarrow> nat \<Rightarrow> FunctionState \<Rightarrow> FunctionState" where
  "jump_back ibb cbb s =
     (let (n, s1) = clear_blocks [ibb..<Suc cbb] 0 s
      in s1\<lparr>fs_BackwardsJumps := fs_BackwardsJumps s1 @ [\<lparr>bj_FromBlock = cbb, bj_NumCleared = n\<rparr>]\<rparr>)"

definition enter_block :: "nat \<Rightarrow> FunctionState \<Rightarrow> FunctionState option" where
  "enter_block ibb s =
     (case om_find (fs_ActiveBlocks s) ibb of
        Some store \<Rightarrow> Some s
      | None \<Rightarrow> do {
          info \<leftarrow> getBasicBlockInfo (fs_Lookup s) ibb;
          Some (s\<lparr>fs_ActiveBlocks := om_insert ibb (new_BasicBlockStore info) (fs_ActiveBlocks s)\<rparr>)
        })"

definition forwardingToInstruction :: "nat \<Rightarrow> FunctionState \<Rightarrow> FunctionState option" where
  "forwardingToInstruction i s = do {
     ibb \<leftarrow> block_of (blocks_of s) i;
     s1 \<leftarrow> (case getActiveInstruction s of
       None \<Rightarrow> Some s
     | Some cur \<Rightarrow>
         if i < cur then do {
           cbb \<leftarrow> block_of (blocks_of s) cur;
           Some (jump_back ibb cbb s)
         } else Some s);
     enter_block ibb s1
   }"

fun unclear_blocks :: "nat \<Rightarrow> FunctionState \<Rightarrow> FunctionState option" where
  "unclear_blocks 0 s = Some s"
| "unclear_blocks (Suc n) s = do {
     require (fs_ClearedBlocks s \<noteq> []);
     let r = last (fs_ClearedBlocks s);
     unclear_blocks n
       (s\<lparr>fs_ActiveBlocks := om_insert (fst r) (snd r) (fs_ActiveBlocks s),
          fs_ClearedBlocks := butlast (fs_ClearedBlocks s)\<rparr>)
   }"

definition rewindingToInstruction :: "nat \<Rightarrow> FunctionState \<Rightarrow> FunctionState option" where
  "rewindingToInstruction i s = do {
     ibb \<leftarrow> block_of (blocks_of s) i;
     cur \<leftarrow> fs_ActiveInstruction s;
     if cur < i then do {
       require (fs_BackwardsJumps s \<noteq> []);
       let jump = last (fs_BackwardsJumps s);
       require (ibb = bj_FromBlock jump);
       s1 \<leftarrow> unclear_blocks (bj_NumCleared jump) s;
       Some (s1\<lparr>fs_BackwardsJumps := butlast (fs_BackwardsJumps s1)\<rparr>)
     } else Some s
   }"

definition setActiveInstructionComplete :: "nat \<Rightarrow> FunctionState \<Rightarrow> FunctionState" where
  "setActiveInstructionComplete i s =
     s\<lparr>fs_ActiveInstruction := Some i, fs_ActiveInstructionComplete := True\<rparr>"

definition setActiveInstructionIncomplete :: "nat \<Rightarrow> FunctionState \<Rightarrow> FunctionState" where
  "setActiveInstructionIncomplete i s =
     s\<lparr>fs_ActiveInstruction := Some i, fs_ActiveInstructionComplete := False\<rparr>"

definition clearActiveInstruction :: "FunctionState \<Rightarrow> FunctionState" where
  "clearActiveInstruction s = s\<lparr>fs_ActiveInstruction := None\<rparr>"

section \<open>Runtime values\<close>

text \<open>The five setters find the store of the instruction's block and set the value there.\<close>

definition with_store ::
  "nat \<Rightarrow> (BasicBlockInfo \<Rightarrow> BasicBlockStore \<Rightarrow> BasicBlockStore option) \<Rightarrow> FunctionState \<Rightarrow> FunctionState option" where
  "with_store i sv s = do {
     bb \<leftarrow> block_of (blocks_of s) i;
     info \<leftarrow> getBasicBlockInfo (fs_Lookup s) bb;
     store \<leftarrow> om_find (fs_ActiveBlocks s) bb;
     store' \<leftarrow> sv info store;
     Some (s\<lparr>fs_ActiveBlocks := om_insert bb store' (fs_ActiveBlocks s)\<rparr>)
   }"

definition setValueUInt64 :: "nat \<Rightarrow> u64 \<Rightarrow> FunctionState \<Rightarrow> FunctionState option" where
  "setValueUInt64 i v = with_store i (\<lambda>info. bs_setUInt64 info i v)"

definition setValuePtr :: "nat \<Rightarrow> u64 \<Rightarrow> FunctionState \<Rightarrow> FunctionState option" where
  "setValuePtr i v = with_store i (\<lambda>info. bs_setPtr info i v)"

definition setValueFloat :: "nat \<Rightarrow> u32 \<Rightarrow> FunctionState \<Rightarrow> FunctionState option" where
  "setValueFloat i v = with_store i (\<lambda>info. bs_setFloat info i v)"

definition setValueDouble :: "nat \<Rightarrow> u64 \<Rightarrow> FunctionState \<Rightarrow> FunctionState option" where
  "setValueDouble i v = with_store i (\<lambda>info. bs_setDouble info i v)"

definition setValueAPFloat :: "nat \<Rightarrow> APFloat \<Rightarrow> FunctionState \<Rightarrow> FunctionState option" where
  "setValueAPFloat i v = with_store i (\<lambda>info. bs_setAPFloat info i v)"

definition isDominatedByActive :: "nat \<Rightarrow> FunctionState \<Rightarrow> bool" where
  "isDominatedByActive i s =
     (case fs_ActiveInstruction s of
        None \<Rightarrow> False
      | Some act \<Rightarrow>
          if getInstruction i s = None then False
          else if act < i then False
          else if act = i \<and> \<not> fs_ActiveInstructionComplete s then False
          else True)"

text \<open>The readers: the outer option is a failed assertion, the inner one the source's.\<close>

definition read_store ::
  "nat \<Rightarrow> (BasicBlockInfo \<Rightarrow> BasicBlockStore \<Rightarrow> 'a option option) \<Rightarrow> FunctionState \<Rightarrow> 'a option option" where
  "read_store i gv s =
     (if isDominatedByActive i s then do {
        bb \<leftarrow> block_of (blocks_of s) i;
        case om_find (fs_ActiveBlocks s) bb of
          None \<Rightarrow> Some None
        | Some store \<Rightarrow> do { info \<leftarrow> getBasicBlockInfo (fs_Lookup s) bb; gv info store }
      } else Some None)"

definition fs_hasValue :: "nat \<Rightarrow> FunctionState \<Rightarrow> bool option" where
  "fs_hasValue i s =
     (if \<not> isDominatedByActive i s then Some False
      else if \<not> isRecordableType (instruction_types (fs_Lookup s) ! i) then Some False
      else do {
        bb \<leftarrow> block_of (blocks_of s) i;
        case om_find (fs_ActiveBlocks s) bb of
          None \<Rightarrow> Some False
        | Some store \<Rightarrow> do {
            info \<leftarrow> getBasicBlockInfo (fs_Lookup s) bb;
            bs_hasValue info i store
          }
      })"

definition getValueUInt64 :: "nat \<Rightarrow> FunctionState \<Rightarrow> u64 option option" where
  "getValueUInt64 i = read_store i (\<lambda>info. bs_getUInt64 info i)"

definition getValuePtr :: "nat \<Rightarrow> FunctionState \<Rightarrow> u64 option option" where
  "getValuePtr i = read_store i (\<lambda>info. bs_getPtr info i)"

definition getValueFloat :: "nat \<Rightarrow> FunctionState \<Rightarrow> u32 option option" where
  "getValueFloat i = read_store i (\<lambda>info. bs_getFloat info i)"

definition getValueDouble :: "nat \<Rightarrow> FunctionState \<Rightarrow> u64 option option" where
  "getValueDouble i = read_store i (\<lambda>info. bs_getDouble info i)"

definition getValueAPFloat :: "nat \<Rightarrow> FunctionState \<Rightarrow> APFloat option option" where
  "getValueAPFloat i = read_store i (\<lambda>info. bs_getAPFloat info i)"

text \<open>
  \<open>getValueInt64\<close> sets the bits above the type's sign bit. \<open>IntegerType::getSignBit\<close> and
  \<open>getBitMask\<close> are \<open>1 << (width - 1)\<close> and \<open>~0 >> (64 - width)\<close>. The result is read as signed.
\<close>

definition sign_extend :: "nat \<Rightarrow> u64 \<Rightarrow> u64" where
  "sign_extend w v =
     (if and v (push_bit (w - 1) 1) \<noteq> 0 then or v (not (drop_bit (64 - w) (- 1))) else v)"

definition getValueInt64 :: "nat \<Rightarrow> FunctionState \<Rightarrow> int option option" where
  "getValueInt64 i s = do {
     v \<leftarrow> getValueUInt64 i s;
     case v of
       None \<Rightarrow> Some None
     | Some x \<Rightarrow>
         (case instruction_types (fs_Lookup s) ! i of
            IntegerTy w \<Rightarrow> Some (Some (sint (sign_extend w x)))
          | _ \<Rightarrow> None)
   }"

section \<open>Allocas\<close>

definition getVisibleAllocas :: "FunctionState \<Rightarrow> AllocaState list" where
  "getVisibleAllocas s =
     (case fs_ActiveInstruction s of
        None \<Rightarrow> []
      | Some act \<Rightarrow>
          filter (\<lambda>a. case map_of (fn_DbgDeclare (fs_Lookup s)) (al_InstructionIndex a) of
                        Some idx \<Rightarrow> \<not> (act + 1) mod 2 ^ 32 < idx
                      | None \<Rightarrow> True) (fs_Allocas s))"

definition alloca_area :: "AllocaState \<Rightarrow> MemoryArea" where
  "alloca_area a = area (al_Address a) (getTotalSize a)"

definition getAllocaContaining :: "u64 \<Rightarrow> FunctionState \<Rightarrow> AllocaState option" where
  "getAllocaContaining p s = List.find (\<lambda>a. contains_value (alloca_area a) p) (fs_Allocas s)"

section \<open>By-value parameters and runtime errors\<close>

definition fs_getContainingMemoryArea :: "u64 \<Rightarrow> FunctionState \<Rightarrow> MemoryArea option" where
  "fs_getContainingMemoryArea p s =
     (case getAllocaContaining p s of
        Some a \<Rightarrow> Some (alloca_area a)
      | None \<Rightarrow> map_option pbv_Area (List.find (\<lambda>b. contains_value (pbv_Area b) p) (fs_ParamByVals s)))"

definition getParamByValArea :: "nat \<Rightarrow> FunctionState \<Rightarrow> MemoryArea option" where
  "getParamByValArea arg s =
     map_option pbv_Area (List.find (\<lambda>b. pbv_Argument b = arg) (fs_ParamByVals s))"

definition addByValArea :: "nat \<Rightarrow> u64 \<Rightarrow> u64 \<Rightarrow> FunctionState \<Rightarrow> FunctionState option" where
  "addByValArea arg p n s = do {
     require (arg < fn_ArgCount (fs_Lookup s));
     Some (s\<lparr>fs_ParamByVals := fs_ParamByVals s @ [\<lparr>pbv_Argument = arg, pbv_Area = area p n\<rparr>]\<rparr>)
   }"

fun erase_first :: "('a \<Rightarrow> bool) \<Rightarrow> 'a list \<Rightarrow> 'a list" where
  "erase_first P [] = []"
| "erase_first P (x # xs) = (if P x then xs else x # erase_first P xs)"

definition removeByValArea :: "u64 \<Rightarrow> FunctionState \<Rightarrow> FunctionState" where
  "removeByValArea p s =
     s\<lparr>fs_ParamByVals := erase_first (\<lambda>b. contains_value (pbv_Area b) p) (fs_ParamByVals s)\<rparr>"

definition addRuntimeError :: "u64 \<Rightarrow> RunError \<Rightarrow> FunctionState \<Rightarrow> FunctionState option" where
  "addRuntimeError now e s = do {
     i \<leftarrow> fs_ActiveInstruction s;
     Some (s\<lparr>fs_RuntimeErrors := fs_RuntimeErrors s @
               [\<lparr>re_InstructionIndex = i, re_Error = e, re_ThreadTime = now\<rparr>]\<rparr>)
   }"

definition removeLastRuntimeError :: "FunctionState \<Rightarrow> FunctionState option" where
  "removeLastRuntimeError s = do {
     require (fs_RuntimeErrors s \<noteq> []);
     Some (s\<lparr>fs_RuntimeErrors := butlast (fs_RuntimeErrors s)\<rparr>)
   }"

definition getRuntimeErrorsActive :: "u64 \<Rightarrow> FunctionState \<Rightarrow> RuntimeErrorState list" where
  "getRuntimeErrorsActive now s = dropWhile (\<lambda>e. re_ThreadTime e \<noteq> now) (fs_RuntimeErrors s)"

section \<open>Laws\<close>

lemma unclear_blocks_cong:
  "unclear_blocks n s = Some t \<Longrightarrow> fs_BackwardsJumps t = fs_BackwardsJumps s"
proof (induction n arbitrary: s)
  case (Suc n)
  from Suc.prems obtain u where "unclear_blocks n u = Some t" "fs_BackwardsJumps u = fs_BackwardsJumps s"
    by (auto simp: Let_def)
  with Suc.IH show ?case by metis
qed simp

lemma block_of_bound: "block_of bs i = Some k \<Longrightarrow> k < length bs \<and> block_base bs k \<le> i \<and>
    i < block_base bs k + length (bs ! k)"
proof (induction bs i arbitrary: k rule: block_of.induct)
  case (2 b bs i)
  show ?case
  proof (cases "i < length b")
    case True
    with 2 show ?thesis by (simp add: block_base_def)
  next
    case False
    with 2(2) obtain j where j: "block_of bs (i - length b) = Some j" "k = Suc j" by auto
    from 2(1)[OF False j(1)] j(2) False show ?thesis by (auto simp: block_base_def)
  qed
qed simp

lemma block_of_defined: "i < length (concat bs) \<Longrightarrow> \<exists>k. block_of bs i = Some k"
proof (induction bs i rule: block_of.induct)
  case (2 b bs i)
  then show ?case by (cases "i < length b") auto
qed simp

lemma block_of_mono: "i \<le> j \<Longrightarrow> block_of bs i = Some k \<Longrightarrow> block_of bs j = Some l \<Longrightarrow> k \<le> l"
proof (induction bs i arbitrary: j k l rule: block_of.induct)
  case (2 b bs i)
  show ?case
  proof (cases "i < length b")
    case True
    with "2.prems"(2) show ?thesis by simp
  next
    case False
    with "2.prems" obtain k' l' where k: "block_of bs (i - length b) = Some k'" "k = Suc k'"
      "block_of bs (j - length b) = Some l'" "l = Suc l'" by auto
    from "2.IH"[OF False _ k(1,3)] "2.prems"(1) k(2,4) show ?thesis by (simp add: diff_le_mono)
  qed
qed simp

text \<open>What clearing the blocks of a jump does, and how unclearing them undoes it.\<close>

definition taken :: "nat list \<Rightarrow> FunctionState \<Rightarrow> (nat \<times> BasicBlockStore) list" where
  "taken bbs s = map (\<lambda>bb. (bb, the (om_find (fs_ActiveBlocks s) bb)))
                   (filter (\<lambda>bb. om_find (fs_ActiveBlocks s) bb \<noteq> None) bbs)"

lemma taken_Cons:
  "taken (bb # bbs) s = (case om_find (fs_ActiveBlocks s) bb of
     Some v \<Rightarrow> (bb, v) # taken bbs s | None \<Rightarrow> taken bbs s)"
  by (simp add: taken_def split: option.split)

lemma taken_cong:
  "(\<And>b. b \<in> set bbs \<Longrightarrow> om_find (fs_ActiveBlocks t) b = om_find (fs_ActiveBlocks s) b) \<Longrightarrow>
   taken bbs t = taken bbs s"
  by (induction bbs) (auto simp: taken_def)

lemma clear_blocks_rest:
  "clear_blocks bbs n s = (m, t) \<Longrightarrow>
     fs_Lookup t = fs_Lookup s \<and> fs_BackwardsJumps t = fs_BackwardsJumps s"
  by (induction bbs n s rule: clear_blocks.induct) (auto split: option.splits)

lemma clear_blocks_spec:
  "om_wf (fs_ActiveBlocks s) \<Longrightarrow> distinct bbs \<Longrightarrow> clear_blocks bbs n s = (m, t) \<Longrightarrow>
     m = n + length (taken bbs s) \<and> fs_ClearedBlocks t = fs_ClearedBlocks s @ taken bbs s \<and>
     om_wf (fs_ActiveBlocks t) \<and>
     om_find (fs_ActiveBlocks t) = (\<lambda>bb. if bb \<in> set bbs then None else om_find (fs_ActiveBlocks s) bb)"
proof (induction bbs n s rule: clear_blocks.induct)
  case (2 bb bbs n s)
  show ?case
  proof (cases "om_find (fs_ActiveBlocks s) bb")
    case None
    with "2.IH"(1)[OF None] "2.prems" show ?thesis
      by (auto simp: taken_Cons fun_eq_iff)
  next
    case (Some store)
    let ?s = "s\<lparr>fs_ClearedBlocks := fs_ClearedBlocks s @ [(bb, store)],
                 fs_ActiveBlocks := om_erase bb (fs_ActiveBlocks s)\<rparr>"
    have w: "om_wf (fs_ActiveBlocks ?s)" using "2.prems"(1) by (simp add: om_laws)
    have F: "om_find (om_erase bb (fs_ActiveBlocks s)) = (om_find (fs_ActiveBlocks s))(bb := None)"
      using "2.prems"(1) by (simp add: om_laws)
    have "taken bbs ?s = taken bbs s"
      using "2.prems"(2) by (intro taken_cong) (auto simp: F)
    with "2.IH"(2)[OF Some w] "2.prems" Some show ?thesis
      by (auto simp: taken_Cons F fun_eq_iff)
  qed
qed (simp add: taken_def)

lemma unclear_blocks_spec:
  "om_wf (fs_ActiveBlocks u) \<Longrightarrow> fs_ClearedBlocks u = C @ cs \<Longrightarrow> distinct (map fst cs) \<Longrightarrow>
   \<exists>v. unclear_blocks (length cs) u = Some v \<and> fs_ClearedBlocks v = C \<and> om_wf (fs_ActiveBlocks v) \<and>
     om_find (fs_ActiveBlocks v) = om_find (fs_ActiveBlocks u) ++ map_of cs"
proof (induction cs arbitrary: u rule: rev_induct)
  case (snoc c cs)
  let ?u = "u\<lparr>fs_ActiveBlocks := om_insert (fst c) (snd c) (fs_ActiveBlocks u), fs_ClearedBlocks := C @ cs\<rparr>"
  have w: "om_wf (fs_ActiveBlocks ?u)" using snoc.prems(1) by (simp add: om_laws)
  have F: "om_find (om_insert (fst c) (snd c) (fs_ActiveBlocks u)) = (om_find (fs_ActiveBlocks u))(fst c \<mapsto> snd c)"
    using snoc.prems(1) by (rule om.find_insert)
  have step: "unclear_blocks (length (cs @ [c])) u = unclear_blocks (length cs) ?u"
    using snoc.prems(2) by (simp add: Let_def butlast_append)
  have d: "distinct (map fst cs)" "fst c \<notin> fst ` set cs" using snoc.prems(3) by auto
  obtain v where v: "unclear_blocks (length cs) ?u = Some v" "fs_ClearedBlocks v = C"
    "om_wf (fs_ActiveBlocks v)"
    "om_find (fs_ActiveBlocks v) = om_find (fs_ActiveBlocks ?u) ++ map_of cs"
    using snoc.IH[OF w _ d(1)] by auto
  have "om_find (fs_ActiveBlocks v) = (om_find (fs_ActiveBlocks u) ++ map_of [c]) ++ map_of cs"
    using v(4) F by (cases c) simp
  then have "om_find (fs_ActiveBlocks v) = om_find (fs_ActiveBlocks u) ++ map_of (cs @ [c])"
    by (simp only: map_of_append map_add_assoc)
  with step v show ?case by auto
qed simp

lemma distinct_taken: "distinct bbs \<Longrightarrow> distinct (map fst (taken bbs s))"
  by (simp add: taken_def comp_def)

lemma map_of_taken:
  "map_of (taken bbs s) bb = (if bb \<in> set bbs then om_find (fs_ActiveBlocks s) bb else None)"
  unfolding taken_def by (induction bbs) auto

text \<open>
  Rewinding a backwards jump: if the block that the jump enters was active, the blocks, the
  cleared blocks and the jumps are again what they were, whatever was recorded in that block.
\<close>

lemma jump_rewound:
  assumes w: "om_wf (fs_ActiveBlocks s)" and f: "forwardingToInstruction i s = Some t"
    and cur: "getActiveInstruction s = Some cur" "i < cur"
    and ibb: "block_of (blocks_of s) i = Some ibb" "om_find (fs_ActiveBlocks s) ibb \<noteq> None"
    and u: "fs_Lookup u = fs_Lookup t" "fs_ActiveInstruction u = Some i"
      "fs_ClearedBlocks u = fs_ClearedBlocks t" "fs_BackwardsJumps u = fs_BackwardsJumps t"
      "om_wf (fs_ActiveBlocks u)"
      "\<And>bb. bb \<noteq> ibb \<Longrightarrow> om_find (fs_ActiveBlocks u) bb = om_find (fs_ActiveBlocks t) bb"
  shows "\<exists>v. rewindingToInstruction cur u = Some v \<and> fs_ActiveBlocks v = fs_ActiveBlocks s \<and>
    fs_ClearedBlocks v = fs_ClearedBlocks s \<and> fs_BackwardsJumps v = fs_BackwardsJumps s"
proof -
  from f cur ibb(1) obtain cbb where cbb: "block_of (blocks_of s) cur = Some cbb"
    and e: "enter_block ibb (jump_back ibb cbb s) = Some t"
    by (auto simp: forwardingToInstruction_def bind_eq_Some_conv)
  let ?bbs = "[ibb..<Suc cbb]"
  obtain m c where c: "clear_blocks ?bbs 0 s = (m, c)" by fastforce
  note S = clear_blocks_spec[OF w _ c]
  have le: "ibb \<le> cbb" using block_of_mono[OF _ ibb(1) cbb] cur(2) by simp
  have j: "jump_back ibb cbb s = c\<lparr>fs_BackwardsJumps := fs_BackwardsJumps c @ [\<lparr>bj_FromBlock = cbb, bj_NumCleared = m\<rparr>]\<rparr>"
    using c by (simp add: jump_back_def del: upt_Suc)
  have S': "m = length (taken ?bbs s)" "fs_ClearedBlocks c = fs_ClearedBlocks s @ taken ?bbs s"
    "om_find (fs_ActiveBlocks c) = (\<lambda>bb. if bb \<in> set ?bbs then None else om_find (fs_ActiveBlocks s) bb)"
    "fs_BackwardsJumps c = fs_BackwardsJumps s" "fs_Lookup c = fs_Lookup s"
    using S clear_blocks_rest[OF c] by (simp_all del: upt_Suc)
  have nf: "om_find (fs_ActiveBlocks c) ibb = None" using S'(3) le by (simp del: upt_Suc)
  have T: "fs_ClearedBlocks t = fs_ClearedBlocks c" "fs_Lookup t = fs_Lookup s"
    "fs_BackwardsJumps t = fs_BackwardsJumps s @ [\<lparr>bj_FromBlock = cbb, bj_NumCleared = m\<rparr>]"
    "\<And>bb. bb \<noteq> ibb \<Longrightarrow> om_find (fs_ActiveBlocks t) bb = om_find (fs_ActiveBlocks c) bb"
    using e S S'(4,5) nf by (auto simp: enter_block_def j bind_eq_Some_conv om_laws simp del: upt_Suc)
  obtain v where v: "unclear_blocks (length (taken ?bbs s)) u = Some v" "fs_ClearedBlocks v = fs_ClearedBlocks s"
    "om_wf (fs_ActiveBlocks v)"
    "om_find (fs_ActiveBlocks v) = om_find (fs_ActiveBlocks u) ++ map_of (taken ?bbs s)"
    using unclear_blocks_spec[OF u(5), of "fs_ClearedBlocks s" "taken ?bbs s"] u(3) T(1) S'(2)
      distinct_taken[of ?bbs s] by (auto simp del: upt_Suc)
  have "om_find (fs_ActiveBlocks v) bb = om_find (fs_ActiveBlocks s) bb" for bb
    using u(6)[of bb] T(4)[of bb] S'(3) ibb(2) le
    by (cases "bb = ibb") (auto simp: v(4) map_add_def map_of_taken simp del: upt_Suc split: option.splits)
  then have "fs_ActiveBlocks v = fs_ActiveBlocks s"
    using v(3) w by (intro om_find_ext) auto
  moreover have "rewindingToInstruction cur u = Some (v\<lparr>fs_BackwardsJumps := butlast (fs_BackwardsJumps v)\<rparr>)"
    using cbb cur(2) u T v(1) S'(1)
    by (simp add: rewindingToInstruction_def blocks_of_def Let_def del: upt_Suc)
  moreover have "fs_BackwardsJumps v = fs_BackwardsJumps u"
    using v(1) by (rule unclear_blocks_cong)
  ultimately show ?thesis using v(2) u(4) T(3) by auto
qed

end
