(* ===== verification/ThreadState.thy ===== *)
theory ThreadState
  imports ProcessState FunctionState
begin

text \<open>
  \<open>seec::trace::ThreadState\<close> (\<open>include/seec/Trace/ThreadState.hpp\<close>, \<open>lib/Trace/ThreadState.cpp\<close>):
  one thread of the recreated process, moved one event at a time. \<open>addEvent_X\<close> and
  \<open>removeEvent_X\<close> are the source's overloads for one event type; \<open>addNextEvent\<close> and
  \<open>removePreviousEvent\<close> are the dispatchers. An operation changes the thread and the
  shared process state, so it works on the pair of both. \<open>None\<close> is a failed assertion, an
  \<open>llvm_unreachable\<close> or undefined behaviour.
\<close>

section \<open>State\<close>

record ThreadState =
  th_Events :: "Event list"
  th_NextEvent :: nat
  th_ProcessTime :: u64
  th_ThreadTime :: u64
  th_CallStack :: "FunctionState list"

record Env =
  env_Trace :: ProcessTrace
  env_Functions :: "FunctionIndex option list"

type_synonym World = "ProcessState \<times> ThreadState"

definition new_ThreadState :: "Event list \<Rightarrow> ProcessState \<Rightarrow> ThreadState" where
  "new_ThreadState es ps =
     \<lparr>th_Events = es, th_NextEvent = 0, th_ProcessTime = ps_ProcessTime ps, th_ThreadTime = 0,
      th_CallStack = []\<rparr>"

text \<open>\<open>CallStack.back()\<close>, read and changed in place.\<close>

definition back_fn :: "ThreadState \<Rightarrow> FunctionState option" where
  "back_fn th = (if th_CallStack th = [] then None else Some (last (th_CallStack th)))"

definition on_back :: "(FunctionState \<Rightarrow> FunctionState option) \<Rightarrow> ThreadState \<Rightarrow> ThreadState option" where
  "on_back f th = do {
     b \<leftarrow> back_fn th;
     b' \<leftarrow> f b;
     Some (th\<lparr>th_CallStack := butlast (th_CallStack th) @ [b']\<rparr>)
   }"

text \<open>Changing the memory of the process.\<close>

definition on_memory :: "(MemoryState \<Rightarrow> MemoryState option) \<Rightarrow> ProcessState \<Rightarrow> ProcessState option" where
  "on_memory f ps = do { m \<leftarrow> f (ps_Memory ps); Some (ps\<lparr>ps_Memory := m\<rparr>) }"

text \<open>\<open>Parent.ProcessTime = Ev.getProcessTime(); ProcessTime = Ev.getProcessTime();\<close>\<close>

definition set_times :: "u64 \<Rightarrow> World \<Rightarrow> World" where
  "set_times t w = ((fst w)\<lparr>ps_ProcessTime := t\<rparr>, (snd w)\<lparr>th_ProcessTime := t\<rparr>)"

definition getFunctionIndex :: "Env \<Rightarrow> u32 \<Rightarrow> FunctionIndex option" where
  "getFunctionIndex env i =
     (if unat i < length (env_Functions env) then env_Functions env ! unat i else None)"

definition function_trace :: "Event \<Rightarrow> FunctionTrace option" where
  "function_trace e = (case e of
     FunctionStart i st en t1 t2 \<Rightarrow>
       Some \<lparr>ft_Index = i, ft_EventStart = st, ft_EventEnd = en, ft_ThreadTimeEntered = t1,
             ft_ThreadTimeExited = t2\<rparr>
   | _ \<Rightarrow> None)"

text \<open>\<open>getEventAtOffset\<close> and \<open>getReferenceToOffset\<close>: the event must exist.\<close>

definition event_at :: "ThreadState \<Rightarrow> nat \<Rightarrow> Event option" where
  "event_at th p = (if p < length (th_Events th) then Some (th_Events th ! p) else None)"

definition ptr_instruction :: "Event \<Rightarrow> (nat \<times> u64) option" where
  "ptr_instruction e = (case e of InstructionWithPtr i v \<Rightarrow> Some (i, v) | _ \<Rightarrow> None)"

text \<open>The last \<open>InstructionWithPtr\<close> at or before an event.\<close>

definition preceding_ptr :: "ThreadState \<Rightarrow> nat \<Rightarrow> (nat \<times> u64) option" where
  "preceding_ptr th p = do {
     r \<leftarrow> rangeBeforeIncluding (events_range (th_Events th)) p;
     i \<leftarrow> rfind_event (\<lambda>e. ptr_instruction e \<noteq> None) (th_Events th) (fst r) (snd r);
     ptr_instruction (th_Events th ! i)
   }"

definition allocator_of :: "FunctionState \<Rightarrow> nat option \<Rightarrow> Instr option" where
  "allocator_of f i = map_option (\<lambda>k. (fs_Index f, of_nat k)) i"

section \<open>readdEvent\<close>

definition readdEvent_value :: "Event \<Rightarrow> FunctionState \<Rightarrow> FunctionState option" where
  "readdEvent_value e f = (case e of
     InstructionWithUInt8 v i \<Rightarrow> setValueUInt64 i (ucast v) f
   | InstructionWithUInt16 v i \<Rightarrow> setValueUInt64 i (ucast v) f
   | InstructionWithUInt32 v i \<Rightarrow> setValueUInt64 i (ucast v) f
   | InstructionWithUInt64 i v \<Rightarrow> setValueUInt64 i v f
   | InstructionWithPtr i v \<Rightarrow> setValuePtr i v f
   | InstructionWithFloat i v \<Rightarrow> setValueFloat i v f
   | InstructionWithDouble i v \<Rightarrow> setValueDouble i v f
   | InstructionWithLongDouble i v w \<Rightarrow>
       (case getInstruction i f of
          None \<Rightarrow> None
        | Some k \<Rightarrow>
            if instruction_types (fs_Lookup f) ! k = X86_FP80Ty
            then setValueAPFloat i (APFloat_x87 v (take_bit 16 w)) f
            else None)
   | _ \<Rightarrow> Some f)"

definition readdEvent_instruction :: "Event \<Rightarrow> nat \<Rightarrow> FunctionState \<Rightarrow> FunctionState option" where
  "readdEvent_instruction e i f = (case e of
     PreInstruction _ \<Rightarrow> Some (setActiveInstructionIncomplete i f)
   | _ \<Rightarrow> map_option (setActiveInstructionComplete i) (readdEvent_value e f))"

definition alloca_sizes :: "Event \<Rightarrow> (u64 \<times> u64) option" where
  "alloca_sizes e = (case e of Alloca n c \<Rightarrow> Some (n, c) | _ \<Rightarrow> None)"

definition readdEvent_Alloca :: "nat \<Rightarrow> ThreadState \<Rightarrow> ThreadState option" where
  "readdEvent_Alloca p th = do {
     e \<leftarrow> event_at th p;
     (n, c) \<leftarrow> alloca_sizes e;
     require (p \<noteq> 0);
     (i, v) \<leftarrow> preceding_ptr th p;
     on_back (\<lambda>f. Some (f\<lparr>fs_Allocas := fs_Allocas f @
       [\<lparr>al_InstructionIndex = i, al_Address = v, al_ElementSize = n, al_ElementCount = c\<rparr>]\<rparr>)) th
   }"

fun readd_allocas :: "nat list \<Rightarrow> ThreadState \<Rightarrow> ThreadState option" where
  "readd_allocas [] th = Some th"
| "readd_allocas (p # ps) th = readdEvent_Alloca p th \<bind> readd_allocas ps"

definition readdEvent_StackRestore :: "nat \<Rightarrow> ThreadState \<Rightarrow> ThreadState option" where
  "readdEvent_StackRestore p th = do {
     th1 \<leftarrow> on_back (\<lambda>f. Some (f\<lparr>fs_Allocas := []\<rparr>)) th;
     r \<leftarrow> rangeAfter (events_range (th_Events th)) p;
     readd_allocas (getLeadingBlock (th_Events th) r) th1
   }"

definition readdEvent_ByValRegionAdd :: "u16 \<Rightarrow> u64 \<Rightarrow> u64 \<Rightarrow> ThreadState \<Rightarrow> ThreadState option" where
  "readdEvent_ByValRegionAdd arg a n = on_back (addByValArea (unat arg) a n)"

section \<open>addEvent\<close>

definition addEvent_FunctionStart :: "Env \<Rightarrow> FunctionTrace \<Rightarrow> World \<Rightarrow> World option" where
  "addEvent_FunctionStart env tr w = do {
     f \<leftarrow> getFunctionIndex env (ft_Index tr);
     let th = snd w;
     Some (fst w, th\<lparr>th_CallStack := th_CallStack th @ [new_FunctionState f tr],
                     th_ThreadTime := ft_ThreadTimeEntered tr\<rparr>)
   }"

fun remove_areas :: "(u64 \<times> u64) list \<Rightarrow> MemoryState \<Rightarrow> MemoryState option" where
  "remove_areas [] m = Some m"
| "remove_areas ((a, n) # as) m = allocationRemove a n m \<bind> remove_areas as"

fun unremove_areas :: "(u64 \<times> u64) list \<Rightarrow> MemoryState \<Rightarrow> MemoryState option" where
  "unremove_areas [] m = Some m"
| "unremove_areas ((a, n) # as) m = allocationUnremove a n m \<bind> unremove_areas as"

definition byval_areas :: "FunctionState \<Rightarrow> (u64 \<times> u64) list" where
  "byval_areas f = map (\<lambda>b. (iv_Start (pbv_Area b), interval_length (pbv_Area b))) (fs_ParamByVals f)"

definition alloca_areas :: "AllocaState list \<Rightarrow> (u64 \<times> u64) list" where
  "alloca_areas as = map (\<lambda>a. (al_Address a, getTotalSize a)) as"

definition addEvent_FunctionEnd :: "nat \<Rightarrow> World \<Rightarrow> World option" where
  "addEvent_FunctionEnd start w = do {
     let (ps, th) = w;
     e \<leftarrow> event_at th start;
     tr \<leftarrow> function_trace e;
     b \<leftarrow> back_fn th;
     require (fs_Index b = ft_Index tr);
     ps1 \<leftarrow> on_memory (remove_areas (byval_areas b)) ps;
     ps2 \<leftarrow> on_memory (remove_areas (alloca_areas (fs_Allocas b))) ps1;
     Some (ps2, th\<lparr>th_CallStack := butlast (th_CallStack th), th_ThreadTime := ft_ThreadTimeExited tr\<rparr>)
   }"

definition addEvent_NewProcessTime :: "u64 \<Rightarrow> World \<Rightarrow> World option" where
  "addEvent_NewProcessTime t w = Some (fst w, (snd w)\<lparr>th_ProcessTime := t\<rparr>)"

definition addEvent_NewThreadTime :: "World \<Rightarrow> World option" where
  "addEvent_NewThreadTime w = Some (fst w, (snd w)\<lparr>th_ThreadTime := th_ThreadTime (snd w) + 1\<rparr>)"

definition addEvent_instruction :: "Event \<Rightarrow> nat \<Rightarrow> World \<Rightarrow> World option" where
  "addEvent_instruction e i w = do {
     th1 \<leftarrow> on_back (forwardingToInstruction i) (snd w);
     th2 \<leftarrow> on_back (readdEvent_instruction e i) th1;
     Some (fst w, th2\<lparr>th_ThreadTime := th_ThreadTime th2 + 1\<rparr>)
   }"

text \<open>\<open>std::mismatch\<close> of two ranges; running off the second one is undefined.\<close>

fun mismatch :: "'a list \<Rightarrow> 'a list \<Rightarrow> nat option" where
  "mismatch [] ys = Some 0"
| "mismatch (x # xs) [] = None"
| "mismatch (x # xs) (y # ys) = (if x = y then map_option Suc (mismatch xs ys) else Some 0)"

definition addEvent_StackRestore :: "nat \<Rightarrow> World \<Rightarrow> World option" where
  "addEvent_StackRestore p w = do {
     let (ps, th) = w;
     b \<leftarrow> back_fn th;
     let pre = fs_Allocas b;
     th1 \<leftarrow> readdEvent_StackRestore p th;
     b1 \<leftarrow> back_fn th1;
     k \<leftarrow> mismatch (fs_Allocas b1) pre;
     ps1 \<leftarrow> on_memory (remove_areas (alloca_areas (drop k pre))) ps;
     Some (ps1, th1)
   }"

definition addEvent_Alloca :: "nat \<Rightarrow> World \<Rightarrow> World option" where
  "addEvent_Alloca p w = do {
     let (ps, th) = w;
     th1 \<leftarrow> readdEvent_Alloca p th;
     b \<leftarrow> back_fn th1;
     require (fs_Allocas b \<noteq> []);
     let a = last (fs_Allocas b);
     ps1 \<leftarrow> on_memory (allocationAdd (al_Address a) (getTotalSize a)) ps;
     Some (ps1, th1)
   }"

definition addEvent_Malloc :: "nat \<Rightarrow> u64 \<Rightarrow> u64 \<Rightarrow> World \<Rightarrow> World option" where
  "addEvent_Malloc p n t w = do {
     let (ps, th) = w;
     (i, a) \<leftarrow> preceding_ptr th p;
     let allocator = (case back_fn th of None \<Rightarrow> None | Some b \<Rightarrow> allocator_of b (getInstruction i b));
     let ps1 = addMalloc a n allocator ps;
     ps2 \<leftarrow> on_memory (allocationAdd a n) ps1;
     Some (set_times t (ps2, th))
   }"

definition addEvent_Free :: "u64 \<Rightarrow> u64 \<Rightarrow> World \<Rightarrow> World option" where
  "addEvent_Free a t w = do {
     let (ps, th) = w;
     m \<leftarrow> om_find (ps_Mallocs ps) a;
     let n = mst_Size m;
     ps1 \<leftarrow> removeMalloc a ps;
     ps2 \<leftarrow> on_memory (allocationRemove a n) ps1;
     Some (set_times t (ps2, th))
   }"

definition addEvent_Realloc :: "u64 \<Rightarrow> u64 \<Rightarrow> u64 \<Rightarrow> u64 \<Rightarrow> World \<Rightarrow> World option" where
  "addEvent_Realloc a old new t w = do {
     let (ps, th) = w;
     m \<leftarrow> om_find (ps_Mallocs ps) a;
     b \<leftarrow> back_fn th;
     let m1 = setSize new (pushAllocator (allocator_of b (getActiveInstruction b)) m);
     ps2 \<leftarrow> on_memory (allocationResize a old new) (ps\<lparr>ps_Mallocs := om_insert a m1 (ps_Mallocs ps)\<rparr>);
     Some (set_times t (ps2, th))
   }"

definition addEvent_StateUntypedSmall :: "u8 \<Rightarrow> u64 \<Rightarrow> u64 \<Rightarrow> u64 \<Rightarrow> World \<Rightarrow> World option" where
  "addEvent_StateUntypedSmall n a t d w = do {
     let (ps, th) = w;
     data \<leftarrow> slice 0 (unat n) (le_bytes 8 (unat d));
     ps1 \<leftarrow> on_memory (addBlock_state \<lparr>block_Address = a, block_Data = data\<rparr>) ps;
     Some (set_times t (ps1, th))
   }"

definition addEvent_StateUntyped :: "Env \<Rightarrow> u64 \<Rightarrow> u64 \<Rightarrow> u64 \<Rightarrow> u64 \<Rightarrow> World \<Rightarrow> World option" where
  "addEvent_StateUntyped env a t off n w = do {
     let (ps, th) = w;
     data \<leftarrow> getData (env_Trace env) off n;
     ps1 \<leftarrow> on_memory (addBlock_state \<lparr>block_Address = a, block_Data = data\<rparr>) ps;
     Some (set_times t (ps1, th))
   }"

definition addEvent_StateMemmove :: "u64 \<Rightarrow> u64 \<Rightarrow> u64 \<Rightarrow> u64 \<Rightarrow> World \<Rightarrow> World option" where
  "addEvent_StateMemmove t src dst n w = do {
     ps1 \<leftarrow> on_memory (addCopy src dst n) (fst w);
     Some (set_times t (ps1, snd w))
   }"

definition addEvent_StateClear :: "u64 \<Rightarrow> u64 \<Rightarrow> u64 \<Rightarrow> World \<Rightarrow> World option" where
  "addEvent_StateClear a t n w = do {
     ps1 \<leftarrow> on_memory (addClear (area a n)) (fst w);
     Some (set_times t (ps1, snd w))
   }"

definition region_permission :: "bool \<Rightarrow> bool \<Rightarrow> MemoryPermission" where
  "region_permission readable writable =
     (if readable then if writable then ReadWrite else ReadOnly
      else if writable then WriteOnly else NoAccess)"

definition addEvent_KnownRegionAdd :: "u64 \<Rightarrow> u64 \<Rightarrow> bool \<Rightarrow> bool \<Rightarrow> World \<Rightarrow> World option" where
  "addEvent_KnownRegionAdd a n r wr w = do {
     let ps1 = addKnownMemory a n (region_permission r wr) (fst w);
     ps2 \<leftarrow> on_memory (allocationAdd a n) ps1;
     Some (ps2, snd w)
   }"

definition addEvent_KnownRegionRemove :: "u64 \<Rightarrow> u64 \<Rightarrow> World \<Rightarrow> World option" where
  "addEvent_KnownRegionRemove a n w = do {
     let ps1 = fst (removeKnownMemory a (fst w));
     ps2 \<leftarrow> on_memory (allocationRemove a n) ps1;
     Some (ps2, snd w)
   }"

definition addEvent_ByValRegionAdd :: "u16 \<Rightarrow> u64 \<Rightarrow> u64 \<Rightarrow> World \<Rightarrow> World option" where
  "addEvent_ByValRegionAdd arg a n w = do {
     th1 \<leftarrow> readdEvent_ByValRegionAdd arg a n (snd w);
     ps1 \<leftarrow> on_memory (allocationAdd a n) (fst w);
     Some (ps1, th1)
   }"

definition addEvent_FileOpen :: "Env \<Rightarrow> u64 \<Rightarrow> u64 \<Rightarrow> u64 \<Rightarrow> u64 \<Rightarrow> World \<Rightarrow> World option" where
  "addEvent_FileOpen env t fp name mode w = do {
     fn \<leftarrow> getDataString (env_Trace env) name;
     md \<leftarrow> getDataString (env_Trace env) mode;
     Some (set_times t (fst (addStream (new_StreamState fp Kind_none fn md) (fst w)), snd w))
   }"

definition put_stream :: "StreamState \<Rightarrow> u64 \<Rightarrow> ProcessState \<Rightarrow> ProcessState" where
  "put_stream st fp ps = ps\<lparr>ps_Streams := om_insert fp st (ps_Streams ps)\<rparr>"

definition addEvent_FileWrite :: "Env \<Rightarrow> u64 \<Rightarrow> u64 \<Rightarrow> u64 \<Rightarrow> u64 \<Rightarrow> World \<Rightarrow> World option" where
  "addEvent_FileWrite env t fp off n w = do {
     st \<leftarrow> getStream fp (fst w);
     data \<leftarrow> getData (env_Trace env) off n;
     Some (set_times t (put_stream (stream_write data st) fp (fst w), snd w))
   }"

definition addEvent_FileWriteFromMemory :: "u64 \<Rightarrow> u64 \<Rightarrow> u64 \<Rightarrow> u64 \<Rightarrow> World \<Rightarrow> World option" where
  "addEvent_FileWriteFromMemory t fp a n w = do {
     st \<leftarrow> getStream fp (fst w);
     init \<leftarrow> (if n \<noteq> 0 then region_isCompletelyInitialized (area a n) (ps_Memory (fst w))
             else Some True);
     require init;
     data \<leftarrow> getByteValues (area a n) (ps_Memory (fst w));
     Some (set_times t (put_stream (stream_write data st) fp (fst w), snd w))
   }"

definition addEvent_FileClose :: "u64 \<Rightarrow> u64 \<Rightarrow> World \<Rightarrow> World option" where
  "addEvent_FileClose t fp w = Some (set_times t (fst (closeStream fp (fst w)), snd w))"

definition addEvent_DirOpen :: "Env \<Rightarrow> u64 \<Rightarrow> u64 \<Rightarrow> u64 \<Rightarrow> World \<Rightarrow> World option" where
  "addEvent_DirOpen env t d name w = do {
     dn \<leftarrow> getDataString (env_Trace env) name;
     Some (set_times t (fst (addDir \<lparr>ds_Address = d, ds_Dirname = dn\<rparr> (fst w)), snd w))
   }"

definition addEvent_DirClose :: "u64 \<Rightarrow> u64 \<Rightarrow> World \<Rightarrow> World option" where
  "addEvent_DirClose t d w = Some (set_times t (fst (removeDir d (fst w)), snd w))"

definition addEvent_RuntimeError :: "nat \<Rightarrow> bool \<Rightarrow> World \<Rightarrow> World option" where
  "addEvent_RuntimeError p isTop w =
     (if \<not> isTop then Some w
      else do {
        let th = snd w;
        r \<leftarrow> rangeAfterIncluding (events_range (th_Events th)) p;
        e \<leftarrow> deserializeRuntimeError (drop (fst r) (th_Events th));
        err \<leftarrow> e;
        th1 \<leftarrow> on_back (addRuntimeError (th_ThreadTime th) err) th;
        Some (fst w, th1)
      })"

text \<open>The overloads, chosen by the type of the event at position \<open>p\<close>.\<close>

definition addEvent :: "Env \<Rightarrow> nat \<Rightarrow> Event \<Rightarrow> World \<Rightarrow> World option" where
  "addEvent env p e w =
     (if is_instruction e then ev_Index e \<bind> (\<lambda>i. addEvent_instruction e i w)
      else case e of
        TraceEnd _ \<Rightarrow> Some w
      | FunctionStart _ _ _ _ _ \<Rightarrow> function_trace e \<bind> (\<lambda>tr. addEvent_FunctionStart env tr w)
      | FunctionEnd start \<Rightarrow> addEvent_FunctionEnd start w
      | NewProcessTime t \<Rightarrow> addEvent_NewProcessTime t w
      | NewThreadTime _ \<Rightarrow> addEvent_NewThreadTime w
      | Alloca _ _ \<Rightarrow> addEvent_Alloca p w
      | StackRestore _ \<Rightarrow> addEvent_StackRestore p w
      | Malloc n t \<Rightarrow> addEvent_Malloc p n t w
      | Free a t \<Rightarrow> addEvent_Free a t w
      | Realloc a old new t \<Rightarrow> addEvent_Realloc a old new t w
      | StateUntypedSmall n a t d \<Rightarrow> addEvent_StateUntypedSmall n a t d w
      | StateUntyped a t off n \<Rightarrow> addEvent_StateUntyped env a t off n w
      | StateMemmove t src dst n \<Rightarrow> addEvent_StateMemmove t src dst n w
      | StateClear a t n \<Rightarrow> addEvent_StateClear a t n w
      | KnownRegionAdd a n r wr \<Rightarrow> addEvent_KnownRegionAdd a n r wr w
      | KnownRegionRemove a n r wr \<Rightarrow> addEvent_KnownRegionRemove a n w
      | ByValRegionAdd arg a n \<Rightarrow> addEvent_ByValRegionAdd arg a n w
      | FileOpen t fp name mode \<Rightarrow> addEvent_FileOpen env t fp name mode w
      | FileWrite t fp off n \<Rightarrow> addEvent_FileWrite env t fp off n w
      | FileWriteFromMemory t fp a n \<Rightarrow> addEvent_FileWriteFromMemory t fp a n w
      | FileClose t fp name mode \<Rightarrow> addEvent_FileClose t fp w
      | DirOpen t d name \<Rightarrow> addEvent_DirOpen env t d name w
      | DirClose t d name \<Rightarrow> addEvent_DirClose t d w
      | RuntimeError _ _ _ isTop \<Rightarrow> addEvent_RuntimeError p isTop w
      | _ \<Rightarrow> None)"

definition addNextEventForwarder :: "Env \<Rightarrow> nat \<Rightarrow> Event \<Rightarrow> World \<Rightarrow> World option" where
  "addNextEventForwarder env p e w = do {
     require (is_function_level e \<longrightarrow> th_CallStack (snd w) \<noteq> []);
     if is_subservient e then Some w else addEvent env p e w
   }"

definition addNextEvent :: "Env \<Rightarrow> World \<Rightarrow> World option" where
  "addNextEvent env w = do {
     let p = th_NextEvent (snd w);
     e \<leftarrow> event_at (snd w) p;
     w1 \<leftarrow> addNextEventForwarder env p e w;
     Some (fst w1, (snd w1)\<lparr>th_NextEvent := p + 1\<rparr>)
   }"

section \<open>removeEvent\<close>

definition is_RuntimeError :: "Event \<Rightarrow> bool" where
  "is_RuntimeError e \<longleftrightarrow> error_header e \<noteq> None"

text \<open>
  The last loop of the source iterates with \<open>for (auto Ev : ErrorSearchRange)\<close>, which copies
  each record's base class and drops its members; using such a copy as a \<open>RuntimeError\<close>
  record is undefined. So the operation is defined only if there is none in the range.
\<close>

definition makePreviousInstructionActive :: "nat \<Rightarrow> ThreadState \<Rightarrow> ThreadState option" where
  "makePreviousInstructionActive p th = do {
     r \<leftarrow> rangeBefore (events_range (th_Events th)) p;
     found \<leftarrow> rfindInFunction is_instruction (th_Events th) (fst r) (snd r);
     case found of
       None \<Rightarrow> on_back (\<lambda>f. Some (clearActiveInstruction f)) th
     | Some q \<Rightarrow> do {
         let e = th_Events th ! q;
         i \<leftarrow> ev_Index e;
         th1 \<leftarrow> on_back (rewindingToInstruction i) th;
         th2 \<leftarrow> on_back (\<lambda>f. Some (case e of
                    PreInstruction _ \<Rightarrow> setActiveInstructionIncomplete i f
                  | _ \<Rightarrow> setActiveInstructionComplete i f)) th1;
         require (list_all (\<lambda>ev. \<not> is_RuntimeError ev) (take (p - q) (drop q (th_Events th))));
         Some th2
       }
   }"

definition setPreviousViewOfProcessTime :: "nat \<Rightarrow> ThreadState \<Rightarrow> ThreadState option" where
  "setPreviousViewOfProcessTime p th = do {
     r \<leftarrow> rangeBefore (events_range (th_Events th)) p;
     case rfind_event (\<lambda>e. ev_ProcessTime e \<noteq> None) (th_Events th) (fst r) (snd r) of
       None \<Rightarrow> Some (th\<lparr>th_ProcessTime := 0\<rparr>)
     | Some q \<Rightarrow> do {
         t \<leftarrow> ev_ProcessTime (th_Events th ! q);
         Some (th\<lparr>th_ProcessTime := t\<rparr>)
       }
   }"

text \<open>\<open>Parent.ProcessTime = Ev.getProcessTime() - 1; setPreviousViewOfProcessTime(Ev);\<close>\<close>

definition unset_times :: "nat \<Rightarrow> u64 \<Rightarrow> World \<Rightarrow> World option" where
  "unset_times p t w = do {
     th1 \<leftarrow> setPreviousViewOfProcessTime p (snd w);
     Some ((fst w)\<lparr>ps_ProcessTime := t - 1\<rparr>, th1)
   }"

definition removeEvent_FunctionStart :: "FunctionTrace \<Rightarrow> World \<Rightarrow> World option" where
  "removeEvent_FunctionStart tr w = do {
     b \<leftarrow> back_fn (snd w);
     require (fs_Index b = ft_Index tr);
     Some (fst w, (snd w)\<lparr>th_CallStack := butlast (th_CallStack (snd w)),
                           th_ThreadTime := ft_ThreadTimeEntered tr - 1\<rparr>)
   }"

text \<open>
  \<open>restoreEventForwarder\<close>: instructions are added again, other events of the function are
  added by \<open>readdEvent\<close> where there is one and by \<open>addEvent\<close> where not.
\<close>

definition restoreEvent :: "Env \<Rightarrow> nat \<Rightarrow> Event \<Rightarrow> World \<Rightarrow> World option" where
  "restoreEvent env p e w =
     (if is_subservient e then Some w
      else if is_instruction e then addEvent env p e w
      else case e of
        NewThreadTime _ \<Rightarrow> Some w
      | Alloca _ _ \<Rightarrow> map_option (Pair (fst w)) (readdEvent_Alloca p (snd w))
      | StackRestore _ \<Rightarrow> map_option (Pair (fst w)) (readdEvent_StackRestore p (snd w))
      | ByValRegionAdd arg a n \<Rightarrow> map_option (Pair (fst w)) (readdEvent_ByValRegionAdd arg a n (snd w))
      | RuntimeError _ _ _ _ \<Rightarrow> addEvent env p e w
      | _ \<Rightarrow> Some w)"

function restore_loop :: "Env \<Rightarrow> nat \<Rightarrow> nat \<Rightarrow> World \<Rightarrow> World option" where
  "restore_loop env p hi w =
     (if hi \<le> p then (if p = hi then Some w else None)
      else case event_at (snd w) p of
        None \<Rightarrow> None
      | Some e \<Rightarrow>
          (case function_trace e of
             Some child \<Rightarrow>
               if p < ft_EventEnd child
               then restore_loop env (ft_EventEnd child + 1) hi
                      (fst w, (snd w)\<lparr>th_ThreadTime := ft_ThreadTimeExited child\<rparr>)
               else None
           | None \<Rightarrow>
               (case restoreEvent env p e w of
                  None \<Rightarrow> None
                | Some w1 \<Rightarrow> restore_loop env (p + 1) hi w1)))"
  by pat_completeness auto
termination by (relation "measure (\<lambda>(env, p, hi, w). hi - p)") auto

definition removeEvent_FunctionEnd :: "Env \<Rightarrow> nat \<Rightarrow> nat \<Rightarrow> World \<Rightarrow> World option" where
  "removeEvent_FunctionEnd env p start w = do {
     e \<leftarrow> event_at (snd w) start;
     tr \<leftarrow> function_trace e;
     f \<leftarrow> getFunctionIndex env (ft_Index tr);
     let th = snd w;
     let th1 = th\<lparr>th_CallStack := th_CallStack th @ [new_FunctionState f tr]\<rparr>;
     (ps2, th2) \<leftarrow> restore_loop env (ft_EventStart tr + 1) p (fst w, th1);
     b \<leftarrow> back_fn th2;
     ps3 \<leftarrow> on_memory (unremove_areas (rev (alloca_areas (fs_Allocas b)))) ps2;
     ps4 \<leftarrow> on_memory (unremove_areas (rev (byval_areas b))) ps3;
     Some (ps4, th2\<lparr>th_ThreadTime := ft_ThreadTimeExited tr - 1\<rparr>)
   }"

definition removeEvent_NewProcessTime :: "nat \<Rightarrow> World \<Rightarrow> World option" where
  "removeEvent_NewProcessTime p w = map_option (Pair (fst w)) (setPreviousViewOfProcessTime p (snd w))"

definition removeEvent_NewThreadTime :: "World \<Rightarrow> World option" where
  "removeEvent_NewThreadTime w = Some (fst w, (snd w)\<lparr>th_ThreadTime := th_ThreadTime (snd w) - 1\<rparr>)"

definition removeEvent_instruction :: "nat \<Rightarrow> World \<Rightarrow> World option" where
  "removeEvent_instruction p w = do {
     th1 \<leftarrow> makePreviousInstructionActive p (snd w);
     Some (fst w, th1\<lparr>th_ThreadTime := th_ThreadTime th1 - 1\<rparr>)
   }"

text \<open>The loops that collect the allocas between two events, skipping child functions.\<close>

function readd_between :: "bool \<Rightarrow> nat \<Rightarrow> nat \<Rightarrow> ThreadState \<Rightarrow> ThreadState option" where
  "readd_between stop p hi th =
     (if hi \<le> p then (if p = hi then Some th else None)
      else case event_at th p of
        None \<Rightarrow> None
      | Some e \<Rightarrow>
          (case end_of_start e of
             Some en \<Rightarrow>
               if p < en \<and> en < hi then readd_between stop (en + 1) hi th else None
           | None \<Rightarrow>
               if stop \<and> is_FunctionEnd e then Some th
               else if alloca_sizes e \<noteq> None
               then (case readdEvent_Alloca p th of
                       None \<Rightarrow> None
                     | Some th1 \<Rightarrow> readd_between stop (p + 1) hi th1)
               else readd_between stop (p + 1) hi th))"
  by pat_completeness auto
termination by (relation "measure (\<lambda>(stop, p, hi, th). hi - p)") auto

definition is_StackRestore :: "Event \<Rightarrow> bool" where
  "is_StackRestore e \<longleftrightarrow> (case e of StackRestore _ \<Rightarrow> True | _ \<Rightarrow> False)"

definition removeEvent_StackRestore :: "nat \<Rightarrow> World \<Rightarrow> World option" where
  "removeEvent_StackRestore p w = do {
     let (ps, th) = w;
     b \<leftarrow> back_fn th;
     let post = fs_Allocas b;
     th1 \<leftarrow> on_back (\<lambda>f. Some (f\<lparr>fs_Allocas := []\<rparr>)) th;
     r \<leftarrow> rangeBefore (events_range (th_Events th)) p;
     found \<leftarrow> rfindInFunction is_StackRestore (th_Events th) (fst r) (snd r);
     th2 \<leftarrow> (case found of
       Some q \<Rightarrow> readdEvent_StackRestore q th1 \<bind> readd_between False q p
     | None \<Rightarrow> readd_between True (ft_EventStart (fs_Trace b) + 1) p th1);
     b2 \<leftarrow> back_fn th2;
     k \<leftarrow> mismatch post (fs_Allocas b2);
     ps1 \<leftarrow> on_memory (unremove_areas (rev (alloca_areas (drop k (fs_Allocas b2))))) ps;
     Some (ps1, th2)
   }"

definition removeEvent_Alloca :: "World \<Rightarrow> World option" where
  "removeEvent_Alloca w = do {
     let (ps, th) = w;
     b \<leftarrow> back_fn th;
     require (fs_Allocas b \<noteq> []);
     let a = last (fs_Allocas b);
     ps1 \<leftarrow> on_memory (allocationUnadd (al_Address a) (getTotalSize a)) ps;
     th1 \<leftarrow> on_back (\<lambda>f. Some (f\<lparr>fs_Allocas := butlast (fs_Allocas f)\<rparr>)) th;
     Some (ps1, th1)
   }"

definition removeEvent_Malloc :: "nat \<Rightarrow> u64 \<Rightarrow> u64 \<Rightarrow> World \<Rightarrow> World option" where
  "removeEvent_Malloc p n t w = do {
     let (ps, th) = w;
     (i, a) \<leftarrow> preceding_ptr th p;
     ps1 \<leftarrow> unaddMalloc a ps;
     ps2 \<leftarrow> on_memory (allocationUnadd a n) ps1;
     unset_times p t (ps2, th)
   }"

definition removeEvent_Free :: "nat \<Rightarrow> u64 \<Rightarrow> u64 \<Rightarrow> World \<Rightarrow> World option" where
  "removeEvent_Free p a t w = do {
     let (ps, th) = w;
     ps1 \<leftarrow> unremoveMalloc a ps;
     m \<leftarrow> om_find (ps_Mallocs ps1) a;
     ps2 \<leftarrow> on_memory (allocationUnremove a (mst_Size m)) ps1;
     unset_times p t (ps2, th)
   }"

definition removeEvent_Realloc :: "nat \<Rightarrow> u64 \<Rightarrow> u64 \<Rightarrow> u64 \<Rightarrow> u64 \<Rightarrow> World \<Rightarrow> World option" where
  "removeEvent_Realloc p a old new t w = do {
     let (ps, th) = w;
     m \<leftarrow> om_find (ps_Mallocs ps) a;
     ps2 \<leftarrow> on_memory (allocationUnresize a new old)
              (ps\<lparr>ps_Mallocs := om_insert a (setSize old m) (ps_Mallocs ps)\<rparr>);
     unset_times p t (ps2, th)
   }"

definition removeEvent_StateUntypedSmall :: "nat \<Rightarrow> u8 \<Rightarrow> u64 \<Rightarrow> u64 \<Rightarrow> World \<Rightarrow> World option" where
  "removeEvent_StateUntypedSmall p n a t w = do {
     ps1 \<leftarrow> on_memory (removeBlock (area a (ucast n))) (fst w);
     unset_times p t (ps1, snd w)
   }"

definition removeEvent_StateUntyped :: "nat \<Rightarrow> u64 \<Rightarrow> u64 \<Rightarrow> u64 \<Rightarrow> World \<Rightarrow> World option" where
  "removeEvent_StateUntyped p a t n w = do {
     ps1 \<leftarrow> on_memory (removeBlock (area a n)) (fst w);
     unset_times p t (ps1, snd w)
   }"

definition removeEvent_StateMemmove :: "nat \<Rightarrow> u64 \<Rightarrow> u64 \<Rightarrow> u64 \<Rightarrow> u64 \<Rightarrow> World \<Rightarrow> World option" where
  "removeEvent_StateMemmove p t src dst n w = do {
     ps1 \<leftarrow> on_memory (removeCopy src dst n) (fst w);
     unset_times p t (ps1, snd w)
   }"

definition removeEvent_StateClear :: "nat \<Rightarrow> u64 \<Rightarrow> u64 \<Rightarrow> u64 \<Rightarrow> World \<Rightarrow> World option" where
  "removeEvent_StateClear p a t n w = do {
     ps1 \<leftarrow> on_memory (removeClear (area a n)) (fst w);
     unset_times p t (ps1, snd w)
   }"

definition removeEvent_KnownRegionAdd :: "u64 \<Rightarrow> u64 \<Rightarrow> World \<Rightarrow> World option" where
  "removeEvent_KnownRegionAdd a n w = do {
     let ps1 = fst (removeKnownMemory a (fst w));
     ps2 \<leftarrow> on_memory (allocationUnadd a n) ps1;
     Some (ps2, snd w)
   }"

definition removeEvent_KnownRegionRemove :: "u64 \<Rightarrow> u64 \<Rightarrow> bool \<Rightarrow> bool \<Rightarrow> World \<Rightarrow> World option" where
  "removeEvent_KnownRegionRemove a n r wr w = do {
     let ps1 = addKnownMemory a n (region_permission r wr) (fst w);
     ps2 \<leftarrow> on_memory (allocationUnremove a n) ps1;
     Some (ps2, snd w)
   }"

definition removeEvent_ByValRegionAdd :: "u64 \<Rightarrow> u64 \<Rightarrow> World \<Rightarrow> World option" where
  "removeEvent_ByValRegionAdd a n w = do {
     th1 \<leftarrow> on_back (\<lambda>f. Some (removeByValArea a f)) (snd w);
     ps1 \<leftarrow> on_memory (allocationUnadd a n) (fst w);
     Some (ps1, th1)
   }"

definition removeEvent_FileOpen :: "nat \<Rightarrow> u64 \<Rightarrow> u64 \<Rightarrow> World \<Rightarrow> World option" where
  "removeEvent_FileOpen p t fp w = unset_times p t (fst (removeStream fp (fst w)), snd w)"

definition removeEvent_FileWrite :: "nat \<Rightarrow> u64 \<Rightarrow> u64 \<Rightarrow> u64 \<Rightarrow> World \<Rightarrow> World option" where
  "removeEvent_FileWrite p t fp n w = do {
     st \<leftarrow> getStream fp (fst w);
     st1 \<leftarrow> stream_unwrite (unat n) st;
     unset_times p t (put_stream st1 fp (fst w), snd w)
   }"

definition removeEvent_FileWriteFromMemory :: "nat \<Rightarrow> u64 \<Rightarrow> u64 \<Rightarrow> u64 \<Rightarrow> World \<Rightarrow> World option" where
  "removeEvent_FileWriteFromMemory p t fp n w = do {
     st \<leftarrow> getStream fp (fst w);
     st1 \<leftarrow> stream_unwrite (unat n) st;
     unset_times p t (put_stream st1 fp (fst w), snd w)
   }"

definition removeEvent_FileClose :: "nat \<Rightarrow> u64 \<Rightarrow> u64 \<Rightarrow> World \<Rightarrow> World option" where
  "removeEvent_FileClose p t fp w = do {
     let (ps1, restored) = restoreStream fp (fst w);
     require restored;
     unset_times p t (ps1, snd w)
   }"

definition removeEvent_DirOpen :: "nat \<Rightarrow> u64 \<Rightarrow> u64 \<Rightarrow> World \<Rightarrow> World option" where
  "removeEvent_DirOpen p t d w = unset_times p t (fst (removeDir d (fst w)), snd w)"

definition removeEvent_DirClose :: "Env \<Rightarrow> nat \<Rightarrow> u64 \<Rightarrow> u64 \<Rightarrow> u64 \<Rightarrow> World \<Rightarrow> World option" where
  "removeEvent_DirClose env p t d name w = do {
     dn \<leftarrow> getDataString (env_Trace env) name;
     unset_times p t (fst (addDir \<lparr>ds_Address = d, ds_Dirname = dn\<rparr> (fst w)), snd w)
   }"

definition removeEvent_RuntimeError :: "bool \<Rightarrow> World \<Rightarrow> World option" where
  "removeEvent_RuntimeError isTop w =
     (if \<not> isTop then Some w
      else map_option (Pair (fst w)) (on_back removeLastRuntimeError (snd w)))"

definition removeEvent :: "Env \<Rightarrow> nat \<Rightarrow> Event \<Rightarrow> World \<Rightarrow> World option" where
  "removeEvent env p e w =
     (if is_instruction e then removeEvent_instruction p w
      else case e of
        TraceEnd _ \<Rightarrow> Some w
      | FunctionStart _ _ _ _ _ \<Rightarrow> function_trace e \<bind> (\<lambda>tr. removeEvent_FunctionStart tr w)
      | FunctionEnd start \<Rightarrow> removeEvent_FunctionEnd env p start w
      | NewProcessTime t \<Rightarrow> removeEvent_NewProcessTime p w
      | NewThreadTime _ \<Rightarrow> removeEvent_NewThreadTime w
      | Alloca _ _ \<Rightarrow> removeEvent_Alloca w
      | StackRestore _ \<Rightarrow> removeEvent_StackRestore p w
      | Malloc n t \<Rightarrow> removeEvent_Malloc p n t w
      | Free a t \<Rightarrow> removeEvent_Free p a t w
      | Realloc a old new t \<Rightarrow> removeEvent_Realloc p a old new t w
      | StateUntypedSmall n a t d \<Rightarrow> removeEvent_StateUntypedSmall p n a t w
      | StateUntyped a t off n \<Rightarrow> removeEvent_StateUntyped p a t n w
      | StateMemmove t src dst n \<Rightarrow> removeEvent_StateMemmove p t src dst n w
      | StateClear a t n \<Rightarrow> removeEvent_StateClear p a t n w
      | KnownRegionAdd a n r wr \<Rightarrow> removeEvent_KnownRegionAdd a n w
      | KnownRegionRemove a n r wr \<Rightarrow> removeEvent_KnownRegionRemove a n r wr w
      | ByValRegionAdd arg a n \<Rightarrow> removeEvent_ByValRegionAdd a n w
      | FileOpen t fp name mode \<Rightarrow> removeEvent_FileOpen p t fp w
      | FileWrite t fp off n \<Rightarrow> removeEvent_FileWrite p t fp n w
      | FileWriteFromMemory t fp a n \<Rightarrow> removeEvent_FileWriteFromMemory p t fp n w
      | FileClose t fp name mode \<Rightarrow> removeEvent_FileClose p t fp w
      | DirOpen t d name \<Rightarrow> removeEvent_DirOpen p t d w
      | DirClose t d name \<Rightarrow> removeEvent_DirClose env p t d name w
      | RuntimeError _ _ _ isTop \<Rightarrow> removeEvent_RuntimeError isTop w
      | _ \<Rightarrow> None)"

definition removePreviousEvent :: "Env \<Rightarrow> World \<Rightarrow> World option" where
  "removePreviousEvent env w = do {
     let p = th_NextEvent (snd w);
     require (p \<noteq> 0);
     let w1 = (fst w, (snd w)\<lparr>th_NextEvent := p - 1\<rparr>);
     e \<leftarrow> event_at (snd w1) (p - 1);
     if is_subservient e then Some w1 else removeEvent env (p - 1) e w1
   }"

definition isAtStart :: "ThreadState \<Rightarrow> bool" where
  "isAtStart th \<longleftrightarrow> th_NextEvent th = 0"

definition isAtEnd :: "ThreadState \<Rightarrow> bool" where
  "isAtEnd th \<longleftrightarrow> th_NextEvent th = length (th_Events th)"

section \<open>Memory of the stack\<close>

fun first_assigned :: "('a \<Rightarrow> 'b option) \<Rightarrow> 'a list \<Rightarrow> 'b option" where
  "first_assigned f [] = None"
| "first_assigned f (x # xs) = (case f x of Some y \<Rightarrow> Some y | None \<Rightarrow> first_assigned f xs)"

definition th_getContainingMemoryArea :: "u64 \<Rightarrow> ThreadState \<Rightarrow> MemoryArea option" where
  "th_getContainingMemoryArea p th = first_assigned (fs_getContainingMemoryArea p) (th_CallStack th)"

end
