(* ===== verification/StateMovement.thy ===== *)
theory StateMovement
  imports ThreadState
begin

text \<open>
  Moving a whole process through its trace (\<open>include/seec/Trace/StateMovement.hpp\<close>,
  \<open>lib/Trace/StateMovement.cpp\<close>). One worker thread moves each thread state; a mutex and a
  condition variable keep the events that change the shared state in the order of their
  process times. A \<open>Movement\<close> is the state of \<open>moveForward\<close> or \<open>moveBackward\<close> with its workers;
  \<open>forward_step\<close> and \<open>backward_step\<close> are one step of one worker, up to its next access to what
  the workers share. A worker that cannot go on is \<open>Blocked\<close>; a failed assertion is \<open>Crash\<close>.
\<close>

section \<open>State\<close>

datatype MovementResult = Unmoved | PredicateSatisfied | ReachedBeginning | ReachedEnd

type_synonym ProcessPred = "ProcessState \<Rightarrow> ThreadState list \<Rightarrow> bool option"
type_synonym ThreadPred = "ThreadState \<Rightarrow> bool option"

text \<open>
  Where a worker is: at the head of its loop; in \<open>addNextEventBlock\<close> (or
  \<open>removePreviousEventBlock\<close>) with \<open>RewindNextEvent\<close> and whether it holds the lock; about to
  sleep (the condition was false, the mutex is still held), asleep or woken in
  \<open>ProcessStateCV.wait\<close>; undoing the block; after the block with its result; finished.
\<close>

datatype Worker =
    AtLoop
  | InBlock nat bool
  | FallingAsleep nat u64
  | Asleep nat u64
  | Woken nat u64
  | Undoing nat
  | AfterBlock bool bool
  | Exited

record Movement =
  mv_Process :: ProcessState
  mv_Threads :: "ThreadState list"
  mv_Workers :: "Worker list"
  mv_Owner :: "nat option"
  mv_MovementComplete :: bool
  mv_Moved :: bool
  mv_PredicateWasSatisfied :: bool

datatype attempt = Blocked | Crash | Go Movement

definition start_movement :: "ProcessState \<Rightarrow> ThreadState list \<Rightarrow> Movement" where
  "start_movement ps ths =
     \<lparr>mv_Process = ps, mv_Threads = ths, mv_Workers = map (\<lambda>_. AtLoop) ths, mv_Owner = None,
      mv_MovementComplete = False, mv_Moved = False, mv_PredicateWasSatisfied = False\<rparr>"

definition set_worker :: "nat \<Rightarrow> Worker \<Rightarrow> Movement \<Rightarrow> Movement" where
  "set_worker i pc m = m\<lparr>mv_Workers := (mv_Workers m)[i := pc]\<rparr>"

definition thread_of :: "nat \<Rightarrow> Movement \<Rightarrow> World" where
  "thread_of i m = (mv_Process m, mv_Threads m ! i)"

definition set_thread :: "nat \<Rightarrow> World \<Rightarrow> Movement \<Rightarrow> Movement" where
  "set_thread i w m = m\<lparr>mv_Process := fst w, mv_Threads := (mv_Threads m)[i := snd w]\<rparr>"

definition release :: "nat \<Rightarrow> Movement \<Rightarrow> Movement" where
  "release i m = (if mv_Owner m = Some i then m\<lparr>mv_Owner := None\<rparr> else m)"

definition wake :: "Worker \<Rightarrow> Worker" where
  "wake pc = (case pc of Asleep r t \<Rightarrow> Woken r t | _ \<Rightarrow> pc)"

definition notify_all :: "Movement \<Rightarrow> Movement" where
  "notify_all m = m\<lparr>mv_Workers := map wake (mv_Workers m)\<rparr>"

text \<open>A reference to the end of the events still refers to the last record.\<close>

definition event_ref :: "ThreadState \<Rightarrow> nat \<Rightarrow> Event option" where
  "event_ref th p = (if p < length (th_Events th) then Some (th_Events th ! p)
                     else if th_Events th = [] then None else Some (last (th_Events th)))"

section \<open>The lock and the condition variable\<close>

text \<open>
  The predicate of \<open>wait\<close>, evaluated with the mutex held, and what follows: a movement that is
  complete unlocks and undoes the block, a ready worker goes on with the lock, any other
  sleeps.
\<close>

definition wait_check :: "(u64 \<Rightarrow> u64 \<Rightarrow> bool) \<Rightarrow> nat \<Rightarrow> nat \<Rightarrow> u64 \<Rightarrow> Movement \<Rightarrow> attempt" where
  "wait_check ready i r t m =
     (if mv_Owner m \<noteq> None then Blocked
      else if mv_MovementComplete m then Go (set_worker i (Undoing r) m)
      else if ready (ps_ProcessTime (mv_Process m)) t
      then Go (set_worker i (InBlock r True) (m\<lparr>mv_Owner := Some i\<rparr>))
      else Go (set_worker i (FallingAsleep r t) (m\<lparr>mv_Owner := Some i\<rparr>)))"

definition fall_asleep :: "nat \<Rightarrow> nat \<Rightarrow> u64 \<Rightarrow> Movement \<Rightarrow> attempt" where
  "fall_asleep i r t m = Go (set_worker i (Asleep r t) (release i m))"

text \<open>
  The end of one round of a worker's loop: both predicates are tried, and a satisfied one ends
  the movement of all workers.
\<close>

definition satisfied :: "nat \<Rightarrow> Movement \<Rightarrow> attempt" where
  "satisfied i m =
     Go (set_worker i Exited (release i (notify_all
       (m\<lparr>mv_MovementComplete := True, mv_PredicateWasSatisfied := True\<rparr>))))"

definition next_round :: "nat \<Rightarrow> Movement \<Rightarrow> attempt" where
  "next_round i m = Go (set_worker i AtLoop (release i m))"

definition try_thread_predicate :: "ThreadPred option \<Rightarrow> nat \<Rightarrow> Movement \<Rightarrow> attempt" where
  "try_thread_predicate tp i m =
     (case tp of
        None \<Rightarrow> next_round i m
      | Some q \<Rightarrow> (case q (mv_Threads m ! i) of
          None \<Rightarrow> Crash
        | Some b \<Rightarrow> if b then satisfied i m else next_round i m))"

definition after_block ::
  "ProcessPred option \<Rightarrow> ThreadPred option list \<Rightarrow> nat \<Rightarrow> bool \<Rightarrow> bool \<Rightarrow> Movement \<Rightarrow> attempt" where
  "after_block pp tps i moved held m0 =
     (let m = (if moved then m0\<lparr>mv_Moved := True\<rparr> else m0) in
      if mv_MovementComplete m then Go (set_worker i Exited (release i m))
      else case (if held then pp else None) of
        None \<Rightarrow> try_thread_predicate (tps ! i) i m
      | Some p \<Rightarrow> (case p (mv_Process m) (mv_Threads m) of
          None \<Rightarrow> Crash
        | Some b \<Rightarrow> if b then satisfied i m else try_thread_predicate (tps ! i) i m))"

section \<open>A worker moving forward\<close>

text \<open>The process time to wait for before an event is added.\<close>

definition forward_wait :: "Event \<Rightarrow> u64 option" where
  "forward_wait e = map_option (\<lambda>t. if modifies_shared_state e then t - 1 else t) (ev_ProcessTime e)"

definition forward_ready :: "u64 \<Rightarrow> u64 \<Rightarrow> bool" where
  "forward_ready now t \<longleftrightarrow> t \<le> now"

definition add_in_block :: "Env \<Rightarrow> nat \<Rightarrow> nat \<Rightarrow> bool \<Rightarrow> Movement \<Rightarrow> attempt" where
  "add_in_block env i r held m =
     (case addNextEvent env (thread_of i m) of
        None \<Rightarrow> Crash
      | Some w \<Rightarrow>
          let th = snd w; m1 = set_thread i w m in
          case event_ref th (th_NextEvent th) of
            None \<Rightarrow> Crash
          | Some e \<Rightarrow>
              if is_block_start e \<or> th_NextEvent th = length (th_Events th)
              then Go (set_worker i (AfterBlock True held) m1)
              else Go (set_worker i (InBlock r held) m1))"

definition addNextEventBlock :: "Env \<Rightarrow> nat \<Rightarrow> nat \<Rightarrow> bool \<Rightarrow> Movement \<Rightarrow> attempt" where
  "addNextEventBlock env i r held m =
     (let th = mv_Threads m ! i in
      case event_ref th (th_NextEvent th) of
        None \<Rightarrow> Crash
      | Some e \<Rightarrow>
          case (if held then None else forward_wait e) of
            Some t \<Rightarrow> wait_check forward_ready i r t m
          | None \<Rightarrow> add_in_block env i r held m)"

text \<open>\<open>while (State.getNextEvent() != RewindNextEvent) State.removePreviousEvent();\<close>\<close>

definition undo_added :: "Env \<Rightarrow> nat \<Rightarrow> nat \<Rightarrow> Movement \<Rightarrow> attempt" where
  "undo_added env i r m =
     (if th_NextEvent (mv_Threads m ! i) = r then Go (set_worker i (AfterBlock False False) m)
      else case removePreviousEvent env (thread_of i m) of
        None \<Rightarrow> Crash
      | Some w \<Rightarrow> Go (set_thread i w m))"

definition forward_step ::
  "Env \<Rightarrow> ProcessPred option \<Rightarrow> ThreadPred option list \<Rightarrow> nat \<Rightarrow> Movement \<Rightarrow> attempt" where
  "forward_step env pp tps i m =
     (let th = mv_Threads m ! i in
      case mv_Workers m ! i of
        AtLoop \<Rightarrow>
          if th_NextEvent th = length (th_Events th) then Go (set_worker i Exited m)
          else Go (set_worker i (InBlock (th_NextEvent th) False) m)
      | InBlock r held \<Rightarrow> addNextEventBlock env i r held m
      | FallingAsleep r t \<Rightarrow> fall_asleep i r t m
      | Asleep r t \<Rightarrow> Blocked
      | Woken r t \<Rightarrow> wait_check forward_ready i r t m
      | Undoing r \<Rightarrow> undo_added env i r m
      | AfterBlock moved held \<Rightarrow> after_block pp tps i moved held m
      | Exited \<Rightarrow> Blocked)"

section \<open>A worker moving backward\<close>

definition backward_wait :: "Event \<Rightarrow> u64 option" where
  "backward_wait e = map_option (\<lambda>t. if modifies_shared_state e then t else t - 1) (ev_ProcessTime e)"

definition backward_ready :: "u64 \<Rightarrow> u64 \<Rightarrow> bool" where
  "backward_ready now t \<longleftrightarrow> now \<le> t"

definition remove_in_block :: "Env \<Rightarrow> nat \<Rightarrow> nat \<Rightarrow> bool \<Rightarrow> Event \<Rightarrow> Movement \<Rightarrow> attempt" where
  "remove_in_block env i r held e m =
     (let p = th_NextEvent (mv_Threads m ! i) - 1 in
      case removePreviousEvent env (thread_of i m) of
        None \<Rightarrow> Crash
      | Some w \<Rightarrow>
          let m1 = set_thread i w m in
          if is_block_start e \<or> p = 0 then Go (set_worker i (AfterBlock True held) m1)
          else Go (set_worker i (InBlock r held) m1))"

definition removePreviousEventBlock :: "Env \<Rightarrow> nat \<Rightarrow> nat \<Rightarrow> bool \<Rightarrow> Movement \<Rightarrow> attempt" where
  "removePreviousEventBlock env i r held m =
     (let th = mv_Threads m ! i in
      case (if th_NextEvent th = 0 then None else event_at th (th_NextEvent th - 1)) of
        None \<Rightarrow> Crash
      | Some e \<Rightarrow>
          case (if held then None else backward_wait e) of
            Some t \<Rightarrow> wait_check backward_ready i r t m
          | None \<Rightarrow> remove_in_block env i r held e m)"

definition undo_removed :: "Env \<Rightarrow> nat \<Rightarrow> nat \<Rightarrow> Movement \<Rightarrow> attempt" where
  "undo_removed env i r m =
     (if th_NextEvent (mv_Threads m ! i) = r then Go (set_worker i (AfterBlock False False) m)
      else case addNextEvent env (thread_of i m) of
        None \<Rightarrow> Crash
      | Some w \<Rightarrow> Go (set_thread i w m))"

definition backward_step ::
  "Env \<Rightarrow> ProcessPred option \<Rightarrow> ThreadPred option list \<Rightarrow> nat \<Rightarrow> Movement \<Rightarrow> attempt" where
  "backward_step env pp tps i m =
     (let th = mv_Threads m ! i in
      case mv_Workers m ! i of
        AtLoop \<Rightarrow>
          if th_NextEvent th = 0 then Go (set_worker i Exited m)
          else Go (set_worker i (InBlock (th_NextEvent th) False) m)
      | InBlock r held \<Rightarrow> removePreviousEventBlock env i r held m
      | FallingAsleep r t \<Rightarrow> fall_asleep i r t m
      | Asleep r t \<Rightarrow> Blocked
      | Woken r t \<Rightarrow> wait_check backward_ready i r t m
      | Undoing r \<Rightarrow> undo_removed env i r m
      | AfterBlock moved held \<Rightarrow> after_block pp tps i moved held m
      | Exited \<Rightarrow> Blocked)"

section \<open>All workers\<close>

text \<open>
  The workers run in any order. The second rule is a spurious wake-up, which the condition
  variable permits but does not promise.
\<close>

inductive moves ::
  "(nat \<Rightarrow> Movement \<Rightarrow> attempt) \<Rightarrow> Movement \<Rightarrow> Movement \<Rightarrow> bool" for step where
  worker: "i < length (mv_Workers m) \<Longrightarrow> step i m = Go m' \<Longrightarrow> moves step m m'"
| spurious: "i < length (mv_Workers m) \<Longrightarrow> mv_Workers m ! i = Asleep r t \<Longrightarrow>
    moves step m (set_worker i (Woken r t) m)"

text \<open>Running the workers in a given order.\<close>

fun run_schedule :: "(nat \<Rightarrow> Movement \<Rightarrow> attempt) \<Rightarrow> nat list \<Rightarrow> Movement \<Rightarrow> Movement option" where
  "run_schedule step [] m = Some m"
| "run_schedule step (i # is) m =
     (if i < length (mv_Workers m)
      then case step i m of Go m' \<Rightarrow> run_schedule step is m' | _ \<Rightarrow> None
      else None)"

lemma schedule_reaches: "run_schedule step is m = Some m' \<Longrightarrow> (moves step)\<^sup>*\<^sup>* m m'"
proof (induction "is" arbitrary: m)
  case (Cons i "is")
  then obtain u where "i < length (mv_Workers m)" "step i m = Go u" "run_schedule step is u = Some m'"
    by (auto split: if_splits attempt.splits)
  with Cons.IH show ?case by (meson converse_rtranclp_into_rtranclp moves.worker)
qed simp

definition all_exited :: "Movement \<Rightarrow> bool" where
  "all_exited m \<longleftrightarrow> list_all (\<lambda>pc. pc = Exited) (mv_Workers m)"

definition movement_result :: "MovementResult \<Rightarrow> Movement \<Rightarrow> MovementResult" where
  "movement_result reached m =
     (if mv_PredicateWasSatisfied m then PredicateSatisfied
      else if mv_Moved m then reached else Unmoved)"

text \<open>The outcomes of \<open>moveForward\<close> and \<open>moveBackward\<close> of the helper.\<close>

definition mover_moveForward ::
  "Env \<Rightarrow> ProcessPred option \<Rightarrow> ThreadPred option list \<Rightarrow> ProcessState \<Rightarrow> ThreadState list \<Rightarrow>
   MovementResult \<Rightarrow> Movement \<Rightarrow> bool" where
  "mover_moveForward env pp tps ps ths res m \<longleftrightarrow>
     (moves (forward_step env pp tps))\<^sup>*\<^sup>* (start_movement ps ths) m \<and> all_exited m \<and>
     res = movement_result ReachedEnd m"

definition mover_moveBackward ::
  "Env \<Rightarrow> ProcessPred option \<Rightarrow> ThreadPred option list \<Rightarrow> ProcessState \<Rightarrow> ThreadState list \<Rightarrow>
   MovementResult \<Rightarrow> Movement \<Rightarrow> bool" where
  "mover_moveBackward env pp tps ps ths res m \<longleftrightarrow>
     (moves (backward_step env pp tps))\<^sup>*\<^sup>* (start_movement ps ths) m \<and> all_exited m \<and>
     res = movement_result ReachedBeginning m"

section \<open>Movement of the process\<close>

definition no_thread_preds :: "ThreadState list \<Rightarrow> ThreadPred option list" where
  "no_thread_preds ths = map (\<lambda>_. None) ths"

definition only_thread_pred :: "nat \<Rightarrow> ThreadPred \<Rightarrow> ThreadState list \<Rightarrow> ThreadPred option list" where
  "only_thread_pred i q ths = (no_thread_preds ths)[i := Some q]"

definition moveForwardUntil :: "Env \<Rightarrow> ProcessPred \<Rightarrow> ProcessState \<Rightarrow> ThreadState list \<Rightarrow> MovementResult \<Rightarrow> Movement \<Rightarrow> bool" where
  "moveForwardUntil env p ps ths = mover_moveForward env (Some p) (no_thread_preds ths) ps ths"

definition moveBackwardUntil :: "Env \<Rightarrow> ProcessPred \<Rightarrow> ProcessState \<Rightarrow> ThreadState list \<Rightarrow> MovementResult \<Rightarrow> Movement \<Rightarrow> bool" where
  "moveBackwardUntil env p ps ths = mover_moveBackward env (Some p) (no_thread_preds ths) ps ths"

text \<open>An answer without any movement.\<close>

definition stay :: "ProcessState \<Rightarrow> ThreadState list \<Rightarrow> MovementResult \<Rightarrow> Movement \<Rightarrow> bool" where
  "stay ps ths res m \<longleftrightarrow> res = Unmoved \<and> m = start_movement ps ths"

definition time_after :: "u64 \<Rightarrow> ProcessPred" where
  "time_after t ps ths = Some (t < ps_ProcessTime ps)"

definition time_before :: "u64 \<Rightarrow> ProcessPred" where
  "time_before t ps ths = Some (ps_ProcessTime ps < t)"

definition moveForward_process :: "Env \<Rightarrow> u64 \<Rightarrow> ProcessState \<Rightarrow> ThreadState list \<Rightarrow> MovementResult \<Rightarrow> Movement \<Rightarrow> bool" where
  "moveForward_process env final ps ths =
     (if ps_ProcessTime ps = final then stay ps ths
      else moveForwardUntil env (time_after (ps_ProcessTime ps)) ps ths)"

definition moveBackward_process :: "Env \<Rightarrow> ProcessState \<Rightarrow> ThreadState list \<Rightarrow> MovementResult \<Rightarrow> Movement \<Rightarrow> bool" where
  "moveBackward_process env ps ths =
     (if ps_ProcessTime ps = 0 then stay ps ths
      else moveBackwardUntil env (time_before (ps_ProcessTime ps)) ps ths)"

text \<open>The loop over the bytes of the watched area.\<close>

fun bytes_changed :: "byte list \<Rightarrow> byte list \<Rightarrow> byte list \<Rightarrow> byte list \<Rightarrow> bool option" where
  "bytes_changed [] ds js es = Some False"
| "bytes_changed (i # is) (d # ds) (j # js) (e # es) =
     (if i \<noteq> j \<or> and i d \<noteq> and j e then Some True else bytes_changed is ds js es)"
| "bytes_changed (i # is) ds js es = None"

definition memory_changed :: "MemoryArea \<Rightarrow> byte list \<Rightarrow> byte list \<Rightarrow> ProcessPred" where
  "memory_changed r init data ps ths =
     (if \<not> region_isAllocated r (ps_Memory ps) then Some True
      else do {
        init' \<leftarrow> getByteInitialization r (ps_Memory ps);
        data' \<leftarrow> getByteValues r (ps_Memory ps);
        bytes_changed init data init' data'
      })"

definition moveForwardUntilMemoryChanges ::
  "Env \<Rightarrow> MemoryArea \<Rightarrow> ProcessState \<Rightarrow> ThreadState list \<Rightarrow> MovementResult \<Rightarrow> Movement \<Rightarrow> bool" where
  "moveForwardUntilMemoryChanges env r ps ths res m \<longleftrightarrow>
     (\<exists>init data. getByteInitialization r (ps_Memory ps) = Some init \<and> getByteValues r (ps_Memory ps) = Some data \<and>
        moveForwardUntil env (memory_changed r init data) ps ths res m)"

definition moveBackwardUntilMemoryChanges ::
  "Env \<Rightarrow> MemoryArea \<Rightarrow> ProcessState \<Rightarrow> ThreadState list \<Rightarrow> MovementResult \<Rightarrow> Movement \<Rightarrow> bool" where
  "moveBackwardUntilMemoryChanges env r ps ths res m \<longleftrightarrow>
     (\<exists>init data. getByteInitialization r (ps_Memory ps) = Some init \<and> getByteValues r (ps_Memory ps) = Some data \<and>
        moveBackwardUntil env (memory_changed r init data) ps ths res m)"

definition stream_rewound_to :: "u64 \<Rightarrow> nat \<Rightarrow> ProcessPred" where
  "stream_rewound_to a n ps ths = map_option (\<lambda>st. length (ss_Written st) = n) (getStream a ps)"

definition moveBackwardToStreamWriteAt ::
  "Env \<Rightarrow> u64 \<Rightarrow> StreamState \<Rightarrow> nat \<Rightarrow> ProcessState \<Rightarrow> ThreadState list \<Rightarrow> MovementResult \<Rightarrow> Movement \<Rightarrow> bool" where
  "moveBackwardToStreamWriteAt env final st pos ps ths res m \<longleftrightarrow>
     (if length (ss_Written st) \<le> pos then stay ps ths res m
      else \<exists>wr m1. getWriteAt pos st = Some wr \<and>
        moveBackwardUntil env (stream_rewound_to (ss_Address st) (sw_Begin wr)) ps ths res m1 \<and>
        (if res = PredicateSatisfied
         then \<exists>res'. moveForward_process env final (mv_Process m1) (mv_Threads m1) res' m
         else m = m1))"

definition allocated_at :: "ProcessTrace \<Rightarrow> GlobalInfo list \<Rightarrow> u64 \<Rightarrow> ProcessPred" where
  "allocated_at pt gs a ps ths =
     (if getStream a ps \<noteq> None \<or> getDir a ps \<noteq> None then Some True
      else map_option (\<lambda>r. r \<noteq> None)
             (getContainingMemoryArea pt gs (map (th_getContainingMemoryArea a) ths) a ps))"

definition moveBackwardUntilAllocated ::
  "Env \<Rightarrow> GlobalInfo list \<Rightarrow> u64 \<Rightarrow> ProcessState \<Rightarrow> ThreadState list \<Rightarrow> MovementResult \<Rightarrow> Movement \<Rightarrow> bool" where
  "moveBackwardUntilAllocated env gs a ps ths =
     moveBackwardUntil env (allocated_at (env_Trace env) gs a) ps ths"

section \<open>Movement of a thread\<close>

definition moveForwardUntil_thread ::
  "Env \<Rightarrow> nat \<Rightarrow> ThreadPred \<Rightarrow> ProcessState \<Rightarrow> ThreadState list \<Rightarrow> MovementResult \<Rightarrow> Movement \<Rightarrow> bool" where
  "moveForwardUntil_thread env i q ps ths = mover_moveForward env None (only_thread_pred i q ths) ps ths"

definition moveBackwardUntil_thread ::
  "Env \<Rightarrow> nat \<Rightarrow> ThreadPred \<Rightarrow> ProcessState \<Rightarrow> ThreadState list \<Rightarrow> MovementResult \<Rightarrow> Movement \<Rightarrow> bool" where
  "moveBackwardUntil_thread env i q ps ths = mover_moveBackward env None (only_thread_pred i q ths) ps ths"

definition moveForward_thread :: "Env \<Rightarrow> nat \<Rightarrow> ProcessState \<Rightarrow> ThreadState list \<Rightarrow> MovementResult \<Rightarrow> Movement \<Rightarrow> bool" where
  "moveForward_thread env i = moveForwardUntil_thread env i (\<lambda>_. Some True)"

definition moveBackward_thread :: "Env \<Rightarrow> nat \<Rightarrow> ProcessState \<Rightarrow> ThreadState list \<Rightarrow> MovementResult \<Rightarrow> Movement \<Rightarrow> bool" where
  "moveBackward_thread env i = moveBackwardUntil_thread env i (\<lambda>_. Some True)"

section \<open>Queries\<close>

text \<open>
  The instructions are their indices in the active function. The outer option is a failed
  assertion, the inner one the source's null pointer.
\<close>

definition event_instruction :: "ThreadState \<Rightarrow> FunctionState \<Rightarrow> nat option \<Rightarrow> nat option" where
  "event_instruction th f q = (case q of None \<Rightarrow> None
     | Some p \<Rightarrow> ev_Index (th_Events th ! p) \<bind> (\<lambda>i. getInstruction i f))"

definition getNextInstructionInActiveFunction :: "ThreadState \<Rightarrow> nat option option" where
  "getNextInstructionInActiveFunction th =
     (case back_fn th of
        None \<Rightarrow> Some None
      | Some f \<Rightarrow> do {
          r \<leftarrow> rangeAfterIncluding (events_range (th_Events th)) (th_NextEvent th);
          q \<leftarrow> findInFunction is_instruction (th_Events th) (fst r) (snd r);
          Some (event_instruction th f q)
        })"

definition previous_in_function :: "(Event \<Rightarrow> bool) \<Rightarrow> ThreadState \<Rightarrow> nat option option" where
  "previous_in_function P th = do {
     require (th_NextEvent th \<noteq> 0);
     r \<leftarrow> rangeBefore (events_range (th_Events th)) (th_NextEvent th - 1);
     rfindInFunction P (th_Events th) (fst r) (snd r)
   }"

definition getPreviousInstructionInActiveFunction :: "ThreadState \<Rightarrow> nat option option" where
  "getPreviousInstructionInActiveFunction th =
     (case back_fn th of
        None \<Rightarrow> Some None
      | Some f \<Rightarrow>
          if getActiveInstruction f = None then Some None
          else map_option (event_instruction th f) (previous_in_function is_instruction th))"

definition findPreviousInstructionInActiveFunctionIf :: "(nat \<Rightarrow> bool) \<Rightarrow> ThreadState \<Rightarrow> bool option" where
  "findPreviousInstructionInActiveFunctionIf P th =
     (case back_fn th of
        None \<Rightarrow> Some False
      | Some f \<Rightarrow>
          if getActiveInstruction f = None then Some False
          else map_option (\<lambda>q. q \<noteq> None) (previous_in_function (\<lambda>e.
                 is_instruction e \<and> (case ev_Index e of None \<Rightarrow> False
                 | Some i \<Rightarrow> (case getInstruction i f of None \<Rightarrow> False | Some k \<Rightarrow> P k))) th))"

end
