(* ===== verification/MemoryProgress.thy ===== *)
theory MemoryProgress
  imports MemoryView
begin

text \<open>
  When the forward operations of \<open>MemoryState\<close> pass their assertions: each is defined on every
  state that satisfies the invariant, if the areas it names are allocated (\<open>mem_op_applies\<close>).
  Together with \<open>MemoryView\<close> this makes the operations total functions on recorded histories.
\<close>

lemma clearArea_defined:
  assumes wf: "entry_wf k a" and c: "contains_interval (ma_area a) r" and r: "interval_ok r"
    and n: "interval_length r \<noteq> 0"
  obtains a' where "clearArea r a = Some a'"
proof -
  have b: "area_off a r + area_len r \<le> unat (ma_Size a)"
    using contained_offset[OF c r] wf by (simp add: entry_wf_def)
  have L: "length (ma_Init a) = unat (ma_Size a)" "length (ma_Data a) = unat (ma_Size a)"
    using wf by (simp_all add: entry_wf_def alloc_wf_def)
  have "clearArea r a \<noteq> None"
    using c n b L by (simp add: clearArea_def slice_def overwrite_def Let_def)
  then show ?thesis using that by blast
qed

lemma after_clear_bound:
  assumes wf: "entry_wf k a" and r: "interval_ok r" and c: "clearArea r a = Some a'"
  shows "area_off a' r + area_len r \<le> length (ma_Data a')"
    and "area_off a' r + area_len r \<le> length (ma_Init a')"
    and "ma_Address a' = ma_Address a"
proof -
  note C = clearArea_SomeD[OF c]
  have b: "area_off a r + area_len r \<le> unat (ma_Size a)"
    using contained_offset[OF C(1) r] wf by (simp add: entry_wf_def)
  have L: "length (ma_Init a) = unat (ma_Size a)" "length (ma_Data a) = unat (ma_Size a)"
    using wf by (simp_all add: entry_wf_def alloc_wf_def)
  show "area_off a' r + area_len r \<le> length (ma_Data a')"
    "area_off a' r + area_len r \<le> length (ma_Init a')" "ma_Address a' = ma_Address a"
    using b L C(4,6) length_overwrite[OF C(11)] by simp_all
qed

lemma addBlock_defined:
  assumes wf: "entry_wf k a" and c: "contains_interval (ma_area a) (block_area b)"
    and r: "interval_ok (block_area b)" and n: "block_Data b \<noteq> []" "length (block_Data b) < 2 ^ 64"
  obtains a' where "addBlock b a = Some a'"
proof -
  have len: "area_len (block_area b) = length (block_Data b)"
    using n(2) by (simp add: block_area_def unat_of_nat_small)
  then have "interval_length (block_area b) \<noteq> 0" using n(1) by auto
  from clearArea_defined[OF wf c r this] obtain a1 where a1: "clearArea (block_area b) a = Some a1" .
  note B = after_clear_bound[OF wf r a1]
  have "addBlock b a \<noteq> None"
    using a1 B len by (simp add: addBlock_def overwrite_def block_area_def Let_def)
  then show ?thesis using that by blast
qed

lemma addArea_defined:
  assumes wf: "entry_wf k a" and c: "contains_interval (ma_area a) (area p n)"
    and r: "interval_ok (area p n)" and n: "n \<noteq> 0" "of_nat (view_size v) = n"
    and v: "\<And>a'. clearArea (area p n) a = Some a' \<Longrightarrow> \<exists>d i. read_view v (unat (p - ma_Address a)) a' = Some (d, i) \<and>
              length d = unat n \<and> length i = unat n"
  obtains a' where "addArea p v a = Some a'"
proof -
  have "interval_length (area p n) \<noteq> 0" using n(1) by simp
  from clearArea_defined[OF wf c r this] obtain a1 where a1: "clearArea (area p n) a = Some a1" .
  note B = after_clear_bound[OF wf r a1]
  from v[OF a1] obtain d i where "read_view v (unat (p - ma_Address a)) a1 = Some (d, i)"
    "length d = unat n" "length i = unat n" by blast
  then have "addArea p v a \<noteq> None"
    using a1 B n(2) by (simp add: addArea_def overwrite_def Let_def)
  then show ?thesis using that by blast
qed

text \<open>What an allocated region gives.\<close>

lemma region_allocation:
  assumes "mem_wf s" and "region_isAllocated r s"
  obtains k a where "getAllocation r s = Some (k, a)" and "entry_wf k a"
    and "contains_interval (ma_area a) r"
proof -
  from assms(2) obtain k a where "om_before (iv_Start r) (ms_Allocations s) = Some (k, a)"
    "contains_interval (ma_area a) r" "ms_Allocations s \<noteq> []"
    by (auto simp: region_isAllocated_def findAllocation_def split: option.splits if_splits)
  then have g: "getAllocation r s = Some (k, a)" by (simp add: getAllocation_def)
  show ?thesis
    using that[OF g getAllocation_wfD(2)[OF assms(1) g] getAllocation_SomeD(2)[OF g]] .
qed

text \<open>An allocated area has its bytes in the allocation's vectors.\<close>

lemma area_bytes_defined:
  assumes wf: "entry_wf k a" and c: "contains_interval (ma_area a) r" and r: "interval_ok r"
  obtains d i where "getAreaData r a = Some d" and "getAreaInitialization r a = Some i"
    and "length d = area_len r" and "length i = area_len r"
    and "area_off a r + area_len r \<le> unat (ma_Size a)"
proof -
  have b: "area_off a r + area_len r \<le> unat (ma_Size a)"
    using contained_offset[OF c r] wf by (simp add: entry_wf_def)
  have L: "length (ma_Init a) = unat (ma_Size a)" "length (ma_Data a) = unat (ma_Size a)"
    using wf by (simp_all add: entry_wf_def alloc_wf_def)
  show ?thesis
    using b L c
    by (intro that[of "take (area_len r) (drop (area_off a r) (ma_Data a))"
          "take (area_len r) (drop (area_off a r) (ma_Init a))"]) (simp_all add: getAreaData_def getAreaInitialization_def slice_def min_absorb2 le_diff_conv2)
qed

fun mem_op_applies :: "mem_op \<Rightarrow> MemoryState \<Rightarrow> bool" where
  "mem_op_applies (OpAdd p n) s = True"
| "mem_op_applies (OpRemove p n) s = True"
| "mem_op_applies (OpResize p old new) s = True"
| "mem_op_applies (OpBlock b) s \<longleftrightarrow> block_Data b \<noteq> [] \<and> length (block_Data b) < 2 ^ 64 \<and>
     interval_ok (block_area b) \<and> region_isAllocated (block_area b) s"
| "mem_op_applies (OpCopy src dst n) s \<longleftrightarrow> n \<noteq> 0 \<and>
     interval_ok (area src n) \<and> region_isAllocated (area src n) s \<and>
     interval_ok (area dst n) \<and> region_isAllocated (area dst n) s \<and>
     \<not> intersects (area src n) (area dst n)"
| "mem_op_applies (OpClear r) s \<longleftrightarrow> interval_ok r \<and> interval_length r \<noteq> 0"

lemma fresh_key:
  assumes "mem_wf s" and "mem_sep s" and "p \<in> bytes_of (area p n)" and "mem_view s p = None"
  shows "om_find (ms_Allocations s) p = None"
proof (rule ccontr)
  assume "om_find (ms_Allocations s) p \<noteq> None"
  then obtain a where a: "om_find (ms_Allocations s) p = Some a" by blast
  note e = mem_wf_find[OF assms(1) a]
  have "unat (ma_Size a) \<noteq> 0" using e by (auto simp: entry_wf_def unat_eq_0)
  then have "p \<in> bytes_of (ma_area a)" using in_entry[OF e] by simp
  then show False using view_inside[OF assms(1,2) a] assms(4) by simp
qed

lemma start_in_area: "n \<noteq> 0 \<Longrightarrow> unat p + unat n < 2 ^ 64 \<Longrightarrow> p \<in> bytes_of (area p n)"
  by (simp add: bytes_of_area unat_gt_0)

lemma add_defined:
  assumes "mem_wf s" and "mem_sep s" and "mem_op_pre (OpAdd p n) s"
  shows "\<exists>t. allocationAdd p n s = Some t"
proof (cases "n = 0")
  case False
  then have i: "p \<in> bytes_of (area p n)" using assms(3) by (simp add: start_in_area)
  then have "mem_view s p = None" using assms(3) by simp
  from fresh_key[OF assms(1,2) i this] show ?thesis by (simp add: allocationAdd_def)
qed (simp add: allocationAdd_def)

lemma remove_defined:
  assumes "mem_op_pre (OpRemove p n) s"
  shows "\<exists>t. allocationRemove p n s = Some t"
  using assms by (auto simp: allocationRemove_def split: option.splits)

lemma whole_allocation:
  assumes wf: "mem_wf s" and a: "om_find (ms_Allocations s) p = Some a"
  shows "getAllocation (area p (ma_Size a)) s = Some (p, a)" and "ma_Address a = p"
proof -
  show A: "ma_Address a = p" using mem_wf_find[OF wf a] by (simp add: entry_wf_def)
  have "om_before p (ms_Allocations s) = Some (p, a)"
    using wf a by (simp add: mem_wf_def om.before_self)
  moreover have "ms_Allocations s \<noteq> []" using a by auto
  ultimately show "getAllocation (area p (ma_Size a)) s = Some (p, a)"
    using A by (simp add: getAllocation_def)
qed

lemma shrink_defined:
  assumes e: "entry_wf p a" and lt: "new < ma_Size a"
  obtains a' where "clearArea (area (p + new) (ma_Size a - new)) a = Some a'"
proof -
  have A: "ma_Address a = p" and b: "unat p + unat (ma_Size a) < 2 ^ 64"
    using e by (simp_all add: entry_wf_def)
  have u: "unat (p + new) + unat (ma_Size a - new) = unat p + unat (ma_Size a)"
    using lt b unat_diff_le[of new "ma_Size a"]
    by (simp add: unat_add_no_wrap word_less_nat_alt word_le_nat_alt)
  have n: "unat p + unat new < 2 ^ 64" using lt b by (simp add: word_less_nat_alt)
  have c: "contains_interval (ma_area a) (area (p + new) (ma_Size a - new))"
    using A n by (simp add: contains_interval_def le_add_no_wrap)
  have "interval_ok (area (p + new) (ma_Size a - new))"
    using u b by (intro interval_ok_area) simp
  then show ?thesis using lt by (auto intro: clearArea_defined[OF e c] that)
qed

lemma resize_defined:
  assumes wf: "mem_wf s" and sep: "mem_sep s" and pre: "mem_op_pre (OpResize p old new) s"
  shows "\<exists>t. allocationResize p old new s = Some t"
proof -
  consider (add) "old = 0" | (remove) "old \<noteq> 0" "new = 0" | (resize) "old \<noteq> 0" "new \<noteq> 0" by blast
  then show ?thesis
  proof cases
    case add
    then have "mem_op_pre (OpAdd p new) s" using pre by simp
    from add_defined[OF wf sep this] add show ?thesis by (simp add: allocationResize_def)
  next
    case remove
    then have "mem_op_pre (OpRemove p old) s" using pre by (auto split: option.splits)
    from remove_defined[OF this] remove show ?thesis by (simp add: allocationResize_def)
  next
    case resize
    with pre obtain a where a: "om_find (ms_Allocations s) p = Some a" "ma_Size a = old"
      by (auto simp: map_option_case split: option.splits)
    have "\<exists>a'. clearArea (area (p + new) (old - new)) a = Some a'" if "new < old"
      using shrink_defined[OF mem_wf_find[OF wf a(1)], of new] that a(2) by auto
    then show ?thesis
      using resize a(2) whole_allocation[OF wf a(1)] by (auto simp: allocationResize_def)
  qed
qed

lemma block_defined:
  assumes wf: "mem_wf s" and a: "mem_op_applies (OpBlock b) s"
  shows "\<exists>t. addBlock_state b s = Some t"
proof -
  from a have "region_isAllocated (block_area b) s" by simp
  from region_allocation[OF wf this] obtain k al where g: "getAllocation (block_area b) s = Some (k, al)"
    "entry_wf k al" "contains_interval (ma_area al) (block_area b)" .
  from a addBlock_defined[OF g(2,3)] obtain al' where "addBlock b al = Some al'" by auto
  with g(1) show ?thesis by (simp add: addBlock_state_def)
qed

lemma apart_offsets:
  assumes e: "entry_wf k a" and s: "contains_interval (ma_area a) (area src n)" "interval_ok (area src n)"
    and d: "contains_interval (ma_area a) (area dst n)" "interval_ok (area dst n)"
    and apart: "\<not> intersects (area src n) (area dst n)"
  shows "unat (src - ma_Address a) + unat n \<le> unat (dst - ma_Address a) \<or>
         unat (dst - ma_Address a) + unat n \<le> unat (src - ma_Address a)"
proof -
  have A: "ma_Address a \<le> src" "ma_Address a \<le> dst"
    using s(1) d(1) by (simp_all add: contains_interval_def)
  have L: "unat (src + n) = unat src + unat n" "unat (dst + n) = unat dst + unat n"
    using unat_interval_length[OF s(2)] unat_interval_length[OF d(2)] s(2) d(2)
    by (simp_all add: interval_ok_def word_le_nat_alt)
  have "unat dst + unat n \<le> unat src \<or> unat src + unat n \<le> unat dst"
    using apart L by (auto simp: intersects_def word_le_nat_alt word_less_nat_alt)
  then show ?thesis
    using A by (auto simp: unat_diff_le word_le_nat_alt)
qed

lemma copy_defined_at:
  assumes wf: "mem_wf s" and n: "n \<noteq> 0"
    and gs: "getAllocation (area src n) s = Some (sk, sa)" and S: "interval_ok (area src n)"
    and gd: "getAllocation (area dst n) s = Some (dk, da)" and D: "interval_ok (area dst n)"
    and apart: "sk = dk \<Longrightarrow> unat (src - ma_Address sa) + unat n \<le> unat (dst - ma_Address sa) \<or>
         unat (dst - ma_Address sa) + unat n \<le> unat (src - ma_Address sa)"
  shows "\<exists>t. addCopy src dst n s = Some t"
proof -
  note es = getAllocation_wfD(2)[OF wf gs] getAllocation_SomeD(2)[OF gs]
  note ed = getAllocation_wfD(2)[OF wf gd] getAllocation_SomeD(2)[OF gd]
  from area_bytes_defined[OF es S] obtain data init where
    B: "getAreaData (area src n) sa = Some data" "getAreaInitialization (area src n) sa = Some init"
      "length data = unat n" "length init = unat n"
      "unat (src - ma_Address sa) + unat n \<le> unat (ma_Size sa)" by auto
  let ?v = "if sk = dk then OwnView (unat (src - ma_Address sa)) (unat n) else Bytes data init"
  have "\<exists>d i. read_view ?v (unat (dst - ma_Address da)) a' = Some (d, i) \<and>
          length d = unat n \<and> length i = unat n"
    if c: "clearArea (area dst n) da = Some a'" for a'
  proof (cases "sk = dk")
    case False
    then show ?thesis using B(3,4) by (simp add: read_view_def)
  next
    case True
    have same: "sa = da"
      using getAllocation_wfD(1)[OF wf gs] getAllocation_wfD(1)[OF wf gd] True by simp
    have L: "length (ma_Data a') = unat (ma_Size da)" "length (ma_Init a') = unat (ma_Size da)"
      using clearArea_wf[OF c entry_alloc_wf[OF ed(1)]] clearArea_SomeD(5)[OF c]
      by (simp_all add: alloc_wf_def)
    show ?thesis
      using True same L B(5) apart by (simp add: read_view_def slice_def)
  qed
  moreover have "of_nat (view_size ?v) = n" using B(3) by simp
  ultimately obtain da' where "addArea dst ?v da = Some da'"
    using addArea_defined[OF ed D n] by blast
  with gs gd B(1,2) show ?thesis by (simp add: addCopy_def Let_def)
qed

lemma copy_defined:
  assumes wf: "mem_wf s" and ap: "mem_op_applies (OpCopy src dst n) s"
  shows "\<exists>t. addCopy src dst n s = Some t"
proof -
  from ap have n: "n \<noteq> 0" and S: "interval_ok (area src n)" "region_isAllocated (area src n) s"
    and D: "interval_ok (area dst n)" "region_isAllocated (area dst n) s"
    and apart: "\<not> intersects (area src n) (area dst n)" by simp_all
  from region_allocation[OF wf S(2)] obtain sk sa where gs: "getAllocation (area src n) s = Some (sk, sa)"
    "entry_wf sk sa" "contains_interval (ma_area sa) (area src n)" .
  from region_allocation[OF wf D(2)] obtain dk da where gd: "getAllocation (area dst n) s = Some (dk, da)"
    "entry_wf dk da" "contains_interval (ma_area da) (area dst n)" .
  show ?thesis
  proof (rule copy_defined_at[OF wf n gs(1) S(1) gd(1) D(1)])
    assume "sk = dk"
    then have "sa = da"
      using getAllocation_wfD(1)[OF wf gs(1)] getAllocation_wfD(1)[OF wf gd(1)] by simp
    with apart_offsets[OF gs(2,3) S(1) _ D(1) apart] gd(3)
    show "unat (src - ma_Address sa) + unat n \<le> unat (dst - ma_Address sa) \<or>
         unat (dst - ma_Address sa) + unat n \<le> unat (src - ma_Address sa)" by simp
  qed
qed

lemma clear_defined:
  assumes wf: "mem_wf s" and a: "mem_op_applies (OpClear r) s"
  shows "\<exists>t. addClear r s = Some t"
proof (cases "ms_Allocations s = [] \<or> om_before (iv_Start r) (ms_Allocations s) = None")
  case True
  then show ?thesis by (auto simp: addClear_def)
next
  case False
  then obtain k al where f: "om_before (iv_Start r) (ms_Allocations s) = Some (k, al)"
    "ms_Allocations s \<noteq> []" by auto
  show ?thesis
  proof (cases "contains_interval (ma_area al) r")
    case True
    have g: "getAllocation r s = Some (k, al)" using f True by (simp add: getAllocation_def)
    obtain al' where "clearArea r al = Some al'"
      using a True by (auto intro: clearArea_defined[OF getAllocation_wfD(2)[OF wf g]])
    with f True show ?thesis by (simp add: addClear_def)
  next
    case out: False
    with f show ?thesis by (simp add: addClear_def)
  qed
qed

lemma mem_fwd_defined:
  assumes "mem_wf s" and "mem_sep s" and "mem_op_pre x s" and "mem_op_applies x s"
  shows "\<exists>t. mem_fwd x s = Some t"
  using assms
  by (cases x) (auto simp del: mem_op_pre.simps mem_op_applies.simps
      intro: add_defined remove_defined resize_defined block_defined copy_defined clear_defined)

section \<open>Property\<close>



end
