(* ===== verification/ProcessLaws.thy ===== *)
theory ProcessLaws
  imports ProcessState MemoryProgress "HOL-Library.Code_Target_Nat"
begin

text \<open>
  Laws of the shared process state: its invariant \<open>proc_wf\<close>, the equivalence \<open>proc_eqv\<close> that
  rewinding restores (everything equal but the values of uninitialised bytes), the undo of
  each mutator by its counterpart, and the search for the area that owns an address.
\<close>

section \<open>Invariant and observation\<close>

definition shared_wf :: "ProcessState \<Rightarrow> bool" where
  "shared_wf s \<longleftrightarrow>
     om_wf (ps_Mallocs s) \<and> om_all (\<lambda>k m. mst_Address m = k \<and> mst_Allocators m \<noteq> []) (ps_Mallocs s) \<and>
     imv_ok (ps_KnownMemory s) \<and>
     om_wf (ps_Streams s) \<and> om_all (\<lambda>k st. ss_Address st = k \<and> stream_ok st) (ps_Streams s) \<and>
     om_wf (ps_Dirs s) \<and> om_all (\<lambda>k d. ds_Address d = k) (ps_Dirs s)"

definition proc_wf :: "ProcessState \<Rightarrow> bool" where
  "proc_wf s \<longleftrightarrow> shared_wf s \<and> mem_wf (ps_Memory s)"

lemma shared_wf_update [simp]:
  "shared_wf (s\<lparr>ps_Memory := m\<rparr>) = shared_wf s"
  "shared_wf (s\<lparr>ps_ProcessTime := t\<rparr>) = shared_wf s"
  by (simp_all add: shared_wf_def)

definition proc_eqv :: "ProcessState \<Rightarrow> ProcessState \<Rightarrow> bool" where
  "proc_eqv s t \<longleftrightarrow> t = s\<lparr>ps_Memory := ps_Memory t\<rparr> \<and> mem_eqv (ps_Memory s) (ps_Memory t)"

lemma proc_eqvE:
  assumes "proc_eqv s t"
  obtains m where "t = s\<lparr>ps_Memory := m\<rparr>" and "mem_eqv (ps_Memory s) m"
  using assms by (auto simp: proc_eqv_def)

lemma proc_eqvI: "mem_eqv (ps_Memory s) m \<Longrightarrow> proc_eqv s (s\<lparr>ps_Memory := m\<rparr>)"
  by (simp add: proc_eqv_def)

lemma proc_eqv_refl [simp]: "proc_eqv s s"
  by (simp add: proc_eqv_def)

lemma proc_eqv_trans: "proc_eqv s t \<Longrightarrow> proc_eqv t u \<Longrightarrow> proc_eqv s u"
  by (erule proc_eqvE, erule proc_eqvE) (auto intro: proc_eqvI mem_eqv_trans)

lemma shared_wfD:
  assumes "shared_wf s"
  shows "om_wf (ps_Mallocs s)" and "imv_ok (ps_KnownMemory s)"
    and "om_wf (ps_Streams s)" and "om_wf (ps_Dirs s)"
  using assms by (simp_all add: shared_wf_def)

lemma shared_wf_malloc:
  "shared_wf s \<Longrightarrow> om_find (ps_Mallocs s) a = Some m \<Longrightarrow> mst_Address m = a \<and> mst_Allocators m \<noteq> []"
  unfolding shared_wf_def using om_all_find by fastforce

lemma shared_wf_stream:
  "shared_wf s \<Longrightarrow> om_find (ps_Streams s) a = Some st \<Longrightarrow> ss_Address st = a \<and> stream_ok st"
  unfolding shared_wf_def using om_all_find by fastforce

lemma shared_wf_dir: "shared_wf s \<Longrightarrow> om_find (ps_Dirs s) a = Some d \<Longrightarrow> ds_Address d = a"
  unfolding shared_wf_def using om_all_find by fastforce

section \<open>Dynamic allocations\<close>

lemma addMalloc_wf: "shared_wf s \<Longrightarrow> shared_wf (addMalloc a n i s)"
  by (auto simp: shared_wf_def addMalloc_def map_insert_def new_MallocState_def om_laws
      intro!: om_all_insert split: option.splits)

lemma removeMalloc_wf: "shared_wf s \<Longrightarrow> removeMalloc a s = Some t \<Longrightarrow> shared_wf t"
  by (auto simp: shared_wf_def removeMalloc_def bind_eq_Some_conv om_laws om_all_erase)

lemma unaddMalloc_addMalloc:
  assumes "shared_wf s" and "om_find (ps_Mallocs s) a = None"
  shows "unaddMalloc a (addMalloc a n i s) = Some s"
  using assms
  by (simp add: unaddMalloc_def addMalloc_def map_insert_fresh om_laws om.erase_insert_fresh
      shared_wfD(1))

lemma unremoveMalloc_removeMalloc:
  assumes "shared_wf s" and "removeMalloc a s = Some t"
  shows "unremoveMalloc a t = Some s"
proof -
  from assms(2) obtain m where m: "om_find (ps_Mallocs s) a = Some m"
    and t: "t = s\<lparr>ps_PreviousMallocs := ps_PreviousMallocs s @ [m], ps_Mallocs := om_erase a (ps_Mallocs s)\<rparr>"
    by (auto simp: removeMalloc_def bind_eq_Some_conv)
  have "om_find (om_erase a (ps_Mallocs s)) a = None"
    using shared_wfD(1)[OF assms(1)] by (simp add: om_laws)
  then show ?thesis
    using shared_wf_malloc[OF assms(1) m] om.insert_erase[OF shared_wfD(1)[OF assms(1)] m]
    by (simp add: unremoveMalloc_def t map_insert_fresh)
qed

section \<open>Known memory\<close>

text \<open>A region \<open>[a, a + n - 1]\<close> that no known region meets.\<close>

definition region_free :: "u64 \<Rightarrow> u64 \<Rightarrow> ProcessState \<Rightarrow> bool" where
  "region_free a n s \<longleftrightarrow> a \<le> a + (n - 1) \<and>
     list_all (\<lambda>x. a + (n - 1) < item_Begin x \<or> item_End x < a) (ps_KnownMemory s)"

lemma addKnownMemory_wf: "shared_wf s \<Longrightarrow> region_free a n s \<Longrightarrow> shared_wf (addKnownMemory a n p s)"
  using imv_insert_fresh[of "ps_KnownMemory s" a "a + (n - 1)" p]
  by (auto simp: shared_wf_def addKnownMemory_def region_free_def list_all_iff)

lemma removeKnownMemory_wf: "shared_wf s \<Longrightarrow> shared_wf (fst (removeKnownMemory a s))"
  using imv_erase_correct(1)[of "ps_KnownMemory s" a]
  by (auto simp: shared_wf_def removeKnownMemory_def split: prod.splits)

lemma removeKnown_addKnown:
  "shared_wf s \<Longrightarrow> region_free a n s \<Longrightarrow> fst (removeKnownMemory a (addKnownMemory a n p s)) = s"
  using imv_erase_insert[of "ps_KnownMemory s" a "a + (n - 1)" p]
  by (auto simp: shared_wf_def addKnownMemory_def removeKnownMemory_def region_free_def list_all_iff
      split: prod.splits)

definition region_known :: "u64 \<Rightarrow> u64 \<Rightarrow> MemoryPermission \<Rightarrow> ProcessState \<Rightarrow> bool" where
  "region_known a n p s \<longleftrightarrow> makeIntervalMapItem a (a + (n - 1)) p \<in> set (ps_KnownMemory s)"

lemma addKnown_removeKnown:
  "shared_wf s \<Longrightarrow> region_known a n p s \<Longrightarrow> addKnownMemory a n p (fst (removeKnownMemory a s)) = s"
  using imv_insert_erase[of "ps_KnownMemory s" "makeIntervalMapItem a (a + (n - 1)) p"]
  by (auto simp: shared_wf_def addKnownMemory_def removeKnownMemory_def region_known_def
      makeIntervalMapItem_def split: prod.splits)

section \<open>Streams and directories\<close>

lemma addStream_wf: "shared_wf s \<Longrightarrow> stream_ok st \<Longrightarrow> shared_wf (fst (addStream st s))"
  by (auto simp: shared_wf_def addStream_def map_insert_def om_laws
      intro!: om_all_insert split: option.splits)

lemma removeStream_addStream:
  "shared_wf s \<Longrightarrow> getStream (ss_Address st) s = None \<Longrightarrow>
     fst (removeStream (ss_Address st) (fst (addStream st s))) = s"
  by (simp add: removeStream_def addStream_def getStream_def map_insert_fresh om.erase_insert_fresh
      shared_wfD(3))

lemma closeStream_wf: "shared_wf s \<Longrightarrow> shared_wf (fst (closeStream a s))"
  by (auto simp: shared_wf_def closeStream_def om_laws om_all_erase split: option.splits)

lemma restoreStream_closeStream:
  assumes "shared_wf s" and "getStream a s = Some st"
  shows "restoreStream a (fst (closeStream a s)) = (s, True)"
proof -
  have "om_find (om_erase a (ps_Streams s)) a = None"
    using shared_wfD(3)[OF assms(1)] by (simp add: om_laws)
  then show ?thesis
    using assms shared_wf_stream[of s a st] om.insert_erase[OF shared_wfD(3)[OF assms(1)], of a st]
    by (simp add: restoreStream_def closeStream_def getStream_def map_insert_fresh)
qed

lemma addDir_wf: "shared_wf s \<Longrightarrow> shared_wf (fst (addDir d s))"
  by (auto simp: shared_wf_def addDir_def map_insert_def om_laws
      intro!: om_all_insert split: option.splits)

lemma removeDir_wf: "shared_wf s \<Longrightarrow> shared_wf (fst (removeDir a s))"
  by (auto simp: shared_wf_def removeDir_def om_laws om_all_erase)

lemma removeDir_addDir:
  "shared_wf s \<Longrightarrow> getDir (ds_Address d) s = None \<Longrightarrow>
     fst (removeDir (ds_Address d) (fst (addDir d s))) = s"
  by (simp add: removeDir_def addDir_def getDir_def map_insert_fresh om.erase_insert_fresh shared_wfD(4))

lemma addDir_removeDir:
  assumes "shared_wf s" and "getDir (ds_Address d) s = Some d"
  shows "fst (addDir d (fst (removeDir (ds_Address d) s))) = s"
proof -
  have "om_find (om_erase (ds_Address d) (ps_Dirs s)) (ds_Address d) = None"
    using shared_wfD(4)[OF assms(1)] by (simp add: om_laws)
  then show ?thesis
    using assms by (simp add: addDir_def removeDir_def getDir_def map_insert_fresh om.insert_erase shared_wfD(4))
qed

section \<open>The constructor\<close>

definition globals_fit :: "ProcessTrace \<Rightarrow> GlobalInfo list \<Rightarrow> bool" where
  "globals_fit pt gs \<longleftrightarrow>
     list_all (\<lambda>(a, g). unat a + unat (gv_Size g) < 2 ^ 64) (zip (pt_GlobalVariableAddresses pt) gs)"

lemma add_global_wf:
  assumes "mem_wf m" and "add_global pt i g m = Some (Inr m')"
    and "\<And>a. getGlobalVariableAddress pt i = Some a \<Longrightarrow> unat a + unat (gv_Size g) < 2 ^ 64"
  shows "mem_wf m'"
proof -
  from assms(2) obtain data start where start: "getGlobalVariableAddress pt i = Some start"
    by (auto simp: add_global_def bind_eq_Some_conv)
  note fits = assms(3)[OF start]
  have added: "mem_wf m'" if "mem_wf m0" "allocationAdd start (gv_Size g) m0 = Some m1"
    "addBlock_state b m1 = Some m'" for m0 m1 b
    using addBlock_state_wf[OF allocationAdd_wf[OF that(1,2) fits] that(3)] .
  show ?thesis
  proof (cases "findAllocation start m")
    case None
    with assms(1,2) start show ?thesis
      by (auto simp: add_global_def bind_eq_Some_conv Let_def intro: added)
  next
    case (Some prior)
    with assms(1,2) start show ?thesis
      by (auto simp: add_global_def bind_eq_Some_conv Let_def split: if_splits intro: added allocationRemove_wf)
  qed
qed

lemma globals_fit_nth:
  "globals_fit pt gs \<Longrightarrow> i < length gs \<Longrightarrow> getGlobalVariableAddress pt i = Some a \<Longrightarrow>
     unat a + unat (gv_Size (gs ! i)) < 2 ^ 64"
  by (auto simp: globals_fit_def list_all_length getGlobalVariableAddress_def bind_eq_Some_conv)

lemma add_globals_wf:
  assumes "mem_wf m" and "add_globals pt i hs m = Some (Inr m')"
    and "\<And>j a. j < length hs \<Longrightarrow> getGlobalVariableAddress pt (i + j) = Some a \<Longrightarrow>
           unat a + unat (gv_Size (hs ! j)) < 2 ^ 64"
  shows "mem_wf m'"
  using assms
proof (induction hs arbitrary: i m)
  case Nil
  then show ?case by simp
next
  case (Cons g hs)
  from Cons.prems(2) obtain m1 where m1: "add_global pt i g m = Some (Inr m1)"
    "add_globals pt (i + 1) hs m1 = Some (Inr m')"
    by (auto split: option.splits sum.splits)
  have "mem_wf m1"
    using add_global_wf[OF Cons.prems(1) m1(1)] Cons.prems(3)[of 0] by simp
  then show ?case
    by (rule Cons.IH[OF _ m1(2)]) (use Cons.prems(3)[of "Suc _"] in simp)
qed

lemma initial_streams_wf: "shared_wf s \<Longrightarrow> shared_wf (initial_streams as s)"
  by (simp add: initial_streams_def Let_def addStream_wf)

lemma initial_streams_Memory [simp]: "ps_Memory (initial_streams as s) = ps_Memory s"
  by (simp add: initial_streams_def addStream_def Let_def split: prod.splits)

lemma empty_ProcessState_wf: "shared_wf empty_ProcessState"
  by (simp add: shared_wf_def empty_ProcessState_def om_all_def)

lemma new_ProcessState_proc_wf:
  assumes "globals_fit pt gs" and "new_ProcessState pt gs = Some (Inr s)"
  shows "proc_wf s"
proof -
  from assms(2) obtain m where m: "add_globals pt 0 gs empty_MemoryState = Some (Inr m)"
    and s: "s = initial_streams (pt_StreamsInitial pt) (empty_ProcessState\<lparr>ps_Memory := m\<rparr>)"
    by (auto simp: new_ProcessState_def split: option.splits sum.splits)
  have "mem_wf m"
    using globals_fit_nth[OF assms(1)] by (intro add_globals_wf[OF mem_wf_empty m]) simp
  then show ?thesis
    using initial_streams_wf[of "empty_ProcessState\<lparr>ps_Memory := m\<rparr>" "pt_StreamsInitial pt"]
    by (simp add: proc_wf_def s empty_ProcessState_wf)
qed


text \<open>
  Globals that the constructor can place: sizes are non-zero, areas do not wrap and do not
  meet, and the trace holds their initial data.
\<close>

definition global_area :: "ProcessTrace \<Rightarrow> nat \<Rightarrow> GlobalInfo \<Rightarrow> MemoryArea" where
  "global_area pt i g = area (pt_GlobalVariableAddresses pt ! i) (gv_Size g)"

definition global_ok :: "ProcessTrace \<Rightarrow> nat \<Rightarrow> GlobalInfo \<Rightarrow> bool" where
  "global_ok pt i g \<longleftrightarrow> i < length (pt_GlobalVariableAddresses pt) \<and> gv_Size g \<noteq> 0 \<and>
     unat (pt_GlobalVariableAddresses pt ! i) + unat (gv_Size g) < 2 ^ 64 \<and>
     getGlobalVariableInitialData pt i (gv_Size g) \<noteq> None"

fun globals_ok :: "ProcessTrace \<Rightarrow> nat \<Rightarrow> GlobalInfo list \<Rightarrow> bool" where
  "globals_ok pt i [] \<longleftrightarrow> True"
| "globals_ok pt i (g # gs) \<longleftrightarrow> global_ok pt i g \<and>
     (\<forall>j < length gs. \<not> intersects (global_area pt i g) (global_area pt (i + 1 + j) (gs ! j))) \<and>
     globals_ok pt (i + 1) gs"

definition global_byte :: "ProcessTrace \<Rightarrow> nat \<Rightarrow> GlobalInfo \<Rightarrow> u64 \<Rightarrow> byte" where
  "global_byte pt i g q =
     the (getGlobalVariableInitialData pt i (gv_Size g)) ! unat (q - pt_GlobalVariableAddresses pt ! i)"

lemma globals_ok_nth: "globals_ok pt i gs \<Longrightarrow> j < length gs \<Longrightarrow> global_ok pt (i + j) (gs ! j)"
proof (induction gs arbitrary: i j)
  case (Cons g gs)
  then show ?case using Cons.IH[of "i + 1" "j - 1"] by (cases j) auto
qed simp

lemma globals_apart:
  assumes "global_ok pt i g" and "global_ok pt j h"
    and "\<not> intersects (global_area pt i g) (global_area pt j h)"
  shows "bytes_of (global_area pt i g) \<inter> bytes_of (global_area pt j h) = {}"
proof -
  have "iv_Start (global_area pt k f) < iv_End (global_area pt k f)" if "global_ok pt k f" for k f
    using that start_in_area[of "gv_Size f" "pt_GlobalVariableAddresses pt ! k"]
    by (simp add: global_ok_def global_area_def bytes_of_def)
  with assms show ?thesis by (simp add: intersects_iff)
qed

lemma global_data_length:
  "getGlobalVariableInitialData pt i n = Some d \<Longrightarrow> length d = unat n"
  by (auto simp: getGlobalVariableInitialData_def getData_def dest: length_slice)

lemma add_global_view:
  assumes wf: "mem_wf m" and sep: "mem_sep m" and ok: "global_ok pt i g"
    and free: "\<forall>q \<in> bytes_of (global_area pt i g). mem_view m q = None"
  shows "\<exists>m'. add_global pt i g m = Some (Inr m') \<and> mem_wf m' \<and> mem_sep m' \<and>
    (\<forall>q. mem_view m' q = (if q \<in> bytes_of (global_area pt i g) then Some (global_byte pt i g q, 255)
                          else mem_view m q))"
proof -
  let ?s = "pt_GlobalVariableAddresses pt ! i" and ?n = "gv_Size g"
  from ok obtain data where data: "getGlobalVariableInitialData pt i ?n = Some data"
    and n: "?n \<noteq> 0" "unat ?s + unat ?n < 2 ^ 64" and adr: "getGlobalVariableAddress pt i = Some ?s"
    by (auto simp: global_ok_def getGlobalVariableAddress_def)
  have A: "global_area pt i g = area ?s ?n" by (simp add: global_area_def)
  let ?b = "\<lparr>block_Address = ?s, block_Data = data\<rparr>"
  have len: "length data = unat ?n" using data by (rule global_data_length)
  have B: "block_area ?b = area ?s ?n" by (simp add: block_area_def len)
  have pre: "mem_op_pre (OpAdd ?s ?n) m" using n(2) free A by simp
  from add_defined[OF wf sep pre] obtain m1 where m1: "allocationAdd ?s ?n m = Some m1" by blast
  have wf1: "mem_wf m1" using allocationAdd_wf[OF wf m1 n(2)] .
  have v1: "mem_sep m1" "mem_view m1 = flat_step (OpAdd ?s ?n) (mem_view m)"
    using mem_step_refines[OF wf sep pre] m1 by simp_all
  have i: "?s \<in> bytes_of (area ?s ?n)" using n by (rule start_in_area)
  then have "mem_view m1 ?s \<noteq> None" by (simp add: v1(2))
  then obtain al where al: "findAllocation ?s m1 = Some al" by (auto simp: mem_view_def)
  have "om_find (ms_Allocations m1) ?s = Some (new_MemoryAllocation ?s ?n)"
    using m1 n(1) wf by (auto simp: allocationAdd_def set_allocation_def om_laws mem_wf_def)
  then have "findAllocation ?s m1 = Some (new_MemoryAllocation ?s ?n)"
    using i by (subst findAllocation_iff[OF wf1 v1(1)]) (auto simp: new_MemoryAllocation_def)
  then have "mem_op_applies (OpBlock ?b) m1"
    using n len B interval_ok_area[OF n(2)]
    by (auto simp: region_isAllocated_def new_MemoryAllocation_def unat_eq_0)
  from block_defined[OF wf1 this] obtain m2 where m2: "addBlock_state ?b m1 = Some m2" by blast
  have wf2: "mem_wf m2" using addBlock_state_wf[OF wf1 m2] .
  have v2: "mem_sep m2" "mem_view m2 = flat_step (OpBlock ?b) (mem_view m1)"
    using view_block[OF wf1 v1(1) m2] by simp_all
  have none: "findAllocation ?s m = None"
    using free i A by (auto simp: mem_view_def)
  have "add_global pt i g m = Some (Inr m2)"
    using data adr none m1 m2 by (simp add: add_global_def Let_def)
  moreover have "mem_view m2 q = (if q \<in> bytes_of (global_area pt i g)
      then Some (global_byte pt i g q, 255) else mem_view m q)" for q
    using data by (simp add: v2(2) v1(2) B A global_byte_def)
  ultimately show ?thesis using wf2 v2(1) by blast
qed

lemma add_globals_view:
  "mem_wf m \<Longrightarrow> mem_sep m \<Longrightarrow> globals_ok pt i gs \<Longrightarrow>
   \<forall>j < length gs. \<forall>q \<in> bytes_of (global_area pt (i + j) (gs ! j)). mem_view m q = None \<Longrightarrow>
   \<exists>m'. add_globals pt i gs m = Some (Inr m') \<and> mem_wf m' \<and> mem_sep m' \<and>
     (\<forall>j < length gs. \<forall>q \<in> bytes_of (global_area pt (i + j) (gs ! j)).
        mem_view m' q = Some (global_byte pt (i + j) (gs ! j) q, 255)) \<and>
     (\<forall>q. (\<forall>j < length gs. q \<notin> bytes_of (global_area pt (i + j) (gs ! j))) \<longrightarrow> mem_view m' q = mem_view m q)"
proof (induction gs arbitrary: i m)
  case Nil
  then show ?case by simp
next
  case (Cons g gs)
  from Cons.prems(3) have ok: "global_ok pt i g" "globals_ok pt (i + 1) gs"
    and nx: "\<And>j. j < length gs \<Longrightarrow> \<not> intersects (global_area pt i g) (global_area pt (i + 1 + j) (gs ! j))"
    by simp_all
  have apart: "bytes_of (global_area pt i g) \<inter> bytes_of (global_area pt (i + 1 + j) (gs ! j)) = {}"
    if "j < length gs" for j
    using globals_apart[OF ok(1) globals_ok_nth[OF ok(2) that] nx[OF that]] .
  have free: "\<forall>q \<in> bytes_of (global_area pt i g). mem_view m q = None" using Cons.prems(4) by auto
  from add_global_view[OF Cons.prems(1,2) ok(1) free] obtain m1 where
    m1: "add_global pt i g m = Some (Inr m1)" "mem_wf m1" "mem_sep m1"
      "\<And>q. mem_view m1 q = (if q \<in> bytes_of (global_area pt i g) then Some (global_byte pt i g q, 255)
                            else mem_view m q)" by blast
  have "mem_view m1 q = None"
    if "j < length gs" "q \<in> bytes_of (global_area pt (i + 1 + j) (gs ! j))" for j q
  proof -
    have "mem_view m q = None" using Cons.prems(4) that by force
    with m1(4)[of q] apart[OF that(1)] that(2) show ?thesis by auto
  qed
  from Cons.IH[OF m1(2,3) ok(2)] this obtain m' where
    m': "add_globals pt (i + 1) gs m1 = Some (Inr m')" "mem_wf m'" "mem_sep m'"
      "\<And>j q. j < length gs \<Longrightarrow> q \<in> bytes_of (global_area pt (i + 1 + j) (gs ! j)) \<Longrightarrow>
         mem_view m' q = Some (global_byte pt (i + 1 + j) (gs ! j) q, 255)"
      "\<And>q. (\<forall>j < length gs. q \<notin> bytes_of (global_area pt (i + 1 + j) (gs ! j))) \<Longrightarrow>
         mem_view m' q = mem_view m1 q" by blast
  have first: "mem_view m' q = Some (global_byte pt i g q, 255)"
    if q: "q \<in> bytes_of (global_area pt i g)" for q
  proof -
    have "mem_view m' q = mem_view m1 q" by (rule m'(5)) (use apart q in blast)
    with m1(4)[of q] q show ?thesis by simp
  qed
  show ?case
  proof (intro exI[of _ m'] conjI allI impI ballI)
    show "add_globals pt i (g # gs) m = Some (Inr m')" using m1(1) m'(1) by simp
    show "mem_view m' q = Some (global_byte pt (i + j) ((g # gs) ! j) q, 255)"
      if "j < length (g # gs)" "q \<in> bytes_of (global_area pt (i + j) ((g # gs) ! j))" for j q
      using that first m'(4) by (cases j) auto
    show "mem_view m' q = mem_view m q"
      if "\<forall>j < length (g # gs). q \<notin> bytes_of (global_area pt (i + j) ((g # gs) ! j))" for q
    proof -
      have "q \<notin> bytes_of (global_area pt i g)" using that by force
      moreover have "mem_view m' q = mem_view m1 q" using that by (intro m'(5)) force
      ultimately show ?thesis using m1(4)[of q] by simp
    qed
  qed (use m' in auto)
qed

section \<open>The area that owns an address\<close>

lemma find_global_contains:
  "find_global pt i gs p = Some (Some ar) \<Longrightarrow> contains_value ar p"
  by (induction pt i gs p rule: find_global.induct)
    (auto simp: bind_eq_Some_conv Let_def split: if_splits)

lemma find_global_None:
  "find_global pt i gs p = Some None \<Longrightarrow> j < length gs \<Longrightarrow>
     pt_GlobalVariableAddresses pt ! (i + j) \<le> p \<Longrightarrow> p \<notin> bytes_of (global_area pt (i + j) (gs ! j))"
proof (induction pt i gs p arbitrary: j rule: find_global.induct)
  case (2 pt i g gs p)
  from "2.prems"(1) obtain b where b: "getGlobalVariableAddress pt i = Some b"
    and r: "find_global pt (i + 1) gs p = Some None"
    and out: "p < b \<or> \<not> contains_value (area_with_access b (gv_Size g) x) p" for x
    by (auto simp: bind_eq_Some_conv Let_def contains_value_def area_with_access_def withStartLength_def
        interval.defs split: if_splits)
  show ?case
  proof (cases j)
    case 0
    have "pt_GlobalVariableAddresses pt ! i = b"
      using b by (simp add: getGlobalVariableAddress_def bind_eq_Some_conv)
    with out[of ReadWrite] 0 "2.prems"(3) show ?thesis
      by (auto simp: global_area_def area_def contains_value_bytes)
  next
    case (Suc k)
    have b': "p < b \<Longrightarrow> ?thesis"
      using "2.IH"(1)[OF b _ r, of k] Suc "2.prems"(2,3) by simp
    have "\<not> p < b \<Longrightarrow> ?thesis"
      using "2.IH"(2)[OF b _ refl refl _ r, of k] out Suc "2.prems"(2,3) by simp
    with b' show ?thesis by blast
  qed
qed simp

text \<open>
  Dynamic allocations that do not overlap, as recorded: the one found by the search is the one
  that contains the address.
\<close>

definition mallocs_sep :: "ProcessState \<Rightarrow> bool" where
  "mallocs_sep s \<longleftrightarrow> (\<forall>k m l n. om_find (ps_Mallocs s) k = Some m \<longrightarrow>
     om_find (ps_Mallocs s) l = Some n \<longrightarrow> k < l \<longrightarrow> unat k + unat (mst_Size m) \<le> unat l)"

lemma dynamic_found:
  assumes wf: "shared_wf s" and sep: "mallocs_sep s" and m: "om_find (ps_Mallocs s) a = Some m"
    and fits: "unat a + unat (mst_Size m) < 2 ^ 64" and p: "p \<in> bytes_of (area a (mst_Size m))"
  shows "om_before p (ps_Mallocs s) = Some (a, m)"
proof -
  have w: "om_wf (ps_Mallocs s)" using wf by (rule shared_wfD(1))
  have P: "unat a \<le> unat p" "unat p < unat a + unat (mst_Size m)"
    using p fits by (simp_all add: bytes_of_area)
  have "l \<le> a" if "om_find (ps_Mallocs s) l = Some n" "l \<le> p" for l n
  proof (rule ccontr)
    assume "\<not> l \<le> a"
    then have "unat a + unat (mst_Size m) \<le> unat l"
      using sep m that(1) by (auto simp: mallocs_sep_def)
    with P that(2) show False by (simp add: word_le_nat_alt)
  qed
  then show ?thesis using om.before_Some_iff[OF w] m P(1) by (auto simp: word_le_nat_alt)
qed

text \<open>A known region that ends below the last address.\<close>

lemma known_area_contains:
  assumes "covers p x" and "item_End x \<noteq> - 1"
  shows "contains_value (area_with_access (item_Begin x) ((item_End x - item_Begin x) + 1) acc) (p :: u64)"
proof -
  have "item_Begin x + ((item_End x - item_Begin x) + 1) = item_End x + 1" by simp
  moreover have "1 + item_End x \<noteq> 0"
    using assms(2) by (metis add.commute add_eq_0_iff)
  then have "p < item_End x + 1"
    using assms(1) unatSuc[of "item_End x"]
    by (simp add: covers_def word_le_nat_alt word_less_nat_alt add.commute)
  ultimately show ?thesis
    using assms(1) by (simp add: contains_value_def area_with_access_def withStartLength_def
        interval.defs covers_def)
qed

section \<open>Properties\<close>

text \<open>C23: The constructor of the process state places every global variable: for globals with
  recorded initial data whose areas do not meet, it succeeds, establishes the invariants of
  the shared state, and memory then holds exactly the initial bytes of the globals, all
  initialised, and nothing else.\<close>

theorem constructor_places_globals:
  assumes "globals_ok pt 0 gs"
  shows "\<exists>s. new_ProcessState pt gs = Some (Inr s) \<and> proc_wf s \<and> mem_sep (ps_Memory s) \<and>
    (\<forall>j < length gs. \<forall>q \<in> bytes_of (global_area pt j (gs ! j)).
       mem_view (ps_Memory s) q = Some (global_byte pt j (gs ! j) q, 255)) \<and>
    (\<forall>q. (\<forall>j < length gs. q \<notin> bytes_of (global_area pt j (gs ! j))) \<longrightarrow> mem_view (ps_Memory s) q = None)"
proof -
  from add_globals_view[OF mem_wf_empty mem_sep_empty assms] obtain m where
    m: "add_globals pt 0 gs empty_MemoryState = Some (Inr m)" "mem_wf m" "mem_sep m"
      "\<And>j q. j < length gs \<Longrightarrow> q \<in> bytes_of (global_area pt (0 + j) (gs ! j)) \<Longrightarrow>
         mem_view m q = Some (global_byte pt (0 + j) (gs ! j) q, 255)"
      "\<And>q. (\<forall>j < length gs. q \<notin> bytes_of (global_area pt (0 + j) (gs ! j))) \<Longrightarrow>
         mem_view m q = mem_view empty_MemoryState q"
    by (auto simp: mem_view_empty)
  let ?s = "initial_streams (pt_StreamsInitial pt) (empty_ProcessState\<lparr>ps_Memory := m\<rparr>)"
  have "new_ProcessState pt gs = Some (Inr ?s)" by (simp add: new_ProcessState_def m(1))
  moreover have "proc_wf ?s"
    using m(2) initial_streams_wf[of "empty_ProcessState\<lparr>ps_Memory := m\<rparr>"]
    by (simp add: proc_wf_def empty_ProcessState_wf)
  ultimately show ?thesis
    using m(3-5) by (intro exI[of _ ?s]) (simp add: mem_view_empty)
qed

definition sample_trace :: ProcessTrace where
  "sample_trace = \<lparr>pt_Data = [1, 2, 3, 4], pt_GlobalVariableAddresses = [16, 32],
     pt_GlobalVariableInitialData = [0, 2], pt_FunctionAddresses = [], pt_StreamsInitial = [100, 101, 102]\<rparr>"

definition sample_globals :: "GlobalInfo list" where
  "sample_globals = [\<lparr>gv_Size = 2, gv_isConstant = False\<rparr>, \<lparr>gv_Size = 2, gv_isConstant = True\<rparr>]"

lemma sample_globals_ok: "globals_ok sample_trace 0 sample_globals"
  by code_simp

theorem constructor_places_globals_witness:
  "\<exists>s. new_ProcessState sample_trace sample_globals = Some (Inr s) \<and> proc_wf s \<and> mem_sep (ps_Memory s) \<and>
    (\<forall>j < length sample_globals. \<forall>q \<in> bytes_of (global_area sample_trace j (sample_globals ! j)).
       mem_view (ps_Memory s) q = Some (global_byte sample_trace j (sample_globals ! j) q, 255)) \<and>
    (\<forall>q. (\<forall>j < length sample_globals. q \<notin> bytes_of (global_area sample_trace j (sample_globals ! j))) \<longrightarrow>
       mem_view (ps_Memory s) q = None)"
  by (rule constructor_places_globals) (rule sample_globals_ok)

text \<open>C25: The area that is reported as the owner of an address contains the address: for global
  variables, dynamic allocations and known regions (below the last address), and for the
  stack if the thread states answer with areas that contain it.\<close>

theorem containing_area_contains:
  assumes "imv_ok (ps_KnownMemory s)" and "\<forall>x \<in> set (ps_KnownMemory s). item_End x \<noteq> - 1"
    and "\<forall>ar. Some ar \<in> set stacks \<longrightarrow> contains_value ar p"
    and "getContainingMemoryArea pt gs stacks p s = Some (Some ar)"
  shows "contains_value ar p"
proof -
  let ?it = "imv_find p (ps_KnownMemory s)"
  have known: "covers p (ps_KnownMemory s ! ?it) \<and> ps_KnownMemory s ! ?it \<in> set (ps_KnownMemory s)"
    if "?it \<noteq> length (ps_KnownMemory s)"
    using that imv_find_correct[OF assms(1), of p] imv_lookup_iff[OF assms(1)] by simp
  have stack: "contains_value a p" if "filter (\<lambda>a. a \<noteq> None) stacks = Some a # as" for a as
  proof -
    have "Some a \<in> set (filter (\<lambda>a. a \<noteq> None) stacks)" using that by simp
    then show ?thesis using assms(3) by simp
  qed
  from assms(4) obtain g where g: "find_global pt 0 gs p = Some g"
    by (auto simp: getContainingMemoryArea_def bind_eq_Some_conv)
  show ?thesis
  proof (cases g)
    case (Some a)
    then show ?thesis using assms(4) g find_global_contains by (simp add: getContainingMemoryArea_def)
  next
    case None
    with assms(4) g known known_area_contains assms(2) stack show ?thesis
      by (auto simp: getContainingMemoryArea_def Let_def split: option.splits if_splits list.splits prod.splits)
  qed
qed

theorem containing_area_contains_witness:
  "contains_value (area_with_access 64 8 ReadOnly) 70"
proof -
  let ?s = "empty_ProcessState\<lparr>ps_KnownMemory := [makeIntervalMapItem 64 71 ReadOnly]\<rparr>"
  have "getContainingMemoryArea sample_trace sample_globals [] 70 ?s = Some (Some (area_with_access 64 8 ReadOnly))"
    by code_simp
  then show ?thesis
    by (rule containing_area_contains[rotated 3]) (simp_all add: makeIntervalMapItem_def)
qed

text \<open>C24: A dynamic allocation is found from every address in it: if the allocations do not
  overlap and no global variable contains the address, the search for the owner of an
  address inside an allocation gives exactly that allocation.\<close>

theorem dynamic_owner_found:
  assumes "proc_wf s" and "mallocs_sep s" and "om_find (ps_Mallocs s) a = Some m"
    and "unat a + unat (mst_Size m) < 2 ^ 64" and "p \<in> bytes_of (area a (mst_Size m))"
    and "find_global pt 0 gs p = Some None"
  shows "getContainingMemoryArea pt gs stacks p s = Some (Some (area a (mst_Size m)))"
proof -
  have sh: "shared_wf s" using assms(1) by (simp add: proc_wf_def)
  have "mst_Address m = a" using shared_wf_malloc[OF sh assms(3)] by simp
  then show ?thesis
    using dynamic_found[OF sh assms(2-5)] assms(5,6)
    by (simp add: getContainingMemoryArea_def contains_value_bytes)
qed

theorem dynamic_owner_found_witness:
  "getContainingMemoryArea sample_trace sample_globals [] 70
     (addMalloc 64 8 None empty_ProcessState) = Some (Some (area 64 8))"
proof -
  let ?s = "addMalloc 64 8 None empty_ProcessState"
  have f: "om_find (ps_Mallocs ?s) = (\<lambda>k. if k = 64 then Some (new_MallocState 64 8 None) else None)"
    by (auto simp: addMalloc_def map_insert_def empty_ProcessState_def om_find_def)
  have "proc_wf ?s"
    using empty_ProcessState_wf mem_wf_empty addMalloc_wf[of empty_ProcessState 64 8 None]
    by (simp add: proc_wf_def addMalloc_def empty_ProcessState_def)
  moreover have "mallocs_sep ?s" by (auto simp: mallocs_sep_def f split: if_splits)
  moreover have "find_global sample_trace 0 sample_globals 70 = Some None" by code_simp
  ultimately show ?thesis
    using dynamic_owner_found[of ?s 64 "new_MallocState 64 8 None" 70 sample_trace sample_globals "[]"]
    by (simp add: f new_MallocState_def bytes_of_area)
qed

end
