(* ===== verification/ThreadLaws.thy ===== *)
theory ThreadLaws
  imports ThreadState ProcessLaws
begin

text \<open>
  Moving a thread over one event and back. \<open>event_pre\<close> is what the recorder guarantees of an
  event at the state it is applied to; \<open>event_undone\<close> shows that from any state that looks like
  the state after \<open>addEvent\<close>, \<open>removeEvent\<close> leads to one that looks like the state before.
\<close>

section \<open>Equivalence and times\<close>

definition world_eqv :: "World \<Rightarrow> World \<Rightarrow> bool" where
  "world_eqv w v \<longleftrightarrow> proc_eqv (fst w) (fst v) \<and> snd v = snd w"

lemma world_eqv_refl [simp]: "world_eqv w w"
  by (simp add: world_eqv_def)

lemma world_eqv_trans: "world_eqv u v \<Longrightarrow> world_eqv v w \<Longrightarrow> world_eqv u w"
  by (auto simp: world_eqv_def intro: proc_eqv_trans)

lemma world_eqvE:
  assumes "world_eqv (ps, th) v"
  obtains m where "v = (ps\<lparr>ps_Memory := m\<rparr>, th)" and "mem_eqv (ps_Memory ps) m"
  using assms by (cases v) (auto simp: world_eqv_def elim: proc_eqvE)

lemma world_eqvI: "mem_eqv (ps_Memory ps) m \<Longrightarrow> world_eqv (ps, th) (ps\<lparr>ps_Memory := m\<rparr>, th)"
  by (simp add: world_eqv_def proc_eqvI)

text \<open>
  The times before an event with process time \<open>t\<close>: the process is one step behind, and the
  thread's view is that of its previous event with a process time.
\<close>

definition view_ok :: "nat \<Rightarrow> ThreadState \<Rightarrow> bool" where
  "view_ok p th \<longleftrightarrow> setPreviousViewOfProcessTime p th = Some th"

definition time_ok :: "nat \<Rightarrow> u64 \<Rightarrow> World \<Rightarrow> bool" where
  "time_ok p t w \<longleftrightarrow> ps_ProcessTime (fst w) = t - 1 \<and> view_ok p (snd w)"

lemma view_restored:
  assumes "view_ok p th"
  shows "setPreviousViewOfProcessTime p (th\<lparr>th_ProcessTime := x\<rparr>) = Some th"
proof -
  from assms obtain r where r: "rangeBefore (events_range (th_Events th)) p = Some r"
    by (auto simp: view_ok_def setPreviousViewOfProcessTime_def bind_eq_Some_conv)
  with assms show ?thesis
    by (cases "rfind_event (\<lambda>e. ev_ProcessTime e \<noteq> None) (th_Events th) (fst r) (snd r)")
      (auto simp: view_ok_def setPreviousViewOfProcessTime_def bind_eq_Some_conv)
qed

lemma times_undone:
  "time_ok p t (ps, th) \<Longrightarrow> ps_ProcessTime qs = ps_ProcessTime ps \<Longrightarrow>
   unset_times p t (qs\<lparr>ps_ProcessTime := t\<rparr>, th\<lparr>th_ProcessTime := t\<rparr>) = Some (qs, th)"
  by (simp add: unset_times_def time_ok_def view_restored)

lemma on_memory_Some: "on_memory f ps = Some qs \<longleftrightarrow> (\<exists>m. f (ps_Memory ps) = Some m \<and> qs = ps\<lparr>ps_Memory := m\<rparr>)"
  by (auto simp: on_memory_def bind_eq_Some_conv)

text \<open>The memory part of an event, undone in a state with equivalent memory.\<close>

lemma memory_undone:
  assumes "mem_wf m" and "mem_op_ok x" and "mem_fwd x m = Some n" and "mem_eqv n n'"
  obtains m' where "mem_bwd x n' = Some m'" and "mem_eqv m m'"
  using mem.bwd_fwd[OF assms] by blast

lemma preceding_ptr_time [simp]: "preceding_ptr (th\<lparr>th_ProcessTime := x\<rparr>) p = preceding_ptr th p"
  by (simp add: preceding_ptr_def)

text \<open>Changes of the memory and of the time commute with the other operations.\<close>

named_theorems push \<open>equations that move updates of memory and time inwards\<close>

lemma push_time [push]:
  "(s\<lparr>ps_ProcessTime := t\<rparr>)\<lparr>ps_Memory := m\<rparr> = (s\<lparr>ps_Memory := m\<rparr>)\<lparr>ps_ProcessTime := t\<rparr>"
  by (cases s) simp

lemma push_addMalloc [push]:
  "(addMalloc a n i s)\<lparr>ps_Memory := m\<rparr> = addMalloc a n i (s\<lparr>ps_Memory := m\<rparr>)"
  "(addMalloc a n i s)\<lparr>ps_ProcessTime := t\<rparr> = addMalloc a n i (s\<lparr>ps_ProcessTime := t\<rparr>)"
  "ps_Memory (addMalloc a n i s) = ps_Memory s"
  by (cases s; simp add: addMalloc_def)+

lemma world_eqv_times:
  assumes "world_eqv (set_times t (ps, th)) v"
  obtains m where "v = (ps\<lparr>ps_Memory := m, ps_ProcessTime := t\<rparr>, th\<lparr>th_ProcessTime := t\<rparr>)"
    and "mem_eqv (ps_Memory ps) m"
  using assms by (auto simp: set_times_def push elim!: world_eqvE)

lemma undone_with:
  assumes "time_ok p t (ps, th)" and "mem_eqv (ps_Memory ps) m"
  shows "\<exists>u. unset_times p t (ps\<lparr>ps_Memory := m, ps_ProcessTime := t\<rparr>, th\<lparr>th_ProcessTime := t\<rparr>) = Some u \<and>
             world_eqv (ps, th) u"
  using times_undone[OF assms(1), of "ps\<lparr>ps_Memory := m\<rparr>"] world_eqvI[OF assms(2)] by auto

section \<open>Dynamic memory\<close>

lemma Malloc_undone:
  assumes wf: "proc_wf ps" and a: "preceding_ptr th p = Some (i, a)" "om_find (ps_Mallocs ps) a = None"
      "unat a + unat n < 2 ^ 64"
    and t: "time_ok p t (ps, th)" and f: "addEvent_Malloc p n t (ps, th) = Some w" and e: "world_eqv w v"
  shows "\<exists>u. removeEvent_Malloc p n t v = Some u \<and> world_eqv (ps, th) u"
proof -
  from f a(1) obtain al m1 where m1: "allocationAdd a n (ps_Memory ps) = Some m1"
    and w: "w = set_times t (addMalloc a n al (ps\<lparr>ps_Memory := m1\<rparr>), th)"
    by (auto simp: addEvent_Malloc_def bind_eq_Some_conv on_memory_Some push)
  from e obtain m2 where v: "v = (addMalloc a n al (ps\<lparr>ps_Memory := m2, ps_ProcessTime := t\<rparr>), th\<lparr>th_ProcessTime := t\<rparr>)"
    and m2: "mem_eqv m1 m2"
    unfolding w by (elim world_eqv_times) (simp add: push)
  obtain m3 where m3: "allocationUnadd a n m2 = Some m3" "mem_eqv (ps_Memory ps) m3"
    using memory_undone[of "ps_Memory ps" "OpAdd a n"] wf a(3) m1 m2 by (auto simp: proc_wf_def)
  show ?thesis
    using wf a(1,2) m3(1) undone_with[OF t m3(2)]
    by (simp add: removeEvent_Malloc_def v on_memory_def proc_wf_def unaddMalloc_addMalloc push)
qed

lemma removeMalloc_push:
  "removeMalloc a s = Some s1 \<Longrightarrow>
     removeMalloc a (s\<lparr>ps_Memory := m, ps_ProcessTime := t\<rparr>) = Some (s1\<lparr>ps_Memory := m, ps_ProcessTime := t\<rparr>) \<and>
     ps_Memory s1 = ps_Memory s"
  by (cases s) (auto simp: removeMalloc_def bind_eq_Some_conv)

lemma Free_undone:
  assumes wf: "proc_wf ps" and t: "time_ok p t (ps, th)"
    and f: "addEvent_Free a t (ps, th) = Some w" and e: "world_eqv w v"
  shows "\<exists>u. removeEvent_Free p a t v = Some u \<and> world_eqv (ps, th) u"
proof -
  from f obtain ml ps1 m1 where ml: "om_find (ps_Mallocs ps) a = Some ml"
    and ps1: "removeMalloc a ps = Some ps1"
    and m1: "allocationRemove a (mst_Size ml) (ps_Memory ps1) = Some m1"
    and w: "w = set_times t (ps1\<lparr>ps_Memory := m1\<rparr>, th)"
    by (auto simp: addEvent_Free_def bind_eq_Some_conv on_memory_Some)
  note P = removeMalloc_push[OF ps1]
  from e obtain m2 where v: "v = (ps1\<lparr>ps_Memory := m2, ps_ProcessTime := t\<rparr>, th\<lparr>th_ProcessTime := t\<rparr>)"
    and m2: "mem_eqv m1 m2"
    unfolding w by (elim world_eqv_times) (simp add: push)
  obtain m3 where m3: "allocationUnremove a (mst_Size ml) m2 = Some m3" "mem_eqv (ps_Memory ps) m3"
    using memory_undone[of "ps_Memory ps" "OpRemove a (mst_Size ml)"] wf m1 m2 P
    by (auto simp: proc_wf_def)
  have "unremoveMalloc a (ps1\<lparr>ps_Memory := m2, ps_ProcessTime := t\<rparr>) = Some (ps\<lparr>ps_Memory := m2, ps_ProcessTime := t\<rparr>)"
    by (rule unremoveMalloc_removeMalloc) (use wf P in \<open>auto simp: proc_wf_def\<close>)
  then show ?thesis
    using ml m3(1) undone_with[OF t m3(2)] by (simp add: removeEvent_Free_def v on_memory_def push)
qed

section \<open>Memory\<close>

lemma memory_event_undone:
  assumes wf: "proc_wf ps" and t: "time_ok p t (ps, th)" and ok: "mem_op_ok x"
    and f: "on_memory (mem_fwd x) ps = Some ps1" and e: "world_eqv (set_times t (ps1, th)) v"
  obtains ps2 u where "on_memory (mem_bwd x) (fst v) = Some ps2" and "unset_times p t (ps2, snd v) = Some u"
    and "world_eqv (ps, th) u"
proof -
  from f obtain m1 where m1: "mem_fwd x (ps_Memory ps) = Some m1" and ps1: "ps1 = ps\<lparr>ps_Memory := m1\<rparr>"
    by (auto simp: on_memory_Some)
  from e obtain m2 where v: "v = (ps\<lparr>ps_Memory := m2, ps_ProcessTime := t\<rparr>, th\<lparr>th_ProcessTime := t\<rparr>)"
    and m2: "mem_eqv m1 m2"
    unfolding ps1 by (elim world_eqv_times) (simp add: push)
  obtain m3 where m3: "mem_bwd x m2 = Some m3" "mem_eqv (ps_Memory ps) m3"
    using memory_undone[OF _ ok m1 m2] wf by (auto simp: proc_wf_def)
  from undone_with[OF t m3(2)] obtain u where
    u: "unset_times p t (ps\<lparr>ps_Memory := m3, ps_ProcessTime := t\<rparr>, th\<lparr>th_ProcessTime := t\<rparr>) = Some u"
      "world_eqv (ps, th) u" by blast
  show ?thesis
    by (rule that[of "ps\<lparr>ps_Memory := m3, ps_ProcessTime := t\<rparr>"])
      (use m3(1) u in \<open>simp_all add: v on_memory_def push\<close>)
qed

lemma StateUntypedSmall_undone:
  assumes "proc_wf ps" and "time_ok p t (ps, th)"
    and f: "addEvent_StateUntypedSmall n a t d (ps, th) = Some w" and "world_eqv w v"
  shows "\<exists>u. removeEvent_StateUntypedSmall p n a t v = Some u \<and> world_eqv (ps, th) u"
proof -
  from f obtain data ps1 where data: "slice 0 (unat n) (le_bytes 8 (unat d)) = Some data"
    and ps1: "on_memory (mem_fwd (OpBlock \<lparr>block_Address = a, block_Data = data\<rparr>)) ps = Some ps1"
    and w: "w = set_times t (ps1, th)"
    by (auto simp: addEvent_StateUntypedSmall_def bind_eq_Some_conv)
  have "block_area \<lparr>block_Address = a, block_Data = data\<rparr> = area a (ucast n)"
    by (simp add: block_area_def length_slice[OF data])
  with memory_event_undone[OF assms(1,2) _ ps1] assms(4) w show ?thesis
    by (fastforce simp: removeEvent_StateUntypedSmall_def)
qed

lemma StateUntyped_undone:
  assumes "proc_wf ps" and "time_ok p t (ps, th)"
    and f: "addEvent_StateUntyped env a t off n (ps, th) = Some w" and "world_eqv w v"
  shows "\<exists>u. removeEvent_StateUntyped p a t n v = Some u \<and> world_eqv (ps, th) u"
proof -
  from f obtain data ps1 where data: "getData (env_Trace env) off n = Some data"
    and ps1: "on_memory (mem_fwd (OpBlock \<lparr>block_Address = a, block_Data = data\<rparr>)) ps = Some ps1"
    and w: "w = set_times t (ps1, th)"
    by (auto simp: addEvent_StateUntyped_def bind_eq_Some_conv)
  have "length data = unat n" using data by (auto simp: getData_def dest: length_slice)
  then have "block_area \<lparr>block_Address = a, block_Data = data\<rparr> = area a n"
    by (simp add: block_area_def)
  with memory_event_undone[OF assms(1,2) _ ps1] assms(4) w show ?thesis
    by (fastforce simp: removeEvent_StateUntyped_def)
qed

lemma StateMemmove_undone:
  assumes "proc_wf ps" and "time_ok p t (ps, th)"
    and f: "addEvent_StateMemmove t src dst n (ps, th) = Some w" and "world_eqv w v"
  shows "\<exists>u. removeEvent_StateMemmove p t src dst n v = Some u \<and> world_eqv (ps, th) u"
proof -
  from f obtain ps1 where ps1: "on_memory (mem_fwd (OpCopy src dst n)) ps = Some ps1"
    and w: "w = set_times t (ps1, th)"
    by (auto simp: addEvent_StateMemmove_def bind_eq_Some_conv)
  from memory_event_undone[OF assms(1,2) _ ps1] assms(4) w show ?thesis
    by (fastforce simp: removeEvent_StateMemmove_def)
qed

lemma StateClear_undone:
  assumes "proc_wf ps" and "time_ok p t (ps, th)"
    and f: "addEvent_StateClear a t n (ps, th) = Some w" and "world_eqv w v"
  shows "\<exists>u. removeEvent_StateClear p a t n v = Some u \<and> world_eqv (ps, th) u"
proof -
  from f obtain ps1 where ps1: "on_memory (mem_fwd (OpClear (area a n))) ps = Some ps1"
    and w: "w = set_times t (ps1, th)"
    by (auto simp: addEvent_StateClear_def bind_eq_Some_conv)
  from memory_event_undone[OF assms(1,2) _ ps1] assms(4) w show ?thesis
    by (fastforce simp: removeEvent_StateClear_def)
qed

section \<open>Known regions\<close>

lemma push_known [push]:
  "(addKnownMemory a n p s)\<lparr>ps_Memory := m\<rparr> = addKnownMemory a n p (s\<lparr>ps_Memory := m\<rparr>)"
  "ps_Memory (addKnownMemory a n p s) = ps_Memory s"
  "(fst (removeKnownMemory a s))\<lparr>ps_Memory := m\<rparr> = fst (removeKnownMemory a (s\<lparr>ps_Memory := m\<rparr>))"
  "ps_Memory (fst (removeKnownMemory a s)) = ps_Memory s"
  by (cases s; simp add: addKnownMemory_def removeKnownMemory_def split: prod.splits)+

lemma region_push [simp]:
  "region_free a n (s\<lparr>ps_Memory := m\<rparr>) = region_free a n s"
  "region_known a n p (s\<lparr>ps_Memory := m\<rparr>) = region_known a n p s"
  by (simp_all add: region_free_def region_known_def)

lemma KnownRegionAdd_undone:
  assumes wf: "proc_wf ps" and r: "region_free a n ps" "unat a + unat n < 2 ^ 64"
    and f: "addEvent_KnownRegionAdd a n rd wr (ps, th) = Some w" and e: "world_eqv w v"
  shows "\<exists>u. removeEvent_KnownRegionAdd a n v = Some u \<and> world_eqv (ps, th) u"
proof -
  let ?p = "region_permission rd wr"
  from f obtain m1 where m1: "allocationAdd a n (ps_Memory ps) = Some m1"
    and w: "w = (addKnownMemory a n ?p (ps\<lparr>ps_Memory := m1\<rparr>), th)"
    by (auto simp: addEvent_KnownRegionAdd_def bind_eq_Some_conv on_memory_Some push)
  from e obtain m2 where v: "v = (addKnownMemory a n ?p (ps\<lparr>ps_Memory := m2\<rparr>), th)"
    and m2: "mem_eqv m1 m2"
    unfolding w by (elim world_eqvE) (simp add: push)
  obtain m3 where m3: "allocationUnadd a n m2 = Some m3" "mem_eqv (ps_Memory ps) m3"
    using memory_undone[of "ps_Memory ps" "OpAdd a n"] wf r(2) m1 m2 by (auto simp: proc_wf_def)
  show ?thesis
    using wf r(1) m3(1) world_eqvI[OF m3(2)]
    by (simp add: removeEvent_KnownRegionAdd_def v on_memory_def proc_wf_def removeKnown_addKnown push)
qed

lemma KnownRegionRemove_undone:
  assumes wf: "proc_wf ps" and r: "region_known a n (region_permission rd wr) ps"
    and f: "addEvent_KnownRegionRemove a n (ps, th) = Some w" and e: "world_eqv w v"
  shows "\<exists>u. removeEvent_KnownRegionRemove a n rd wr v = Some u \<and> world_eqv (ps, th) u"
proof -
  from f obtain m1 where m1: "allocationRemove a n (ps_Memory ps) = Some m1"
    and w: "w = (fst (removeKnownMemory a (ps\<lparr>ps_Memory := m1\<rparr>)), th)"
    by (auto simp: addEvent_KnownRegionRemove_def bind_eq_Some_conv on_memory_Some push)
  from e obtain m2 where v: "v = (fst (removeKnownMemory a (ps\<lparr>ps_Memory := m2\<rparr>)), th)"
    and m2: "mem_eqv m1 m2"
    unfolding w by (elim world_eqvE) (simp add: push)
  obtain m3 where m3: "allocationUnremove a n m2 = Some m3" "mem_eqv (ps_Memory ps) m3"
    using memory_undone[of "ps_Memory ps" "OpRemove a n"] wf m1 m2 by (auto simp: proc_wf_def)
  show ?thesis
    using wf r m3(1) world_eqvI[OF m3(2)]
    by (simp add: removeEvent_KnownRegionRemove_def v on_memory_def proc_wf_def addKnown_removeKnown push)
qed

section \<open>The stack\<close>

lemma on_back_Some:
  "on_back f th = Some th' \<longleftrightarrow> th_CallStack th \<noteq> [] \<and> (\<exists>b. f (last (th_CallStack th)) = Some b \<and>
     th' = th\<lparr>th_CallStack := butlast (th_CallStack th) @ [b]\<rparr>)"
  by (auto simp: on_back_def back_fn_def bind_eq_Some_conv)

text \<open>A change of the last frame that is undone leaves the thread as it was.\<close>

lemma on_back_undone:
  assumes "on_back f th = Some th'" and "\<And>b b'. f b = Some b' \<Longrightarrow> g b' = Some b"
  shows "on_back g th' = Some th"
proof -
  from assms(1) obtain b where b: "th_CallStack th \<noteq> []" "f (last (th_CallStack th)) = Some b"
    "th' = th\<lparr>th_CallStack := butlast (th_CallStack th) @ [b]\<rparr>" by (auto simp: on_back_Some)
  then show ?thesis using assms(2)[OF b(2)] by (auto simp: on_back_Some)
qed

text \<open>Stack allocations and by-value parameters change the frame and the memory.\<close>

lemma stack_memory_undone:
  assumes wf: "proc_wf ps" and b: "unat a + unat n < 2 ^ 64"
    and m: "on_memory (allocationAdd a n) ps = Some ps1" and e: "world_eqv (ps1, th1) v"
  obtains ps2 where "on_memory (allocationUnadd a n) (fst v) = Some ps2" and "snd v = th1"
    and "world_eqv (ps, th) (ps2, th)"
proof -
  from m obtain m1 where m1: "allocationAdd a n (ps_Memory ps) = Some m1" and ps1: "ps1 = ps\<lparr>ps_Memory := m1\<rparr>"
    by (auto simp: on_memory_Some)
  from e obtain m2 where v: "v = (ps\<lparr>ps_Memory := m2\<rparr>, th1)" and m2: "mem_eqv m1 m2"
    unfolding ps1 by (elim world_eqvE) simp
  obtain m3 where m3: "allocationUnadd a n m2 = Some m3" "mem_eqv (ps_Memory ps) m3"
    using memory_undone[of "ps_Memory ps" "OpAdd a n"] wf b m1 m2 by (auto simp: proc_wf_def)
  show ?thesis
    by (rule that[of "ps\<lparr>ps_Memory := m3\<rparr>"]) (use m3 in \<open>simp_all add: v on_memory_def world_eqvI\<close>)
qed

lemma readdEvent_Alloca_Some:
  assumes "readdEvent_Alloca p th = Some th1"
  obtains a where "on_back (\<lambda>f. Some (f\<lparr>fs_Allocas := fs_Allocas f @ [a]\<rparr>)) th = Some th1"
    and "back_fn th1 \<noteq> None" and "fs_Allocas (the (back_fn th1)) \<noteq> []"
    and "last (fs_Allocas (the (back_fn th1))) = a"
proof -
  from assms obtain n c i x where "alloca_sizes (th_Events th ! p) = Some (n, c)"
    and o: "on_back (\<lambda>f. Some (f\<lparr>fs_Allocas := fs_Allocas f @
       [\<lparr>al_InstructionIndex = i, al_Address = x, al_ElementSize = n, al_ElementCount = c\<rparr>]\<rparr>)) th = Some th1"
    by (auto simp: readdEvent_Alloca_def bind_eq_Some_conv event_at_def split: if_splits)
  show ?thesis by (rule that[OF o]) (use o in \<open>auto simp: on_back_Some back_fn_def\<close>)
qed

definition alloca_fits :: "nat \<Rightarrow> ThreadState \<Rightarrow> bool" where
  "alloca_fits p th = (case readdEvent_Alloca p th of
     None \<Rightarrow> True
   | Some th1 \<Rightarrow> (case back_fn th1 of None \<Rightarrow> True | Some b \<Rightarrow>
       unat (al_Address (last (fs_Allocas b))) + unat (getTotalSize (last (fs_Allocas b))) < 2 ^ 64))"

lemma Alloca_undone:
  assumes wf: "proc_wf ps" and b: "alloca_fits p th"
    and f: "addEvent_Alloca p (ps, th) = Some w" and e: "world_eqv w v"
  shows "\<exists>u. removeEvent_Alloca v = Some u \<and> world_eqv (ps, th) u"
proof -
  from f obtain th1 where r: "readdEvent_Alloca p th = Some th1"
    by (auto simp: addEvent_Alloca_def bind_eq_Some_conv)
  from readdEvent_Alloca_Some[OF r] obtain a where
    o: "on_back (\<lambda>f. Some (f\<lparr>fs_Allocas := fs_Allocas f @ [a]\<rparr>)) th = Some th1"
    and l: "back_fn th1 \<noteq> None" "fs_Allocas (the (back_fn th1)) \<noteq> []" "last (fs_Allocas (the (back_fn th1))) = a" .
  from f r l obtain ps1 where ps1: "on_memory (allocationAdd (al_Address a) (getTotalSize a)) ps = Some ps1"
    and w: "w = (ps1, th1)"
    by (auto simp: addEvent_Alloca_def bind_eq_Some_conv Let_def)
  have fits: "unat (al_Address a) + unat (getTotalSize a) < 2 ^ 64"
    using b r l by (auto simp: alloca_fits_def)
  from stack_memory_undone[OF wf fits ps1, of th1 v th] e w obtain ps2 where
    ps2: "on_memory (allocationUnadd (al_Address a) (getTotalSize a)) (fst v) = Some ps2"
      "snd v = th1" "world_eqv (ps, th) (ps2, th)" by auto
  have "on_back (\<lambda>f. Some (f\<lparr>fs_Allocas := butlast (fs_Allocas f)\<rparr>)) th1 = Some th"
    by (rule on_back_undone[OF o]) auto
  with l ps2 have "removeEvent_Alloca v = Some (ps2, th)"
    by (cases v) (auto simp: removeEvent_Alloca_def)
  with ps2(3) show ?thesis by blast
qed

definition byval_fresh :: "u64 \<Rightarrow> u64 \<Rightarrow> ThreadState \<Rightarrow> bool" where
  "byval_fresh a n th \<longleftrightarrow> n \<noteq> 0 \<and> (case back_fn th of None \<Rightarrow> True | Some b \<Rightarrow>
     list_all (\<lambda>q. \<not> contains_value (pbv_Area q) a) (fs_ParamByVals b))"

lemma erase_first_last: "list_all (\<lambda>x. \<not> P x) xs \<Longrightarrow> P y \<Longrightarrow> erase_first P (xs @ [y]) = xs"
  by (induction xs) auto

lemma ByValRegionAdd_undone:
  assumes wf: "proc_wf ps" and b: "unat a + unat n < 2 ^ 64" "byval_fresh a n th"
    and f: "addEvent_ByValRegionAdd arg a n (ps, th) = Some w" and e: "world_eqv w v"
  shows "\<exists>u. removeEvent_ByValRegionAdd a n v = Some u \<and> world_eqv (ps, th) u"
proof -
  from f obtain th1 ps1 where o: "on_back (addByValArea (unat arg) a n) th = Some th1"
    and ps1: "on_memory (allocationAdd a n) ps = Some ps1" and w: "w = (ps1, th1)"
    by (auto simp: addEvent_ByValRegionAdd_def readdEvent_ByValRegionAdd_def bind_eq_Some_conv)
  from stack_memory_undone[OF wf b(1) ps1, of th1 v th] e w obtain ps2 where
    ps2: "on_memory (allocationUnadd a n) (fst v) = Some ps2" "snd v = th1" "world_eqv (ps, th) (ps2, th)"
    by auto
  have "contains_value (area a n) a"
    using b start_in_area[of n a] by (simp add: contains_value_bytes byval_fresh_def)
  then have "on_back (\<lambda>f. Some (removeByValArea a f)) th1 = Some th"
    using o b(2)
    by (auto simp: on_back_Some addByValArea_def removeByValArea_def byval_fresh_def back_fn_def
        bind_eq_Some_conv erase_first_last)
  with ps2 have "removeEvent_ByValRegionAdd a n v = Some (ps2, th)"
    by (cases v) (auto simp: removeEvent_ByValRegionAdd_def)
  with ps2(3) show ?thesis by blast
qed

section \<open>Streams and directories\<close>

lemma push_tables [push]:
  "(fst (addStream st s))\<lparr>ps_Memory := m\<rparr> = fst (addStream st (s\<lparr>ps_Memory := m\<rparr>))"
  "(fst (addStream st s))\<lparr>ps_ProcessTime := t\<rparr> = fst (addStream st (s\<lparr>ps_ProcessTime := t\<rparr>))"
  "ps_Memory (fst (addStream st s)) = ps_Memory s"
  "(fst (addDir d s))\<lparr>ps_Memory := m\<rparr> = fst (addDir d (s\<lparr>ps_Memory := m\<rparr>))"
  "(fst (addDir d s))\<lparr>ps_ProcessTime := t\<rparr> = fst (addDir d (s\<lparr>ps_ProcessTime := t\<rparr>))"
  "ps_Memory (fst (addDir d s)) = ps_Memory s"
  "(fst (removeDir a s))\<lparr>ps_Memory := m\<rparr> = fst (removeDir a (s\<lparr>ps_Memory := m\<rparr>))"
  "(fst (removeDir a s))\<lparr>ps_ProcessTime := t\<rparr> = fst (removeDir a (s\<lparr>ps_ProcessTime := t\<rparr>))"
  "ps_Memory (fst (removeDir a s)) = ps_Memory s"
  by (cases s; simp add: addStream_def addDir_def removeDir_def split: prod.splits)+

lemma get_push [simp]:
  "getStream a (s\<lparr>ps_Memory := m\<rparr>) = getStream a s" "getStream a (s\<lparr>ps_ProcessTime := t\<rparr>) = getStream a s"
  "getDir a (s\<lparr>ps_Memory := m\<rparr>) = getDir a s" "getDir a (s\<lparr>ps_ProcessTime := t\<rparr>) = getDir a s"
  by (simp_all add: getStream_def getDir_def)

text \<open>An event that only changes the shared state outside the memory.\<close>

lemma shared_event_undone:
  assumes t: "time_ok p t (ps, th)" and w: "w = set_times t (f ps, th)"
    and f: "\<And>m x. (f ps)\<lparr>ps_Memory := m, ps_ProcessTime := x\<rparr> = f (ps\<lparr>ps_Memory := m, ps_ProcessTime := x\<rparr>)"
      "ps_Memory (f ps) = ps_Memory ps"
    and g: "\<And>m x. g (f (ps\<lparr>ps_Memory := m, ps_ProcessTime := x\<rparr>)) = ps\<lparr>ps_Memory := m, ps_ProcessTime := x\<rparr>"
    and e: "world_eqv w v"
  shows "\<exists>u. unset_times p t (g (fst v), snd v) = Some u \<and> world_eqv (ps, th) u"
proof -
  from e obtain m where v: "v = (f (ps\<lparr>ps_Memory := m, ps_ProcessTime := t\<rparr>), th\<lparr>th_ProcessTime := t\<rparr>)"
    and m: "mem_eqv (ps_Memory ps) m"
    unfolding w by (elim world_eqv_times) (simp add: f)
  show ?thesis using undone_with[OF t m] by (simp add: v g)
qed

lemma FileOpen_undone:
  assumes wf: "proc_wf ps" and t: "time_ok p t (ps, th)" and s: "getStream fp ps = None"
    and f: "addEvent_FileOpen env t fp name mode (ps, th) = Some w" and e: "world_eqv w v"
  shows "\<exists>u. removeEvent_FileOpen p t fp v = Some u \<and> world_eqv (ps, th) u"
proof -
  from f obtain fn md where w: "w = set_times t (fst (addStream (new_StreamState fp Kind_none fn md) ps), th)"
    by (auto simp: addEvent_FileOpen_def bind_eq_Some_conv)
  have a: "ss_Address (new_StreamState fp Kind_none fn md) = fp" by (simp add: new_StreamState_def)
  show ?thesis
    unfolding removeEvent_FileOpen_def
    by (rule shared_event_undone[where f = "\<lambda>s. fst (addStream (new_StreamState fp Kind_none fn md) s)",
          OF t w _ _ _ e])
      (use removeStream_addStream[of _ "new_StreamState fp Kind_none fn md"] wf s in
        \<open>simp_all add: a proc_wf_def push\<close>)
qed

lemma FileClose_undone:
  assumes wf: "proc_wf ps" and t: "time_ok p t (ps, th)" and s: "getStream fp ps \<noteq> None"
    and f: "addEvent_FileClose t fp (ps, th) = Some w" and e: "world_eqv w v"
  shows "\<exists>u. removeEvent_FileClose p t fp v = Some u \<and> world_eqv (ps, th) u"
proof -
  from f have w: "w = set_times t (fst (closeStream fp ps), th)" by (simp add: addEvent_FileClose_def)
  obtain st where st: "getStream fp ps = Some st" using s by blast
  have r: "restoreStream fp (fst (closeStream fp (ps\<lparr>ps_Memory := m, ps_ProcessTime := x\<rparr>))) =
      (ps\<lparr>ps_Memory := m, ps_ProcessTime := x\<rparr>, True)" for m x
    using wf st by (intro restoreStream_closeStream) (auto simp: proc_wf_def getStream_def)
  have P: "(fst (closeStream fp ps))\<lparr>ps_Memory := m, ps_ProcessTime := x\<rparr> =
      fst (closeStream fp (ps\<lparr>ps_Memory := m, ps_ProcessTime := x\<rparr>))"
    "ps_Memory (fst (closeStream fp ps)) = ps_Memory ps" for m x
    by (simp_all add: closeStream_def split: option.split)
  from e obtain m where v: "v = (fst (closeStream fp (ps\<lparr>ps_Memory := m, ps_ProcessTime := t\<rparr>)), th\<lparr>th_ProcessTime := t\<rparr>)"
    and m: "mem_eqv (ps_Memory ps) m"
    unfolding w by (elim world_eqv_times) (simp add: P)
  show ?thesis using undone_with[OF t m] by (simp add: removeEvent_FileClose_def v r)
qed

lemma stream_put_undone:
  assumes wf: "proc_wf ps" and t: "time_ok p t (ps, th)" and st: "getStream fp ps = Some st"
    and w: "w = set_times t (put_stream (stream_write d st) fp ps, th)" and e: "world_eqv w v"
  obtains st1 u where "getStream fp (fst v) = Some st1" and "stream_unwrite (length d) st1 = Some st"
    and "unset_times p t (put_stream st fp (fst v), snd v) = Some u" and "world_eqv (ps, th) u"
proof -
  have P: "(put_stream x fp ps)\<lparr>ps_Memory := m, ps_ProcessTime := y\<rparr> =
      put_stream x fp (ps\<lparr>ps_Memory := m, ps_ProcessTime := y\<rparr>)"
    "ps_Memory (put_stream x fp ps) = ps_Memory ps" for x m y
    by (simp_all add: put_stream_def)
  have W: "om_wf (ps_Streams ps)" using wf by (simp add: proc_wf_def shared_wf_def)
  from e obtain m where v: "v = (put_stream (stream_write d st) fp (ps\<lparr>ps_Memory := m, ps_ProcessTime := t\<rparr>), th\<lparr>th_ProcessTime := t\<rparr>)"
    and m: "mem_eqv (ps_Memory ps) m"
    unfolding w by (elim world_eqv_times) (simp add: P)
  have g: "getStream fp (fst v) = Some (stream_write d st)"
    using W by (simp add: v getStream_def put_stream_def om_laws)
  have "put_stream st fp (put_stream x fp s) = s" if "ps_Streams s = ps_Streams ps" for x s
    using W st that by (simp add: put_stream_def getStream_def om.insert_insert om.insert_same)
  then have b: "put_stream st fp (fst v) = ps\<lparr>ps_Memory := m, ps_ProcessTime := t\<rparr>" by (simp add: v)
  have ok: "stream_ok st" using shared_wf_stream[of ps fp st] wf st by (simp add: proc_wf_def getStream_def)
  from undone_with[OF t m] obtain u where
    "unset_times p t (put_stream st fp (fst v), snd v) = Some u" "world_eqv (ps, th) u"
    unfolding b by (auto simp: v)
  with g stream_unwrite_write[OF ok] show ?thesis by (intro that)
qed

lemma FileWrite_undone:
  assumes wf: "proc_wf ps" and t: "time_ok p t (ps, th)"
    and f: "addEvent_FileWrite env t fp off n (ps, th) = Some w" and e: "world_eqv w v"
  shows "\<exists>u. removeEvent_FileWrite p t fp n v = Some u \<and> world_eqv (ps, th) u"
proof -
  from f obtain st d where st: "getStream fp ps = Some st" and d: "getData (env_Trace env) off n = Some d"
    and w: "w = set_times t (put_stream (stream_write d st) fp ps, th)"
    by (auto simp: addEvent_FileWrite_def bind_eq_Some_conv)
  have "length d = unat n" using d by (auto simp: getData_def dest: length_slice)
  with stream_put_undone[OF wf t st w e] show ?thesis
    by (fastforce simp: removeEvent_FileWrite_def)
qed

lemma FileWriteFromMemory_undone:
  assumes wf: "proc_wf ps" and t: "time_ok p t (ps, th)" and n: "n \<noteq> 0"
    and f: "addEvent_FileWriteFromMemory t fp a n (ps, th) = Some w" and e: "world_eqv w v"
  shows "\<exists>u. removeEvent_FileWriteFromMemory p t fp n v = Some u \<and> world_eqv (ps, th) u"
proof -
  from f n obtain st d where st: "getStream fp ps = Some st" and i: "region_isCompletelyInitialized (area a n) (ps_Memory ps) = Some True"
    and d: "getByteValues (area a n) (ps_Memory ps) = Some d"
    and w: "w = set_times t (put_stream (stream_write d st) fp ps, th)"
    by (auto simp: addEvent_FileWriteFromMemory_def bind_eq_Some_conv split: if_splits)
  from i have "getByteInitialization (area a n) (ps_Memory ps) \<noteq> Some []"
    by (auto simp: region_isCompletelyInitialized_def bind_eq_Some_conv)
  with d have "length d = unat n"
    by (auto simp: getByteValues_def getByteInitialization_def getAreaData_def dest: length_slice
        split: option.splits if_splits)
  with stream_put_undone[OF wf t st w e] show ?thesis
    by (fastforce simp: removeEvent_FileWriteFromMemory_def)
qed

lemma DirOpen_undone:
  assumes wf: "proc_wf ps" and t: "time_ok p t (ps, th)" and s: "getDir d ps = None"
    and f: "addEvent_DirOpen env t d name (ps, th) = Some w" and e: "world_eqv w v"
  shows "\<exists>u. removeEvent_DirOpen p t d v = Some u \<and> world_eqv (ps, th) u"
proof -
  from f obtain dn where w: "w = set_times t (fst (addDir \<lparr>ds_Address = d, ds_Dirname = dn\<rparr> ps), th)"
    by (auto simp: addEvent_DirOpen_def bind_eq_Some_conv)
  show ?thesis
    unfolding removeEvent_DirOpen_def
    by (rule shared_event_undone[where f = "\<lambda>s. fst (addDir \<lparr>ds_Address = d, ds_Dirname = dn\<rparr> s)",
          OF t w _ _ _ e])
      (use removeDir_addDir[of _ "\<lparr>ds_Address = d, ds_Dirname = dn\<rparr>"] wf s in
        \<open>simp_all add: proc_wf_def push\<close>)
qed

definition dir_named :: "Env \<Rightarrow> u64 \<Rightarrow> u64 \<Rightarrow> ProcessState \<Rightarrow> bool" where
  "dir_named env d name ps \<longleftrightarrow>
     map_option ds_Dirname (getDir d ps) = getDataString (env_Trace env) name \<and> getDir d ps \<noteq> None"

lemma DirClose_undone:
  assumes wf: "proc_wf ps" and t: "time_ok p t (ps, th)" and s: "dir_named env d name ps"
    and f: "addEvent_DirClose t d (ps, th) = Some w" and e: "world_eqv w v"
  shows "\<exists>u. removeEvent_DirClose env p t d name v = Some u \<and> world_eqv (ps, th) u"
proof -
  from s obtain x where x: "getDir d ps = Some x" "getDataString (env_Trace env) name = Some (ds_Dirname x)"
    by (auto simp: dir_named_def)
  have a: "ds_Address x = d" using shared_wf_dir[of ps d x] wf x(1) by (simp add: proc_wf_def getDir_def)
  then have X: "\<lparr>ds_Address = d, ds_Dirname = ds_Dirname x\<rparr> = x" by simp
  from f have w: "w = set_times t (fst (removeDir d ps), th)" by (simp add: addEvent_DirClose_def)
  have "\<exists>u. unset_times p t (fst (addDir x (fst v)), snd v) = Some u \<and> world_eqv (ps, th) u"
    by (rule shared_event_undone[where f = "\<lambda>s. fst (removeDir d s)" and g = "\<lambda>s. fst (addDir x s)",
          OF t w _ _ _ e])
      (use addDir_removeDir[of _ x] wf x(1) a in \<open>simp_all add: proc_wf_def push\<close>)
  then show ?thesis by (simp add: removeEvent_DirClose_def x(2) X)
qed

section \<open>Times, functions and errors\<close>

lemma RuntimeError_undone:
  assumes f: "addEvent_RuntimeError p isTop (ps, th) = Some w" and e: "world_eqv w v"
  shows "\<exists>u. removeEvent_RuntimeError isTop v = Some u \<and> world_eqv (ps, th) u"
proof (cases isTop)
  case False
  with f e show ?thesis by (auto simp: addEvent_RuntimeError_def removeEvent_RuntimeError_def)
next
  case True
  with f obtain err th1 where o: "on_back (addRuntimeError (th_ThreadTime th) err) th = Some th1"
    and w: "w = (ps, th1)"
    by (auto simp: addEvent_RuntimeError_def bind_eq_Some_conv)
  from e obtain m where v: "v = (ps\<lparr>ps_Memory := m\<rparr>, th1)" and m: "mem_eqv (ps_Memory ps) m"
    unfolding w by (elim world_eqvE) simp
  have "on_back removeLastRuntimeError th1 = Some th"
    by (rule on_back_undone[OF o])
      (auto simp: addRuntimeError_def removeLastRuntimeError_def bind_eq_Some_conv)
  then show ?thesis
    using True world_eqvI[OF m] by (simp add: removeEvent_RuntimeError_def v)
qed

lemma FunctionStart_undone:
  assumes t: "th_ThreadTime th = ft_ThreadTimeEntered tr - 1"
    and f: "addEvent_FunctionStart env tr (ps, th) = Some w" and e: "world_eqv w v"
  shows "\<exists>u. removeEvent_FunctionStart tr v = Some u \<and> world_eqv (ps, th) u"
proof -
  from f obtain fi where w: "w = (ps, th\<lparr>th_CallStack := th_CallStack th @ [new_FunctionState fi tr],
      th_ThreadTime := ft_ThreadTimeEntered tr\<rparr>)"
    by (auto simp: addEvent_FunctionStart_def bind_eq_Some_conv Let_def)
  from e obtain m where v: "v = (ps\<lparr>ps_Memory := m\<rparr>, th\<lparr>th_CallStack := th_CallStack th @ [new_FunctionState fi tr],
      th_ThreadTime := ft_ThreadTimeEntered tr\<rparr>)" and m: "mem_eqv (ps_Memory ps) m"
    unfolding w by (elim world_eqvE) simp
  have "removeEvent_FunctionStart tr v = Some (ps\<lparr>ps_Memory := m\<rparr>, th)"
    using t by (simp add: removeEvent_FunctionStart_def v back_fn_def new_FunctionState_def)
  with world_eqvI[OF m] show ?thesis by auto
qed

lemma NewThreadTime_undone:
  assumes f: "addEvent_NewThreadTime (ps, th) = Some w" and e: "world_eqv w v"
  shows "\<exists>u. removeEvent_NewThreadTime v = Some u \<and> world_eqv (ps, th) u"
  using assms
  by (auto simp: addEvent_NewThreadTime_def removeEvent_NewThreadTime_def world_eqv_def)

lemma NewProcessTime_undone:
  assumes t: "view_ok p th" and f: "addEvent_NewProcessTime t (ps, th) = Some w" and e: "world_eqv w v"
  shows "\<exists>u. removeEvent_NewProcessTime p v = Some u \<and> world_eqv (ps, th) u"
  using f e view_restored[OF t]
  by (auto simp: addEvent_NewProcessTime_def removeEvent_NewProcessTime_def world_eqv_def)

section \<open>All events that do not execute instructions\<close>

text \<open>
  What the recorder guarantees of the event at position \<open>p\<close> when it is applied to a state. The
  instruction events, the end of a function and the restoring of the stack need the
  instructions recorded before them and are treated elsewhere; \<open>Realloc\<close> is not undone
  exactly (\<open>realloc_keeps_allocator\<close>).
\<close>

definition event_legal :: "Env \<Rightarrow> nat \<Rightarrow> Event \<Rightarrow> World \<Rightarrow> bool" where
  "event_legal env p e w \<longleftrightarrow>
     (case e of
        TraceEnd _ \<Rightarrow> True
      | FunctionStart f st en t1 t2 \<Rightarrow> th_ThreadTime (snd w) = t1 - 1
      | NewProcessTime t \<Rightarrow> view_ok p (snd w)
      | NewThreadTime _ \<Rightarrow> True
      | Alloca _ _ \<Rightarrow> alloca_fits p (snd w)
      | Malloc n t \<Rightarrow> time_ok p t w \<and>
          (case preceding_ptr (snd w) p of None \<Rightarrow> True
           | Some (i, a) \<Rightarrow> om_find (ps_Mallocs (fst w)) a = None \<and> unat a + unat n < 2 ^ 64)
      | Free a t \<Rightarrow> time_ok p t w
      | StateUntypedSmall n a t d \<Rightarrow> time_ok p t w
      | StateUntyped a t off n \<Rightarrow> time_ok p t w
      | StateMemmove t src dst n \<Rightarrow> time_ok p t w
      | StateClear a t n \<Rightarrow> time_ok p t w
      | KnownRegionAdd a n r wr \<Rightarrow> region_free a n (fst w) \<and> unat a + unat n < 2 ^ 64
      | KnownRegionRemove a n r wr \<Rightarrow> region_known a n (region_permission r wr) (fst w)
      | ByValRegionAdd arg a n \<Rightarrow> byval_fresh a n (snd w) \<and> unat a + unat n < 2 ^ 64
      | FileOpen t fp name mode \<Rightarrow> time_ok p t w \<and> getStream fp (fst w) = None
      | FileWrite t fp off n \<Rightarrow> time_ok p t w
      | FileWriteFromMemory t fp a n \<Rightarrow> time_ok p t w \<and> n \<noteq> 0
      | FileClose t fp name mode \<Rightarrow> time_ok p t w \<and> getStream fp (fst w) \<noteq> None
      | DirOpen t d name \<Rightarrow> time_ok p t w \<and> getDir d (fst w) = None
      | DirClose t d name \<Rightarrow> time_ok p t w \<and> dir_named env d name (fst w)
      | RuntimeError _ _ _ _ \<Rightarrow> True
      | StackRestoreAlloca _ \<Rightarrow> True
      | RuntimeErrorArgument _ _ \<Rightarrow> True
      | _ \<Rightarrow> False)"

definition event_pre :: "Env \<Rightarrow> nat \<Rightarrow> Event \<Rightarrow> World \<Rightarrow> bool" where
  "event_pre env p e w \<longleftrightarrow> proc_wf (fst w) \<and> event_legal env p e w"

lemma event_undone:
  assumes pre: "event_pre env p e (ps, th)" and sub: "\<not> is_subservient e"
    and f: "addEvent env p e (ps, th) = Some w" and eqv: "world_eqv w v"
  shows "\<exists>u. removeEvent env p e v = Some u \<and> world_eqv (ps, th) u"
proof -
  have wf: "proc_wf ps" using pre by (simp add: event_pre_def)
  note d = event_pre_def event_legal_def addEvent_def removeEvent_def is_instruction_def
  show ?thesis
  proof (cases e)
    case (TraceEnd x)
    with f eqv show ?thesis by (auto simp: d)
  next
    case (FunctionStart i st en t1 t2)
    with pre f FunctionStart_undone[OF _ _ eqv, where env = env] show ?thesis
      by (auto simp: d function_trace_def)
  next
    case (NewProcessTime t)
    with pre f NewProcessTime_undone[OF _ _ eqv] show ?thesis by (auto simp: d)
  next
    case (NewThreadTime t)
    with f NewThreadTime_undone[OF _ eqv] show ?thesis by (auto simp: d)
  next
    case (Alloca n c)
    with pre f Alloca_undone[OF wf _ _ eqv] show ?thesis by (auto simp: d)
  next
    case (Malloc n t)
    then have m: "addEvent_Malloc p n t (ps, th) = Some w" using f by (simp add: d)
    then obtain i a where a: "preceding_ptr th p = Some (i, a)"
      by (auto simp: addEvent_Malloc_def bind_eq_Some_conv)
    show ?thesis
      using Malloc_undone[OF wf a _ _ _ m eqv] pre a Malloc by (simp add: d)
  next
    case (Free a t)
    with pre f Free_undone[OF wf _ _ eqv] show ?thesis by (auto simp: d)
  next
    case (StateUntypedSmall n a t x)
    with pre f StateUntypedSmall_undone[OF wf _ _ eqv] show ?thesis by (auto simp: d)
  next
    case (StateUntyped a t off n)
    with pre f StateUntyped_undone[OF wf _ _ eqv] show ?thesis by (auto simp: d)
  next
    case (StateMemmove t src dst n)
    with pre f StateMemmove_undone[OF wf _ _ eqv] show ?thesis by (auto simp: d)
  next
    case (StateClear a t n)
    with pre f StateClear_undone[OF wf _ _ eqv] show ?thesis by (auto simp: d)
  next
    case (KnownRegionAdd a n r wr)
    with pre f KnownRegionAdd_undone[OF wf _ _ _ eqv] show ?thesis by (auto simp: d)
  next
    case (KnownRegionRemove a n r wr)
    with pre f KnownRegionRemove_undone[OF wf _ _ eqv] show ?thesis by (auto simp: d)
  next
    case (ByValRegionAdd arg a n)
    with pre f ByValRegionAdd_undone[OF wf _ _ _ eqv] show ?thesis by (auto simp: d)
  next
    case (FileOpen t fp name mode)
    with pre f FileOpen_undone[OF wf _ _ _ eqv] show ?thesis by (auto simp: d)
  next
    case (FileWrite t fp off n)
    with pre f FileWrite_undone[OF wf _ _ eqv] show ?thesis by (auto simp: d)
  next
    case (FileWriteFromMemory t fp a n)
    with pre f FileWriteFromMemory_undone[OF wf _ _ _ eqv] show ?thesis by (auto simp: d)
  next
    case (FileClose t fp name mode)
    with pre f FileClose_undone[OF wf _ _ _ eqv] show ?thesis by (auto simp: d)
  next
    case (DirOpen t dd name)
    with pre f DirOpen_undone[OF wf _ _ _ eqv] show ?thesis by (auto simp: d)
  next
    case (DirClose t dd name)
    with pre f DirClose_undone[OF wf _ _ _ eqv] show ?thesis by (auto simp: d)
  next
    case (RuntimeError a b c isTop)
    with f RuntimeError_undone[OF _ eqv] show ?thesis by (auto simp: d)
  qed (use pre sub in \<open>auto simp: event_pre_def event_legal_def is_subservient_def\<close>)
qed

section \<open>The invariant is kept\<close>

lemma set_times_fst [simp]: "proc_wf (fst (set_times t w)) = proc_wf (fst w)"
  by (simp add: set_times_def proc_wf_def)

lemma on_memory_wf:
  assumes "proc_wf ps" and "mem_op_ok x" and "on_memory (mem_fwd x) ps = Some ps1"
  shows "proc_wf ps1"
  using assms mem_fwd_wf by (auto simp: on_memory_Some proc_wf_def)

lemma put_stream_wf:
  assumes "proc_wf ps" and "getStream fp ps = Some st"
  shows "proc_wf (put_stream (stream_write d st) fp ps)"
proof -
  have "ss_Address st = fp" "stream_ok st"
    using shared_wf_stream[of ps fp st] assms by (simp_all add: proc_wf_def getStream_def)
  then show ?thesis
    using assms(1) stream_write_ok[of st d]
    by (auto simp: proc_wf_def shared_wf_def put_stream_def om_laws stream_write_def Let_def
        intro!: om_all_insert)
qed

lemma table_wf:
  assumes "proc_wf ps"
  shows "stream_ok st \<Longrightarrow> proc_wf (fst (addStream st ps))" and "proc_wf (fst (closeStream fp ps))"
    and "proc_wf (fst (addDir dd ps))" and "proc_wf (fst (removeDir a ps))"
  using assms closeStream_wf[of ps fp]
  by (auto simp: proc_wf_def push addStream_wf addDir_wf removeDir_wf closeStream_def split: option.splits)

lemma event_wf:
  assumes pre: "event_pre env p e (ps, th)" and f: "addEvent env p e (ps, th) = Some w"
  shows "proc_wf (fst w)"
proof -
  have wf: "proc_wf ps" using pre by (simp add: event_pre_def)
  have sh: "shared_wf ps" "mem_wf (ps_Memory ps)" using wf by (simp_all add: proc_wf_def)
  note d = event_pre_def event_legal_def addEvent_def is_instruction_def bind_eq_Some_conv
  show ?thesis
  proof (cases e)
    case (FunctionStart i st en t1 t2)
    with f wf show ?thesis by (auto simp: d addEvent_FunctionStart_def function_trace_def)
  next
    case (Alloca n c)
    with f obtain th1 b where r: "readdEvent_Alloca p th = Some th1" "back_fn th1 = Some b"
      and m: "on_memory (mem_fwd (OpAdd (al_Address (last (fs_Allocas b))) (getTotalSize (last (fs_Allocas b))))) ps = Some (fst w)"
      by (auto simp: d addEvent_Alloca_def Let_def)
    show ?thesis
      by (rule on_memory_wf[OF wf _ m]) (use pre Alloca r in \<open>auto simp: d alloca_fits_def\<close>)
  next
    case (Malloc n t)
    with f obtain i a al ps1 where a: "preceding_ptr th p = Some (i, a)"
      and m: "on_memory (mem_fwd (OpAdd a n)) (addMalloc a n al ps) = Some ps1" and w: "w = set_times t (ps1, th)"
      by (auto simp: d addEvent_Malloc_def)
    have "proc_wf (addMalloc a n al ps)" using sh addMalloc_wf[of ps] by (simp add: proc_wf_def push)
    from on_memory_wf[OF this _ m] pre a Malloc w show ?thesis by (simp add: d)
  next
    case (Free a t)
    with f obtain n ps0 ps1 where r: "removeMalloc a ps = Some ps0"
      and m: "on_memory (mem_fwd (OpRemove a n)) ps0 = Some ps1" and w: "w = set_times t (ps1, th)"
      by (auto simp: d addEvent_Free_def)
    have "proc_wf ps0"
      using sh removeMalloc_wf[OF _ r] removeMalloc_push[OF r] by (simp add: proc_wf_def)
    from on_memory_wf[OF this _ m] w show ?thesis by simp
  next
    case (StateUntypedSmall n a t x)
    with f obtain b ps1 where "on_memory (mem_fwd (OpBlock b)) ps = Some ps1" "w = set_times t (ps1, th)"
      by (auto simp: d addEvent_StateUntypedSmall_def)
    with on_memory_wf[OF wf, of "OpBlock b"] show ?thesis by simp
  next
    case (StateUntyped a t off n)
    with f obtain b ps1 where "on_memory (mem_fwd (OpBlock b)) ps = Some ps1" "w = set_times t (ps1, th)"
      by (auto simp: d addEvent_StateUntyped_def)
    with on_memory_wf[OF wf, of "OpBlock b"] show ?thesis by simp
  next
    case (StateMemmove t src dst n)
    with f obtain ps1 where "on_memory (mem_fwd (OpCopy src dst n)) ps = Some ps1" "w = set_times t (ps1, th)"
      by (auto simp: d addEvent_StateMemmove_def)
    with on_memory_wf[OF wf, of "OpCopy src dst n"] show ?thesis by simp
  next
    case (StateClear a t n)
    with f obtain ps1 where "on_memory (mem_fwd (OpClear (area a n))) ps = Some ps1" "w = set_times t (ps1, th)"
      by (auto simp: d addEvent_StateClear_def)
    with on_memory_wf[OF wf, of "OpClear (area a n)"] show ?thesis by simp
  next
    case (KnownRegionAdd a n r wr)
    let ?ps = "addKnownMemory a n (region_permission r wr) ps"
    from KnownRegionAdd f have m: "on_memory (mem_fwd (OpAdd a n)) ?ps = Some (fst w)"
      by (auto simp: d addEvent_KnownRegionAdd_def Let_def)
    have "proc_wf ?ps" using sh pre KnownRegionAdd by (simp add: d proc_wf_def push addKnownMemory_wf)
    from on_memory_wf[OF this _ m] pre KnownRegionAdd show ?thesis by (simp add: d)
  next
    case (KnownRegionRemove a n r wr)
    let ?ps = "fst (removeKnownMemory a ps)"
    from KnownRegionRemove f have m: "on_memory (mem_fwd (OpRemove a n)) ?ps = Some (fst w)"
      by (auto simp: d addEvent_KnownRegionRemove_def Let_def)
    have "proc_wf ?ps" using sh by (simp add: proc_wf_def push removeKnownMemory_wf)
    from on_memory_wf[OF this _ m] show ?thesis by simp
  next
    case (ByValRegionAdd arg a n)
    with f have m: "on_memory (mem_fwd (OpAdd a n)) ps = Some (fst w)"
      by (auto simp: d addEvent_ByValRegionAdd_def)
    from on_memory_wf[OF wf _ m] pre ByValRegionAdd show ?thesis by (simp add: d)
  next
    case (FileOpen t fp name mode)
    with f wf show ?thesis by (auto simp: d addEvent_FileOpen_def intro!: table_wf)
  next
    case (FileWrite t fp off n)
    with f wf show ?thesis by (auto simp: d addEvent_FileWrite_def intro: put_stream_wf)
  next
    case (FileWriteFromMemory t fp a n)
    with f wf show ?thesis by (auto simp: d addEvent_FileWriteFromMemory_def intro: put_stream_wf)
  next
    case (FileClose t fp name mode)
    with f wf show ?thesis by (auto simp: d addEvent_FileClose_def intro: table_wf)
  next
    case (DirOpen t dd name)
    with f wf show ?thesis by (auto simp: d addEvent_DirOpen_def intro: table_wf)
  next
    case (DirClose t dd name)
    with f wf show ?thesis by (auto simp: d addEvent_DirClose_def intro: table_wf)
  next
    case (RuntimeError a b c isTop)
    with f wf show ?thesis by (auto simp: d addEvent_RuntimeError_def split: if_splits)
  qed (use pre f wf in \<open>auto simp: d addEvent_NewProcessTime_def addEvent_NewThreadTime_def\<close>)
qed

section \<open>The position in the trace\<close>

definition same_trace :: "ThreadState \<Rightarrow> ThreadState \<Rightarrow> bool" where
  "same_trace th th' \<longleftrightarrow> th_Events th' = th_Events th \<and> th_NextEvent th' = th_NextEvent th"

lemma on_back_trace: "on_back f th = Some th' \<Longrightarrow> same_trace th th'"
  by (auto simp: on_back_Some same_trace_def)

lemma same_trace_trans: "same_trace a b \<Longrightarrow> same_trace b c \<Longrightarrow> same_trace a c"
  by (simp add: same_trace_def)

lemma readdEvent_Alloca_trace: "readdEvent_Alloca p th = Some th' \<Longrightarrow> same_trace th th'"
  by (auto elim!: readdEvent_Alloca_Some intro: on_back_trace)

lemma readd_allocas_trace: "readd_allocas qs th = Some th' \<Longrightarrow> same_trace th th'"
proof (induction qs arbitrary: th)
  case (Cons q qs)
  then obtain th1 where "readdEvent_Alloca q th = Some th1" "readd_allocas qs th1 = Some th'"
    by (auto simp: bind_eq_Some_conv)
  with Cons.IH readdEvent_Alloca_trace show ?case by (blast intro: same_trace_trans)
qed (simp add: same_trace_def)

lemma readdEvent_StackRestore_trace:
  assumes "readdEvent_StackRestore p th = Some th'"
  shows "same_trace th th'"
proof -
  from assms obtain th1 qs where "on_back (\<lambda>f. Some (f\<lparr>fs_Allocas := []\<rparr>)) th = Some th1"
    "readd_allocas qs th1 = Some th'"
    by (auto simp: readdEvent_StackRestore_def bind_eq_Some_conv)
  then show ?thesis using on_back_trace readd_allocas_trace by (blast intro: same_trace_trans)
qed

lemma instruction_trace:
  assumes "addEvent_instruction e i w = Some w'"
  shows "same_trace (snd w) (snd w')"
proof -
  from assms obtain th1 th2 where t: "on_back (forwardingToInstruction i) (snd w) = Some th1"
    "on_back (readdEvent_instruction e i) th1 = Some th2"
    and w': "w' = (fst w, th2\<lparr>th_ThreadTime := th_ThreadTime th2 + 1\<rparr>)"
    by (auto simp: addEvent_instruction_def bind_eq_Some_conv)
  have "same_trace (snd w) th2" using on_back_trace[OF t(1)] on_back_trace[OF t(2)] by (rule same_trace_trans)
  then show ?thesis by (simp add: w' same_trace_def)
qed

lemma set_times_trace [simp]: "same_trace th (snd (set_times t (ps, th')))= same_trace th th'"
  by (simp add: same_trace_def set_times_def)

lemma same_trace_refl [simp]: "same_trace th th"
  by (simp add: same_trace_def)

text \<open>\<open>addEvent\<close> never moves the reference to the next event.\<close>

lemma addEvent_trace:
  assumes "addEvent env p e w = Some w'"
  shows "same_trace (snd w) (snd w')"
proof (cases "ev_Index e")
  case (Some i)
  with assms show ?thesis by (auto simp: addEvent_def is_instruction_def intro: instruction_trace)
next
  case None
  obtain ps th where w: "w = (ps, th)" by (cases w)
  note d = addEvent_def is_instruction_def None bind_eq_Some_conv Let_def
  show ?thesis
  proof (cases e)
    case (Alloca n c)
    with assms None w show ?thesis by (auto simp: d addEvent_Alloca_def intro: readdEvent_Alloca_trace)
  next
    case (StackRestore q)
    with assms None w show ?thesis
      by (auto simp: d addEvent_StackRestore_def intro: readdEvent_StackRestore_trace)
  next
    case (ByValRegionAdd arg a n)
    with assms None w show ?thesis
      by (auto simp: d addEvent_ByValRegionAdd_def readdEvent_ByValRegionAdd_def intro: on_back_trace)
  next
    case (RuntimeError a b c isTop)
    with assms None w show ?thesis
      by (auto simp: d addEvent_RuntimeError_def intro: on_back_trace split: if_splits)
  next
    case (FunctionStart i st en t1 t2)
    with assms None w show ?thesis
      by (auto simp: d addEvent_FunctionStart_def function_trace_def same_trace_def)
  next
    case (FunctionEnd st)
    with assms None w show ?thesis by (auto simp: d addEvent_FunctionEnd_def same_trace_def)
  next
    case (NewProcessTime t)
    with assms None w show ?thesis by (auto simp: d addEvent_NewProcessTime_def same_trace_def)
  next
    case (NewThreadTime t)
    with assms None w show ?thesis by (auto simp: d addEvent_NewThreadTime_def same_trace_def)
  qed (use assms None w in \<open>auto simp: d addEvent_Malloc_def addEvent_Free_def addEvent_Realloc_def
        addEvent_StateUntypedSmall_def addEvent_StateUntyped_def addEvent_StateMemmove_def
        addEvent_StateClear_def addEvent_KnownRegionAdd_def addEvent_KnownRegionRemove_def
        addEvent_FileOpen_def addEvent_FileWrite_def addEvent_FileWriteFromMemory_def
        addEvent_FileClose_def addEvent_DirOpen_def addEvent_DirClose_def\<close>)
qed

section \<open>Stepping\<close>

definition step_pre :: "Env \<Rightarrow> World \<Rightarrow> bool" where
  "step_pre env w = (case event_at (snd w) (th_NextEvent (snd w)) of
     None \<Rightarrow> False
   | Some e \<Rightarrow> event_pre env (th_NextEvent (snd w)) e w)"

definition guarded_step :: "Env \<Rightarrow> unit \<Rightarrow> World \<Rightarrow> World option" where
  "guarded_step env u w = do { require (step_pre env w); addNextEvent env w }"

definition back_step :: "Env \<Rightarrow> unit \<Rightarrow> World \<Rightarrow> World option" where
  "back_step env u w = removePreviousEvent env w"

lemma step_undone:
  assumes f: "guarded_step env x w = Some w'" and e: "world_eqv w' v"
  shows "\<exists>u. back_step env x v = Some u \<and> world_eqv w u"
proof -
  obtain ps th where w: "w = (ps, th)" by (cases w)
  let ?p = "th_NextEvent th"
  from f w obtain e w1 where ev: "event_at th ?p = Some e" and pre: "event_pre env ?p e (ps, th)"
    and w1: "(if is_subservient e then Some (ps, th) else addEvent env ?p e (ps, th)) = Some w1"
    and w': "w' = (fst w1, (snd w1)\<lparr>th_NextEvent := ?p + 1\<rparr>)"
    by (auto simp: guarded_step_def step_pre_def addNextEvent_def addNextEventForwarder_def
        bind_eq_Some_conv Let_def split: option.splits)
  have tr: "same_trace th (snd w1)" using w1 addEvent_trace by (fastforce split: if_splits)
  then have n: "(snd w1)\<lparr>th_NextEvent := ?p\<rparr> = snd w1" by (simp add: same_trace_def)
  from e obtain qs where v: "v = (qs, (snd w1)\<lparr>th_NextEvent := ?p + 1\<rparr>)" and q: "proc_eqv (fst w1) qs"
    by (cases v) (auto simp: w' world_eqv_def)
  have ev': "event_at (snd w1) ?p = Some e" using ev tr by (simp add: event_at_def same_trace_def split: if_splits)
  have eqv: "world_eqv w1 (qs, snd w1)" using q by (simp add: world_eqv_def)
  have R: "back_step env () v = (if is_subservient e then Some (qs, snd w1)
             else removeEvent env ?p e (qs, snd w1))"
    by (simp add: back_step_def removePreviousEvent_def v n ev' Let_def)
  show ?thesis
  proof (cases "is_subservient e")
    case True
    with w1 eqv show ?thesis by (simp add: R w)
  next
    case False
    with event_undone[OF pre False _ eqv] w1 show ?thesis by (simp add: R w)
  qed
qed

lemma step_wf:
  assumes "proc_wf (fst w)" and "guarded_step env x w = Some w'"
  shows "proc_wf (fst w')"
proof -
  obtain ps th where w: "w = (ps, th)" by (cases w)
  from assms(2) w obtain e w1 where "event_pre env (th_NextEvent th) e (ps, th)"
    "(if is_subservient e then Some (ps, th) else addEvent env (th_NextEvent th) e (ps, th)) = Some w1"
    "w' = (fst w1, (snd w1)\<lparr>th_NextEvent := th_NextEvent th + 1\<rparr>)"
    by (auto simp: guarded_step_def step_pre_def addNextEvent_def addNextEventForwarder_def
        bind_eq_Some_conv Let_def split: option.splits)
  with event_wf assms(1) w show ?thesis by (auto split: if_splits)
qed

interpretation thread: reversible "guarded_step env" "back_step env" "\<lambda>_. True" "\<lambda>w. proc_wf (fst w)" world_eqv
  for env
  by unfold_locales (simp, erule (1) world_eqv_trans, erule (1) step_wf, erule (1) step_undone)

end
