(* ===== verification/ThreadRuns.thy ===== *)
theory ThreadRuns
  imports ThreadLaws
begin

text \<open>
  Runs of a thread: sequences of \<open>addNextEvent\<close> and \<open>removePreviousEvent\<close>, as
  \<open>ThreadState\<close>'s clients make them, and what rewinding such a run restores.
\<close>

section \<open>Runs\<close>

fun forward :: "Env \<Rightarrow> nat \<Rightarrow> World \<Rightarrow> World option" where
  "forward env 0 w = Some w"
| "forward env (Suc n) w = addNextEvent env w \<bind> forward env n"

fun backward :: "Env \<Rightarrow> nat \<Rightarrow> World \<Rightarrow> World option" where
  "backward env 0 w = Some w"
| "backward env (Suc n) w = removePreviousEvent env w \<bind> backward env n"

text \<open>The next \<open>n\<close> events exist, are as the recorder leaves them, and are applied.\<close>

definition next_legal :: "Env \<Rightarrow> World \<Rightarrow> bool" where
  "next_legal env w = (case event_at (snd w) (th_NextEvent (snd w)) of
     None \<Rightarrow> False
   | Some e \<Rightarrow> event_legal env (th_NextEvent (snd w)) e w)"

fun recorded :: "Env \<Rightarrow> nat \<Rightarrow> World \<Rightarrow> bool" where
  "recorded env 0 w = True"
| "recorded env (Suc n) w \<longleftrightarrow>
     next_legal env w \<and> addNextEvent env w \<noteq> None \<and> recorded env n (the (addNextEvent env w))"

lemma step_pre_next_legal: "proc_wf (fst w) \<Longrightarrow> next_legal env w \<Longrightarrow> step_pre env w"
  by (auto simp: step_pre_def next_legal_def event_pre_def split: option.splits)

lemma forward_guarded:
  "proc_wf (fst w) \<Longrightarrow> recorded env n w \<Longrightarrow>
   \<exists>t. forward env n w = Some t \<and> run_ops (guarded_step env) (replicate n ()) w = Some t"
proof (induction n arbitrary: w)
  case (Suc n)
  from Suc.prems obtain w' where w': "addNextEvent env w = Some w'"
    and r: "next_legal env w" "recorded env n w'"
    by auto
  have g: "guarded_step env () w = Some w'"
    using w' step_pre_next_legal[OF Suc.prems(1) r(1)] by (simp add: guarded_step_def)
  from Suc.IH[OF step_wf[OF Suc.prems(1) g] r(2)] g w' show ?case by simp
qed simp

lemma backward_ops: "run_ops (back_step env) (replicate n ()) w = backward env n w"
proof (induction n arbitrary: w)
  case (Suc n)
  then show ?case by (cases "removePreviousEvent env w") (simp_all add: back_step_def)
qed simp

section \<open>Properties\<close>


definition sample_env :: Env where
  "sample_env = \<lparr>env_Trace = \<lparr>pt_Data = [119, 0, 72, 105, 33], pt_GlobalVariableAddresses = [],
       pt_GlobalVariableInitialData = [], pt_FunctionAddresses = [], pt_StreamsInitial = []\<rparr>,
     env_Functions = [Some \<lparr>fn_Blocks = [[PointerTy, IntegerTy 32]], fn_DbgDeclare = [], fn_ArgCount = 1\<rparr>]\<rparr>"

definition sample_events :: "Event list" where
  "sample_events =
     [FunctionStart 0 0 6 1 5, InstructionWithPtr 0 4096, Malloc 8 1, StateUntypedSmall 4 4096 2 1684234849,
      FileOpen 3 77 0 0, FileWrite 4 77 2 3, FunctionEnd 0]"

definition sample_start :: World where
  "sample_start = the (forward sample_env 2 (empty_ProcessState, new_ThreadState sample_events empty_ProcessState))"

lemma sample_start_fst: "fst sample_start = empty_ProcessState"
  by code_simp

lemma sample_recorded: "recorded sample_env 3 sample_start"
  by code_simp


text \<open>C33: Undoing a \<open>Realloc\<close> restores the size of the allocation but keeps the instruction that
  resized it in the list of allocators: after moving forward over the event and back, the
  allocation has one allocator more than before.\<close>

theorem realloc_keeps_allocator:
  assumes "addEvent_Realloc a old new t (ps, th) = Some w"
    and "removeEvent_Realloc p a old new t w = Some v"
    and "back_fn th = Some b" and "om_wf (ps_Mallocs ps)"
  shows "\<exists>m. om_find (ps_Mallocs ps) a = Some m \<and>
    om_find (ps_Mallocs (fst v)) a =
      Some (m\<lparr>mst_Size := old, mst_Allocators := mst_Allocators m @ [allocator_of b (getActiveInstruction b)]\<rparr>)"
proof -
  from assms(1,3) obtain m m1 where m: "om_find (ps_Mallocs ps) a = Some m"
    and w: "w = set_times t (ps\<lparr>ps_Mallocs := om_insert a (setSize new (pushAllocator (allocator_of b (getActiveInstruction b)) m))
                 (ps_Mallocs ps), ps_Memory := m1\<rparr>, th)"
    by (auto simp: addEvent_Realloc_def bind_eq_Some_conv on_memory_Some Let_def)
  from assms(2) show ?thesis
    by (auto simp: w m removeEvent_Realloc_def bind_eq_Some_conv on_memory_Some unset_times_def
        set_times_def om_find_insert om_wf_insert assms(4) setSize_def pushAllocator_def)
qed

definition sample_resized :: World where
  "sample_resized = (addMalloc 64 8 None (empty_ProcessState\<lparr>ps_Memory := the (allocationAdd 64 8 empty_MemoryState)\<rparr>),
     (new_ThreadState [NewProcessTime 0, Realloc 64 8 12 1] empty_ProcessState)
       \<lparr>th_NextEvent := 1, th_CallStack := [new_FunctionState \<lparr>fn_Blocks = [[PointerTy]], fn_DbgDeclare = [], fn_ArgCount = 0\<rparr>
          \<lparr>ft_Index = 3, ft_EventStart = 0, ft_EventEnd = 0, ft_ThreadTimeEntered = 0, ft_ThreadTimeExited = 0\<rparr>]\<rparr>)"

lemma sample_resized_runs:
  "addEvent_Realloc 64 8 12 1 sample_resized \<noteq> None"
  "removeEvent_Realloc 1 64 8 12 1 (the (addEvent_Realloc 64 8 12 1 sample_resized)) \<noteq> None"
  "back_fn (snd sample_resized) \<noteq> None"
  by code_simp+

lemma sample_resized_wf: "om_wf (ps_Mallocs (fst sample_resized))"
  by (simp add: sample_resized_def addMalloc_def map_insert_def empty_ProcessState_def om_find_def om_wf_def)

theorem realloc_keeps_allocator_witness:
  "\<exists>v. removeEvent_Realloc 1 64 8 12 1 (the (addEvent_Realloc 64 8 12 1 sample_resized)) = Some v \<and>
     om_find (ps_Mallocs (fst v)) 64 \<noteq> None"
proof -
  obtain w v b where w: "addEvent_Realloc 64 8 12 1 (fst sample_resized, snd sample_resized) = Some w"
    and v: "removeEvent_Realloc 1 64 8 12 1 w = Some v" and b: "back_fn (snd sample_resized) = Some b"
    using sample_resized_runs by fastforce
  from realloc_keeps_allocator[OF w v b sample_resized_wf] w v show ?thesis by auto
qed

end
