(* ===== verification/MovementLaws.thy ===== *)
theory MovementLaws
  imports StateMovement ThreadRuns
begin

text \<open>
  What the movement of a process guarantees. The first sections show what adding or removing
  one event does to the process time and the position. \<open>timeline\<close> is what the
  workers rely on in the times of the traces; \<open>movement_inv\<close>, an invariant of all workers under any
  schedule, says that the shared state is in step with the threads' positions, who holds the
  mutex, and what a worker that waits has added. The locale \<open>worker_invariant\<close> lifts an
  invariant of single steps to all reachable movements.
\<close>

section \<open>What an event does to the times and the position\<close>

text \<open>The process time an event sets.\<close>

definition shared_time :: "Event \<Rightarrow> u64 option" where
  "shared_time e = (if modifies_shared_state e then ev_ProcessTime e else None)"

definition time_after_event :: "Event \<Rightarrow> u64 \<Rightarrow> u64" where
  "time_after_event e t = (case shared_time e of None \<Rightarrow> t | Some t' \<Rightarrow> t')"

lemma on_memory_time: "on_memory f ps = Some qs \<Longrightarrow> ps_ProcessTime qs = ps_ProcessTime ps"
  by (auto simp: on_memory_Some)

lemma fst_table_time [simp]:
  "ps_ProcessTime (fst (addStream st ps)) = ps_ProcessTime ps"
  "ps_ProcessTime (fst (closeStream fp ps)) = ps_ProcessTime ps"
  "ps_ProcessTime (fst (addDir d ps)) = ps_ProcessTime ps"
  "ps_ProcessTime (fst (removeDir a ps)) = ps_ProcessTime ps"
  by (auto simp: addStream_def closeStream_def addDir_def removeDir_def split: option.splits prod.splits)

lemma table_time [simp]:
  "ps_ProcessTime (addKnownMemory a n p ps) = ps_ProcessTime ps"
  "ps_ProcessTime (fst (removeKnownMemory a ps)) = ps_ProcessTime ps"
  by (auto simp: addKnownMemory_def removeKnownMemory_def split: prod.splits)

lemma set_times_time [simp]: "ps_ProcessTime (fst (set_times t w)) = t"
  by (simp add: set_times_def)

lemma addEvent_time:
  assumes "addEvent env p e w = Some w'"
  shows "ps_ProcessTime (fst w') = time_after_event e (ps_ProcessTime (fst w))"
proof -
  obtain ps th where w: "w = (ps, th)" by (cases w)
  note d = addEvent_def is_instruction_def bind_eq_Some_conv Let_def time_after_event_def shared_time_def
    modifies_shared_state_def w
  show ?thesis
  proof (cases e)
    case (FunctionEnd st)
    with assms show ?thesis by (auto simp: d addEvent_FunctionEnd_def dest!: on_memory_time)
  next
    case (StackRestore q)
    with assms show ?thesis by (auto simp: d addEvent_StackRestore_def dest!: on_memory_time)
  next
    case (Alloca n c)
    with assms show ?thesis by (auto simp: d addEvent_Alloca_def dest!: on_memory_time)
  next
    case (KnownRegionAdd a n r wr)
    with assms show ?thesis by (auto simp: d addEvent_KnownRegionAdd_def dest!: on_memory_time)
  next
    case (KnownRegionRemove a n r wr)
    with assms show ?thesis by (auto simp: d addEvent_KnownRegionRemove_def dest!: on_memory_time)
  next
    case (ByValRegionAdd arg a n)
    with assms show ?thesis by (auto simp: d addEvent_ByValRegionAdd_def dest!: on_memory_time)
  next
    case (RuntimeError a b c isTop)
    with assms show ?thesis by (auto simp: d addEvent_RuntimeError_def split: if_splits)
  qed (use assms in \<open>auto simp: d addEvent_instruction_def addEvent_FunctionStart_def function_trace_def
        addEvent_NewProcessTime_def addEvent_NewThreadTime_def addEvent_Malloc_def addEvent_Free_def
        addEvent_Realloc_def addEvent_StateUntypedSmall_def addEvent_StateUntyped_def
        addEvent_StateMemmove_def addEvent_StateClear_def addEvent_FileOpen_def addEvent_FileWrite_def
        addEvent_FileWriteFromMemory_def addEvent_FileClose_def addEvent_DirOpen_def addEvent_DirClose_def\<close>)
qed

lemma addNextEvent_effect:
  assumes "addNextEvent env (ps, th) = Some w"
  obtains e where "event_at th (th_NextEvent th) = Some e"
    and "th_Events (snd w) = th_Events th" and "th_NextEvent (snd w) = th_NextEvent th + 1"
    and "ps_ProcessTime (fst w) = time_after_event e (ps_ProcessTime ps)"
proof -
  from assms obtain e w1 where e: "event_at th (th_NextEvent th) = Some e"
    and w1: "(if is_subservient e then Some (ps, th) else addEvent env (th_NextEvent th) e (ps, th)) = Some w1"
    and w: "w = (fst w1, (snd w1)\<lparr>th_NextEvent := th_NextEvent th + 1\<rparr>)"
    by (auto simp: addNextEvent_def addNextEventForwarder_def bind_eq_Some_conv Let_def)
  have "same_trace th (snd w1)" using w1 addEvent_trace by (fastforce split: if_splits)
  moreover have "ps_ProcessTime (fst w1) = time_after_event e (ps_ProcessTime ps)"
  proof (cases "is_subservient e")
    case True
    then have "shared_time e = None"
      by (auto simp: is_subservient_def shared_time_def modifies_shared_state_def split: Event.splits)
    with True w1 show ?thesis by (auto simp: time_after_event_def)
  next
    case False
    with w1 addEvent_time[of env "th_NextEvent th" e "(ps, th)" w1] show ?thesis by simp
  qed
  ultimately show ?thesis using e w by (intro that) (simp_all add: same_trace_def)
qed

text \<open>Events without a process time leave it as it is when they are removed.\<close>

definition steady :: "World \<Rightarrow> World \<Rightarrow> bool" where
  "steady w w' \<longleftrightarrow> same_trace (snd w) (snd w') \<and> ps_ProcessTime (fst w') = ps_ProcessTime (fst w)"

lemma steady_refl [simp]: "steady w w"
  by (simp add: steady_def)

lemma steady_trans: "steady u v \<Longrightarrow> steady v w \<Longrightarrow> steady u w"
  by (auto simp: steady_def intro: same_trace_trans)

lemma steady_thread: "same_trace th th' \<Longrightarrow> steady (ps, th) (ps, th')"
  by (simp add: steady_def)

lemma steady_memory: "on_memory f ps = Some qs \<Longrightarrow> steady (ps, th) (qs, th)"
  by (simp add: steady_def on_memory_time)

lemma makePrevious_trace:
  "makePreviousInstructionActive p th = Some th' \<Longrightarrow> same_trace th th'"
  by (auto simp: makePreviousInstructionActive_def bind_eq_Some_conv Let_def
      split: option.splits intro: on_back_trace same_trace_trans[OF on_back_trace on_back_trace])

lemma untimed_add_steady:
  assumes "addEvent env p e w = Some w'" and "ev_ProcessTime e = None"
  shows "steady w w'"
  using addEvent_trace[OF assms(1)] addEvent_time[OF assms(1)] assms(2)
  by (simp add: steady_def time_after_event_def shared_time_def)

lemma restoreEvent_steady: "restoreEvent env p e w = Some w' \<Longrightarrow> steady w w'"
proof -
  assume r: "restoreEvent env p e w = Some w'"
  obtain ps th where w: "w = (ps, th)" by (cases w)
  show ?thesis
  proof (cases "is_instruction e \<or> is_RuntimeError e")
    case True
    then have "ev_ProcessTime e = None"
      by (cases e) (auto simp: is_instruction_def is_RuntimeError_def error_header_def)
    moreover have "w' = w \<or> addEvent env p e w = Some w'"
      using r True by (cases e) (auto simp: restoreEvent_def is_subservient_def is_instruction_def is_RuntimeError_def error_header_def)
    ultimately show ?thesis using untimed_add_steady[of env p e w w'] by auto
  next
    case False
    with r show ?thesis
      by (cases e) (auto simp: w restoreEvent_def is_RuntimeError_def error_header_def is_subservient_def
          readdEvent_ByValRegionAdd_def
          intro!: steady_thread intro: readdEvent_Alloca_trace readdEvent_StackRestore_trace on_back_trace)
  qed
qed

declare readd_between.simps [simp del] restore_loop.simps [simp del]

lemma restore_loop_steady: "restore_loop env p hi w = Some w' \<Longrightarrow> steady w w'"
proof (induction env p hi w rule: restore_loop.induct)
  case (1 env p hi w)
  show ?case
  proof (cases "hi \<le> p")
    case True
    with 1(3) show ?thesis by (subst (asm) restore_loop.simps) (auto split: if_splits)
  next
    case False
    with 1(3) obtain e where e: "event_at (snd w) p = Some e"
      by (subst (asm) restore_loop.simps) (auto split: option.splits)
    show ?thesis
    proof (cases "function_trace e")
      case None
      with 1(3) False e obtain w1 where w1: "restoreEvent env p e w = Some w1" "restore_loop env (p + 1) hi w1 = Some w'"
        by (subst (asm) restore_loop.simps) (auto split: option.splits)
      from 1(1)[OF False e None w1] restoreEvent_steady[OF w1(1)] show ?thesis by (blast intro: steady_trans)
    next
      case (Some child)
      let ?w1 = "(fst w, (snd w)\<lparr>th_ThreadTime := ft_ThreadTimeExited child\<rparr>)"
      from 1(3) False e Some have l: "p < ft_EventEnd child" "restore_loop env (ft_EventEnd child + 1) hi ?w1 = Some w'"
        by (subst (asm) restore_loop.simps; auto split: if_splits)+
      have "steady w ?w1" by (simp add: steady_def same_trace_def)
      with 1(2)[OF False e Some l] show ?thesis by (blast intro: steady_trans)
    qed
  qed
qed

lemma readd_between_trace: "readd_between stop p hi th = Some th' \<Longrightarrow> same_trace th th'"
proof (induction stop p hi th rule: readd_between.induct)
  case (1 stop p hi th)
  show ?case
  proof (cases "hi \<le> p")
    case True
    with 1(4) show ?thesis by (subst (asm) readd_between.simps) (auto split: if_splits)
  next
    case False
    with 1(4) obtain e where e: "event_at th p = Some e"
      by (subst (asm) readd_between.simps) (auto split: option.splits)
    show ?thesis
    proof (cases "end_of_start e")
      case (Some en)
      with 1(4) False e have "p < en \<and> en < hi" "readd_between stop (en + 1) hi th = Some th'"
        by (subst (asm) readd_between.simps; auto split: if_splits)+
      with 1(3)[OF False e Some] show ?thesis by blast
    next
      case None
      show ?thesis
      proof (cases "stop \<and> is_FunctionEnd e")
        case True
        with 1(4) False e None show ?thesis by (subst (asm) readd_between.simps) auto
      next
        case ns: False
        show ?thesis
        proof (cases "alloca_sizes e \<noteq> None")
          case True
          with 1(4) False e None ns obtain th1 where t: "readdEvent_Alloca p th = Some th1"
            "readd_between stop (p + 1) hi th1 = Some th'"
            by (subst (asm) readd_between.simps) (auto split: option.splits)
          from 1(1)[OF False e None ns True t] readdEvent_Alloca_trace[OF t(1)]
          show ?thesis by (blast intro: same_trace_trans)
        next
          case na: False
          with 1(4) False e None ns have "readd_between stop (p + 1) hi th = Some th'"
            by (subst (asm) readd_between.simps) auto
          from 1(2)[OF False e None ns na this] show ?thesis .
        qed
      qed
    qed
  qed
qed

lemma removeEvent_FunctionEnd_steady:
  assumes "removeEvent_FunctionEnd env p st w = Some w'"
  shows "steady w w'"
proof -
  from assms obtain e tr f w2 b ps3 ps4 where l: "restore_loop env (ft_EventStart tr + 1) p
      (fst w, (snd w)\<lparr>th_CallStack := th_CallStack (snd w) @ [new_FunctionState f tr]\<rparr>) = Some w2"
    and m: "on_memory (unremove_areas (rev (alloca_areas (fs_Allocas b)))) (fst w2) = Some ps3"
      "on_memory (unremove_areas (rev (byval_areas b))) ps3 = Some ps4"
    and w': "w' = (ps4, (snd w2)\<lparr>th_ThreadTime := ft_ThreadTimeExited tr - 1\<rparr>)"
    by (auto simp: removeEvent_FunctionEnd_def bind_eq_Some_conv Let_def)
  show ?thesis
    using restore_loop_steady[OF l] m[THEN on_memory_time] by (simp add: steady_def same_trace_def w')
qed

lemma removeEvent_StackRestore_steady:
  assumes "removeEvent_StackRestore p w = Some w'"
  shows "steady w w'"
proof -
  obtain ps th where w: "w = (ps, th)" by (cases w)
  have K: "same_trace th1 th2"
    if "(case found of Some q \<Rightarrow> readdEvent_StackRestore q th1 \<bind> readd_between False q p
         | None \<Rightarrow> readd_between True n p th1) = Some th2" for th1 th2 found n
    using that by (auto simp: bind_eq_Some_conv split: option.splits
        intro: readd_between_trace same_trace_trans[OF readdEvent_StackRestore_trace readd_between_trace])
  from assms w obtain th1 th2 qs where t1: "on_back (\<lambda>f. Some (f\<lparr>fs_Allocas := []\<rparr>)) th = Some th1"
    and t2: "same_trace th1 th2" and m: "on_memory qs ps = Some (fst w')" and w': "snd w' = th2"
    by (auto simp: removeEvent_StackRestore_def bind_eq_Some_conv Let_def dest!: K)
  from on_back_trace[OF t1] t2 have "same_trace th th2" by (rule same_trace_trans)
  then show ?thesis using on_memory_time[OF m] by (simp add: steady_def w w')
qed

lemma untimed_remove_steady:
  assumes "removeEvent env p e w = Some w'" and "ev_ProcessTime e = None"
  shows "steady w w'"
proof -
  obtain ps th where w: "w = (ps, th)" by (cases w)
  note d = removeEvent_def is_instruction_def bind_eq_Some_conv Let_def w steady_def
  show ?thesis
  proof (cases "is_instruction e")
    case True
    then show ?thesis using assms
      by (auto simp: removeEvent_def removeEvent_instruction_def bind_eq_Some_conv steady_def same_trace_def
          dest!: makePrevious_trace)
  next
    case False
    show ?thesis
    proof (cases e)
      case (FunctionEnd st)
      with assms show ?thesis by (simp add: removeEvent_def is_instruction_def removeEvent_FunctionEnd_steady)
    next
      case (StackRestore q)
      with assms show ?thesis by (simp add: removeEvent_def is_instruction_def removeEvent_StackRestore_steady)
    next
      case (FunctionStart i st en t1 t2)
      with assms show ?thesis
        by (auto simp: d removeEvent_FunctionStart_def function_trace_def same_trace_def)
    next
      case (NewThreadTime t)
      with assms show ?thesis by (auto simp: d removeEvent_NewThreadTime_def same_trace_def)
    next
      case (Alloca n c)
      with assms show ?thesis
        by (auto simp: d removeEvent_Alloca_def dest!: on_memory_time on_back_trace)
    next
      case (KnownRegionAdd a n r wr)
      with assms show ?thesis by (auto simp: d removeEvent_KnownRegionAdd_def dest!: on_memory_time)
    next
      case (KnownRegionRemove a n r wr)
      with assms show ?thesis by (auto simp: d removeEvent_KnownRegionRemove_def dest!: on_memory_time)
    next
      case (ByValRegionAdd arg a n)
      with assms show ?thesis
        by (auto simp: d removeEvent_ByValRegionAdd_def dest!: on_memory_time on_back_trace)
    next
      case (RuntimeError a b c isTop)
      with assms show ?thesis by (auto simp: d removeEvent_RuntimeError_def dest!: on_back_trace split: if_splits)
    qed (use assms False in \<open>auto simp: removeEvent_def is_instruction_def steady_def\<close>)
  qed
qed

lemma removePreviousEvent_effect:
  assumes "removePreviousEvent env (ps, th) = Some w"
    and "event_at th (th_NextEvent th - 1) = Some e" and "ev_ProcessTime e = None"
  shows "th_Events (snd w) = th_Events th \<and> th_NextEvent (snd w) = th_NextEvent th - 1 \<and> th_NextEvent th \<noteq> 0 \<and>
    ps_ProcessTime (fst w) = ps_ProcessTime ps"
proof -
  let ?w = "(ps, th\<lparr>th_NextEvent := th_NextEvent th - 1\<rparr>)"
  have "event_at (snd ?w) (th_NextEvent th - 1) = Some e" using assms(2) by (auto simp: event_at_def split: if_splits)
  with assms(1) have n: "th_NextEvent th \<noteq> 0"
    and r: "(if is_subservient e then Some ?w else removeEvent env (th_NextEvent th - 1) e ?w) = Some w"
    by (auto simp: removePreviousEvent_def Let_def bind_eq_Some_conv split: if_splits)
  have "steady ?w w"
  proof (cases "is_subservient e")
    case False
    with r have "removeEvent env (th_NextEvent th - 1) e ?w = Some w" by simp
    from untimed_remove_steady[OF this assms(3)] show ?thesis .
  qed (use r in simp)
  then show ?thesis using n by (simp add: steady_def same_trace_def)
qed

section \<open>The timeline\<close>

text \<open>
  What the workers rely on in the process times of all traces. An event that changes the shared
  state has a time other than zero; two such events have the same time only if they belong to
  the same block of the same thread; the times of a thread do not decrease; and after an event
  with a time in a block, the next change in that block is at that time or the one after it.
\<close>

definition same_block :: "Event list \<Rightarrow> nat \<Rightarrow> nat \<Rightarrow> bool" where
  "same_block es q p \<longleftrightarrow> q < p \<and> p < length es \<and> (\<forall>k. q < k \<and> k \<le> p \<longrightarrow> \<not> is_block_start (es ! k))"

definition untimed :: "Event list \<Rightarrow> nat \<Rightarrow> nat \<Rightarrow> bool" where
  "untimed es q p \<longleftrightarrow> (\<forall>k. q \<le> k \<and> k < p \<longrightarrow> k < length es \<and> ev_ProcessTime (es ! k) = None)"

definition timeline :: "Event list list \<Rightarrow> bool" where
  "timeline ess \<longleftrightarrow>
     (\<forall>i p t. i < length ess \<longrightarrow> p < length (ess ! i) \<longrightarrow> shared_time (ess ! i ! p) = Some t \<longrightarrow> t \<noteq> 0) \<and>
     (\<forall>i p j q t. i < length ess \<longrightarrow> p < length (ess ! i) \<longrightarrow> j < length ess \<longrightarrow> q < length (ess ! j) \<longrightarrow>
        shared_time (ess ! i ! p) = Some t \<longrightarrow> shared_time (ess ! j ! q) = Some t \<longrightarrow>
        i = j \<and> (p < q \<longrightarrow> same_block (ess ! i) p q)) \<and>
     (\<forall>i p q s t. i < length ess \<longrightarrow> p < q \<longrightarrow> q < length (ess ! i) \<longrightarrow>
        shared_time (ess ! i ! p) = Some s \<longrightarrow> shared_time (ess ! i ! q) = Some t \<longrightarrow> s \<le> t) \<and>
     (\<forall>i q p s t. i < length ess \<longrightarrow> same_block (ess ! i) q p \<longrightarrow> untimed (ess ! i) (q + 1) p \<longrightarrow>
        ev_ProcessTime (ess ! i ! q) = Some s \<longrightarrow> shared_time (ess ! i ! p) = Some t \<longrightarrow> t - 1 \<le> s)"

lemma timeline_nonzero:
  "timeline ess \<Longrightarrow> i < length ess \<Longrightarrow> p < length (ess ! i) \<Longrightarrow> shared_time (ess ! i ! p) = Some t \<Longrightarrow> t \<noteq> 0"
  unfolding timeline_def by (drule conjunct1) simp

lemma timeline_unique:
  assumes "timeline ess" and "i < length ess" and "p < length (ess ! i)" and "j < length ess" and "q < length (ess ! j)"
    and "shared_time (ess ! i ! p) = Some t" and "shared_time (ess ! j ! q) = Some t"
  shows "i = j \<and> (p < q \<longrightarrow> same_block (ess ! i) p q)"
  by (rule assms(1)[unfolded timeline_def, THEN conjunct2, THEN conjunct1, rule_format]) (use assms in auto)

lemma timeline_mono:
  assumes "timeline ess" and "i < length ess" and "p < q" and "q < length (ess ! i)"
    and "shared_time (ess ! i ! p) = Some s" and "shared_time (ess ! i ! q) = Some t"
  shows "s \<le> t"
  by (rule assms(1)[unfolded timeline_def, THEN conjunct2, THEN conjunct2, THEN conjunct1, rule_format]) (use assms in auto)

lemma timeline_next:
  assumes "timeline ess" and "i < length ess" and "same_block (ess ! i) q p" and "untimed (ess ! i) (q + 1) p"
    and "ev_ProcessTime (ess ! i ! q) = Some s" and "shared_time (ess ! i ! p) = Some t"
  shows "t - 1 \<le> s"
  by (rule assms(1)[unfolded timeline_def, THEN conjunct2, THEN conjunct2, THEN conjunct2, rule_format]) (use assms in auto)

text \<open>
  The events that change the shared state have been added exactly up to the process's time; only
  a worker inside a block that it adds with the lock held may have more of the same time to add.
\<close>

definition in_block :: "Worker \<Rightarrow> bool" where
  "in_block pc \<longleftrightarrow> (case pc of InBlock r held \<Rightarrow> held | _ \<Rightarrow> False)"

definition in_time :: "ThreadState \<Rightarrow> u64 \<Rightarrow> bool \<Rightarrow> bool" where
  "in_time th now busy \<longleftrightarrow> (\<forall>p t. p < length (th_Events th) \<longrightarrow> shared_time (th_Events th ! p) = Some t \<longrightarrow>
     (if p < th_NextEvent th then t \<le> now else now < t \<or> busy \<and> t = now))"

definition in_step :: "Movement \<Rightarrow> bool" where
  "in_step m \<longleftrightarrow> (\<forall>i < length (mv_Threads m).
     in_time (mv_Threads m ! i) (ps_ProcessTime (mv_Process m)) (in_block (mv_Workers m ! i)))"

lemma in_time_idle: "in_time th now False \<Longrightarrow> in_time th now busy"
  by (auto simp: in_time_def)

lemma in_step_at:
  "in_step m \<Longrightarrow> i < length (mv_Threads m) \<Longrightarrow>
   in_time (mv_Threads m ! i) (ps_ProcessTime (mv_Process m)) (in_block (mv_Workers m ! i))"
  by (simp add: in_step_def)

lemma in_time_not_added:
  "in_time th now busy \<Longrightarrow> p < length (th_Events th) \<Longrightarrow> shared_time (th_Events th ! p) = Some t \<Longrightarrow>
   th_NextEvent th \<le> p \<Longrightarrow> now < t \<or> busy \<and> t = now"
  unfolding in_time_def by (metis linorder_not_less)

lemma in_time_pending:
  assumes "in_time th now False"
  shows "\<not> (p < length (th_Events th) \<and> shared_time (th_Events th ! p) = Some now \<and> th_NextEvent th \<le> p)"
  using in_time_not_added[OF assms, of p now] by auto

lemma in_time_added:
  "in_time th now busy \<Longrightarrow> p < length (th_Events th) \<Longrightarrow> shared_time (th_Events th ! p) = Some t \<Longrightarrow>
   p < th_NextEvent th \<Longrightarrow> t \<le> now"
  unfolding in_time_def by metis

lemma in_timeI:
  assumes "\<And>p t. p < length (th_Events th) \<Longrightarrow> shared_time (th_Events th ! p) = Some t \<Longrightarrow> p < th_NextEvent th \<Longrightarrow> t \<le> now"
    and "\<And>p t. p < length (th_Events th) \<Longrightarrow> shared_time (th_Events th ! p) = Some t \<Longrightarrow> th_NextEvent th \<le> p \<Longrightarrow>
      now < t \<or> busy \<and> t = now"
  shows "in_time th now busy"
  unfolding in_time_def using assms by (simp add: linorder_not_less)

section \<open>What holds of each worker\<close>

definition holds_lock :: "Worker \<Rightarrow> bool" where
  "holds_lock pc \<longleftrightarrow> (case pc of InBlock r held \<Rightarrow> held | FallingAsleep r t \<Rightarrow> True
     | AfterBlock moved held \<Rightarrow> held | _ \<Rightarrow> False)"

definition may_add :: "u64 \<Rightarrow> ThreadState \<Rightarrow> bool" where
  "may_add now th \<longleftrightarrow>
     (\<exists>t. th_NextEvent th < length (th_Events th) \<and> forward_wait (th_Events th ! th_NextEvent th) = Some t \<and> t \<le> now) \<or>
     (\<exists>q s. same_block (th_Events th) q (th_NextEvent th) \<and> untimed (th_Events th) (q + 1) (th_NextEvent th) \<and>
        ev_ProcessTime (th_Events th ! q) = Some s \<and> s \<le> now)"

text \<open>A worker without the lock has added events without a process time only.\<close>

definition unlocked :: "ThreadState \<Rightarrow> nat \<Rightarrow> bool" where
  "unlocked th r \<longleftrightarrow> r \<le> th_NextEvent th \<and> untimed (th_Events th) r (th_NextEvent th)"

definition waits_for :: "ThreadState \<Rightarrow> nat \<Rightarrow> u64 \<Rightarrow> bool" where
  "waits_for th r t \<longleftrightarrow> unlocked th r \<and> th_NextEvent th < length (th_Events th) \<and>
     forward_wait (th_Events th ! th_NextEvent th) = Some t"

text \<open>What remains of the present time in the block that a worker adds belongs to that block.\<close>

definition pending :: "u64 \<Rightarrow> ThreadState \<Rightarrow> bool" where
  "pending now th \<longleftrightarrow> (\<forall>p. th_NextEvent th \<le> p \<longrightarrow> p < length (th_Events th) \<longrightarrow>
     shared_time (th_Events th ! p) = Some now \<longrightarrow> (\<exists>q < th_NextEvent th. same_block (th_Events th) q p))"

definition worker_ok :: "ThreadState \<Rightarrow> u64 \<Rightarrow> Worker \<Rightarrow> bool" where
  "worker_ok th now pc \<longleftrightarrow> th_NextEvent th \<le> length (th_Events th) \<and> (case pc of
       InBlock r held \<Rightarrow> if held then may_add now th \<and> pending now th else unlocked th r \<and> th_NextEvent th < length (th_Events th)
     | FallingAsleep r t \<Rightarrow> waits_for th r t
     | Asleep r t \<Rightarrow> waits_for th r t
     | Woken r t \<Rightarrow> waits_for th r t
     | Undoing r \<Rightarrow> unlocked th r
     | _ \<Rightarrow> True)"

definition movement_inv :: "Event list list \<Rightarrow> Movement \<Rightarrow> bool" where
  "movement_inv ess m \<longleftrightarrow>
     map th_Events (mv_Threads m) = ess \<and> length (mv_Workers m) = length ess \<and> in_step m \<and>
     (\<forall>i < length ess. worker_ok (mv_Threads m ! i) (ps_ProcessTime (mv_Process m)) (mv_Workers m ! i) \<and>
        (holds_lock (mv_Workers m ! i) \<longleftrightarrow> mv_Owner m = Some i))"

lemma wake_simps [simp]:
  "worker_ok th now (wake pc) = worker_ok th now pc" "holds_lock (wake pc) = holds_lock pc"
  "in_block (wake pc) = in_block pc"
  by (cases pc; simp add: worker_ok_def holds_lock_def wake_def in_block_def)+

lemma in_block_holds: "in_block pc \<Longrightarrow> holds_lock pc"
  by (cases pc) (simp_all add: in_block_def holds_lock_def)

lemma worker_ok_time: "\<not> holds_lock pc \<or> now' = now \<Longrightarrow> worker_ok th now pc \<Longrightarrow> worker_ok th now' pc"
  by (cases pc) (auto simp: worker_ok_def holds_lock_def)

text \<open>One worker's step: what must be shown for the step alone.\<close>

lemma inv_update:
  assumes inv: "movement_inv ess m" and i: "i < length ess"
    and th: "mv_Threads m' = (mv_Threads m)[i := th']" "th_Events th' = ess ! i"
    and len: "length (mv_Workers m') = length ess"
    and others: "\<And>j. j < length ess \<Longrightarrow> j \<noteq> i \<Longrightarrow>
        mv_Workers m' ! j = mv_Workers m ! j \<or> mv_Workers m' ! j = wake (mv_Workers m ! j)"
    and owner: "\<And>j. j \<noteq> i \<Longrightarrow> mv_Owner m' = Some j \<longleftrightarrow> mv_Owner m = Some j"
    and time: "ps_ProcessTime (mv_Process m') = ps_ProcessTime (mv_Process m) \<or> mv_Owner m = Some i"
    and me: "worker_ok th' (ps_ProcessTime (mv_Process m')) (mv_Workers m' ! i)"
      "holds_lock (mv_Workers m' ! i) \<longleftrightarrow> mv_Owner m' = Some i"
    and step: "in_step m'"
  shows "movement_inv ess m'"
proof -
  have L: "length (mv_Threads m) = length ess" and E: "th_Events (mv_Threads m ! i) = ess ! i"
    using inv i by (auto simp: movement_inv_def dest: arg_cong[of _ _ length])
  have "map th_Events (mv_Threads m') = ess"
    using inv th i L by (auto simp: movement_inv_def map_update list_update_same_conv)
  moreover have "worker_ok (mv_Threads m' ! j) (ps_ProcessTime (mv_Process m')) (mv_Workers m' ! j) \<and>
      (holds_lock (mv_Workers m' ! j) \<longleftrightarrow> mv_Owner m' = Some j)" if j: "j < length ess" for j
  proof (cases "j = i")
    case True
    then show ?thesis using me th L i by simp
  next
    case False
    have old: "worker_ok (mv_Threads m ! j) (ps_ProcessTime (mv_Process m)) (mv_Workers m ! j)"
      "holds_lock (mv_Workers m ! j) \<longleftrightarrow> mv_Owner m = Some j"
      using inv j by (simp_all add: movement_inv_def)
    have "worker_ok (mv_Threads m ! j) (ps_ProcessTime (mv_Process m')) (mv_Workers m ! j)"
      by (rule worker_ok_time[OF _ old(1)]) (use old(2) time False in auto)
    then show ?thesis
      using others[OF j False] owner[OF False] old(2) False th(1) by auto
  qed
  ultimately show ?thesis using len step by (simp add: movement_inv_def)
qed

lemma inv_control:
  assumes inv: "movement_inv ess m" and i: "i < length ess"
    and same: "mv_Threads m' = mv_Threads m" "mv_Process m' = mv_Process m"
    and len: "length (mv_Workers m') = length ess"
    and others: "\<And>j. j < length ess \<Longrightarrow> j \<noteq> i \<Longrightarrow>
        mv_Workers m' ! j = mv_Workers m ! j \<or> mv_Workers m' ! j = wake (mv_Workers m ! j)"
    and owner: "\<And>j. j \<noteq> i \<Longrightarrow> mv_Owner m' = Some j \<longleftrightarrow> mv_Owner m = Some j"
    and idle: "\<not> in_block (mv_Workers m ! i)"
    and me: "worker_ok (mv_Threads m ! i) (ps_ProcessTime (mv_Process m)) (mv_Workers m' ! i)"
      "holds_lock (mv_Workers m' ! i) \<longleftrightarrow> mv_Owner m' = Some i"
  shows "movement_inv ess m'"
proof -
  have L: "length (mv_Threads m) = length ess" and E: "th_Events (mv_Threads m ! i) = ess ! i"
    and S: "in_step m"
    using inv i by (auto simp: movement_inv_def dest: arg_cong[of _ _ length])
  have "in_time (mv_Threads m ! j) (ps_ProcessTime (mv_Process m)) (in_block (mv_Workers m' ! j))"
    if j: "j < length ess" for j
  proof (cases "j = i")
    case True
    with in_step_at[OF S, of i] idle i L show ?thesis by (auto intro: in_time_idle)
  next
    case False
    with others[OF j] in_step_at[OF S, of j] j L show ?thesis by auto
  qed
  then have "in_step m'" using same L by (simp add: in_step_def)
  then show ?thesis
    using inv_update[OF inv i, of m' "mv_Threads m ! i"] i same len others owner me E by simp
qed

lemma inv_worker:
  assumes "movement_inv ess m" and "i < length ess"
  shows "worker_ok (mv_Threads m ! i) (ps_ProcessTime (mv_Process m)) (mv_Workers m ! i)"
    and "holds_lock (mv_Workers m ! i) \<longleftrightarrow> mv_Owner m = Some i"
    and "length (mv_Workers m) = length ess" and "length (mv_Threads m) = length ess"
    and "th_Events (mv_Threads m ! i) = ess ! i"
  using assms by (auto simp: movement_inv_def dest: arg_cong[of _ _ length])

lemma unlocked_start [simp]: "unlocked th (th_NextEvent th)"
  by (auto simp: unlocked_def untimed_def)

lemma inv_bound:
  assumes "movement_inv ess m" and "i < length ess"
  shows "th_NextEvent (mv_Threads m ! i) \<le> length (th_Events (mv_Threads m ! i))"
  using inv_worker(1)[OF assms] by (simp add: worker_ok_def)

lemma release_simps [simp]:
  "mv_Threads (release i m) = mv_Threads m" "mv_Process (release i m) = mv_Process m"
  "mv_Workers (release i m) = mv_Workers m"
  "mv_Owner (release i m) = (if mv_Owner m = Some i then None else mv_Owner m)"
  "mv_MovementComplete (release i m) = mv_MovementComplete m"
  "mv_PredicateWasSatisfied (release i m) = mv_PredicateWasSatisfied m"
  by (simp_all add: release_def)

lemma control_steps:
  assumes inv: "movement_inv ess m" and i: "i < length ess" and idle: "\<not> in_block (mv_Workers m ! i)"
  shows "next_round i m = Go m' \<Longrightarrow> movement_inv ess m'"
    and "satisfied i m = Go m' \<Longrightarrow> movement_inv ess m'"
    and "\<not> holds_lock pc \<Longrightarrow> worker_ok (mv_Threads m ! i) (ps_ProcessTime (mv_Process m)) pc \<Longrightarrow>
          movement_inv ess (set_worker i pc (release i m))"
  subgoal
    using inv_worker[OF inv i] i
    by (intro inv_control[OF inv i _ _ _ _ _ idle])
      (auto simp: next_round_def set_worker_def worker_ok_def holds_lock_def)
  subgoal
    using inv_worker[OF inv i] i
    by (intro inv_control[OF inv i _ _ _ _ _ idle])
      (auto simp: satisfied_def set_worker_def worker_ok_def holds_lock_def notify_all_def release_def)
  subgoal
    using inv_worker[OF inv i] i
    by (intro inv_control[OF inv i _ _ _ _ _ idle]) (auto simp: set_worker_def)
  done

section \<open>Adding an event\<close>

text \<open>The time of an added event: no other thread has an event of that time, and none is skipped.\<close>

lemma in_time_add:
  assumes old: "in_time th now busy" and tl: "timeline ess" and i: "i < length ess" and ev: "th_Events th = ess ! i"
    and p: "th_NextEvent th < length (ess ! i)" and e: "e = ess ! i ! th_NextEvent th"
    and ready: "\<And>t. shared_time e = Some t \<Longrightarrow> t - 1 \<le> now"
    and th': "th_Events th' = ess ! i" "th_NextEvent th' = th_NextEvent th + 1"
  shows "in_time th' (time_after_event e now) (busy \<or> shared_time e \<noteq> None)"
proof (cases "shared_time e")
  case None
  then have none: "shared_time (ess ! i ! th_NextEvent th) = None" using e by simp
  show ?thesis
  proof (rule in_timeI)
    fix k s assume k: "k < length (th_Events th')" "shared_time (th_Events th' ! k) = Some s"
    have "k \<noteq> th_NextEvent th" using none k th' by auto
    moreover have k': "k < length (th_Events th)" "shared_time (th_Events th ! k) = Some s" using k th' ev by simp_all
    ultimately show "k < th_NextEvent th' \<Longrightarrow> s \<le> time_after_event e now"
      and "th_NextEvent th' \<le> k \<Longrightarrow> time_after_event e now < s \<or> (busy \<or> shared_time e \<noteq> None) \<and> s = time_after_event e now"
      using in_time_added[OF old k'] in_time_not_added[OF old k'] th' None by (auto simp: time_after_event_def)
  qed
next
  case (Some t)
  have mono: "s \<le> u" if "a < b" "b < length (ess ! i)" "shared_time (ess ! i ! a) = Some s"
    "shared_time (ess ! i ! b) = Some u" for a b s u
    using timeline_mono[OF tl i that] .
  have "t = now \<or> now < t" using in_time_not_added[OF old, of "th_NextEvent th" t] p Some ev e by auto
  then have le: "now \<le> t" by auto
  have "s \<le> t" if "k < length (ess ! i)" "shared_time (ess ! i ! k) = Some s" "k < th_NextEvent th + 1" for k s
    using that Some e le in_time_added[OF old, of k s] ev by (auto simp: less_Suc_eq)
  moreover have "t < s \<or> s = t" if "k < length (ess ! i)" "shared_time (ess ! i ! k) = Some s" "th_NextEvent th + 1 \<le> k" for k s
    using mono[of "th_NextEvent th" k t s] that Some e by auto
  ultimately show ?thesis using th' Some by (intro in_timeI) (auto simp: time_after_event_def)
qed

lemma in_time_other:
  assumes old: "in_time th now False" and tl: "timeline ess" and ij: "i < length ess" "j < length ess" "i \<noteq> j"
    and ev: "th_Events th = ess ! j" and p: "p < length (ess ! i)" and le: "now \<le> time_after_event (ess ! i ! p) now"
    and ready: "\<And>t. shared_time (ess ! i ! p) = Some t \<Longrightarrow> t - 1 \<le> now"
  shows "in_time th (time_after_event (ess ! i ! p) now) False"
proof (cases "shared_time (ess ! i ! p)")
  case None
  with old show ?thesis by (simp add: time_after_event_def)
next
  case (Some t)
  then have t: "t - 1 \<le> now" "now \<le> t" using ready le by (auto simp: time_after_event_def)
  have nz: "t \<noteq> 0" by (rule timeline_nonzero[OF tl ij(1) p Some])
  have other: "s \<noteq> t" if "k < length (ess ! j)" "shared_time (ess ! j ! k) = Some s" for k s
  proof
    assume "s = t"
    with that have "shared_time (ess ! j ! k) = Some t" by simp
    from timeline_unique[OF tl ij(1) p ij(2) that(1) Some this] have "i = j" ..
    with ij(3) show False ..
  qed
  have "in_time th t False"
  proof (rule in_timeI)
    fix k s assume k: "k < length (th_Events th)" "shared_time (th_Events th ! k) = Some s" "k < th_NextEvent th"
    from in_time_added[OF old k] t(2) show "s \<le> t" by simp
  next
    fix k s assume k: "k < length (th_Events th)" "shared_time (th_Events th ! k) = Some s" "th_NextEvent th \<le> k"
    from in_time_not_added[OF old k] have "now < s" by simp
    moreover have "s \<noteq> t" using other[of k s] k ev by simp
    ultimately show "t < s \<or> False \<and> s = t" using t nz by uint_arith
  qed
  with Some show ?thesis by (simp add: time_after_event_def)
qed

lemma untimed_extend: "untimed es r p \<Longrightarrow> p < length es \<Longrightarrow> ev_ProcessTime (es ! p) = None \<Longrightarrow> untimed es r (p + 1)"
  by (auto simp: untimed_def less_Suc_eq)

lemma shared_ready:
  assumes tl: "timeline ess" and i: "i < length ess" and ev: "th_Events th = ess ! i"
    and p: "th_NextEvent th < length (ess ! i)" and ok: "may_add now th"
    and t: "shared_time (ess ! i ! th_NextEvent th) = Some t"
  shows "t - 1 \<le> now"
  using ok unfolding may_add_def
proof
  assume "\<exists>u. th_NextEvent th < length (th_Events th) \<and> forward_wait (th_Events th ! th_NextEvent th) = Some u \<and> u \<le> now"
  then show ?thesis using t ev by (auto simp: forward_wait_def shared_time_def split: if_splits)
next
  assume "\<exists>q s. same_block (th_Events th) q (th_NextEvent th) \<and> untimed (th_Events th) (q + 1) (th_NextEvent th) \<and>
        ev_ProcessTime (th_Events th ! q) = Some s \<and> s \<le> now"
  then obtain q s where q: "same_block (ess ! i) q (th_NextEvent th)" "untimed (ess ! i) (q + 1) (th_NextEvent th)"
    "ev_ProcessTime (ess ! i ! q) = Some s" "s \<le> now" using ev by auto
  have "t - 1 \<le> s" by (rule timeline_next[OF tl i q(1-3) t])
  with q(4) show ?thesis by simp
qed

text \<open>After an event has been added with the lock held, the rest of its block may follow.\<close>

lemma may_add_next:
  assumes ok: "may_add now th" and e: "event_at th (th_NextEvent th) = Some e"
    and th': "th_Events th' = th_Events th" "th_NextEvent th' = th_NextEvent th + 1"
    and more: "event_ref th' (th_NextEvent th') = Some e'" "\<not> is_block_start e'" "th_NextEvent th' \<noteq> length (th_Events th')"
    and now': "now' = time_after_event e now" and mono: "now \<le> now'"
  shows "may_add now' th'"
proof -
  let ?p = "th_NextEvent th" and ?es = "th_Events th"
  have p: "?p < length ?es" "?es ! ?p = e" using e by (auto simp: event_at_def split: if_splits)
  have p': "?p + 1 < length ?es" "?es ! (?p + 1) = e'"
    using more(1,3) th' p(1) by (auto simp: event_ref_def split: if_splits)
  have blk: "same_block ?es ?p (?p + 1)" using p' more(2) by (auto simp: same_block_def le_Suc_eq)
  show ?thesis
  proof (cases "ev_ProcessTime e")
    case (Some s)
    have "s \<le> now'"
    proof (cases "modifies_shared_state e")
      case True
      then show ?thesis using Some now' by (simp add: time_after_event_def shared_time_def)
    next
      case False
      from ok show ?thesis unfolding may_add_def
      proof
        assume "\<exists>t. ?p < length ?es \<and> forward_wait (?es ! ?p) = Some t \<and> t \<le> now"
        then show ?thesis using Some False p mono by (auto simp: forward_wait_def)
      next
        assume "\<exists>q s. same_block ?es q ?p \<and> untimed ?es (q + 1) ?p \<and> ev_ProcessTime (?es ! q) = Some s \<and> s \<le> now"
        then have "\<not> is_block_start e" using p by (auto simp: same_block_def)
        then show ?thesis
          using Some False by (cases e) (auto simp: is_block_start_def modifies_shared_state_def is_instruction_def)
      qed
    qed
    then show ?thesis
      using blk Some p th' by (auto simp: may_add_def untimed_def intro!: exI[of _ ?p])
  next
    case None
    then have "now' = now" using now' by (simp add: time_after_event_def shared_time_def)
    moreover from ok None p obtain q s where q: "same_block ?es q ?p" "untimed ?es (q + 1) ?p"
      "ev_ProcessTime (?es ! q) = Some s" "s \<le> now"
      by (auto simp: may_add_def forward_wait_def)
    moreover have "same_block ?es q (?p + 1)" using q(1) blk by (auto simp: same_block_def le_Suc_eq)
    moreover have "untimed ?es (q + 1) (?p + 1)" using untimed_extend[OF q(2) p(1)] None p(2) by simp
    ultimately show ?thesis using th' by (auto simp: may_add_def)
  qed
qed

lemma pending_next:
  assumes ok: "pending now th" and tl: "timeline ess" and i: "i < length ess" and ev: "th_Events th = ess ! i"
    and p: "th_NextEvent th < length (ess ! i)" and e: "e = ess ! i ! th_NextEvent th"
    and th': "th_Events th' = th_Events th" "th_NextEvent th' = th_NextEvent th + 1"
  shows "pending (time_after_event e now) th'"
  unfolding pending_def
proof (intro allI impI)
  fix k assume k: "th_NextEvent th' \<le> k" "k < length (th_Events th')"
    and t: "shared_time (th_Events th' ! k) = Some (time_after_event e now)"
  show "\<exists>q < th_NextEvent th'. same_block (th_Events th') q k"
  proof (cases "shared_time e")
    case None
    then have "shared_time (th_Events th ! k) = Some now" using t th' by (simp add: time_after_event_def)
    with ok k th' obtain q where "q < th_NextEvent th" "same_block (th_Events th) q k"
      unfolding pending_def by (metis Suc_eq_plus1 Suc_leD)
    then show ?thesis using th' by (intro exI[of _ q]) simp
  next
    case (Some u)
    then have "shared_time (ess ! i ! th_NextEvent th) = Some u" "shared_time (ess ! i ! k) = Some u"
      using t th' e ev by (simp_all add: time_after_event_def)
    moreover have "k < length (ess ! i)" "th_NextEvent th < k" using k th' ev by simp_all
    ultimately have "same_block (ess ! i) (th_NextEvent th) k" using timeline_unique[OF tl i p i] by blast
    then show ?thesis using th' ev by (intro exI[of _ "th_NextEvent th"]) simp
  qed
qed

lemma block_end_settled:
  assumes ok: "pending now th" and T: "in_time th now True"
    and e': "event_ref th (th_NextEvent th) = Some e'" "is_block_start e' \<or> th_NextEvent th = length (th_Events th)"
  shows "in_time th now False"
proof (rule in_timeI)
  fix k s assume k: "k < length (th_Events th)" "shared_time (th_Events th ! k) = Some s" "th_NextEvent th \<le> k"
  have "s \<noteq> now"
  proof
    assume "s = now"
    with ok k obtain q where q: "q < th_NextEvent th" "same_block (th_Events th) q k" unfolding pending_def by blast
    then have "\<not> is_block_start (th_Events th ! th_NextEvent th)" using k(3) by (simp add: same_block_def)
    then show False using e' k by (auto simp: event_ref_def split: if_splits)
  qed
  with in_time_not_added[OF T k] show "now < s \<or> False \<and> s = now" by simp
next
  fix k s assume "k < length (th_Events th)" "shared_time (th_Events th ! k) = Some s" "k < th_NextEvent th"
  from in_time_added[OF T this] show "s \<le> now" .
qed

lemma add_in_block_inv:
  assumes inv: "movement_inv ess m" and tl: "timeline ess" and i: "i < length ess"
    and pc: "mv_Workers m ! i = InBlock r held"
    and unheld: "\<And>e. \<not> held \<Longrightarrow> event_at (mv_Threads m ! i) (th_NextEvent (mv_Threads m ! i)) = Some e \<Longrightarrow> ev_ProcessTime e = None"
    and f: "add_in_block env i r held m = Go m'"
  shows "movement_inv ess m'"
proof -
  let ?th = "mv_Threads m ! i" and ?ps = "mv_Process m"
  let ?p = "th_NextEvent ?th" and ?P = "ps_ProcessTime ?ps"
  note W = inv_worker[OF inv i]
  obtain w where w: "addNextEvent env (?ps, ?th) = Some w"
    using f by (cases "addNextEvent env (?ps, ?th)") (simp_all add: add_in_block_def thread_of_def)
  obtain e' where e': "event_ref (snd w) (th_NextEvent (snd w)) = Some e'"
    using f w by (cases "event_ref (snd w) (th_NextEvent (snd w))") (simp_all add: add_in_block_def thread_of_def Let_def)
  have m': "m' = set_worker i (if is_block_start e' \<or> th_NextEvent (snd w) = length (th_Events (snd w))
        then AfterBlock True held else InBlock r held) (set_thread i w m)"
    using f w e' by (auto simp: add_in_block_def thread_of_def Let_def split: if_splits)
  from addNextEvent_effect[OF w] obtain e where e: "event_at ?th ?p = Some e"
    and th': "th_Events (snd w) = th_Events ?th" "th_NextEvent (snd w) = ?p + 1"
    and P': "ps_ProcessTime (fst w) = time_after_event e ?P" .
  have p: "?p < length (ess ! i)" "ess ! i ! ?p = e" using e W(5) by (auto simp: event_at_def split: if_splits)
  have ok: "if held then may_add ?P ?th \<and> pending ?P ?th else unlocked ?th r"
    using W(1) pc by (simp add: worker_ok_def split: if_splits)
  have none: "ev_ProcessTime e = None" if "\<not> held" using unheld[OF that e] .
  have ready: "t - 1 \<le> ?P" if "shared_time (ess ! i ! ?p) = Some t" for t
  proof (cases held)
    case True
    then show ?thesis using shared_ready[OF tl i W(5) p(1) _ that] ok by simp
  next
    case False
    then show ?thesis using none that p(2) by (simp add: shared_time_def split: if_splits)
  qed
  let ?pc = "if is_block_start e' \<or> th_NextEvent (snd w) = length (th_Events (snd w))
        then AfterBlock True held else InBlock r held"
  have S: "in_step m" using inv by (simp add: movement_inv_def)
  have T: "in_time ?th ?P held" using in_step_at[OF S, of i] pc W(4) i by (simp add: in_block_def)
  have quiet: "\<not> held \<Longrightarrow> shared_time e = None" using none by (simp add: shared_time_def)
  have busy: "(held \<or> shared_time e \<noteq> None) = held" using quiet by (cases held) simp_all
  have T1: "in_time (snd w) (ps_ProcessTime (fst w)) held"
    using in_time_add[OF T tl i W(5) p(1) p(2)[symmetric], of "snd w"] ready p(2) th' W(5) P' busy by simp
  have mono: "?P \<le> ps_ProcessTime (fst w)"
  proof (cases "shared_time e")
    case (Some t)
    then have "?P < t \<or> t = ?P" using in_time_not_added[OF T, of ?p t] p W(5) by auto
    then show ?thesis using P' Some by (auto simp: time_after_event_def)
  qed (use P' in \<open>simp add: time_after_event_def\<close>)
  have pend: "held \<Longrightarrow> pending (ps_ProcessTime (fst w)) (snd w)"
    using pending_next[OF _ tl i W(5) p(1) p(2)[symmetric] th'] ok P' by simp
  have T2: "in_time (snd w) (ps_ProcessTime (fst w)) (in_block ?pc)"
  proof (cases "is_block_start e' \<or> th_NextEvent (snd w) = length (th_Events (snd w))")
    case True
    have "in_time (snd w) (ps_ProcessTime (fst w)) False"
      using block_end_settled[OF pend _ e' True] T1 by (cases held) simp_all
    then show ?thesis by (rule in_time_idle)
  next
    case False
    then show ?thesis using T1 by (simp add: in_block_def)
  qed
  have me: "worker_ok (snd w) (ps_ProcessTime (fst w)) ?pc"
  proof (cases "is_block_start e' \<or> th_NextEvent (snd w) = length (th_Events (snd w))")
    case True
    then show ?thesis using th' p W(5) by (simp add: worker_ok_def)
  next
    case False
    have bound: "?p + 1 \<le> length (th_Events ?th)" using p W(5) by simp
    show ?thesis
    proof (cases held)
      case True
      with ok may_add_next[OF _ e th' e' _ _ P' mono] pend False bound th' show ?thesis by (simp add: worker_ok_def)
    next
      case nh: False
      have "untimed (th_Events ?th) r (?p + 1)"
        using untimed_extend[of "th_Events ?th" r ?p] ok nh none p W(5) by (simp add: unlocked_def)
      moreover have "?p + 1 < length (th_Events ?th)" using False th' p W(5) by simp
      ultimately show ?thesis using nh False th' ok by (simp add: worker_ok_def unlocked_def)
    qed
  qed
  have others: "in_time (mv_Threads m ! j) (ps_ProcessTime (fst w)) (in_block (mv_Workers m ! j))"
    if j: "j < length ess" "j \<noteq> i" for j
  proof (cases "held")
    case False
    then show ?thesis using in_step_at[OF S, of j] j W(4) P' quiet by (simp add: time_after_event_def)
  next
    case True
    then have "mv_Owner m = Some i" using W(2) pc by (simp add: holds_lock_def)
    then have "\<not> in_block (mv_Workers m ! j)"
      using inv_worker(2)[OF inv j(1)] j(2) by (cases "mv_Workers m ! j") (auto simp: in_block_def holds_lock_def)
    then show ?thesis
      using in_time_other[OF _ tl i j(1) j(2)[symmetric] inv_worker(5)[OF inv j(1)] p(1), of ?P] in_step_at[OF S, of j]
        j W(4) mono P' ready p(2) by simp
  qed
  show ?thesis
  proof (rule inv_update[OF inv i, where th' = "snd w"])
    have len: "length (mv_Threads m') = length ess" and pr: "mv_Process m' = fst w"
      using W(4) by (simp_all add: m' set_worker_def set_thread_def)
    show "in_step m'"
      unfolding in_step_def len pr
    proof (intro allI impI)
      fix j assume j: "j < length ess"
      show "in_time (mv_Threads m' ! j) (ps_ProcessTime (fst w)) (in_block (mv_Workers m' ! j))"
        using T2 others[OF j] j W(3,4) i
        by (cases "j = i") (simp_all add: m' set_worker_def set_thread_def del: if_split)
    qed
    show "ps_ProcessTime (mv_Process m') = ?P \<or> mv_Owner m = Some i"
      using W(2) pc none P' by (auto simp: m' set_worker_def set_thread_def holds_lock_def time_after_event_def shared_time_def)
    show "worker_ok (snd w) (ps_ProcessTime (mv_Process m')) (mv_Workers m' ! i)"
      using me i W(3) by (simp add: m' set_worker_def set_thread_def)
    show "holds_lock (mv_Workers m' ! i) = (mv_Owner m' = Some i)"
      using i W(2,3) pc by (simp add: m' set_worker_def set_thread_def holds_lock_def)
  qed (use th' W m' i in \<open>simp_all add: set_worker_def set_thread_def\<close>)
qed

section \<open>The other steps\<close>

lemma wait_check_inv:
  assumes inv: "movement_inv ess m" and i: "i < length ess"
    and w: "waits_for (mv_Threads m ! i) r t" and f: "wait_check forward_ready i r t m = Go m'"
  shows "movement_inv ess m'"
proof -
  note W = inv_worker[OF inv i] and B = inv_bound[OF inv i]
  have free: "mv_Owner m = None" using f by (simp add: wait_check_def split: if_splits)
  have K: "movement_inv ess (set_worker i pc (m\<lparr>mv_Owner := (if holds_lock pc then Some i else None)\<rparr>))"
    if "worker_ok (mv_Threads m ! i) (ps_ProcessTime (mv_Process m)) pc" for pc
    using that W i free in_block_holds by (intro inv_control[OF inv i]) (auto simp: set_worker_def)
  have same: "m\<lparr>mv_Owner := None\<rparr> = m" using free by simp
  from f free consider "m' = set_worker i (Undoing r) m"
    | "t \<le> ps_ProcessTime (mv_Process m)" "m' = set_worker i (InBlock r True) (m\<lparr>mv_Owner := Some i\<rparr>)"
    | "m' = set_worker i (FallingAsleep r t) (m\<lparr>mv_Owner := Some i\<rparr>)"
    by (auto simp: wait_check_def forward_ready_def split: if_splits)
  then show ?thesis
  proof cases
    case 1
    with w B K[of "Undoing r"] same show ?thesis by (simp add: worker_ok_def holds_lock_def waits_for_def)
  next
    case 2
    have "\<not> in_block (mv_Workers m ! i)" using W(2) free in_block_holds[of "mv_Workers m ! i"] by auto
    then have "in_time (mv_Threads m ! i) (ps_ProcessTime (mv_Process m)) False"
      using in_step_at[of m i] inv W i by (simp add: movement_inv_def)
    then have "pending (ps_ProcessTime (mv_Process m)) (mv_Threads m ! i)"
      unfolding pending_def using in_time_pending by blast
    with 2 w B K[of "InBlock r True"] show ?thesis
      by (auto simp: worker_ok_def holds_lock_def waits_for_def may_add_def)
  next
    case 3
    with w B K[of "FallingAsleep r t"] show ?thesis by (simp add: worker_ok_def holds_lock_def)
  qed
qed

lemma fall_asleep_inv:
  assumes inv: "movement_inv ess m" and i: "i < length ess"
    and pc: "mv_Workers m ! i = FallingAsleep r t" and f: "fall_asleep i r t m = Go m'"
  shows "movement_inv ess m'"
  using control_steps(3)[OF inv i _, of "Asleep r t"] inv_worker(1)[OF inv i] pc f
  by (simp add: fall_asleep_def worker_ok_def holds_lock_def in_block_def)

lemma undo_added_inv:
  assumes inv: "movement_inv ess m" and i: "i < length ess"
    and pc: "mv_Workers m ! i = Undoing r" and f: "undo_added env i r m = Go m'"
  shows "movement_inv ess m'"
proof (cases "th_NextEvent (mv_Threads m ! i) = r")
  case True
  have "release i m = m" using inv_worker(2)[OF inv i] pc by (simp add: release_def holds_lock_def)
  with True f control_steps(3)[OF inv i _, of "AfterBlock False False"] inv_bound[OF inv i] pc show ?thesis
    by (simp add: undo_added_def worker_ok_def holds_lock_def in_block_def)
next
  case False
  let ?th = "mv_Threads m ! i"
  note W = inv_worker[OF inv i]
  obtain w where w: "removePreviousEvent env (mv_Process m, ?th) = Some w" "m' = set_thread i w m"
    using f False by (auto simp: undo_added_def thread_of_def split: option.splits)
  have u: "unlocked ?th r" using W(1) pc by (simp add: worker_ok_def)
  let ?p = "th_NextEvent ?th - 1"
  have p: "r \<le> ?p" "?p < th_NextEvent ?th" "?p < length (ess ! i)" "ev_ProcessTime (ess ! i ! ?p) = None"
    using u False W(5) by (auto simp: unlocked_def untimed_def)
  from removePreviousEvent_effect[OF w(1), of "ess ! i ! ?p"] p W(5)
  have w': "th_Events (snd w) = ess ! i" "th_NextEvent (snd w) = ?p"
    "ps_ProcessTime (fst w) = ps_ProcessTime (mv_Process m)"
    by (auto simp: event_at_def)
  have S: "in_step m" using inv by (simp add: movement_inv_def)
  have own: "in_time (snd w) (ps_ProcessTime (mv_Process m)) False"
  proof (rule in_timeI)
    have T: "in_time ?th (ps_ProcessTime (mv_Process m)) False"
      using in_step_at[OF S, of i] pc W(4) i by (simp add: in_block_def)
    fix k s assume k: "k < length (th_Events (snd w))" "shared_time (th_Events (snd w) ! k) = Some s"
    then have "k \<noteq> ?p" using w' p(4) by (auto simp: shared_time_def split: if_splits)
    moreover have k': "k < length (th_Events ?th)" "shared_time (th_Events ?th ! k) = Some s" using k w' W(5) by simp_all
    ultimately show "k < th_NextEvent (snd w) \<Longrightarrow> s \<le> ps_ProcessTime (mv_Process m)"
      and "th_NextEvent (snd w) \<le> k \<Longrightarrow> ps_ProcessTime (mv_Process m) < s \<or> False \<and> s = ps_ProcessTime (mv_Process m)"
      using in_time_added[OF T k'] in_time_not_added[OF T k'] w' p(2) by auto
  qed
  have "in_step m'"
    unfolding in_step_def
  proof (intro allI impI)
    fix j assume j: "j < length (mv_Threads m')"
    show "in_time (mv_Threads m' ! j) (ps_ProcessTime (mv_Process m')) (in_block (mv_Workers m' ! j))"
      using own in_step_at[OF S, of j] j w w' W(4) i
      by (cases "j = i") (auto simp: set_thread_def intro: in_time_idle)
  qed
  moreover have "worker_ok (snd w) (ps_ProcessTime (mv_Process m)) (Undoing r)"
    using u p w' W(5) by (auto simp: worker_ok_def unlocked_def untimed_def)
  ultimately show ?thesis
    by (intro inv_update[OF inv i, where th' = "snd w"]) (use w w' W pc i in \<open>auto simp: set_thread_def\<close>)
qed

definition count_moved :: "bool \<Rightarrow> Movement \<Rightarrow> Movement" where
  "count_moved moved m = (if moved then m\<lparr>mv_Moved := True\<rparr> else m)"

lemma count_moved_simps [simp]:
  "mv_Threads (count_moved b m) = mv_Threads m" "mv_Process (count_moved b m) = mv_Process m"
  "mv_Workers (count_moved b m) = mv_Workers m" "mv_Owner (count_moved b m) = mv_Owner m"
  "mv_MovementComplete (count_moved b m) = mv_MovementComplete m"
  "mv_PredicateWasSatisfied (count_moved b m) = mv_PredicateWasSatisfied m"
  by (simp_all add: count_moved_def)

lemma after_block_cases:
  assumes f: "after_block pp tps i moved held m = Go m'"
  obtains (complete) "mv_MovementComplete m" "m' = set_worker i Exited (release i (count_moved moved m))"
    | (satisfied) "satisfied i (count_moved moved m) = Go m'"
    | (again) "next_round i (count_moved moved m) = Go m'"
proof -
  let ?m = "count_moved moved m"
  have T: "try_thread_predicate (tps ! i) i ?m = Go m' \<Longrightarrow> satisfied i ?m = Go m' \<or> next_round i ?m = Go m'"
    by (auto simp: try_thread_predicate_def split: if_splits option.splits)
  from f have "after_block pp tps i moved held m = Go m'" .
  then consider "mv_MovementComplete ?m" "m' = set_worker i Exited (release i ?m)"
    | "satisfied i ?m = Go m'" | "next_round i ?m = Go m'"
    using T unfolding after_block_def Let_def count_moved_def[symmetric]
    by (cases "mv_MovementComplete ?m"; cases "if held then pp else None") (auto split: option.splits if_splits)
  then show ?thesis using that by cases simp_all
qed

lemma after_block_inv:
  assumes inv: "movement_inv ess m" and i: "i < length ess" and pc: "mv_Workers m ! i = AfterBlock moved held"
    and f: "after_block pp tps i moved held m = Go m'"
  shows "movement_inv ess m'"
proof -
  have idle: "\<not> in_block (mv_Workers (count_moved moved m) ! i)" using pc by (simp add: in_block_def)
  have I: "movement_inv ess (count_moved moved m)"
    using inv by (simp add: movement_inv_def in_step_def)
  from f show ?thesis
    using control_steps(1,2)[OF I i idle] control_steps(3)[OF I i idle, of Exited] inv_bound[OF inv i]
    by (cases rule: after_block_cases) (simp_all add: worker_ok_def holds_lock_def)
qed

lemma forward_step_inv:
  assumes inv: "movement_inv ess m" and tl: "timeline ess" and i: "i < length ess"
    and f: "forward_step env pp tps i m = Go m'"
  shows "movement_inv ess m'"
proof (cases "mv_Workers m ! i")
  case AtLoop
  then have "release i m = m" using inv_worker(2)[OF inv i] by (simp add: release_def holds_lock_def)
  moreover have "th_NextEvent (mv_Threads m ! i) \<le> length (th_Events (mv_Threads m ! i))"
    using inv_worker(1)[OF inv i] by (simp add: worker_ok_def)
  ultimately show ?thesis
    using AtLoop f control_steps(3)[OF inv i _, of Exited]
      control_steps(3)[OF inv i _, of "InBlock (th_NextEvent (mv_Threads m ! i)) False"]
    by (auto simp: forward_step_def Let_def holds_lock_def worker_ok_def in_block_def split: if_splits)
next
  case (InBlock r held)
  let ?th = "mv_Threads m ! i"
  have f': "addNextEventBlock env i r held m = Go m'" using f InBlock by (simp add: forward_step_def)
  have ok: "worker_ok ?th (ps_ProcessTime (mv_Process m)) (InBlock r held)"
    using inv_worker(1)[OF inv i] InBlock by simp
  show ?thesis
  proof (cases held)
    case True
    with f' have "add_in_block env i r held m = Go m'" by (auto simp: addNextEventBlock_def Let_def split: option.splits)
    from add_in_block_inv[OF inv tl i InBlock _ this] True show ?thesis by simp
  next
    case False
    with ok have u: "unlocked ?th r" "th_NextEvent ?th < length (th_Events ?th)" by (simp_all add: worker_ok_def)
    let ?e = "th_Events ?th ! th_NextEvent ?th"
    have e: "event_ref ?th (th_NextEvent ?th) = Some ?e" "event_at ?th (th_NextEvent ?th) = Some ?e"
      using u by (simp_all add: event_ref_def event_at_def)
    show ?thesis
    proof (cases "forward_wait ?e")
      case None
      then have "add_in_block env i r held m = Go m'" using f' e False by (simp add: addNextEventBlock_def)
      from add_in_block_inv[OF inv tl i InBlock _ this] None e show ?thesis by (auto simp: forward_wait_def)
    next
      case (Some t)
      then have "wait_check forward_ready i r t m = Go m'" using f' e False by (simp add: addNextEventBlock_def)
      then show ?thesis using wait_check_inv[OF inv i] u Some by (simp add: waits_for_def)
    qed
  qed
next
  case (Woken r t)
  then show ?thesis
    using f wait_check_inv[OF inv i, of r t] inv_worker(1)[OF inv i] by (simp add: forward_step_def worker_ok_def)
next
  case (FallingAsleep r t)
  then show ?thesis using f fall_asleep_inv[OF inv i] by (simp add: forward_step_def)
next
  case (Undoing r)
  then show ?thesis using f undo_added_inv[OF inv i] by (simp add: forward_step_def)
next
  case (AfterBlock moved held)
  then show ?thesis using f after_block_inv[OF inv i AfterBlock] by (simp add: forward_step_def)
qed (use f in \<open>simp_all add: forward_step_def\<close>)

lemma spurious_inv:
  assumes inv: "movement_inv ess m" and i: "i < length ess" and pc: "mv_Workers m ! i = Asleep r t"
  shows "movement_inv ess (set_worker i (Woken r t) m)"
proof -
  have "release i m = m" using inv_worker(2)[OF inv i] pc by (simp add: release_def holds_lock_def)
  then show ?thesis
    using control_steps(3)[OF inv i _, of "Woken r t"] inv_worker(1)[OF inv i] pc
    by (simp add: worker_ok_def holds_lock_def in_block_def)
qed

section \<open>Invariants of the workers\<close>

text \<open>What every worker keeps holds of every movement.\<close>

locale worker_invariant =
  fixes step :: "nat \<Rightarrow> Movement \<Rightarrow> attempt" and inv :: "Movement \<Rightarrow> bool"
  assumes worker_keeps: "inv m \<Longrightarrow> i < length (mv_Workers m) \<Longrightarrow> step i m = Go m' \<Longrightarrow> inv m'"
    and spurious_keeps: "inv m \<Longrightarrow> i < length (mv_Workers m) \<Longrightarrow> mv_Workers m ! i = Asleep r t \<Longrightarrow>
      inv (set_worker i (Woken r t) m)"
begin

lemma moves_keeps: "moves step m m' \<Longrightarrow> inv m \<Longrightarrow> inv m'"
  by (induction rule: moves.induct) (auto intro: worker_keeps spurious_keeps)

lemma reachable: "(moves step)\<^sup>*\<^sup>* m m' \<Longrightarrow> inv m \<Longrightarrow> inv m'"
  by (induction rule: rtranclp_induct) (auto intro: moves_keeps)

end

interpretation forward_order: worker_invariant "forward_step env pp tps"
    "\<lambda>m. timeline ess \<and> movement_inv ess m" for env pp tps ess
proof (unfold_locales, goal_cases)
  case (1 m i m')
  then show ?case using forward_step_inv[of ess m i] by (simp add: movement_inv_def)
next
  case (2 m i r t)
  then show ?case using spurious_inv[of ess m i r t] by (simp add: movement_inv_def)
qed

lemma start_inv:
  assumes "in_step (start_movement ps ths)" and "\<And>th. th \<in> set ths \<Longrightarrow> th_NextEvent th \<le> length (th_Events th)"
  shows "movement_inv (map th_Events ths) (start_movement ps ths)"
  using assms by (simp add: movement_inv_def start_movement_def worker_ok_def holds_lock_def)

text \<open>A finished worker is at its thread's end unless a predicate was satisfied.\<close>

definition exits_at :: "(ThreadState \<Rightarrow> nat) \<Rightarrow> Movement \<Rightarrow> bool" where
  "exits_at goal m \<longleftrightarrow> length (mv_Workers m) = length (mv_Threads m) \<and>
     mv_MovementComplete m = mv_PredicateWasSatisfied m \<and>
     (\<forall>i < length (mv_Threads m). mv_Workers m ! i = Exited \<longrightarrow>
        mv_PredicateWasSatisfied m \<or> th_NextEvent (mv_Threads m ! i) = goal (mv_Threads m ! i))"

lemma wake_Exited [simp]: "wake pc = Exited \<longleftrightarrow> pc = Exited"
  by (cases pc) (simp_all add: wake_def)

lemma nth_update: "j < length xs \<Longrightarrow> xs[i := x] ! j = (if j = i then x else xs ! j)"
  by (cases "j = i") simp_all

lemma exits_at_set:
  "exits_at goal m \<Longrightarrow> pc = Exited \<longrightarrow> th_NextEvent (mv_Threads m ! i) = goal (mv_Threads m ! i) \<Longrightarrow>
   exits_at goal (set_worker i pc m)"
  by (auto simp: exits_at_def set_worker_def nth_update split: if_splits)

lemma exits_at_owner [simp]: "exits_at goal (m\<lparr>mv_Owner := x\<rparr>) = exits_at goal m"
  "exits_at goal (release i m) = exits_at goal m" "exits_at goal (m\<lparr>mv_Moved := b\<rparr>) = exits_at goal m"
  by (simp_all add: exits_at_def release_def)

lemma exits_at_thread:
  "exits_at goal m \<Longrightarrow> mv_Workers m ! i \<noteq> Exited \<Longrightarrow> exits_at goal (set_thread i w m)"
  by (auto simp: exits_at_def set_thread_def nth_update split: if_splits)

lemma exits_at_wait:
  "exits_at goal m \<Longrightarrow> wait_check ready i r t m = Go m' \<Longrightarrow> exits_at goal m'"
  by (auto simp: wait_check_def split: if_splits intro!: exits_at_set)

lemma exits_at_satisfied: "exits_at goal m \<Longrightarrow> satisfied i m = Go m' \<Longrightarrow> exits_at goal m'"
  by (auto simp: satisfied_def exits_at_def set_worker_def notify_all_def release_def)

lemma exits_at_after:
  assumes e: "exits_at goal m" and f: "after_block pp tps i moved held m = Go m'"
  shows "exits_at goal m'"
proof -
  have I: "exits_at goal (count_moved moved m)" using e by (simp add: exits_at_def)
  from f show ?thesis
  proof (cases rule: after_block_cases)
    case complete
    with I show ?thesis by (simp add: exits_at_def set_worker_def)
  next
    case satisfied
    with exits_at_satisfied[OF I] show ?thesis .
  next
    case again
    with I show ?thesis by (auto simp: next_round_def intro!: exits_at_set)
  qed
qed

lemma exits_at_move:
  "exits_at goal m \<Longrightarrow> mv_Workers m ! i \<noteq> Exited \<Longrightarrow> pc \<noteq> Exited \<Longrightarrow>
   exits_at goal (set_worker i pc (set_thread i w m))"
  by (intro exits_at_set exits_at_thread) simp_all

lemma forward_step_exits:
  assumes e: "exits_at (\<lambda>th. length (th_Events th)) m" and f: "forward_step env pp tps i m = Go m'"
  shows "exits_at (\<lambda>th. length (th_Events th)) m'"
proof (cases "mv_Workers m ! i")
  case AtLoop
  with e f show ?thesis
    by (auto simp: forward_step_def Let_def split: if_splits intro!: exits_at_set)
next
  case (InBlock r held)
  with f have f': "addNextEventBlock env i r held m = Go m'" by (simp add: forward_step_def)
  show ?thesis
    using f' InBlock e
    by (auto simp: addNextEventBlock_def add_in_block_def Let_def thread_of_def split: option.splits if_splits
        intro: exits_at_wait exits_at_move)
next
  case (Undoing r)
  with e f show ?thesis
    by (auto simp: forward_step_def undo_added_def split: option.splits if_splits intro: exits_at_set exits_at_thread)
next
  case (FallingAsleep r t)
  with e f show ?thesis by (auto simp: forward_step_def fall_asleep_def intro!: exits_at_set)
next
  case (Woken r t)
  with e f show ?thesis by (auto simp: forward_step_def intro: exits_at_wait)
next
  case (AfterBlock moved held)
  with e f show ?thesis by (auto simp: forward_step_def intro: exits_at_after)
qed (use f in \<open>simp_all add: forward_step_def\<close>)

lemma backward_step_exits:
  assumes e: "exits_at (\<lambda>_. 0) m" and f: "backward_step env pp tps i m = Go m'"
  shows "exits_at (\<lambda>_. 0) m'"
proof (cases "mv_Workers m ! i")
  case AtLoop
  with e f show ?thesis
    by (auto simp: backward_step_def Let_def split: if_splits intro!: exits_at_set)
next
  case (InBlock r held)
  with f have f': "removePreviousEventBlock env i r held m = Go m'" by (simp add: backward_step_def)
  show ?thesis
    using f' InBlock e
    by (auto simp: removePreviousEventBlock_def remove_in_block_def Let_def thread_of_def split: option.splits if_splits
        intro: exits_at_wait exits_at_move)
next
  case (Undoing r)
  with e f show ?thesis
    by (auto simp: backward_step_def undo_removed_def split: option.splits if_splits intro: exits_at_set exits_at_thread)
next
  case (FallingAsleep r t)
  with e f show ?thesis by (auto simp: backward_step_def fall_asleep_def intro!: exits_at_set)
next
  case (Woken r t)
  with e f show ?thesis by (auto simp: backward_step_def intro: exits_at_wait)
next
  case (AfterBlock moved held)
  with e f show ?thesis by (auto simp: backward_step_def intro: exits_at_after)
qed (use f in \<open>simp_all add: backward_step_def\<close>)

interpretation forward_end: worker_invariant "forward_step env pp tps" "exits_at (\<lambda>th. length (th_Events th))"
  for env pp tps
  by unfold_locales (auto intro: forward_step_exits exits_at_set)

interpretation backward_end: worker_invariant "backward_step env pp tps" "exits_at (\<lambda>_. 0)" for env pp tps
  by unfold_locales (auto intro: backward_step_exits exits_at_set)

lemma exits_at_start [simp]: "exits_at goal (start_movement ps ths)"
  by (simp add: exits_at_def start_movement_def)

section \<open>A sleeping worker\<close>

lemma still_asleep:
  "mv_Workers m ! i = Asleep r t \<Longrightarrow> j \<noteq> i \<Longrightarrow> mv_Workers (set_worker j pc m) ! i = Asleep r t"
  by (simp add: set_worker_def)

lemma notify_completes: "satisfied j m = Go m' \<Longrightarrow> mv_MovementComplete m'"
  by (auto simp: satisfied_def set_worker_def notify_all_def release_def)

lemma after_block_asleep:
  assumes "after_block pp tps j moved held m = Go m'" and "mv_Workers m ! i = Asleep r t" and "j \<noteq> i"
  shows "mv_Workers m' ! i = Asleep r t \<or> mv_MovementComplete m'"
  using assms(1)
proof (cases rule: after_block_cases)
  case satisfied
  then show ?thesis using notify_completes by blast
qed (use assms in \<open>auto simp: next_round_def intro!: still_asleep\<close>)

lemma set_thread_workers [simp]: "mv_Workers (set_thread i w m) = mv_Workers m"
  by (simp add: set_thread_def)

lemma wait_check_asleep:
  "wait_check ready j q s m = Go m' \<Longrightarrow> mv_Workers m ! i = Asleep r t \<Longrightarrow> j \<noteq> i \<Longrightarrow> mv_Workers m' ! i = Asleep r t"
  by (auto simp: wait_check_def split: if_splits intro!: still_asleep)


section \<open>Two threads\<close>

text \<open>Two threads that each close a directory, the second thread first.\<close>

definition pair_env :: Env where
  "pair_env = \<lparr>env_Trace = \<lparr>pt_Data = [], pt_GlobalVariableAddresses = [], pt_GlobalVariableInitialData = [],
     pt_FunctionAddresses = [], pt_StreamsInitial = []\<rparr>, env_Functions = []\<rparr>"

definition pair_threads :: "ThreadState list" where
  "pair_threads = map (\<lambda>t. new_ThreadState [DirClose t 8 0] empty_ProcessState) [2, 1]"

definition pair_start :: Movement where
  "pair_start = start_movement empty_ProcessState pair_threads"

definition pair_run :: "nat list \<Rightarrow> Movement option" where
  "pair_run is = run_schedule (forward_step pair_env None [None, None]) is pair_start"

lemma pair_reaches: "pair_run is = Some m \<Longrightarrow> (moves (forward_step pair_env None [None, None]))\<^sup>*\<^sup>* pair_start m"
  by (simp add: pair_run_def schedule_reaches)

lemma pair_events: "map th_Events pair_threads = [[DirClose 2 8 0], [DirClose 1 8 0]]"
  by (simp add: pair_threads_def new_ThreadState_def)

lemma pair_time: "shared_time (DirClose t d n) = Some t"
  by (simp add: shared_time_def modifies_shared_state_def)

lemma pair_timeline: "timeline (map th_Events pair_threads)"
  by (auto simp: timeline_def pair_events pair_time less_Suc_eq same_block_def)

lemma pair_in_step: "in_step pair_start"
  by (auto simp: in_step_def in_time_def pair_start_def start_movement_def pair_threads_def new_ThreadState_def
      pair_time less_Suc_eq empty_ProcessState_def)

text \<open>The order that works: the second thread runs to its end, then the first.\<close>

lemma pair_good: "pair_run [1, 1, 1, 1, 1, 0, 0, 0, 0, 0] \<noteq> None"
  "movement_result ReachedEnd (the (pair_run [1, 1, 1, 1, 1, 0, 0, 0, 0, 0])) = ReachedEnd"
  "all_exited (the (pair_run [1, 1, 1, 1, 1, 0, 0, 0, 0, 0]))"
  by code_simp+

text \<open>The first thread tries first and falls asleep; the second then makes its time come.\<close>

definition pair_hung :: Movement where
  "pair_hung = the (pair_run [0, 0, 0, 1, 1, 1, 1, 1])"

lemma pair_hangs: "pair_run [0, 0, 0, 1, 1, 1, 1, 1] = Some pair_hung"
  "mv_Workers pair_hung = [Asleep 0 1, Exited]" "ps_ProcessTime (mv_Process pair_hung) = 1"
  by code_simp+


section \<open>Properties\<close>

text \<open>C18: The workers add the events that change the shared state in the order of their process
  times, whatever the schedule and however the movement ends: if the recorded times form a
  timeline and the process is in step with its threads at the start, then after any steps of
  the workers of \<open>moveForward\<close> every event up to the process's time has been added and no later
  one (only a worker inside a block that it adds under the lock may still have events of that
  same time to add), the traces are those of the start, and exactly the owner of the mutex is
  inside the critical section.\<close>

theorem shared_updates_in_order:
  assumes "timeline (map th_Events ths)" and "in_step (start_movement ps ths)"
    and "\<And>th. th \<in> set ths \<Longrightarrow> th_NextEvent th \<le> length (th_Events th)"
    and "(moves (forward_step env pp tps))\<^sup>*\<^sup>* (start_movement ps ths) m"
  shows "in_step m \<and> map th_Events (mv_Threads m) = map th_Events ths \<and>
    (\<forall>i < length ths. holds_lock (mv_Workers m ! i) \<longleftrightarrow> mv_Owner m = Some i)"
  using forward_order.reachable[OF assms(4), of "map th_Events ths"] start_inv[of ps ths] assms
  by (simp add: movement_inv_def)

lemma pair_bounds: "th \<in> set pair_threads \<Longrightarrow> th_NextEvent th \<le> length (th_Events th)"
  by (auto simp: pair_threads_def new_ThreadState_def)

theorem shared_updates_in_order_witness: "in_step pair_hung \<and> map th_Events (mv_Threads pair_hung) = map th_Events pair_threads"
  using shared_updates_in_order[OF pair_timeline pair_in_step[unfolded pair_start_def] pair_bounds
      pair_reaches[OF pair_hangs(1), unfolded pair_start_def]]
  by simp

text \<open>C19: If all workers of \<open>moveForward\<close> have returned and no predicate was satisfied, every thread
  is at the end of its trace; for \<open>moveBackward\<close>, every thread is at the beginning.\<close>

theorem unsatisfied_movement_completes:
  assumes "res \<noteq> PredicateSatisfied"
  shows "(mover_moveForward env pp tps ps ths res m \<longrightarrow>
       (\<forall>i < length (mv_Threads m). th_NextEvent (mv_Threads m ! i) = length (th_Events (mv_Threads m ! i)))) \<and>
    (mover_moveBackward env pp tps ps ths res m \<longrightarrow> (\<forall>i < length (mv_Threads m). th_NextEvent (mv_Threads m ! i) = 0))"
proof -
  have K: "\<forall>i < length (mv_Threads m). th_NextEvent (mv_Threads m ! i) = goal (mv_Threads m ! i)"
    if "exits_at goal m" "all_exited m" "res = movement_result r m" for goal r
    using that assms by (auto simp: exits_at_def all_exited_def movement_result_def list_all_length split: if_splits)
  show ?thesis
    using K[of "\<lambda>th. length (th_Events th)"] K[of "\<lambda>_. 0"]
      forward_end.reachable[of env pp tps "start_movement ps ths" m]
      backward_end.reachable[of env pp tps "start_movement ps ths" m]
    by (auto simp: mover_moveForward_def mover_moveBackward_def)
qed

theorem unsatisfied_movement_completes_witness:
  "th_NextEvent (mv_Threads (the (pair_run [1, 1, 1, 1, 1, 0, 0, 0, 0, 0])) ! 1) = 1"
proof -
  obtain m where m: "pair_run [1, 1, 1, 1, 1, 0, 0, 0, 0, 0] = Some m" using pair_good(1) by blast
  have two: "length (mv_Threads (the (pair_run [1, 1, 1, 1, 1, 0, 0, 0, 0, 0]))) = 2"
    and one: "length (th_Events (mv_Threads (the (pair_run [1, 1, 1, 1, 1, 0, 0, 0, 0, 0])) ! 1)) = 1"
    by code_simp+
  have "mover_moveForward pair_env None [None, None] empty_ProcessState pair_threads ReachedEnd m"
    using pair_reaches[OF m] pair_good(2,3) m by (simp add: mover_moveForward_def pair_start_def)
  with unsatisfied_movement_completes[of ReachedEnd] m two one show ?thesis by auto
qed

text \<open>C34: A worker asleep in \<open>ProcessStateCV.wait\<close> is not woken by the progress it waits for: a step of
  another worker leaves it asleep unless that step completes the movement, so with no
  predicate that is satisfied it depends on a spurious wake-up.\<close>

theorem progress_wakes_nobody:
  assumes "forward_step env pp tps j m = Go m'" and "mv_Workers m ! i = Asleep r t"
  shows "mv_Workers m' ! i = Asleep r t \<or> mv_MovementComplete m'"
proof -
  have ji: "j \<noteq> i" using assms by (auto simp: forward_step_def)
  note s = still_asleep[OF _ ji]
  show ?thesis
  proof (cases "mv_Workers m ! j")
    case AtLoop
    with assms ji show ?thesis by (auto simp: forward_step_def Let_def split: if_splits intro!: s)
  next
    case (InBlock q held)
    with assms ji show ?thesis
      by (auto simp: forward_step_def addNextEventBlock_def add_in_block_def Let_def split: option.splits if_splits
          intro!: s dest: wait_check_asleep)
  next
    case (AfterBlock moved held)
    with assms ji show ?thesis by (auto simp: forward_step_def dest: after_block_asleep)
  next
    case (Woken q s)
    with assms ji show ?thesis by (auto simp: forward_step_def dest: wait_check_asleep)
  next
    case (FallingAsleep q s)
    with assms ji show ?thesis by (auto simp: forward_step_def fall_asleep_def intro!: s)
  next
    case (Undoing q)
    with assms ji show ?thesis
      by (auto simp: forward_step_def undo_added_def split: option.splits if_splits intro!: s)
  qed (use assms in \<open>simp_all add: forward_step_def\<close>)
qed

theorem progress_wakes_nobody_witness:
  "mv_Workers (the (pair_run [0, 0, 0, 1, 1, 1])) ! 0 = Asleep 0 1 \<and>
   ps_ProcessTime (mv_Process (the (pair_run [0, 0, 0, 1, 1, 1]))) = 1"
proof -
  have s: "forward_step pair_env None [None, None] 1 (the (pair_run [0, 0, 0, 1, 1])) =
      Go (the (pair_run [0, 0, 0, 1, 1, 1]))"
    and a: "mv_Workers (the (pair_run [0, 0, 0, 1, 1])) ! 0 = Asleep 0 1"
    and c: "\<not> mv_MovementComplete (the (pair_run [0, 0, 0, 1, 1, 1]))"
    and t: "ps_ProcessTime (mv_Process (the (pair_run [0, 0, 0, 1, 1, 1]))) = 1"
    by code_simp+
  from progress_wakes_nobody[OF s a] c t show ?thesis by simp
qed


end
