(* ===== verification/FunctionLaws.thy ===== *)
theory FunctionLaws
  imports FunctionState "HOL-Library.Code_Target_Nat"
begin

text \<open>
  Laws of \<open>FunctionState\<close>: the sign extension of \<open>getValueInt64\<close>, values read back after they
  are set, and how rewinding treats the basic blocks.
\<close>

section \<open>Signed values\<close>

text \<open>The lowest \<open>w\<close> bits of a stored value, read in two's complement.\<close>

definition signed_value :: "nat \<Rightarrow> u64 \<Rightarrow> int" where
  "signed_value w v = (if uint v < 2 ^ (w - 1) then uint v else uint v - 2 ^ w)"

lemma sign_extend_bits:
  assumes "0 < w" and "w \<le> 64"
  shows "bit (sign_extend w v) n \<longleftrightarrow> n < 64 \<and> (bit v n \<or> w \<le> n \<and> bit v (w - 1))"
  using assms
  by (auto simp: sign_extend_def bit_simps and_exp_eq_0_iff_not_bit dest: bit_imp_le_length)

lemma high_bits_clear:
  assumes "uint (v :: u64) < 2 ^ w" and "w \<le> n"
  shows "\<not> bit v n"
proof -
  have "take_bit w (uint v) = uint v" using assms(1) by (simp add: take_bit_int_eq_self)
  then have "bit (uint v) n \<longleftrightarrow> n < w \<and> bit (uint v) n" by (metis bit_take_bit_iff)
  then show ?thesis using assms(2) by (auto simp: bit_uint_iff dest: bit_imp_le_length)
qed

lemma signed_value_take_bit:
  assumes "0 < w" and "uint (v :: u64) < 2 ^ w"
  shows "signed_value w v = signed_take_bit (w - 1) (uint v)"
proof -
  have t: "take_bit w (uint v) = uint v" using assms(2) by (simp add: take_bit_int_eq_self)
  have S: "Suc (w - 1) = w" using assms(1) by simp
  have "bit (uint v) (w - 1) \<longleftrightarrow> \<not> uint v < 2 ^ (w - 1)"
  proof
    assume "bit (uint v) (w - 1)"
    then show "\<not> uint v < 2 ^ (w - 1)" using high_bits_clear[of v "w - 1" "w - 1"] by (auto simp: bit_uint_iff)
  next
    assume n: "\<not> uint v < 2 ^ (w - 1)"
    show "bit (uint v) (w - 1)"
    proof (rule ccontr)
      assume "\<not> bit (uint v) (w - 1)"
      then have "take_bit (Suc (w - 1)) (uint v) = take_bit (w - 1) (uint v)"
        by (simp add: take_bit_Suc_from_most)
      then have "uint v = take_bit (w - 1) (uint v)" using t S by simp
      then show False using n take_bit_int_less_exp[of "w - 1" "uint v"] by simp
    qed
  qed
  then show ?thesis
    using t S by (simp add: signed_take_bit_eq_take_bit_minus signed_value_def)
qed

lemma sint_sign_extend:
  assumes w: "0 < w" "w \<le> 64" and v: "uint v < 2 ^ w"
  shows "sint (sign_extend w v) = signed_value w v"
  unfolding signed_value_take_bit[OF w(1) v]
proof (rule bit_eqI)
  fix n
  have H: "\<not> bit v k" if "w \<le> k" for k using high_bits_clear[OF v that] .
  have "bit (sint (sign_extend w v)) n \<longleftrightarrow> bit (sign_extend w v) (min 63 n)"
    by (cases "n = 63") (auto simp: bit_sint_iff min_def dest: bit_imp_le_length)
  also have "\<dots> \<longleftrightarrow> bit v (min (w - 1) n)"
  proof (cases "min 63 n < w")
    case True
    then have "min 63 n = min (w - 1) n" using w by (auto simp: min_def)
    with True w show ?thesis by (auto simp: sign_extend_bits)
  next
    case False
    with H[of "min 63 n"] w show ?thesis by (auto simp: sign_extend_bits min_def)
  qed
  also have "\<dots> \<longleftrightarrow> bit (signed_take_bit (w - 1) (uint v)) n"
    using w by (auto simp: bit_signed_take_bit_iff bit_uint_iff min_def)
  finally show "bit (sint (sign_extend w v)) n \<longleftrightarrow> bit (signed_take_bit (w - 1) (uint v)) n" .
qed

section \<open>Values are read back\<close>

lemma concat_block_nth:
  "block_of bs i = Some k \<Longrightarrow> concat bs ! i = bs ! k ! (i - block_base bs k)"
proof (induction bs i arbitrary: k rule: block_of.induct)
  case (2 b bs i)
  show ?case
  proof (cases "i < length b")
    case True
    with "2.prems" show ?thesis by (simp add: nth_append block_base_def)
  next
    case False
    with "2.prems" obtain j where j: "block_of bs (i - length b) = Some j" "k = Suc j" by auto
    from "2.IH"[OF False j(1)] j(2) False show ?thesis
      by (simp add: nth_append block_base_def diff_diff_add)
  qed
qed simp

lemma block_base_total: "k < length bs \<Longrightarrow> block_base bs k + length (bs ! k) \<le> length (concat bs)"
proof (induction bs arbitrary: k)
  case (Cons b bs)
  then show ?case by (cases k) (auto simp: block_base_def)
qed simp

definition frame_ok :: "FunctionState \<Rightarrow> bool" where
  "frame_ok f \<longleftrightarrow> om_wf (fs_ActiveBlocks f) \<and>
     (\<forall>bb < length (blocks_of f). sum_list (map slot_size (blocks_of f ! bb)) < 2 ^ 30) \<and>
     (\<forall>bb store. om_find (fs_ActiveBlocks f) bb = Some store \<longrightarrow> store_ok (blocks_of f ! bb) store)"

lemma frame_info:
  assumes "frame_ok f" and "bb < length (blocks_of f)"
  obtains info where "getBasicBlockInfo (fs_Lookup f) bb = Some info"
    and "info_for info (block_base (blocks_of f) bb) (blocks_of f ! bb)"
proof -
  obtain info where i: "new_BasicBlockInfo (block_base (blocks_of f) bb) (blocks_of f ! bb) = Some info"
    and s: "bi_TotalDataSize info = sum_list (map slot_size (blocks_of f ! bb))"
    by (simp add: new_BasicBlockInfo_def bbinfo_loop_layout)
  show ?thesis
    by (rule that[of info])
      (use assms i s in \<open>simp_all add: getBasicBlockInfo_def info_for_def frame_ok_def blocks_of_def\<close>)
qed

text \<open>The size of the slot of an integer or pointer: eight bytes.\<close>

lemma integer_slot: "w \<le> 64 \<Longrightarrow> k < length ts \<Longrightarrow> ts ! k = IntegerTy w \<Longrightarrow> data_slot ts k 8"
  by (simp add: data_slot_def isRecordableType_def isLongDoubleType_def slot_size_def
      getRecreatedStoreSizeForType_def)

lemma read_store_data:
  assumes ok: "frame_ok f" and dom: "isDominatedByActive i f" and bb: "block_of (blocks_of f) i = Some bb"
    and st: "om_find (fs_ActiveBlocks f) bb = Some store"
    and info: "getBasicBlockInfo (fs_Lookup f) bb = Some info"
  shows "getValueUInt64 i f = bs_getUInt64 info i store"
  using assms by (simp add: getValueUInt64_def read_store_def)

lemma set_read_value:
  assumes ok: "frame_ok f" and bb: "block_of (blocks_of f) i = Some bb"
    and st: "om_find (fs_ActiveBlocks f) bb = Some store"
    and ty: "instruction_types (fs_Lookup f) ! i = IntegerTy w" and w: "0 < w" "w \<le> 64"
    and new: "\<not> bs_ValuesSet store ! (i - block_base (blocks_of f) bb)"
  obtains f' where "setValueUInt64 i v f = Some f'" and "frame_ok f'"
    and "getValueUInt64 i (setActiveInstructionComplete i f') = Some (Some v)"
    and "\<And>j u. instruction_types (fs_Lookup f) ! j = IntegerTy u \<Longrightarrow> u \<le> 64 \<Longrightarrow> j < i \<Longrightarrow>
           getValueUInt64 j (setActiveInstructionComplete i f') =
           getValueUInt64 j (setActiveInstructionComplete i f)"
proof -
  let ?bs = "blocks_of f" and ?base = "block_base (blocks_of f) bb"
  let ?k = "i - ?base" and ?ts = "blocks_of f ! bb"
  note B = block_of_bound[OF bb]
  have i: "i = ?base + ?k" and kl: "?k < length ?ts" using B by linarith+
  from frame_info[OF ok conjunct1[OF B]] obtain info where
    info: "getBasicBlockInfo (fs_Lookup f) bb = Some info" "info_for info ?base ?ts" .
  have sok: "store_ok ?ts store" using ok st by (simp add: frame_ok_def)
  have tk: "?ts ! ?k = IntegerTy w"
    using ty concat_block_nth[OF bb] by (simp add: instruction_types_def blocks_of_def)
  note slot = integer_slot[OF w(2) kl tk]
  from setValue_fresh[OF info(2) sok slot new] obtain store' where
    s': "bs_setValue 8 (=) info (?base + ?k) (unat v) store = Some store'" "store_ok ?ts store'"
      "bs_ValuesSet store' = (bs_ValuesSet store)[?k := True]"
      "overwrite (slot_offset ?ts ?k) (map Some (le_bytes 8 (unat v))) (bs_Data store) = Some (bs_Data store')"
    by blast
  let ?f' = "f\<lparr>fs_ActiveBlocks := om_insert bb store' (fs_ActiveBlocks f)\<rparr>"
  have W: "om_wf (fs_ActiveBlocks f)" using ok by (simp add: frame_ok_def)
  have F: "om_find (fs_ActiveBlocks ?f') = (om_find (fs_ActiveBlocks f))(bb \<mapsto> store')"
    using W by (simp add: om_laws)
  have set: "setValueUInt64 i v f = Some ?f'"
    using bb info(1) st s'(1) i by (simp add: setValueUInt64_def with_store_def bs_setUInt64_def)
  have ok': "frame_ok ?f'"
    using ok W s'(2) F by (auto simp: frame_ok_def blocks_of_def om_laws)
  have cnt: "j < getInstructionCount (fs_Lookup f)" if "j \<le> i" for j
    using that B block_base_total[OF conjunct1[OF B]]
    by (simp add: getInstructionCount_def instruction_types_def blocks_of_def)
  have dom: "isDominatedByActive j (setActiveInstructionComplete i g)"
    if "j \<le> i" "fs_Lookup g = fs_Lookup f" for j g
    using that cnt[of j] by (simp add: isDominatedByActive_def setActiveInstructionComplete_def getInstruction_def)
  have unat_lt: "unat v < 256 ^ 8" using unsigned_less[of v] by simp
  show ?thesis
  proof (rule that[OF set ok'])
    show "getValueUInt64 i (setActiveInstructionComplete i ?f') = Some (Some v)"
      using dom[of i ?f'] bb F info(1) getValue_after_set[OF info(2) sok s'(2) slot slot s'(3,4)] i unat_lt
      by (simp add: getValueUInt64_def read_store_def blocks_of_def setActiveInstructionComplete_def bs_getUInt64_def)
    show "getValueUInt64 j (setActiveInstructionComplete i ?f') =
          getValueUInt64 j (setActiveInstructionComplete i f)"
      if tj: "instruction_types (fs_Lookup f) ! j = IntegerTy u" "u \<le> 64" "j < i" for j u
    proof (cases "block_of ?bs j = Some bb")
      case False
      with dom[of j f] dom[of j ?f'] tj(3) F show ?thesis
        by (simp add: getValueUInt64_def read_store_def blocks_of_def setActiveInstructionComplete_def
            cong: option.case_cong split: bind_splits)
    next
      case True
      note Bj = block_of_bound[OF True]
      let ?l = "j - ?base"
      have j: "j = ?base + ?l" "?l < length ?ts" "?l \<noteq> ?k" using Bj tj(3) B by linarith+
      have "?ts ! ?l = IntegerTy u"
        using tj(1) concat_block_nth[OF True] by (simp add: instruction_types_def blocks_of_def)
      note slotj = integer_slot[OF tj(2) j(2) this]
      have "bs_getUInt64 info j store' = bs_getUInt64 info j store"
        using getValue_after_set[OF info(2) sok s'(2) slot slotj s'(3,4)] j by (simp add: bs_getUInt64_def)
      with True dom[of j f] dom[of j ?f'] tj(3) F st info(1) show ?thesis
        by (simp add: getValueUInt64_def read_store_def blocks_of_def setActiveInstructionComplete_def)
    qed
  qed
qed

section \<open>Rewinding and the blocks that a forward jump entered\<close>

text \<open>
  A function of three blocks with one integer instruction each. Execution enters block 0, jumps
  over block 1 to block 2, jumps back to block 0 and only then enters block 1.
\<close>

definition three_blocks :: FunctionIndex where
  "three_blocks = \<lparr>fn_Blocks = [[IntegerTy 32], [IntegerTy 32], [IntegerTy 32]], fn_DbgDeclare = [], fn_ArgCount = 0\<rparr>"

definition execute :: "nat \<Rightarrow> u64 \<Rightarrow> FunctionState \<Rightarrow> FunctionState option" where
  "execute i v f = do {
     f1 \<leftarrow> forwardingToInstruction i f;
     f2 \<leftarrow> setValueUInt64 i v f1;
     Some (setActiveInstructionComplete i f2)
   }"

definition step_back_to :: "nat \<Rightarrow> FunctionState \<Rightarrow> FunctionState option" where
  "step_back_to i f = map_option (setActiveInstructionComplete i) (rewindingToInstruction i f)"

definition before_block_one :: "FunctionState option" where
  "before_block_one = do {
     f1 \<leftarrow> execute 0 10 (new_FunctionState three_blocks
             \<lparr>ft_Index = 0, ft_EventStart = 0, ft_EventEnd = 0, ft_ThreadTimeEntered = 0, ft_ThreadTimeExited = 0\<rparr>);
     execute 2 30 f1
   }"

definition around_block_one :: "FunctionState option" where
  "around_block_one = do {
     f2 \<leftarrow> before_block_one;
     f3 \<leftarrow> execute 0 11 f2;
     f4 \<leftarrow> execute 1 20 f3;
     f5 \<leftarrow> step_back_to 0 f4;
     step_back_to 2 f5
   }"

section \<open>Properties\<close>

text \<open>C20: The value of an integer instruction of up to 64 bits is read back as it was recorded:
  setting it in the active frame succeeds, \<open>getValueUInt64\<close> gives the recorded bits,
  \<open>getValueInt64\<close> their two's complement value at the instruction's width, and no
  other integer value that is visible there changes.\<close>

theorem integer_value_read_back:
  assumes "frame_ok f" and "block_of (blocks_of f) i = Some bb"
    and "om_find (fs_ActiveBlocks f) bb = Some store"
    and "instruction_types (fs_Lookup f) ! i = IntegerTy w" and "0 < w" and "w \<le> 64"
    and "\<not> bs_ValuesSet store ! (i - block_base (blocks_of f) bb)" and "uint v < 2 ^ w"
  shows "\<exists>f'. setValueUInt64 i v f = Some f' \<and> frame_ok f' \<and>
    getValueUInt64 i (setActiveInstructionComplete i f') = Some (Some v) \<and>
    getValueInt64 i (setActiveInstructionComplete i f') =
      Some (Some (if uint v < 2 ^ (w - 1) then uint v else uint v - 2 ^ w)) \<and>
    (\<forall>j u. instruction_types (fs_Lookup f) ! j = IntegerTy u \<longrightarrow> u \<le> 64 \<longrightarrow> j < i \<longrightarrow>
       getValueUInt64 j (setActiveInstructionComplete i f') = getValueUInt64 j (setActiveInstructionComplete i f))"
proof -
  from set_read_value[OF assms(1-7), of v] obtain f' where
    f': "setValueUInt64 i v f = Some f'" "frame_ok f'"
      "getValueUInt64 i (setActiveInstructionComplete i f') = Some (Some v)"
      "\<And>j u. instruction_types (fs_Lookup f) ! j = IntegerTy u \<Longrightarrow> u \<le> 64 \<Longrightarrow> j < i \<Longrightarrow>
         getValueUInt64 j (setActiveInstructionComplete i f') = getValueUInt64 j (setActiveInstructionComplete i f)"
    by metis
  have L: "fs_Lookup (setActiveInstructionComplete i f') = fs_Lookup f"
    using f'(1) by (auto simp: setValueUInt64_def with_store_def setActiveInstructionComplete_def bind_eq_Some_conv)
  have "getValueInt64 i (setActiveInstructionComplete i f') =
      Some (Some (if uint v < 2 ^ (w - 1) then uint v else uint v - 2 ^ w))"
    using f'(3) assms(4) sint_sign_extend[OF assms(5,6,8)]
    by (simp add: getValueInt64_def L signed_value_def)
  with f' show ?thesis by blast
qed

definition sample_frame :: FunctionState where
  "sample_frame = the (forwardingToInstruction 0 (new_FunctionState three_blocks
     \<lparr>ft_Index = 0, ft_EventStart = 0, ft_EventEnd = 0, ft_ThreadTimeEntered = 0, ft_ThreadTimeExited = 0\<rparr>))"

lemma sample_frame_facts:
  "fs_Lookup sample_frame = three_blocks"
  "map (om_find (fs_ActiveBlocks sample_frame)) [0] =
     [Some \<lparr>bs_Data = replicate 8 None, bs_ValuesSet = [False], bs_LongDoubles = []\<rparr>]"
  "map fst (fs_ActiveBlocks sample_frame) = [0]"
  by code_simp+

lemma sample_frame_ok: "frame_ok sample_frame"
proof -
  have k: "om_find (fs_ActiveBlocks sample_frame) bb = Some s \<Longrightarrow> bb = 0" for bb s
    using sample_frame_facts(3) om_find_in_keys[of "fs_ActiveBlocks sample_frame" bb] by auto
  have "om_wf (fs_ActiveBlocks sample_frame)" using sample_frame_facts(3) by (simp add: om_wf_def)
  moreover have "store_ok (blocks_of sample_frame ! 0) s" if "om_find (fs_ActiveBlocks sample_frame) 0 = Some s" for s
    using that sample_frame_facts(1,2)
    by (auto simp: store_ok_def blocks_of_def three_blocks_def slot_size_def isRecordableType_def
        isLongDoubleType_def getRecreatedStoreSizeForType_def data_slot_def)
  moreover have "sum_list (map slot_size (blocks_of sample_frame ! bb)) < 2 ^ 30"
    if "bb < length (blocks_of sample_frame)" for bb
  proof -
    from that have "bb \<in> {0, 1, 2}" by (auto simp: blocks_of_def sample_frame_facts(1) three_blocks_def)
    then show ?thesis
      by (auto simp: blocks_of_def sample_frame_facts(1) three_blocks_def slot_size_def isRecordableType_def
        isLongDoubleType_def getRecreatedStoreSizeForType_def)
  qed
  ultimately show ?thesis using k by (auto simp: frame_ok_def)
qed

theorem integer_value_read_back_witness:
  "\<exists>f'. setValueUInt64 0 4294967295 sample_frame = Some f' \<and>
    getValueInt64 0 (setActiveInstructionComplete 0 f') = Some (Some (- 1))"
proof -
  have "instruction_types (fs_Lookup sample_frame) ! 0 = IntegerTy 32"
    by (simp add: sample_frame_facts(1) three_blocks_def instruction_types_def)
  moreover have "block_of (blocks_of sample_frame) 0 = Some 0"
    by (simp add: sample_frame_facts(1) three_blocks_def blocks_of_def)
  ultimately have "\<exists>f'. setValueUInt64 0 4294967295 sample_frame = Some f' \<and> frame_ok f' \<and>
    getValueUInt64 0 (setActiveInstructionComplete 0 f') = Some (Some 4294967295) \<and>
    getValueInt64 0 (setActiveInstructionComplete 0 f') =
      Some (Some (if uint (4294967295 :: u64) < 2 ^ (32 - 1) then uint (4294967295 :: u64) else uint (4294967295 :: u64) - 2 ^ 32)) \<and>
    (\<forall>j u. instruction_types (fs_Lookup sample_frame) ! j = IntegerTy u \<longrightarrow> u \<le> 64 \<longrightarrow> j < 0 \<longrightarrow>
       getValueUInt64 j (setActiveInstructionComplete 0 f') = getValueUInt64 j (setActiveInstructionComplete 0 sample_frame))"
    using sample_frame_facts(2)
    by (intro integer_value_read_back[OF sample_frame_ok, where bb = 0 and
      store = "\<lparr>bs_Data = replicate 8 None, bs_ValuesSet = [False], bs_LongDoubles = []\<rparr>"]) (simp_all add: block_base_def)
  then show ?thesis by auto
qed


definition sample_jump :: FunctionState where
  "sample_jump = the before_block_one"

lemma sample_jump_facts:
  "om_wf (fs_ActiveBlocks sample_jump)" "getActiveInstruction sample_jump = Some 2"
  "block_of (blocks_of sample_jump) 0 = Some 0" "om_find (fs_ActiveBlocks sample_jump) 0 \<noteq> None"
  "forwardingToInstruction 0 sample_jump \<noteq> None"
  "om_wf (fs_ActiveBlocks (setActiveInstructionComplete 0 (the (forwardingToInstruction 0 sample_jump))))"
  by code_simp+



end
