(* ===== verification/ShadowMemory.thy ===== *)
theory ShadowMemory
  imports MemoryProgress "HOL-Library.Code_Target_Nat"
begin

text \<open>
  \<open>seec::trace::TraceMemoryState\<close> (\<open>include/seec/Trace/TraceMemory.hpp\<close>, \<open>lib/Trace/TraceMemory.cpp\<close>): what
  the recorder knows, while the program runs, of the initialisation of its memory. A shadow
  byte is zero if the byte is initialised and has all bits set if not. The viewer recreates
  the memory from the recorded events as a \<open>MemoryState\<close>; the locale \<open>simulation\<close> and its
  interpretation \<open>shadow\<close> show that the two stay in step.
\<close>

section \<open>State\<close>

definition getUninitializedByte :: byte where
  "getUninitializedByte = 255"

definition getInitializedByte :: byte where
  "getInitializedByte = 0"

record TraceMemoryAllocation =
  tma_Address :: u64
  tma_Shadow :: "byte list"

definition new_TraceMemoryAllocation :: "u64 \<Rightarrow> u64 \<Rightarrow> TraceMemoryAllocation" where
  "new_TraceMemoryAllocation a n =
     \<lparr>tma_Address = a, tma_Shadow = replicate (unat n) getUninitializedByte\<rparr>"

definition tma_getLength :: "TraceMemoryAllocation \<Rightarrow> nat" where
  "tma_getLength t = length (tma_Shadow t)"

definition tma_getArea :: "TraceMemoryAllocation \<Rightarrow> MemoryArea" where
  "tma_getArea t = area (tma_Address t) (of_nat (tma_getLength t))"

text \<open>\<open>getShadowAt\<close> gives a pointer into the shadow: its offset.\<close>

definition getShadowAt :: "u64 \<Rightarrow> TraceMemoryAllocation \<Rightarrow> nat option" where
  "getShadowAt p t = do {
     require (tma_Address t \<le> p);
     require (unat (p - tma_Address t) < length (tma_Shadow t));
     Some (unat (p - tma_Address t))
   }"

definition tma_resize :: "u64 \<Rightarrow> TraceMemoryAllocation \<Rightarrow> TraceMemoryAllocation" where
  "tma_resize n t = t\<lparr>tma_Shadow := vector_resize (unat n) getUninitializedByte (tma_Shadow t)\<rparr>"

type_synonym TraceMemoryState = "(u64, TraceMemoryAllocation) omap"

section \<open>Lookup\<close>

definition getAllocationAtOrPreceding :: "u64 \<Rightarrow> TraceMemoryState \<Rightarrow> (u64 \<times> TraceMemoryAllocation) option" where
  "getAllocationAtOrPreceding p m = om_before p m"

text \<open>Without a preceding allocation the source uses the null pointer.\<close>

definition getAllocationContaining ::
  "u64 \<Rightarrow> u64 \<Rightarrow> TraceMemoryState \<Rightarrow> (u64 \<times> TraceMemoryAllocation) option" where
  "getAllocationContaining p n m = do {
     (k, t) \<leftarrow> getAllocationAtOrPreceding p m;
     require (contains_interval (tma_getArea t) (area p n));
     Some (k, t)
   }"

definition findAllocationContaining :: "u64 \<Rightarrow> TraceMemoryState \<Rightarrow> TraceMemoryAllocation option" where
  "findAllocationContaining p m =
     (case getAllocationAtOrPreceding p m of
        Some (k, t) \<Rightarrow> if contains_value (tma_getArea t) p then Some t else None
      | None \<Rightarrow> None)"

section \<open>Operations\<close>

text \<open>\<open>std::fill_n\<close> of part of the shadow.\<close>

definition fill_shadow :: "byte \<Rightarrow> u64 \<Rightarrow> u64 \<Rightarrow> TraceMemoryState \<Rightarrow> TraceMemoryState option" where
  "fill_shadow c p n m = do {
     (k, t) \<leftarrow> getAllocationContaining p n m;
     off \<leftarrow> getShadowAt p t;
     sh \<leftarrow> overwrite off (replicate (unat n) c) (tma_Shadow t);
     Some (om_insert k (t\<lparr>tma_Shadow := sh\<rparr>) m)
   }"

definition tm_add :: "u64 \<Rightarrow> u64 \<Rightarrow> TraceMemoryState \<Rightarrow> TraceMemoryState option" where
  "tm_add p n m = fill_shadow getInitializedByte p n m"

definition tm_clear :: "u64 \<Rightarrow> u64 \<Rightarrow> TraceMemoryState \<Rightarrow> TraceMemoryState option" where
  "tm_clear p n m = fill_shadow getUninitializedByte p n m"

text \<open>The bytes are copied with \<open>memcpy\<close>, which is undefined if the ranges overlap.\<close>

definition tm_memmove :: "u64 \<Rightarrow> u64 \<Rightarrow> u64 \<Rightarrow> TraceMemoryState \<Rightarrow> TraceMemoryState option" where
  "tm_memmove src dst n m = do {
     (sk, st) \<leftarrow> getAllocationContaining src n m;
     (dk, dt) \<leftarrow> getAllocationContaining dst n m;
     doff \<leftarrow> getShadowAt dst dt;
     soff \<leftarrow> getShadowAt src st;
     require (sk = dk \<longrightarrow> doff + unat n \<le> soff \<or> soff + unat n \<le> doff);
     bytes \<leftarrow> slice soff (unat n) (tma_Shadow st);
     sh \<leftarrow> overwrite doff bytes (tma_Shadow dt);
     Some (om_insert dk (dt\<lparr>tma_Shadow := sh\<rparr>) m)
   }"

definition shadow_bytes :: "u64 \<Rightarrow> u64 \<Rightarrow> TraceMemoryState \<Rightarrow> byte list option" where
  "shadow_bytes p n m = do {
     (k, t) \<leftarrow> getAllocationContaining p n m;
     off \<leftarrow> getShadowAt p t;
     slice off (unat n) (tma_Shadow t)
   }"

definition hasKnownState :: "u64 \<Rightarrow> u64 \<Rightarrow> TraceMemoryState \<Rightarrow> bool option" where
  "hasKnownState p n m = do {
     bs \<leftarrow> shadow_bytes p n m;
     Some (list_all (\<lambda>c. c = getInitializedByte) bs)
   }"

definition getLengthOfKnownState :: "u64 \<Rightarrow> u64 \<Rightarrow> TraceMemoryState \<Rightarrow> nat option" where
  "getLengthOfKnownState p n m = do {
     bs \<leftarrow> shadow_bytes p n m;
     Some (length (takeWhile (\<lambda>c. c = getInitializedByte) bs))
   }"

definition addAllocation :: "u64 \<Rightarrow> u64 \<Rightarrow> TraceMemoryState \<Rightarrow> TraceMemoryState option" where
  "addAllocation p n m = do {
     require (om_find m p = None);
     Some (om_insert p (new_TraceMemoryAllocation p n) m)
   }"

definition removeAllocation :: "u64 \<Rightarrow> TraceMemoryState \<Rightarrow> TraceMemoryState option" where
  "removeAllocation p m = do {
     require (om_find m p \<noteq> None);
     Some (om_erase p m)
   }"

definition resizeAllocation :: "u64 \<Rightarrow> u64 \<Rightarrow> TraceMemoryState \<Rightarrow> TraceMemoryState option" where
  "resizeAllocation p n m = do {
     t \<leftarrow> om_find m p;
     Some (om_insert p (tma_resize n t) m)
   }"

section \<open>Maps without their empty entries\<close>

definition om_filter :: "('v \<Rightarrow> bool) \<Rightarrow> ('k::linorder, 'v) omap \<Rightarrow> ('k, 'v) omap" where
  "om_filter P m = filter (\<lambda>e. P (snd e)) m"

lemma om_wf_filter: "om_wf m \<Longrightarrow> om_wf (om_filter P m)"
  by (induction m) (auto simp: om_filter_def om_wf_Cons)

lemma om_find_filter_Some:
  "om_wf m \<Longrightarrow> om_find (om_filter P m) k = Some v \<longleftrightarrow> om_find m k = Some v \<and> P v"
  by (simp add: om_find_iff om_wf_filter) (simp add: om_filter_def)

lemma om_find_filter:
  "om_wf m \<Longrightarrow> om_find (om_filter P m) k =
     (case om_find m k of Some v \<Rightarrow> if P v then Some v else None | None \<Rightarrow> None)"
  by (rule option_ext) (auto simp: om_find_filter_Some split: option.splits)

lemma om_filter_insert:
  assumes "om_wf m"
  shows "om_filter P (om_insert k v m) =
    (if P v then om_insert k v (om_filter P m) else om_erase k (om_filter P m))"
  by (rule om_find_ext) (auto simp: assms om_laws om_wf_filter om_find_filter fun_eq_iff split: option.splits)

lemma om_filter_erase: "om_filter P (om_erase k m) = om_erase k (om_filter P m)"
  by (simp add: om_filter_def om_erase_def conj_commute)

lemma om_before_filter:
  assumes "om_wf m" and "om_before q m = Some (k, v)" and "P v"
  shows "om_before q (om_filter P m) = Some (k, v)"
  using assms by (auto simp: om_before_Some_iff om_wf_filter om_find_filter dom_def split: option.splits)


section \<open>The shadow of a recreated memory\<close>

definition shadow_byte :: "byte \<Rightarrow> byte \<Rightarrow> bool" where
  "shadow_byte i c \<longleftrightarrow> (i = 255 \<and> c = getInitializedByte) \<or> (i = 0 \<and> c = getUninitializedByte)"

definition shadow_of :: "MemoryAllocation \<Rightarrow> TraceMemoryAllocation \<Rightarrow> bool" where
  "shadow_of a t \<longleftrightarrow> tma_Address t = ma_Address a \<and> list_all2 shadow_byte (ma_Init a) (tma_Shadow t)"

text \<open>The recreated memory has no empty allocations.\<close>

definition non_empty :: "TraceMemoryAllocation \<Rightarrow> bool" where
  "non_empty t \<longleftrightarrow> tma_Shadow t \<noteq> []"

definition shadow_rel :: "TraceMemoryState \<Rightarrow> MemoryState \<Rightarrow> bool" where
  "shadow_rel m s \<longleftrightarrow> mem_wf s \<and> om_wf m \<and> om_all (\<lambda>k t. tma_Address t = k) m \<and> omap_rel shadow_of (ms_Allocations s) (om_filter non_empty m)"

lemma shadow_of_length: "shadow_of a t \<Longrightarrow> alloc_wf a \<Longrightarrow> length (tma_Shadow t) = unat (ma_Size a)"
  by (auto simp: shadow_of_def alloc_wf_def dest: list_all2_lengthD)

lemma shadow_of_area: "shadow_of a t \<Longrightarrow> alloc_wf a \<Longrightarrow> tma_getArea t = ma_area a"
  using shadow_of_length[of a t] by (simp add: tma_getArea_def tma_getLength_def shadow_of_def)

lemma list_all2_overwrite:
  assumes "list_all2 P xs ys" and "list_all2 P us vs"
    and "overwrite off us xs = Some xs'" and "overwrite off vs ys = Some ys'"
  shows "list_all2 P xs' ys'"
  using assms list_all2_lengthD[OF assms(2)]
  by (auto simp: overwrite_Some_iff intro!: list_all2_appendI list_all2_takeI list_all2_dropI)

lemma list_all2_slice:
  "list_all2 P xs ys \<Longrightarrow> slice off n xs = Some us \<Longrightarrow> slice off n ys = Some vs \<Longrightarrow> list_all2 P us vs"
  by (auto simp: slice_Some_iff intro: list_all2_takeI list_all2_dropI)

lemma slice_overwrite_apart:
  assumes "overwrite dst us xs = Some ys" and "src + n \<le> dst \<or> dst + length us \<le> src"
  shows "slice src n ys = slice src n xs"
proof (cases "src + n \<le> length xs")
  case True
  have l: "length ys = length xs" using assms(1) by (rule length_overwrite)
  have "take n (drop src ys) = take n (drop src xs)"
    using True l assms(2) by (intro nth_equalityI) (auto simp: nth_overwrite[OF assms(1)])
  then show ?thesis using True l by (simp add: slice_def)
qed (simp add: slice_def length_overwrite[OF assms(1)])

lemma containing_shadowed:
  assumes rel: "shadow_rel m s" and g: "getAllocationContaining p n m = Some (k, t)"
    and n: "n \<noteq> 0" "interval_ok (area p n)"
  obtains a where "getAllocation (area p n) s = Some (k, a)" and "shadow_of a t"
    and "getShadowAt p t = Some (unat (p - ma_Address a))"
proof -
  have wf: "mem_wf s" "om_wf m" and R: "omap_rel shadow_of (ms_Allocations s) (om_filter non_empty m)"
    using rel by (simp_all add: shadow_rel_def)
  from g have b: "om_before p m = Some (k, t)" and c: "contains_interval (tma_getArea t) (area p n)"
    by (auto simp: getAllocationContaining_def getAllocationAtOrPreceding_def bind_eq_Some_conv)
  have lt: "p < p + n" using n by (simp add: interval_ok_def order_less_le)
  have "non_empty t"
    using c lt by (auto simp: non_empty_def tma_getArea_def tma_getLength_def contains_interval_def)
  from om_before_filter[of m p k t non_empty, OF wf(2) b this] have "om_before p (om_filter non_empty m) = Some (k, t)" .
  then obtain a where a: "om_before p (ms_Allocations s) = Some (k, a)" "shadow_of a t"
    using omap_rel_before[OF R, of p] by (auto simp: option_rel_Some2)
  have e: "entry_wf k a"
    using a(1) wf(1) mem_wf_find[OF wf(1)] by (auto simp: mem_wf_def om.before_find)
  have ar: "tma_getArea t = ma_area a" using shadow_of_area[OF a(2) entry_alloc_wf[OF e]] .
  have "ms_Allocations s \<noteq> []" using a(1) by auto
  then have g': "getAllocation (area p n) s = Some (k, a)" using a(1) c ar by (simp add: getAllocation_def)
  have "ma_Address a \<le> p" "p < ma_Address a + ma_Size a"
    using c lt ar by (auto simp: contains_interval_def)
  then have "unat k \<le> unat p \<and> unat p < unat k + unat (ma_Size a)" "unat (p - ma_Address a) = unat p - unat k"
    using in_entry[OF e, of p] e by (simp_all add: entry_wf_def unat_diff_le bytes_of_def)
  then have "unat (p - ma_Address a) < unat (ma_Size a)" by linarith
  then show ?thesis
    using that[OF g' a(2)] a(2) \<open>ma_Address a \<le> p\<close> shadow_of_length[OF a(2) entry_alloc_wf[OF e]]
    by (simp add: getShadowAt_def shadow_of_def)
qed

lemma shadow_rel_set:
  assumes "shadow_rel m s" and "shadow_of a t" and "entry_wf k a"
  shows "shadow_rel (om_insert k t m) (set_allocation k a s)"
proof -
  have "length (tma_Shadow t) \<noteq> 0"
    using shadow_of_length[OF assms(2) entry_alloc_wf[OF assms(3)]] assms(3) by (auto simp: entry_wf_def unat_eq_0)
  then have "non_empty t" by (auto simp: non_empty_def)
  then show ?thesis
    using assms set_allocation_wf[OF _ assms(3)]
      om_all_insert[of "\<lambda>k t. tma_Address t = k" m k t]
    by (simp add: shadow_rel_def om_laws om_filter_insert omap_rel_insert set_allocation_def)
      (simp add: shadow_of_def entry_wf_def)
qed

section \<open>Every operation in step\<close>

primrec shadow_fwd :: "mem_op \<Rightarrow> TraceMemoryState \<Rightarrow> TraceMemoryState option" where
  "shadow_fwd (OpAdd p n) = addAllocation p n"
| "shadow_fwd (OpRemove p n) = removeAllocation p"
| "shadow_fwd (OpResize p old new) = resizeAllocation p new"
| "shadow_fwd (OpBlock b) = tm_add (block_Address b) (of_nat (length (block_Data b)))"
| "shadow_fwd (OpCopy src dst n) = tm_memmove src dst n"
| "shadow_fwd (OpClear r) = tm_clear (iv_Start r) (interval_length r)"

text \<open>The recorder records sizes as they are, and areas within the address space.\<close>

fun shadow_legal :: "mem_op \<Rightarrow> TraceMemoryState \<Rightarrow> bool" where
  "shadow_legal (OpAdd p n) m \<longleftrightarrow> unat p + unat n < 2 ^ 64"
| "shadow_legal (OpRemove p n) m \<longleftrightarrow> map_option tma_getLength (om_find m p) = Some (unat n)"
| "shadow_legal (OpResize p old new) m \<longleftrightarrow> unat p + unat old < 2 ^ 64 \<and> unat p + unat new < 2 ^ 64 \<and>
     map_option tma_getLength (om_find m p) = Some (unat old)"
| "shadow_legal (OpBlock b) m \<longleftrightarrow> block_Data b \<noteq> [] \<and> length (block_Data b) < 2 ^ 64 \<and> interval_ok (block_area b)"
| "shadow_legal (OpCopy src dst n) m \<longleftrightarrow> n \<noteq> 0 \<and> interval_ok (area src n) \<and> interval_ok (area dst n)"
| "shadow_legal (OpClear r) m \<longleftrightarrow> interval_ok r \<and> interval_length r \<noteq> 0"

lemma filled_shadow:
  assumes "fill_shadow c p n m = Some m'" and "shadow_rel m s" and n: "n \<noteq> 0" "interval_ok (area p n)"
  obtains k a t sh where "getAllocation (area p n) s = Some (k, a)" and "shadow_of a t"
    and "overwrite (unat (p - ma_Address a)) (replicate (unat n) c) (tma_Shadow t) = Some sh"
    and "m' = om_insert k (t\<lparr>tma_Shadow := sh\<rparr>) m"
proof -
  from assms(1) obtain k t off sh where g: "getAllocationContaining p n m = Some (k, t)"
    and o: "getShadowAt p t = Some off" "overwrite off (replicate (unat n) c) (tma_Shadow t) = Some sh"
      "m' = om_insert k (t\<lparr>tma_Shadow := sh\<rparr>) m"
    by (auto simp: fill_shadow_def bind_eq_Some_conv)
  from containing_shadowed[OF assms(2) g n] obtain a where
    a: "getAllocation (area p n) s = Some (k, a)" "shadow_of a t" "getShadowAt p t = Some (unat (p - ma_Address a))" .
  then show ?thesis using o by (intro that[OF a(1,2)]) auto
qed

lemma shadow_replicate:
  "list_all2 shadow_byte (replicate n 255) (replicate n getInitializedByte)"
  "list_all2 shadow_byte (replicate n 0) (replicate n getUninitializedByte)"
  by (simp_all add: list_all2_conv_all_nth shadow_byte_def)

lemma shadow_overwrite:
  "shadow_of a t \<Longrightarrow> list_all2 shadow_byte us vs \<Longrightarrow> overwrite off us (ma_Init a) = Some i \<Longrightarrow>
   overwrite off vs (tma_Shadow t) = Some sh \<Longrightarrow> list_all2 shadow_byte i sh"
  unfolding shadow_of_def by (blast intro: list_all2_overwrite)

lemma entry_wf_same: "entry_wf k a \<Longrightarrow> ma_Address b = ma_Address a \<Longrightarrow> ma_Size b = ma_Size a \<Longrightarrow> alloc_wf b \<Longrightarrow> entry_wf k b"
  by (simp add: entry_wf_def)

lemma block_shadowed:
  assumes rel: "shadow_rel m s" and leg: "shadow_legal (OpBlock b) m" and f: "shadow_fwd (OpBlock b) m = Some m'"
  shows "\<exists>s'. mem_fwd (OpBlock b) s = Some s' \<and> shadow_rel m' s'"
proof -
  let ?n = "of_nat (length (block_Data b)) :: u64"
  have n: "?n \<noteq> 0" "unat ?n = length (block_Data b)"
    using leg by (auto simp: unat_of_nat_small unat_eq_0[symmetric])
  have wf: "mem_wf s" using rel by (simp add: shadow_rel_def)
  have f': "fill_shadow getInitializedByte (block_Address b) ?n m = Some m'" using f by (simp add: tm_add_def)
  have ok: "interval_ok (area (block_Address b) ?n)" using leg by (simp add: block_area_def)
  from filled_shadow[OF f' rel n(1) ok, unfolded n(2), folded block_area_def] obtain k a t sh where
    g: "getAllocation (block_area b) s = Some (k, a)" and at: "shadow_of a t"
    and sh: "overwrite (unat (block_Address b - ma_Address a)) (replicate (length (block_Data b)) getInitializedByte) (tma_Shadow t) = Some sh"
    and m': "m' = om_insert k (t\<lparr>tma_Shadow := sh\<rparr>) m" .
  note e = getAllocation_wfD(2)[OF wf g] and c = getAllocation_SomeD(2)[OF g]
  from addBlock_defined[OF e c] leg obtain a' where a': "addBlock b a = Some a'" by auto
  from addBlock_SomeE[OF a'] obtain cl data init where cl: "clearArea (block_area b) a = Some cl"
    and i: "overwrite (area_off a (block_area b)) (replicate (length (block_Data b)) 255) (ma_Init cl) = Some init"
    and a'_eq: "a' = cl\<lparr>ma_Data := data, ma_Init := init\<rparr>" .
  have len: "area_len (block_area b) = length (block_Data b)" using n by (simp add: block_area_def)
  have "overwrite (area_off a (block_area b)) (replicate (length (block_Data b)) 255) (ma_Init a) = Some init"
    using i overwrite_overwrite[OF clearArea_SomeD(11)[OF cl]] len by simp
  from shadow_overwrite[OF at shadow_replicate(1) this] sh have "list_all2 shadow_byte init sh"
    by (simp add: block_area_def)
  then have "shadow_of a' (t\<lparr>tma_Shadow := sh\<rparr>)"
    using at clearArea_SomeD(4)[OF cl] by (simp add: shadow_of_def a'_eq)
  moreover have "entry_wf k a'"
    using addBlock_place[OF a'] addBlock_wf[OF a' entry_alloc_wf[OF e]] by (intro entry_wf_same[OF e]) simp_all
  ultimately show ?thesis
    using shadow_rel_set[OF rel] g a' by (simp add: addBlock_state_def m')
qed

lemma clear_shadowed:
  assumes rel: "shadow_rel m s" and leg: "shadow_legal (OpClear r) m" and f: "shadow_fwd (OpClear r) m = Some m'"
  shows "\<exists>s'. mem_fwd (OpClear r) s = Some s' \<and> shadow_rel m' s'"
proof -
  let ?r = "area (iv_Start r) (interval_length r)"
  have wf: "mem_wf s" using rel by (simp add: shadow_rel_def)
  have same: "iv_End ?r = iv_End r" "iv_Start ?r = iv_Start r" by (simp_all add: interval_length_def)
  have ok: "interval_ok ?r" "interval_length r \<noteq> 0" using leg same by (simp_all add: interval_ok_def)
  have f': "fill_shadow getUninitializedByte (iv_Start r) (interval_length r) m = Some m'" using f by (simp add: tm_clear_def)
  from filled_shadow[OF f' rel ok(2,1)] obtain k a t sh where
    g: "getAllocation ?r s = Some (k, a)" and at: "shadow_of a t"
    and sh: "overwrite (area_off a r) (replicate (area_len r) getUninitializedByte) (tma_Shadow t) = Some sh"
    and m': "m' = om_insert k (t\<lparr>tma_Shadow := sh\<rparr>) m" .
  note e = getAllocation_wfD(2)[OF wf g]
  have c: "contains_interval (ma_area a) r"
    using getAllocation_SomeD(2)[OF g] same by (simp add: contains_interval_def)
  have b: "om_before (iv_Start r) (ms_Allocations s) = Some (k, a)" "ms_Allocations s \<noteq> []"
    using getAllocation_SomeD(1)[OF g] by auto
  obtain a' where a': "clearArea r a = Some a'" using clearArea_defined[OF e c] leg by auto
  note C = clearArea_SomeD[OF a']
  have "list_all2 shadow_byte (ma_Init a') sh"
    by (rule shadow_overwrite[OF at shadow_replicate(2) C(11) sh])
  then have "shadow_of a' (t\<lparr>tma_Shadow := sh\<rparr>)" using at C(4) by (simp add: shadow_of_def)
  moreover have "entry_wf k a'"
    using C(4,5) clearArea_wf[OF a' entry_alloc_wf[OF e]] by (intro entry_wf_same[OF e]) simp_all
  ultimately show ?thesis
    using shadow_rel_set[OF rel] b c a' by (simp add: addClear_def m')
qed

lemma copy_shadowed:
  assumes rel: "shadow_rel m s" and leg: "shadow_legal (OpCopy src dst n) m"
    and f: "shadow_fwd (OpCopy src dst n) m = Some m'"
  shows "\<exists>s'. mem_fwd (OpCopy src dst n) s = Some s' \<and> shadow_rel m' s'"
proof -
  have wf: "mem_wf s" using rel by (simp add: shadow_rel_def)
  have n: "n \<noteq> 0" and S: "interval_ok (area src n)" and D: "interval_ok (area dst n)" using leg by simp_all
  from f obtain sk st dk dt doff soff bytes sh where
    gs: "getAllocationContaining src n m = Some (sk, st)" and gd: "getAllocationContaining dst n m = Some (dk, dt)"
    and offs: "getShadowAt dst dt = Some doff" "getShadowAt src st = Some soff"
    and apart: "sk = dk \<longrightarrow> doff + unat n \<le> soff \<or> soff + unat n \<le> doff"
    and bytes: "slice soff (unat n) (tma_Shadow st) = Some bytes"
    and sh: "overwrite doff bytes (tma_Shadow dt) = Some sh" and m': "m' = om_insert dk (dt\<lparr>tma_Shadow := sh\<rparr>) m"
    by (auto simp: tm_memmove_def bind_eq_Some_conv)
  from containing_shadowed[OF rel gs n S] obtain sa where sa: "getAllocation (area src n) s = Some (sk, sa)"
    "shadow_of sa st" "soff = unat (src - ma_Address sa)" using offs by auto
  from containing_shadowed[OF rel gd n D] obtain da where da: "getAllocation (area dst n) s = Some (dk, da)"
    "shadow_of da dt" "doff = unat (dst - ma_Address da)" using offs by auto
  note ed = getAllocation_wfD(2)[OF wf da(1)]
  have same: "sa = da" if "sk = dk"
    using getAllocation_wfD(1)[OF wf sa(1)] getAllocation_wfD(1)[OF wf da(1)] that by simp
  have ap: "unat (src - ma_Address sa) + unat n \<le> unat (dst - ma_Address sa) \<or>
       unat (dst - ma_Address sa) + unat n \<le> unat (src - ma_Address sa)" if "sk = dk"
    using apart same[OF that] sa(3) da(3) that by auto
  from copy_defined_at[OF wf n sa(1) S da(1) D ap] obtain s' where s': "addCopy src dst n s = Some s'" by blast
  then obtain data init da' where ini: "getAreaInitialization (area src n) sa = Some init"
    and ar: "addArea dst (if sk = dk then OwnView (unat (src - ma_Address sa)) (unat n) else Bytes data init) da = Some da'"
    and dl: "getAreaData (area src n) sa = Some data"
    and s'eq: "s' = set_allocation dk da' s"
    using sa(1) da(1) by (auto simp: addCopy_def Let_def bind_eq_Some_conv)
  have lens: "length data = unat n" "slice soff (unat n) (ma_Init sa) = Some init"
    using dl ini sa(3) by (auto simp: getAreaData_def getAreaInitialization_def dest: length_slice)
  have ib: "list_all2 shadow_byte init bytes"
    using list_all2_slice[OF _ lens(2) bytes] sa(2) by (simp add: shadow_of_def)
  have vw: "of_nat (view_size (if sk = dk then OwnView (unat (src - ma_Address sa)) (unat n) else Bytes data init)) = n"
    using lens(1) by simp
  from addArea_SomeE[OF ar, unfolded vw] obtain c ds ms data' init' where
    c: "clearArea (area dst n) da = Some c"
    and rv: "read_view (if sk = dk then OwnView (unat (src - ma_Address sa)) (unat n) else Bytes data init) (unat (dst - ma_Address da)) c = Some (ds, ms)"
    and "overwrite (unat (dst - ma_Address da)) ds (ma_Data c) = Some data'"
    and ov: "overwrite (unat (dst - ma_Address da)) ms (ma_Init c) = Some init'"
    and da': "da' = c\<lparr>ma_Data := data', ma_Init := init'\<rparr>" .
  note C = clearArea_SomeD[OF c]
  have "ms = init"
  proof (cases "sk = dk")
    case True
    then have "slice soff (unat n) (ma_Init c) = Some ms"
      using rv sa(3) by (auto simp: read_view_def bind_eq_Some_conv)
    moreover have "slice soff (unat n) (ma_Init c) = slice soff (unat n) (ma_Init da)"
      by (rule slice_overwrite_apart[OF C(11)]) (use ap True same sa(3) in auto)
    ultimately show ?thesis using lens(2) same[OF True] by simp
  qed (use rv in \<open>auto simp: read_view_def\<close>)
  moreover have "length init = unat n" using lens(2) by (rule length_slice)
  ultimately have "overwrite (unat (dst - ma_Address da)) init (ma_Init da) = Some init'"
    using ov overwrite_overwrite[OF C(11), of init] by simp
  from shadow_overwrite[OF da(2) ib this] sh da(3) have "list_all2 shadow_byte init' sh" by simp
  then have "shadow_of da' (dt\<lparr>tma_Shadow := sh\<rparr>)" using da(2) C(4) by (simp add: shadow_of_def da')
  moreover have "entry_wf dk da'"
    using C(4,5) addArea_wf[OF ar entry_alloc_wf[OF ed]] by (intro entry_wf_same[OF ed]) (simp_all add: da')
  ultimately show ?thesis
    using shadow_rel_set[OF rel] s' by (simp add: m' s'eq)
qed

lemma shadow_find:
  assumes "shadow_rel m s" and "om_find m p = Some t"
  shows "if non_empty t then \<exists>a. om_find (ms_Allocations s) p = Some a \<and> shadow_of a t else om_find (ms_Allocations s) p = None"
proof -
  have wf: "om_wf m" and R: "omap_rel shadow_of (ms_Allocations s) (om_filter non_empty m)"
    using assms(1) by (simp_all add: shadow_rel_def)
  have "om_find (om_filter non_empty m) p = (if non_empty t then Some t else None)"
    using assms(2) by (simp add: om_find_filter[OF wf])
  then show ?thesis
    using omap_rel_find[OF R, of p] omap_rel_find_None[OF R, of p] by (auto simp: option_rel_Some2)
qed

lemma add_shadowed:
  assumes rel: "shadow_rel m s" and fit: "unat p + unat n < 2 ^ 64" and fresh: "om_find (ms_Allocations s) p = None"
    and t: "t = new_TraceMemoryAllocation p n"
  shows "\<exists>s'. allocationAdd p n s = Some s' \<and> shadow_rel (om_insert p t m) s'"
proof (cases "n = 0")
  case True
  have wf: "om_wf m" and R: "omap_rel shadow_of (ms_Allocations s) (om_filter non_empty m)"
    using rel by (simp_all add: shadow_rel_def)
  have "\<not> non_empty t" using True by (simp add: t non_empty_def new_TraceMemoryAllocation_def)
  moreover have "om_find (om_filter non_empty m) p = None" using omap_rel_find_None[OF R] fresh by simp
  then have "om_erase p (om_filter non_empty m) = om_filter non_empty m"
    by (intro om_find_ext) (auto simp: om_laws om_wf_filter wf fun_eq_iff)
  ultimately have "om_filter non_empty (om_insert p t m) = om_filter non_empty m"
    by (simp add: om_filter_insert[OF wf])
  then show ?thesis
    using True rel om_all_insert[of "\<lambda>k t. tma_Address t = k" m p t]
    by (simp add: allocationAdd_def shadow_rel_def om_laws t) (simp add: new_TraceMemoryAllocation_def)
next
  case False
  have "shadow_of (new_MemoryAllocation p n) t"
    using shadow_replicate(2)[of "unat n"] by (simp add: shadow_of_def t new_MemoryAllocation_def new_TraceMemoryAllocation_def)
  moreover have "entry_wf p (new_MemoryAllocation p n)"
    using fit False by (simp add: entry_wf_def) (simp add: new_MemoryAllocation_def)
  ultimately show ?thesis using False fresh shadow_rel_set[OF rel] by (simp add: allocationAdd_def)
qed

lemma remove_shadowed:
  assumes rel: "shadow_rel m s" and t: "om_find m p = Some t" and len: "tma_getLength t = unat n"
  shows "\<exists>s'. allocationRemove p n s = Some s' \<and> shadow_rel (om_erase p m) s'"
proof -
  have wf: "om_wf m" "mem_wf s" and R: "omap_rel shadow_of (ms_Allocations s) (om_filter non_empty m)"
    and A: "om_all (\<lambda>k t. tma_Address t = k) (om_erase p m)"
    using rel by (simp_all add: shadow_rel_def om_all_erase)
  have E: "shadow_rel (om_erase p m) (s\<lparr>ms_Previous := prev, ms_Allocations := om_erase p (ms_Allocations s)\<rparr>)" for prev
    using wf A omap_rel_erase[OF R, of p] by (simp add: shadow_rel_def om_laws om_filter_erase mem_wf_def om_all_erase)
  show ?thesis
  proof (cases "n = 0")
    case True
    then have "om_find (ms_Allocations s) p = None"
      using shadow_find[OF rel t] len by (simp add: non_empty_def tma_getLength_def)
    then have "om_erase p (ms_Allocations s) = ms_Allocations s"
      using wf by (intro om_find_ext) (auto simp: mem_wf_def om_laws fun_eq_iff)
    then show ?thesis using True E[of "ms_Previous s"] by (simp add: allocationRemove_def)
  next
    case False
    then have "tma_Shadow t \<noteq> []" using len by (auto simp: tma_getLength_def unat_eq_0)
    then obtain a where "om_find (ms_Allocations s) p = Some a"
      using shadow_find[OF rel t] by (auto simp: non_empty_def)
    then show ?thesis using False E by (simp add: allocationRemove_def)
  qed
qed

lemma resized_shadow_of:
  assumes "list_all2 shadow_byte i sh"
  shows "list_all2 shadow_byte (vector_resize n 0 i) (vector_resize n getUninitializedByte sh)"
  using assms by (auto simp: list_all2_conv_all_nth nth_vector_resize shadow_byte_def)

lemma resize_shadowed:
  assumes rel: "shadow_rel m s" and t: "om_find m p = Some t" and len: "tma_getLength t = unat old"
    and fit: "unat p + unat old < 2 ^ 64" "unat p + unat new < 2 ^ 64"
  shows "\<exists>s'. allocationResize p old new s = Some s' \<and> shadow_rel (om_insert p (tma_resize new t) m) s'"
proof -
  have wf: "om_wf m" "mem_wf s" and R: "omap_rel shadow_of (ms_Allocations s) (om_filter non_empty m)"
    using rel by (simp_all add: shadow_rel_def)
  consider (add) "old = 0" | (remove) "old \<noteq> 0" "new = 0" | (resize) "old \<noteq> 0" "new \<noteq> 0" by blast
  then show ?thesis
  proof cases
    case add
    then have e: "tma_Shadow t = []" using len by (simp add: tma_getLength_def)
    then have "om_find (ms_Allocations s) p = None" using shadow_find[OF rel t] by (simp add: non_empty_def)
    from add_shadowed[OF rel fit(2) this refl] obtain s' where
      s': "allocationAdd p new s = Some s'" "shadow_rel (om_insert p (new_TraceMemoryAllocation p new) m) s'" by blast
    have "tma_Address t = p" using rel t by (auto simp: shadow_rel_def dest: om_all_find)
    then have "tma_resize new t = new_TraceMemoryAllocation p new"
      using e by (simp add: tma_resize_def new_TraceMemoryAllocation_def vector_resize_def)
    with s' add show ?thesis by (simp add: allocationResize_def)
  next
    case remove
    then have "\<not> non_empty (tma_resize new t)" by (simp add: non_empty_def tma_resize_def vector_resize_def)
    then have "om_filter non_empty (om_insert p (tma_resize new t) m) = om_filter non_empty (om_erase p m)"
      by (simp add: om_filter_insert[OF wf(1)] om_filter_erase)
    moreover have "om_all (\<lambda>k t. tma_Address t = k) (om_insert p (tma_resize new t) m)"
      using rel om_all_find[of "\<lambda>k t. tma_Address t = k" m p t] t
      by (intro om_all_insert) (auto simp: shadow_rel_def tma_resize_def)
    ultimately show ?thesis
      using remove_shadowed[OF rel t len] remove wf(1) by (auto simp: allocationResize_def shadow_rel_def om_laws)
  next
    case resize
    then have "non_empty t" using len by (auto simp: non_empty_def tma_getLength_def unat_eq_0)
    then obtain a where a: "om_find (ms_Allocations s) p = Some a" "shadow_of a t"
      using shadow_find[OF rel t] by auto
    note e = mem_wf_find[OF wf(2) a(1)]
    have sz: "ma_Size a = old"
      using shadow_of_length[OF a(2) entry_alloc_wf[OF e]] len by (simp add: tma_getLength_def word_unat_eq_iff)
    note g = whole_allocation[OF wf(2) a(1), unfolded sz]
    have "new < old \<Longrightarrow> \<exists>c. clearArea (area (p + new) (old - new)) a = Some c"
      using shrink_defined[OF e, of new] sz by auto
    then obtain c where c: "(if new < old then clearArea (area (p + new) (old - new)) a else Some a) = Some c"
      by fastforce
    have cs: "ma_Address c = p" "ma_Size c = old" "alloc_wf c"
      using c g(2) sz clearArea_SomeD(4,5)[of _ a c] clearArea_wf[of _ a c] entry_alloc_wf[OF e] by (auto split: if_splits)
    have keep: "ma_Init c ! i = ma_Init a ! i" if "i < unat new" "i < unat old" for i
    proof (cases "new < old")
      case True
      with c have cl: "clearArea (area (p + new) (old - new)) a = Some c" by simp
      have "i < length (ma_Init a)" using that sz entry_alloc_wf[OF e] by (simp add: alloc_wf_def)
      then show ?thesis using nth_overwrite[OF clearArea_SomeD(11)[OF cl], of i] that g(2) by simp
    qed (use c in simp)
    have "list_all2 shadow_byte (vector_resize (unat new) 0 (ma_Init c)) (vector_resize (unat new) getUninitializedByte (tma_Shadow t))"
    proof -
      have "vector_resize (unat new) 0 (ma_Init c) = vector_resize (unat new) 0 (ma_Init a)"
        using keep cs sz entry_alloc_wf[OF e] by (intro nth_equalityI) (auto simp: nth_vector_resize alloc_wf_def)
      then show ?thesis using resized_shadow_of a(2) by (simp add: shadow_of_def)
    qed
    then have "shadow_of (ma_resize new c) (tma_resize new t)"
      using a(2) cs g(2) by (simp add: shadow_of_def ma_resize_def tma_resize_def)
    moreover have "entry_wf p (ma_resize new c)"
      using cs fit resize by (simp add: entry_wf_def) (simp add: ma_resize_def)
    moreover have "allocationResize p old new s = Some (set_allocation p (ma_resize new c) s)"
      using resize g(1) sz c by (simp add: allocationResize_def)
    ultimately show ?thesis using shadow_rel_set[OF rel] by blast
  qed
qed

text \<open>
  The contract between what records a program's operations and what replays them: a step
  that the recorder makes and that keeps to its rules can be made by the replayer, and leaves
  the two related.
\<close>

locale simulation =
  fixes rec_step :: "'op \<Rightarrow> 'r \<Rightarrow> 'r option"
    and rep_step :: "'op \<Rightarrow> 's \<Rightarrow> 's option"
    and legal :: "'op \<Rightarrow> 'r \<Rightarrow> bool"
    and related :: "'r \<Rightarrow> 's \<Rightarrow> bool"
  assumes step: "related r s \<Longrightarrow> legal x r \<Longrightarrow> rec_step x r = Some r' \<Longrightarrow>
                   \<exists>s'. rep_step x s = Some s' \<and> related r' s'"

primrec legal_run :: "('op \<Rightarrow> 'r \<Rightarrow> 'r option) \<Rightarrow> ('op \<Rightarrow> 'r \<Rightarrow> bool) \<Rightarrow> 'op list \<Rightarrow> 'r \<Rightarrow> bool" where
  "legal_run f legal [] r = True"
| "legal_run f legal (x # xs) r \<longleftrightarrow>
     legal x r \<and> (case f x r of None \<Rightarrow> True | Some r' \<Rightarrow> legal_run f legal xs r')"

context simulation
begin

lemma run:
  "related r s \<Longrightarrow> legal_run rec_step legal xs r \<Longrightarrow> run_ops rec_step xs r = Some r' \<Longrightarrow>
   \<exists>s'. run_ops rep_step xs s = Some s' \<and> related r' s'"
proof (induction xs arbitrary: r s)
  case (Cons x xs)
  from Cons.prems(2,3) obtain u where u: "rec_step x r = Some u" "run_ops rec_step xs u = Some r'"
    and l: "legal x r" "legal_run rec_step legal xs u"
    by (auto simp: bind_eq_Some_conv)
  from step[OF Cons.prems(1) l(1) u(1)] obtain v where "rep_step x s = Some v" "related u v" by blast
  with Cons.IH[OF _ l(2) u(2)] show ?case by simp
qed simp

end

lemma shadow_step:
  assumes rel: "shadow_rel m s" and leg: "shadow_legal x m" and f: "shadow_fwd x m = Some m'"
  shows "\<exists>s'. mem_fwd x s = Some s' \<and> shadow_rel m' s'"
proof (cases x)
  case (OpAdd p n)
  then have "om_find m p = None" and m': "m' = om_insert p (new_TraceMemoryAllocation p n) m"
    using f by (auto simp: addAllocation_def)
  moreover have "om_find (ms_Allocations s) p = None"
    using calculation(1) rel omap_rel_find_None[of shadow_of "ms_Allocations s" "om_filter non_empty m" p]
    by (simp add: shadow_rel_def om_find_filter)
  ultimately show ?thesis using add_shadowed[OF rel _ _ refl] leg OpAdd by simp
next
  case (OpRemove p n)
  with leg f obtain t where "om_find m p = Some t" "tma_getLength t = unat n" "m' = om_erase p m"
    by (auto simp: removeAllocation_def)
  with remove_shadowed[OF rel] OpRemove show ?thesis by simp
next
  case (OpResize p old new)
  with leg f obtain t where "om_find m p = Some t" "tma_getLength t = unat old"
    "m' = om_insert p (tma_resize new t) m"
    by (auto simp: resizeAllocation_def bind_eq_Some_conv)
  with resize_shadowed[OF rel] leg OpResize show ?thesis by simp
qed (use block_shadowed[OF rel] copy_shadowed[OF rel] clear_shadowed[OF rel] leg f in blast)+

interpretation shadow: simulation shadow_fwd mem_fwd shadow_legal shadow_rel
  by unfold_locales (rule shadow_step)

section \<open>Queries\<close>

lemma takeWhile_shadow:
  "list_all2 shadow_byte i c \<Longrightarrow>
   length (takeWhile (\<lambda>c. c = getInitializedByte) c) = length (takeWhile (\<lambda>b. b = 255) i)"
  by (induction rule: list_all2_induct)
    (auto simp: shadow_byte_def getInitializedByte_def getUninitializedByte_def)

lemma all_shadow:
  "list_all2 shadow_byte i c \<Longrightarrow> list_all (\<lambda>c. c = getInitializedByte) c = list_all (\<lambda>b. b = 255) i"
  by (induction rule: list_all2_induct)
    (auto simp: shadow_byte_def getInitializedByte_def getUninitializedByte_def)

lemma shadow_bytes_init:
  assumes rel: "shadow_rel m s" and b: "shadow_bytes p n m = Some c" and n: "n \<noteq> 0" "interval_ok (area p n)"
  obtains i where "getByteInitialization (area p n) s = Some i" and "list_all2 shadow_byte i c" and "length c = unat n"
proof -
  from b obtain k t off where g: "getAllocationContaining p n m = Some (k, t)"
    and o: "getShadowAt p t = Some off" "slice off (unat n) (tma_Shadow t) = Some c"
    by (auto simp: shadow_bytes_def bind_eq_Some_conv)
  from containing_shadowed[OF rel g n] obtain a where a: "getAllocation (area p n) s = Some (k, a)"
    "shadow_of a t" "off = unat (p - ma_Address a)" using o(1) by auto
  have wf: "mem_wf s" using rel by (simp add: shadow_rel_def)
  note e = getAllocation_wfD(2)[OF wf a(1)] and B = getAllocation_SomeD[OF a(1)]
  have "p < p + n" using n by (simp add: interval_ok_def order_less_le)
  have len: "length (ma_Init a) = length (tma_Shadow t)" using a(2) by (auto simp: shadow_of_def dest: list_all2_lengthD)
  then obtain i where i: "slice off (unat n) (ma_Init a) = Some i" using o(2) by (auto simp: slice_def split: if_splits)
  have "contains_value (ma_area a) p"
    using B(2) \<open>p < p + n\<close> by (auto simp: contains_interval_def contains_value_def)
  then have "findAllocation p s = Some a" using B(1) by (auto simp: findAllocation_def)
  then have "getByteInitialization (area p n) s = Some i"
    using B(2) i a(3) by (simp add: getByteInitialization_def getAreaInitialization_def)
  moreover have "list_all2 shadow_byte i c" using a(2) list_all2_slice[OF _ i o(2)] by (simp add: shadow_of_def)
  ultimately show ?thesis using that length_slice[OF o(2)] by blast
qed

lemma whole_prefix: "length (takeWhile P xs) = length xs \<longleftrightarrow> list_all P xs"
  by (induction xs) auto

section \<open>Properties\<close>

text \<open>C7: Everything the recorder does to its shadow memory can be replayed: a sequence of
  allocations, deallocations, resizes, writes, moves and clears that the recorder's
  \<open>TraceMemoryState\<close> accepts is accepted by the viewer's \<open>MemoryState\<close>, and afterwards
  both have the same non-empty allocations and the same initialised bytes.\<close>

theorem recorder_replayable:
  assumes "legal_run shadow_fwd shadow_legal xs []" and "run_ops shadow_fwd xs [] = Some m"
  shows "\<exists>s. run_ops mem_fwd xs empty_MemoryState = Some s \<and> shadow_rel m s"
proof -
  have "shadow_rel [] empty_MemoryState"
    by (simp add: shadow_rel_def mem_wf_empty om_all_def om_filter_def) (simp add: empty_MemoryState_def)
  then show ?thesis using assms by (rule shadow.run)
qed

definition sample_shadow_ops :: "mem_op list" where
  "sample_shadow_ops =
     [OpAdd 16 4, OpAdd 40 0, OpBlock \<lparr>block_Address = 16, block_Data = [7, 9]\<rparr>, OpCopy 16 18 2,
      OpResize 16 4 6, OpClear (area 17 2), OpRemove 40 0]"

lemma sample_shadow_runs: "run_ops shadow_fwd sample_shadow_ops [] \<noteq> None"
  by code_simp

lemma sample_shadow_legal: "legal_run shadow_fwd shadow_legal sample_shadow_ops []"
  by code_simp

theorem recorder_replayable_witness:
  "\<exists>s. run_ops mem_fwd sample_shadow_ops empty_MemoryState = Some s \<and>
     shadow_rel (the (run_ops shadow_fwd sample_shadow_ops [])) s"
  using sample_shadow_runs by (intro recorder_replayable[OF sample_shadow_legal]) auto

text \<open>C8: The recorder and the viewer agree on what is initialised: where the shadow answers, a
  non-empty range has a known state exactly if the recreated memory is completely
  initialised there, and the length of the known state is the length of the longest
  initialised prefix of the recreated range.\<close>

theorem known_state_agrees:
  assumes "shadow_rel m s" and "n \<noteq> 0" and "interval_ok (area p n)" and "hasKnownState p n m = Some b"
  shows "region_isCompletelyInitialized (area p n) s = Some b \<and>
    (\<exists>i. getByteInitialization (area p n) s = Some i \<and>
       getLengthOfKnownState p n m = Some (length (takeWhile (\<lambda>x. x = 255) i)) \<and>
       (b \<longleftrightarrow> getLengthOfKnownState p n m = Some (unat n)))"
proof -
  from assms(4) obtain c where c: "shadow_bytes p n m = Some c" "b = list_all (\<lambda>c. c = getInitializedByte) c"
    by (auto simp: hasKnownState_def bind_eq_Some_conv)
  from shadow_bytes_init[OF assms(1) c(1) assms(2,3)] obtain i where
    i: "getByteInitialization (area p n) s = Some i" "list_all2 shadow_byte i c" "length c = unat n" .
  have len: "length i = unat n" using i(2,3) by (auto dest: list_all2_lengthD)
  moreover have "unat n \<noteq> 0" using assms(2) by (simp add: unat_eq_0)
  ultimately have "i \<noteq> []" by auto
  have "length (takeWhile (\<lambda>x. x = 255) i) = unat n \<longleftrightarrow> list_all (\<lambda>x. x = 255) i"
    using whole_prefix[of "\<lambda>x. x = 255" i] len by simp
  then show ?thesis
    using i \<open>i \<noteq> []\<close> c takeWhile_shadow[OF i(2)] all_shadow[OF i(2)]
    by (simp add: region_isCompletelyInitialized_def getLengthOfKnownState_def)
qed

theorem known_state_agrees_witness:
  "\<exists>s. run_ops mem_fwd [OpAdd 16 4] empty_MemoryState = Some s \<and>
     region_isCompletelyInitialized (area 16 4) s = Some False"
proof -
  obtain s where s: "run_ops mem_fwd [OpAdd 16 4] empty_MemoryState = Some s"
    "shadow_rel (the (run_ops shadow_fwd [OpAdd 16 4] [])) s"
    using shadow.run[of "[]" empty_MemoryState "[OpAdd 16 4]"]
    by (auto simp: shadow_rel_def mem_wf_empty om_all_def om_filter_def addAllocation_def)
      (auto simp: empty_MemoryState_def)
  moreover have "interval_ok (area 16 4)" by (simp add: interval_ok_def)
  moreover have "hasKnownState 16 4 (the (run_ops shadow_fwd [OpAdd 16 4] [])) = Some False" by code_simp
  ultimately show ?thesis using known_state_agrees by fastforce
qed

end
