(* ===== verification/ProcessRecorder.thy ===== *)
theory ProcessRecorder
  imports ShadowMemory ProcessState
begin

text \<open>
  The recorder's view of the whole process: \<open>TraceProcessListener\<close>
  (\<open>include/seec/Trace/TraceProcessListener.hpp\<close>, \<open>lib/Trace/TraceProcessListener.cpp\<close>) with the
  pointer targets of \<open>include/seec/Trace/TracePointer.hpp\<close> and the table of known library functions
  of \<open>DetectCallsLookup\<close>. LLVM's globals and functions are their indices in the module; the types of
  globals are the datatype \<open>GlobalType\<close>, which carries the offsets and sizes of the data layout.
  The memory of the recorded program is a parameter where the source reads it.
\<close>

section \<open>Detected library calls\<close>

text \<open>\<open>DetectCallsAll.def\<close>: the prefix and the name of every detectable function.\<close>

definition detectable_calls :: "(string \<times> string) list" where
  "detectable_calls =
     map (Pair ''C'')
      [''isalnum'', ''isalpha'', ''iscntrl'', ''isdigit'', ''isgraph'', ''islower'',
       ''isprint'', ''ispunct'', ''isspace'', ''isupper'', ''isxdigit'', ''tolower'',
       ''toupper''] @
     map (Pair ''LINUX'')
      [''__ctype_b_loc'', ''__ctype_tolower_loc'', ''__ctype_toupper_loc''] @
     map (Pair ''C'')
      [''setlocale'', ''localeconv'', ''signal'', ''raise'', ''fopen'', ''freopen'',
       ''fclose'', ''fflush'', ''fwide'', ''setbuf'', ''setvbuf'', ''fread'', ''fwrite'',
       ''fgetc'', ''getc'', ''fgets'', ''fputc'', ''putc'', ''fputs'', ''getchar'',
       ''gets'', ''putchar'', ''puts'', ''ungetc'', ''scanf'', ''fscanf'', ''sscanf'',
       ''printf'', ''fprintf'', ''sprintf'', ''snprintf'', ''ftell'', ''fgetpos'',
       ''fseek'', ''fsetpos'', ''rewind'', ''clearerr'', ''feof'', ''ferror'', ''perror'',
       ''remove'', ''rename'', ''tmpfile'', ''tmpnam'', ''atof'', ''atoi'', ''atol'',
       ''atoll'', ''strtol'', ''strtoll'', ''strtoul'', ''strtoull'', ''strtof'',
       ''strtod'', ''strtold'', ''strtoimax'', ''strtoumax'', ''calloc'', ''free'',
       ''malloc'', ''realloc'', ''getenv'', ''system'', ''rand'', ''srand'', ''mblen'',
       ''mbstowcs'', ''mbtowc'', ''wcstombs'', ''wctomb'', ''memchr'', ''memcmp'',
       ''memcpy'', ''memmove'', ''memset'', ''strcat'', ''strncat'', ''strchr'', ''strcmp'',
       ''strncmp'', ''strcoll'', ''strcpy'', ''strncpy'', ''strcspn'', ''strerror'',
       ''strlen'', ''strpbrk'', ''strrchr'', ''strspn'', ''strstr'', ''strxfrm'',
       ''asctime'', ''clock'', ''ctime'', ''difftime'', ''gmtime'', ''localtime'',
       ''mktime'', ''strftime'', ''time'']"

definition isKnownToDetectCall :: "string \<Rightarrow> bool" where
  "isKnownToDetectCall fn \<longleftrightarrow> list_ex (\<lambda>c. snd c = fn) detectable_calls"

text \<open>A \<open>Call\<close> is its prefix and name. \<open>DenseMap::insert\<close> keeps an entry that is present.\<close>

type_synonym DetectCall = "string \<times> string"
type_synonym Lookup = "(u64, DetectCall) omap"

fun find_symbols :: "(string \<Rightarrow> u64) \<Rightarrow> DetectCall list \<Rightarrow> Lookup \<Rightarrow> Lookup" where
  "find_symbols symbol [] m = m"
| "find_symbols symbol (c # cs) m =
     find_symbols symbol cs (if symbol (snd c) \<noteq> 0 then fst (map_insert (symbol (snd c)) c m) else m)"

definition new_Lookup :: "(string \<Rightarrow> u64) \<Rightarrow> Lookup" where
  "new_Lookup symbol = find_symbols symbol detectable_calls []"

definition lookup_Check :: "u64 \<Rightarrow> Lookup \<Rightarrow> DetectCall option" where
  "lookup_Check a m = om_find m a"

definition lookup_CheckCall :: "DetectCall \<Rightarrow> u64 \<Rightarrow> Lookup \<Rightarrow> bool" where
  "lookup_CheckCall c a m = (case om_find m a of Some d \<Rightarrow> d = c | None \<Rightarrow> False)"

definition lookup_Set :: "string \<Rightarrow> u64 \<Rightarrow> Lookup \<Rightarrow> Lookup \<times> bool" where
  "lookup_Set name a m =
     (case List.find (\<lambda>c. snd c = name) detectable_calls of
        Some c \<Rightarrow> (fst (map_insert a c m), True)
      | None \<Rightarrow> (m, False))"

section \<open>Pointer targets and dynamic allocations\<close>

record PointerTarget =
  tgt_Base :: u64
  tgt_Time :: u64

definition pointer_target :: "u64 \<Rightarrow> u64 \<Rightarrow> PointerTarget" where
  "pointer_target b t = \<lparr>tgt_Base = b, tgt_Time = t\<rparr>"

abbreviation null_target :: PointerTarget where
  "null_target \<equiv> pointer_target 0 0"

definition target_set :: "PointerTarget \<Rightarrow> bool" where
  "target_set p \<longleftrightarrow> tgt_Base p \<noteq> 0"

record DynamicAllocation =
  da_Thread :: u32
  da_Offset :: nat
  da_Address :: u64
  da_Size :: u64

definition da_area :: "DynamicAllocation \<Rightarrow> MemoryArea" where
  "da_area d = area (da_Address d) (da_Size d)"

definition da_update :: "u32 \<Rightarrow> nat \<Rightarrow> u64 \<Rightarrow> DynamicAllocation \<Rightarrow> DynamicAllocation" where
  "da_update th off n d = d\<lparr>da_Thread := th, da_Offset := off, da_Size := n\<rparr>"

section \<open>The listener\<close>

record ProcessListener =
  pl_OutputEnabled :: bool
  pl_DetectCallsLookup :: Lookup
  pl_GlobalVariableAddresses :: "u64 list"
  pl_GlobalVariableLookup :: "(u64, nat) imap"
  pl_GlobalVariableInitialData :: "u64 list"
  pl_FunctionAddresses :: "u64 list"
  pl_FunctionLookup :: "(u64, nat) omap"
  pl_DataOut :: "byte list option"
  pl_Time :: u64
  pl_NextThreadID :: u32
  pl_ActiveThreadCount :: int
  pl_TraceMemory :: TraceMemoryState
  pl_KnownMemory :: "(u64, MemoryPermission) imap"
  pl_RegionTemporalIDs :: "(u64, u64) omap"
  pl_InMemoryPointerObjects :: "(u64, PointerTarget) omap"
  pl_DynamicMemoryAllocations :: "(u64, DynamicAllocation) omap"
  pl_Streams :: TraceStreams
  pl_StreamsInitial :: "u64 list"
  pl_Dirs :: TraceDirs
  pl_EnvironSetup :: bool

text \<open>
  \<open>recordData\<close> appends to the data block and returns where the data begins. Without a block the
  offset is zero and nothing is kept. The offset is a 64-bit counter.
\<close>

definition recordData :: "byte list \<Rightarrow> ProcessListener \<Rightarrow> u64 \<times> ProcessListener" where
  "recordData d p =
     (case pl_DataOut p of
        None \<Rightarrow> (0, p)
      | Some out \<Rightarrow> (of_nat (length out), p\<lparr>pl_DataOut := Some (out @ d)\<rparr>))"

definition open_standard_stream :: "u64 \<Rightarrow> byte list \<Rightarrow> byte list \<Rightarrow> ProcessListener \<Rightarrow> ProcessListener" where
  "open_standard_stream fp name mode p =
     (let p1 = p\<lparr>pl_StreamsInitial := pl_StreamsInitial p @ [fp]\<rparr>;
          (a, p2) = recordData name p1;
          (b, p3) = recordData mode p2
      in p3\<lparr>pl_Streams := streamOpened fp a b (pl_Streams p3)\<rparr>)"

text \<open>
  The constructor, for a module with the given numbers of globals and functions, the addresses of
  the library functions, whether a data block could be opened, and the standard streams.
\<close>

definition new_ProcessListener ::
  "nat \<Rightarrow> nat \<Rightarrow> (string \<Rightarrow> u64) \<Rightarrow> bool \<Rightarrow> u64 \<Rightarrow> u64 \<Rightarrow> u64 \<Rightarrow> ProcessListener" where
  "new_ProcessListener globals functions symbol opened stdin stdout stderr =
     (let p = \<lparr>pl_OutputEnabled = True, pl_DetectCallsLookup = new_Lookup symbol,
               pl_GlobalVariableAddresses = replicate globals 0, pl_GlobalVariableLookup = [],
               pl_GlobalVariableInitialData = replicate globals 0,
               pl_FunctionAddresses = replicate functions 0, pl_FunctionLookup = [],
               pl_DataOut = (if opened then Some [] else None), pl_Time = 0, pl_NextThreadID = 1,
               pl_ActiveThreadCount = 0, pl_TraceMemory = [], pl_KnownMemory = [],
               pl_RegionTemporalIDs = [], pl_InMemoryPointerObjects = [],
               pl_DynamicMemoryAllocations = [], pl_Streams = [], pl_StreamsInitial = [], pl_Dirs = [],
               pl_EnvironSetup = False\<rparr>;
          p1 = open_standard_stream stdin (str ''stdin'' @ [0]) (str ''r'' @ [0]) p;
          p2 = open_standard_stream stdout (str ''stdout'' @ [0]) (str ''w'' @ [0]) p1
      in open_standard_stream stderr (str ''stderr'' @ [0]) (str ''w'' @ [0]) p2)"

definition pl_traceClose :: "ProcessListener \<Rightarrow> ProcessListener" where
  "pl_traceClose p = p\<lparr>pl_OutputEnabled := False\<rparr>"

text \<open>The process trace that is written at the end; the data is the block written so far.\<close>

definition traceWriteProcessData :: "ProcessListener \<Rightarrow> ProcessTrace option" where
  "traceWriteProcessData p =
     (if \<not> pl_OutputEnabled p then None
      else Some \<lparr>pt_Data = (case pl_DataOut p of None \<Rightarrow> [] | Some d \<Rightarrow> d),
                 pt_GlobalVariableAddresses = pl_GlobalVariableAddresses p,
                 pt_GlobalVariableInitialData = pl_GlobalVariableInitialData p,
                 pt_FunctionAddresses = pl_FunctionAddresses p,
                 pt_StreamsInitial = pl_StreamsInitial p\<rparr>)"

section \<open>Accessors, time and threads\<close>

definition runtime_address :: "u64 list \<Rightarrow> nat option \<Rightarrow> u64" where
  "runtime_address as i = (case i of None \<Rightarrow> 0 | Some k \<Rightarrow> if length as \<le> k then 0 else as ! k)"

definition getGlobalRuntimeAddress :: "nat option \<Rightarrow> ProcessListener \<Rightarrow> u64" where
  "getGlobalRuntimeAddress i p = runtime_address (pl_GlobalVariableAddresses p) i"

definition getFunctionRuntimeAddress :: "nat option \<Rightarrow> ProcessListener \<Rightarrow> u64" where
  "getFunctionRuntimeAddress i p = runtime_address (pl_FunctionAddresses p) i"

definition getFunctionAt :: "u64 \<Rightarrow> ProcessListener \<Rightarrow> nat option" where
  "getFunctionAt a p = om_find (pl_FunctionLookup p) a"

definition pl_getContainingMemoryArea :: "u64 \<Rightarrow> ProcessListener \<Rightarrow> MemoryArea option" where
  "pl_getContainingMemoryArea a p =
     map_option tma_getArea (findAllocationContaining a (pl_TraceMemory p))"

definition getNewTime :: "ProcessListener \<Rightarrow> u64 \<times> ProcessListener" where
  "getNewTime p = (let t = pl_Time p + 1 in (t, p\<lparr>pl_Time := t\<rparr>))"

definition registerThreadListener :: "ProcessListener \<Rightarrow> u32 \<times> ProcessListener" where
  "registerThreadListener p =
     (pl_NextThreadID p, p\<lparr>pl_ActiveThreadCount := pl_ActiveThreadCount p + 1,
                           pl_NextThreadID := pl_NextThreadID p + 1\<rparr>)"

definition deregisterThreadListener :: "ProcessListener \<Rightarrow> ProcessListener" where
  "deregisterThreadListener p = p\<lparr>pl_ActiveThreadCount := pl_ActiveThreadCount p - 1\<rparr>"

section \<open>Pointer objects\<close>

definition getRegionTemporalID :: "u64 \<Rightarrow> ProcessListener \<Rightarrow> u64" where
  "getRegionTemporalID a p = (case om_find (pl_RegionTemporalIDs p) a of Some t \<Rightarrow> t | None \<Rightarrow> 0)"

definition incrementRegionTemporalID :: "u64 \<Rightarrow> ProcessListener \<Rightarrow> ProcessListener" where
  "incrementRegionTemporalID a p =
     p\<lparr>pl_RegionTemporalIDs := om_insert a (getRegionTemporalID a p + 1) (pl_RegionTemporalIDs p)\<rparr>"

definition makePointerObject :: "u64 \<Rightarrow> ProcessListener \<Rightarrow> PointerTarget" where
  "makePointerObject a p = pointer_target a (getRegionTemporalID a p)"

text \<open>The values the process listener knows the target of; any other is unreachable.\<close>

datatype ConstantPointer = GlobalPointer "nat option" | FunctionPointer "nat option" | NullPointer | OtherPointer

definition pl_getPointerObject :: "ConstantPointer \<Rightarrow> ProcessListener \<Rightarrow> PointerTarget option" where
  "pl_getPointerObject v p =
     (case v of
        GlobalPointer g \<Rightarrow>
          let it = imv_find (getGlobalRuntimeAddress g p) (pl_GlobalVariableLookup p) in
          if it < length (pl_GlobalVariableLookup p)
          then Some (pointer_target (item_Begin (pl_GlobalVariableLookup p ! it)) 0) else None
      | FunctionPointer f \<Rightarrow> Some (pointer_target (getFunctionRuntimeAddress f p) 0)
      | NullPointer \<Rightarrow> Some null_target
      | OtherPointer \<Rightarrow> None)"

definition getInMemoryPointerObject :: "u64 \<Rightarrow> ProcessListener \<Rightarrow> PointerTarget" where
  "getInMemoryPointerObject a p =
     (case om_find (pl_InMemoryPointerObjects p) a of Some t \<Rightarrow> t | None \<Rightarrow> null_target)"

text \<open>\<open>lower_bound\<close>: the first key that is not smaller; \<open>None\<close> is \<open>end()\<close>.\<close>

definition om_lower_bound :: "'k::linorder \<Rightarrow> ('k, 'v) omap \<Rightarrow> 'k option" where
  "om_lower_bound k m = map_option fst (List.find (\<lambda>e. k \<le> fst e) m)"

definition om_next :: "'k::linorder \<Rightarrow> ('k, 'v) omap \<Rightarrow> 'k option" where
  "om_next k m = map_option fst (List.find (\<lambda>e. k < fst e) m)"

lemma om_next_gt: "om_next k m = Some l \<Longrightarrow> k < l"
  unfolding om_next_def by (auto simp: find_Some_iff) (metis fst_conv)

definition clear_objects :: "MemoryArea \<Rightarrow> (u64, PointerTarget) omap \<Rightarrow> (u64, PointerTarget) omap" where
  "clear_objects r m =
     (case om_lower_bound (iv_Start r) m of
        None \<Rightarrow> m
      | Some k \<Rightarrow> if iv_End r \<le> k then m
                  else filter (\<lambda>e. \<not> (iv_Start r \<le> fst e \<and> fst e < iv_End r)) m)"

definition clearInMemoryPointerObjects :: "MemoryArea \<Rightarrow> ProcessListener \<Rightarrow> ProcessListener" where
  "clearInMemoryPointerObjects r p =
     p\<lparr>pl_InMemoryPointerObjects := clear_objects r (pl_InMemoryPointerObjects p)\<rparr>"

definition setInMemoryPointerObject :: "u64 \<Rightarrow> PointerTarget \<Rightarrow> ProcessListener \<Rightarrow> ProcessListener" where
  "setInMemoryPointerObject a t p =
     (let p1 = clearInMemoryPointerObjects (area a 8) p
      in p1\<lparr>pl_InMemoryPointerObjects := om_insert a t (pl_InMemoryPointerObjects p1)\<rparr>)"

text \<open>
  Copying the pointer objects of an area. If the areas are apart the entries are copied while the
  map is walked from \<open>BeginIt\<close> to \<open>EndIt\<close>, both found beforehand (an iterator is the key it points
  to, \<open>None\<close> is \<open>end()\<close>): an iterator whose entry has been erased, or a walk past the end, is
  undefined. New entries above the present one are walked over too.
\<close>

function copy_loop ::
  "u64 \<Rightarrow> u64 \<Rightarrow> u64 option \<Rightarrow> u64 option \<Rightarrow> (u64, PointerTarget) omap \<Rightarrow> (u64, PointerTarget) omap option" where
  "copy_loop src dst cur stop m =
     (if cur = stop then Some m
      else case cur of
        None \<Rightarrow> None
      | Some k \<Rightarrow> (case om_find m k of
          None \<Rightarrow> None
        | Some t \<Rightarrow>
            let m1 = fst (map_insert (dst + (k - src)) t m)
            in copy_loop src dst (om_next k m1) stop m1))"
  by pat_completeness auto

termination
proof (relation "measure (\<lambda>(src, dst, cur, stop, m). case cur of None \<Rightarrow> 0 | Some k \<Rightarrow> 2 ^ 64 - unat (k :: u64))", goal_cases)
  case (2 src dst cur stop m k t m1)
  have "unat k < 2 ^ 64" using unsigned_less[of k] by simp
  with 2 show ?case
    by (cases "om_next k m1") (auto dest!: om_next_gt simp: word_less_nat_alt intro!: diff_less_mono2)
qed simp

declare copy_loop.simps [simp del]

fun insert_objects ::
  "(u64, PointerTarget) omap \<Rightarrow> (u64, PointerTarget) omap \<Rightarrow> (u64, PointerTarget) omap" where
  "insert_objects [] m = m"
| "insert_objects ((k, t) # os) m = insert_objects os (fst (map_insert k t m))"

definition iterator_valid :: "u64 option \<Rightarrow> (u64, 'v) omap \<Rightarrow> bool" where
  "iterator_valid it m \<longleftrightarrow> (case it of None \<Rightarrow> True | Some k \<Rightarrow> om_find m k \<noteq> None)"

definition iterator_le :: "u64 option \<Rightarrow> u64 option \<Rightarrow> bool" where
  "iterator_le i j \<longleftrightarrow> (case j of None \<Rightarrow> True | Some l \<Rightarrow> (case i of None \<Rightarrow> False | Some k \<Rightarrow> k \<le> l))"

definition copy_objects ::
  "u64 \<Rightarrow> u64 \<Rightarrow> u64 \<Rightarrow> (u64, PointerTarget) omap \<Rightarrow> (u64, PointerTarget) omap option" where
  "copy_objects src dst n m =
     (let b = om_lower_bound src m; e = om_lower_bound (src + n) m in
      if \<not> intersects (area src n) (area dst n)
      then do {
        let m1 = clear_objects (area dst n) m;
        require (iterator_valid b m1 \<and> iterator_valid e m1);
        copy_loop src dst b e m1
      }
      else do {
        require (iterator_le b e);
        let objects = map (\<lambda>(k, t). (dst + (k - src), t))
              (filter (\<lambda>x. iterator_le b (Some (fst x)) \<and> (case e of None \<Rightarrow> True | Some l \<Rightarrow> fst x < l)) m);
        Some (insert_objects objects (clear_objects (area dst n) m))
      })"

definition copyInMemoryPointerObjects :: "u64 \<Rightarrow> u64 \<Rightarrow> u64 \<Rightarrow> ProcessListener \<Rightarrow> ProcessListener option" where
  "copyInMemoryPointerObjects src dst n p = do {
     m \<leftarrow> copy_objects src dst n (pl_InMemoryPointerObjects p);
     Some (p\<lparr>pl_InMemoryPointerObjects := m\<rparr>)
   }"

section \<open>Known memory and dynamic memory\<close>

definition with_memory ::
  "(TraceMemoryState \<Rightarrow> TraceMemoryState option) \<Rightarrow> ProcessListener \<Rightarrow> ProcessListener option" where
  "with_memory f p = do { m \<leftarrow> f (pl_TraceMemory p); Some (p\<lparr>pl_TraceMemory := m\<rparr>) }"

definition pl_addKnownMemoryRegion :: "u64 \<Rightarrow> u64 \<Rightarrow> MemoryPermission \<Rightarrow> ProcessListener \<Rightarrow> ProcessListener option" where
  "pl_addKnownMemoryRegion a n access p = do {
     p1 \<leftarrow> with_memory (addAllocation a n) p;
     Some (incrementRegionTemporalID a
       (p1\<lparr>pl_KnownMemory := fst (imv_insert a (a + (n - 1)) access (pl_KnownMemory p1))\<rparr>))
   }"

definition pl_removeKnownMemoryRegion :: "u64 \<Rightarrow> ProcessListener \<Rightarrow> (ProcessListener \<times> bool) option" where
  "pl_removeKnownMemoryRegion a p = do {
     p1 \<leftarrow> with_memory (removeAllocation a) p;
     let r = imv_erase a (pl_KnownMemory p1);
     Some (p1\<lparr>pl_KnownMemory := fst r\<rparr>, snd r \<noteq> 0)
   }"

definition isCurrentDynamicMemoryAllocation :: "u64 \<Rightarrow> ProcessListener \<Rightarrow> bool" where
  "isCurrentDynamicMemoryAllocation a p \<longleftrightarrow> om_find (pl_DynamicMemoryAllocations p) a \<noteq> None"

definition getCurrentDynamicMemoryAllocation :: "u64 \<Rightarrow> ProcessListener \<Rightarrow> DynamicAllocation option" where
  "getCurrentDynamicMemoryAllocation a p = om_find (pl_DynamicMemoryAllocations p) a"

definition setCurrentDynamicMemoryAllocation ::
  "u64 \<Rightarrow> u32 \<Rightarrow> nat \<Rightarrow> u64 \<Rightarrow> ProcessListener \<Rightarrow> ProcessListener option" where
  "setCurrentDynamicMemoryAllocation a th off n p =
     (case om_find (pl_DynamicMemoryAllocations p) a of
        Some d \<Rightarrow> do {
          p1 \<leftarrow> with_memory (resizeAllocation a n) p;
          Some (incrementRegionTemporalID a
            (p1\<lparr>pl_DynamicMemoryAllocations := om_insert a (da_update th off n d) (pl_DynamicMemoryAllocations p1)\<rparr>))
        }
      | None \<Rightarrow> do {
          p1 \<leftarrow> with_memory (addAllocation a n) p;
          Some (incrementRegionTemporalID a
            (p1\<lparr>pl_DynamicMemoryAllocations :=
                  om_insert a \<lparr>da_Thread = th, da_Offset = off, da_Address = a, da_Size = n\<rparr>
                    (pl_DynamicMemoryAllocations p1)\<rparr>))
        })"

definition removeCurrentDynamicMemoryAllocation :: "u64 \<Rightarrow> ProcessListener \<Rightarrow> (ProcessListener \<times> bool) option" where
  "removeCurrentDynamicMemoryAllocation a p = do {
     p1 \<leftarrow> with_memory (removeAllocation a) p;
     Some (p1\<lparr>pl_DynamicMemoryAllocations := om_erase a (pl_DynamicMemoryAllocations p1)\<rparr>,
           om_find (pl_DynamicMemoryAllocations p1) a \<noteq> None)
   }"

section \<open>Globals and functions\<close>

text \<open>
  A global variable arrives with its address, the size of its type and its bytes. Overlapping
  globals are unreachable unless the new one encloses the old one, which is then replaced.
\<close>

definition insert_global :: "u64 \<Rightarrow> u64 \<Rightarrow> nat \<Rightarrow> (u64, nat) imap \<Rightarrow> (u64, nat) imap option" where
  "insert_global s e g m =
     (let r = imv_insert s e g m; m1 = fst r; it = fst (snd r); inserted = snd (snd r) in
      if inserted then Some m1
      else do {
        require (it < length m1);
        let old = m1 ! it;
        if s < item_Begin old \<and> item_End old < e then Some (fst (imv_insert s e g (imv_erase_at it m1)))
        else if s < item_Begin old \<or> item_End old < e then None
        else Some m1
      })"

definition allocate_global :: "u64 \<Rightarrow> u64 \<Rightarrow> TraceMemoryState \<Rightarrow> TraceMemoryState option" where
  "allocate_global s n m =
     (case findAllocationContaining s m of
        Some old \<Rightarrow> do {
          let s' = min s (tma_Address old);
          let e' = max (s + n) (iv_End (tma_getArea old));
          m1 \<leftarrow> removeAllocation (tma_Address old) m;
          m2 \<leftarrow> addAllocation s' (e' - s') m1;
          tm_add s' (e' - s') m2
        }
      | None \<Rightarrow> addAllocation s n m \<bind> tm_add s n)"

definition notifyGlobalVariable :: "nat \<Rightarrow> u64 \<Rightarrow> byte list \<Rightarrow> ProcessListener \<Rightarrow> ProcessListener option" where
  "notifyGlobalVariable g s bytes p = do {
     require (g < length (pl_GlobalVariableAddresses p) \<and> g < length (pl_GlobalVariableInitialData p));
     let n = of_nat (length bytes);
     let p1 = p\<lparr>pl_GlobalVariableAddresses := (pl_GlobalVariableAddresses p)[g := s]\<rparr>;
     m \<leftarrow> insert_global s (s + (n - 1)) g (pl_GlobalVariableLookup p1);
     p2 \<leftarrow> with_memory (allocate_global s n) (p1\<lparr>pl_GlobalVariableLookup := m\<rparr>);
     let r = recordData bytes p2;
     Some ((snd r)\<lparr>pl_GlobalVariableInitialData := (pl_GlobalVariableInitialData (snd r))[g := fst r]\<rparr>)
   }"

datatype GlobalType =
    TyPointer
  | TyStruct "(GlobalType \<times> u64) list"
  | TySequential GlobalType nat u64
  | TyPlain

fun TypeIsOrContainsPointer :: "GlobalType \<Rightarrow> bool" where
  "TypeIsOrContainsPointer TyPointer = True"
| "TypeIsOrContainsPointer (TyStruct elems) = list_ex (\<lambda>e. TypeIsOrContainsPointer (fst e)) elems"
| "TypeIsOrContainsPointer (TySequential t n sz) = TypeIsOrContainsPointer t"
| "TypeIsOrContainsPointer TyPlain = False"

text \<open>\<open>peek\<close> is the word of the program's memory at an address.\<close>

definition initial_object :: "(u64 \<Rightarrow> u64) \<Rightarrow> u64 \<Rightarrow> ProcessListener \<Rightarrow> ProcessListener" where
  "initial_object peek a p =
     (if peek a = 0 then p
      else let it = imv_find (peek a) (pl_GlobalVariableLookup p) in
           if it < length (pl_GlobalVariableLookup p)
           then setInMemoryPointerObject a (pointer_target (item_Begin (pl_GlobalVariableLookup p ! it)) 0) p
           else p)"

fun setGVInitialIMPO :: "(u64 \<Rightarrow> u64) \<Rightarrow> GlobalType \<Rightarrow> u64 \<Rightarrow> ProcessListener \<Rightarrow> ProcessListener" where
  "setGVInitialIMPO peek TyPointer a p = initial_object peek a p"
| "setGVInitialIMPO peek (TyStruct elems) a p =
     fold (\<lambda>e. setGVInitialIMPO peek (fst e) (a + snd e)) elems p"
| "setGVInitialIMPO peek (TySequential t n sz) a p =
     fold (\<lambda>i. setGVInitialIMPO peek t (a + of_nat i * sz)) [0..<n] p"
| "setGVInitialIMPO peek TyPlain a p = p"

definition notifyGlobalVariablesComplete ::
  "(u64 \<Rightarrow> u64) \<Rightarrow> (nat \<Rightarrow> GlobalType) \<Rightarrow> ProcessListener \<Rightarrow> ProcessListener" where
  "notifyGlobalVariablesComplete peek type_of p =
     fold (\<lambda>e q. if TypeIsOrContainsPointer (type_of (item_Value e))
                 then setGVInitialIMPO peek (type_of (item_Value e)) (item_Begin e) q else q)
       (pl_GlobalVariableLookup p) p"

definition notifyFunction :: "nat \<Rightarrow> string \<Rightarrow> u64 \<Rightarrow> ProcessListener \<Rightarrow> ProcessListener option" where
  "notifyFunction f name a p = do {
     require (f < length (pl_FunctionAddresses p));
     Some (p\<lparr>pl_FunctionAddresses := (pl_FunctionAddresses p)[f := a],
             pl_FunctionLookup := fst (map_insert a f (pl_FunctionLookup p)),
             pl_DetectCallsLookup := fst (lookup_Set name a (pl_DetectCallsLookup p))\<rparr>)
   }"

end
