(* ===== verification/PointerObjects.thy ===== *)
theory PointerObjects
  imports ProcessRecorder
begin

text \<open>
  Pointer objects in memory: what \<open>clearInMemoryPointerObjects\<close>, \<open>setInMemoryPointerObject\<close> and
  \<open>copyInMemoryPointerObjects\<close> do to the target found at each address, and when walking the map
  while it is being extended is sound.
\<close>

section \<open>Iterators\<close>

lemma find_first:
  assumes "om_wf m"
  shows "map_option fst (List.find (\<lambda>e. P (fst e)) m) =
           (if \<exists>k \<in> dom (om_find m). P k then Some (LEAST k. k \<in> dom (om_find m) \<and> P k) else None)"
  using assms
proof (induction m)
  case (Cons e m)
  obtain a v where e: "e = (a, v)" by (cases e)
  with Cons.prems have lt: "\<forall>k \<in> fst ` set m. a < k" and wf: "om_wf m" by (simp_all add: om_wf_Cons)
  show ?case
  proof (cases "P a")
    case True
    then have "(LEAST k. k \<in> dom (om_find (e # m)) \<and> P k) = a"
      using lt by (intro Least_equality) (auto simp: dom_om_find e less_imp_le)
    with True show ?thesis by (auto simp: e dom_om_find)
  next
    case False
    then have "k \<in> dom (om_find (e # m)) \<and> P k \<longleftrightarrow> k \<in> dom (om_find m) \<and> P k" for k
      by (auto simp: dom_om_find e)
    with False show ?thesis using Cons.IH[OF wf] by (simp add: e Bex_def)
  qed
qed (simp add: dom_om_find)

lemma first_key:
  fixes m :: "(u64, 'v) omap"
  assumes "om_wf m" and "map_option fst (List.find (\<lambda>e. P (fst e)) m) = Some l"
  shows "l \<in> dom (om_find m) \<and> P l \<and> (\<forall>k. k \<in> dom (om_find m) \<longrightarrow> P k \<longrightarrow> l \<le> k)"
proof -
  let ?Q = "\<lambda>k. k \<in> dom (om_find m) \<and> P k"
  from assms find_first[OF assms(1), of P] obtain k where "?Q k" and l: "l = (LEAST k. ?Q k)"
    by (auto split: if_splits)
  then show ?thesis using LeastI[of ?Q k] Least_le[of ?Q] by auto
qed

lemma no_first_key:
  assumes "om_wf m" and "map_option fst (List.find (\<lambda>e. P (fst e)) m) = None"
  shows "k \<in> dom (om_find m) \<Longrightarrow> \<not> P k"
  using assms find_first[OF assms(1), of P] by (auto split: if_splits)

lemmas om_lower_bound_Some = first_key[where P = "\<lambda>k. c \<le> k" for c, folded om_lower_bound_def]
lemmas om_lower_bound_None = no_first_key[where P = "\<lambda>k. c \<le> k" for c, folded om_lower_bound_def]
lemmas om_next_Some = first_key[where P = "\<lambda>k. c < k" for c, folded om_next_def]
lemmas om_next_None = no_first_key[where P = "\<lambda>k. c < k" for c, folded om_next_def]

text \<open>An iterator is at or before a present key exactly if it bounds the key.\<close>

lemma lower_bound_le:
  assumes "om_wf m" and "k \<in> dom (om_find m)"
  shows "iterator_le (om_lower_bound c m) (Some k) \<longleftrightarrow> c \<le> k"
proof (cases "om_lower_bound c m")
  case None
  then show ?thesis using om_lower_bound_None[OF assms(1) None assms(2)] by (simp add: iterator_le_def)
next
  case (Some l)
  from om_lower_bound_Some[OF assms(1) Some] assms(2) show ?thesis by (auto simp: iterator_le_def Some)
qed

lemma next_le:
  assumes "om_wf m" and "k \<in> dom (om_find m)"
  shows "iterator_le (om_next c m) (Some k) \<longleftrightarrow> c < k"
proof (cases "om_next c m")
  case None
  then show ?thesis using om_next_None[OF assms(1) None assms(2)] by (simp add: iterator_le_def)
next
  case (Some l)
  from om_next_Some[OF assms(1) Some] assms(2) show ?thesis by (auto simp: iterator_le_def Some)
qed

text \<open>Entries below the bound, or at or above the bound's first key, do not move an iterator.\<close>

lemma om_lower_bound_insert:
  assumes "om_wf m" and "k < c \<or> (\<exists>l. om_lower_bound c m = Some l \<and> l \<le> k)"
  shows "om_lower_bound c (om_insert k v m) = om_lower_bound c m"
  using assms
proof (induction k v m rule: om_insert.induct)
  case (2 k v a w m)
  then show ?case by (auto simp: om_lower_bound_def om_wf_Cons split: if_splits)
qed (auto simp: om_lower_bound_def)

lemma om_next_insert:
  assumes "om_wf m" and "k < c \<or> (\<exists>l. om_next c m = Some l \<and> l \<le> k)"
  shows "om_next c (om_insert k v m) = om_next c m"
  using assms
proof (induction k v m rule: om_insert.induct)
  case (2 k v a w m)
  then show ?case by (auto simp: om_next_def om_wf_Cons split: if_splits)
qed (auto simp: om_next_def)

section \<open>Clearing and setting\<close>

lemma om_wf_filter_keys: "om_wf m \<Longrightarrow> om_wf (filter P m)"
  by (induction m) (auto simp: om_wf_Cons)

lemma om_find_filter_keys:
  "om_find (filter (\<lambda>e. P (fst e)) m) k = (if P k then om_find m k else None)"
  by (induction m) (auto simp: om_find_Cons)

lemma clear_objects_wf: "om_wf m \<Longrightarrow> om_wf (clear_objects r m)"
  by (simp add: clear_objects_def om_wf_filter_keys split: option.split)

lemma clear_objects_find:
  assumes "om_wf m"
  shows "om_find (clear_objects r m) k = (if k \<in> bytes_of r then None else om_find m k)"
proof (cases "om_lower_bound (iv_Start r) m")
  case None
  have "om_find m k = None" if "k \<in> bytes_of r"
    using om_lower_bound_None[OF assms None, of k] that by (auto simp: bytes_of_def)
  with None show ?thesis by (simp add: clear_objects_def)
next
  case (Some l)
  from om_lower_bound_Some[OF assms Some]
  have l: "om_find m k \<noteq> None \<Longrightarrow> iv_Start r \<le> k \<Longrightarrow> l \<le> k" by auto
  show ?thesis
  proof (cases "iv_End r \<le> l")
    case True
    have "om_find m k = None" if "k \<in> bytes_of r"
      using l that True by (force simp: bytes_of_def)
    with True Some show ?thesis by (simp add: clear_objects_def)
  next
    case False
    with Some show ?thesis
      using om_find_filter_keys[of "\<lambda>k. \<not> (iv_Start r \<le> k \<and> k < iv_End r)" m k]
      by (simp add: clear_objects_def bytes_of_def)
  qed
qed

lemma set_object_find:
  assumes "om_wf (pl_InMemoryPointerObjects p)"
  shows "om_find (pl_InMemoryPointerObjects (setInMemoryPointerObject a t p)) k =
    (if k = a then Some t else if k \<in> bytes_of (area a 8) then None
     else om_find (pl_InMemoryPointerObjects p) k)"
  using assms
  by (simp add: setInMemoryPointerObject_def clearInMemoryPointerObjects_def om_find_insert
      clear_objects_wf clear_objects_find)

section \<open>Copying\<close>

lemma map_insert_find:
  "om_wf m \<Longrightarrow> om_find (fst (map_insert k v m)) j =
     (if j = k \<and> om_find m k = None then Some v else om_find m j)"
  by (simp add: map_insert_def om_find_insert split: option.split)

lemma insert_objects_find:
  "om_wf m \<Longrightarrow> om_wf (insert_objects os m) \<and>
     om_find (insert_objects os m) j = (case om_find m j of Some t \<Rightarrow> Some t | None \<Rightarrow> map_of os j)"
proof (induction os m rule: insert_objects.induct)
  case (2 k t os m)
  from "2.IH"[OF map_insert_wf[OF "2.prems"]] show ?case
    by (auto simp: map_insert_find[OF "2.prems"] split: option.splits)
qed (simp split: option.split)

lemma shift_in:
  fixes a b n k :: u64
  assumes "a \<le> a + n" and "b \<le> b + n" and "a \<le> k" and "k < a + n"
  shows "b \<le> b + (k - a)" and "b + (k - a) < b + n"
proof -
  have a: "unat (a + n) = unat a + unat n" and b: "unat b + unat n < 2 ^ 64" "unat (b + n) = unat b + unat n"
    using assms(1,2) by (simp_all add: no_olen_add_nat unat_add_no_wrap)
  have d: "unat (k - a) = unat k - unat a" using assms(3) by (rule unat_diff_le)
  have lt: "unat (k - a) < unat n" using assms(3,4) a d by (simp add: word_le_nat_alt word_less_nat_alt)
  then have "unat (b + (k - a)) = unat b + unat (k - a)" using b(1) by (intro unat_add_no_wrap) simp
  then show "b \<le> b + (k - a)" "b + (k - a) < b + n"
    using lt b(2) by (simp_all add: word_le_nat_alt word_less_nat_alt)
qed

text \<open>Where the copied target of an address of the destination came from.\<close>

lemma map_of_shifted:
  "map_of (map (\<lambda>(k, t). (d + (k - s), t)) (filter (\<lambda>x. P (fst x)) m)) (j :: u64) =
     (if P (s + (j - d)) then om_find m (s + (j - d)) else None)"
proof (induction m)
  case (Cons e m)
  obtain k t where "e = (k, t)" by (cases e)
  moreover have "d + (k - s) = j \<longleftrightarrow> k = s + (j - d)" by (auto simp: algebra_simps)
  ultimately show ?case using Cons by (auto simp: om_find_Cons)
qed simp

text \<open>The entries \<open>[src, src + n)\<close> moved to \<open>[dst, dst + n)\<close>.\<close>

definition moved_objects ::
  "u64 \<Rightarrow> u64 \<Rightarrow> u64 \<Rightarrow> (u64, PointerTarget) omap \<Rightarrow> u64 \<Rightarrow> PointerTarget option" where
  "moved_objects src dst n m j =
     (if j \<in> bytes_of (area dst n) then om_find m (src + (j - dst)) else om_find m j)"

lemma copy_objects_together:
  assumes wf: "om_wf m" and S: "src \<le> src + n" and D: "dst \<le> dst + n"
    and i: "intersects (area src n) (area dst n)"
  shows "\<exists>m'. copy_objects src dst n m = Some m' \<and> om_wf m' \<and> om_find m' = moved_objects src dst n m"
proof -
  let ?b = "om_lower_bound src m" and ?e = "om_lower_bound (src + n) m"
  let ?P = "\<lambda>k. iterator_le ?b (Some k) \<and> (case ?e of None \<Rightarrow> True | Some l \<Rightarrow> k < l)"
  let ?c = "clear_objects (area dst n) m"
  define os where "os = map (\<lambda>(k, t). (dst + (k - src), t)) (filter (\<lambda>x. ?P (fst x)) m)"
  have P: "?P k \<longleftrightarrow> src \<le> k \<and> k < src + n" if "k \<in> dom (om_find m)" for k
    using that lower_bound_le[OF wf that, of src] lower_bound_le[OF wf that, of "src + n"]
      om_lower_bound_None[OF wf, of "src + n" k] om_lower_bound_Some[OF wf, of "src + n"]
    by (auto simp: not_le iterator_le_def split: option.splits)
  have le: "iterator_le ?b ?e"
  proof (cases ?e)
    case (Some l)
    then show ?thesis
      using om_lower_bound_Some[OF wf Some] lower_bound_le[OF wf, of l src] S by auto
  qed (simp add: iterator_le_def)
  have os: "map_of os j = (if src \<le> src + (j - dst) \<and> src + (j - dst) < src + n then om_find m (src + (j - dst)) else None)" for j
    unfolding os_def map_of_shifted[of dst src ?P]
    by (cases "om_find m (src + (j - dst))") (use P[of "src + (j - dst)"] in auto)
  have "om_find (insert_objects os ?c) j = moved_objects src dst n m j" for j
  proof (cases "j \<in> bytes_of (area dst n)")
    case True
    then have "dst \<le> j" "j < dst + n" by (auto simp: bytes_of_def)
    from shift_in[OF D S this] show ?thesis
      using insert_objects_find[OF clear_objects_wf[OF wf], of os "area dst n" j] True
      by (simp add: clear_objects_find[OF wf] os moved_objects_def)
  next
    case False
    have "\<not> (src \<le> src + (j - dst) \<and> src + (j - dst) < src + n)"
    proof
      assume "src \<le> src + (j - dst) \<and> src + (j - dst) < src + n"
      with shift_in[OF S D, of "src + (j - dst)"] have "dst \<le> j" "j < dst + n" by auto
      with False show False by (simp add: bytes_of_def)
    qed
    then show ?thesis
      using insert_objects_find[OF clear_objects_wf[OF wf], of os "area dst n" j] False
      by (simp add: clear_objects_find[OF wf] os moved_objects_def split: option.splits) blast
  qed
  then show ?thesis
    using i le insert_objects_find[OF clear_objects_wf[OF wf], of os "area dst n"]
    by (simp add: copy_objects_def os_def Let_def fun_eq_iff case_prod_unfold)
qed

text \<open>Walking the map while extending it, when no new entry lies between the iterators.\<close>

lemma copy_loop_moves:
  assumes "om_wf m" and "src \<le> src + n" and "dst \<le> dst + n"
    and "dst + n \<le> src \<or> (\<exists>l. stop = Some l \<and> l < dst)"
    and "stop = om_lower_bound (src + n) m"
    and "\<And>k. cur = Some k \<Longrightarrow> k \<in> dom (om_find m) \<and> src \<le> k"
    and "iterator_le cur stop"
    and "\<And>j. j \<in> bytes_of (area dst n) \<Longrightarrow> iterator_le cur (Some (src + (j - dst))) \<Longrightarrow> om_find m j = None"
  shows "\<exists>m'. copy_loop src dst cur stop m = Some m' \<and> om_wf m' \<and>
     (\<forall>j. om_find m' j = (if j \<in> bytes_of (area dst n) \<and> iterator_le cur (Some (src + (j - dst)))
                         then om_find m (src + (j - dst)) else om_find m j))"
  using assms
proof (induction src dst cur stop m rule: copy_loop.induct)
  case (1 src dst cur stop m)
  note wf = "1.prems"(1) and S = "1.prems"(2) and D = "1.prems"(3) and apart = "1.prems"(4)
    and stop = "1.prems"(5) and cur = "1.prems"(6) and le = "1.prems"(7) and fresh = "1.prems"(8)
  let ?g = "\<lambda>j. src + (j - dst)"
  have g: "src \<le> ?g j" "?g j < src + n" if "j \<in> bytes_of (area dst n)" for j
    using shift_in[OF D S, of j] that by (auto simp: bytes_of_def)
  show ?case
  proof (cases "cur = stop")
    case True
    have "om_find m (?g j) = om_find m j" if j: "j \<in> bytes_of (area dst n)" and i: "iterator_le cur (Some (?g j))" for j
    proof -
      obtain l where l: "stop = Some l" "l \<le> ?g j" using i True by (auto simp: iterator_le_def split: option.splits)
      with om_lower_bound_Some[OF wf, of "src + n" l] stop g[OF j] show ?thesis by auto
    qed
    with True show ?thesis by (auto simp: copy_loop.simps[of src dst stop stop m] intro!: exI[of _ m] wf)
  next
    case False
    then obtain k where k: "cur = Some k" using le by (cases cur) (auto simp: iterator_le_def split: option.splits)
    from cur[OF k] obtain t where t: "om_find m k = Some t" and sk: "src \<le> k" and kd: "k \<in> dom (om_find m)" by auto
    have kn: "k < src + n"
    proof (rule ccontr)
      assume "\<not> k < src + n"
      then have c: "src + n \<le> k" by simp
      then obtain l where "stop = Some l" "l \<le> k"
        using lower_bound_le[OF wf kd, of "src + n"] stop by (auto simp: iterator_le_def split: option.splits)
      with le k False show False by (auto simp: iterator_le_def)
    qed
    let ?j = "dst + (k - src)"
    have j: "?j \<in> bytes_of (area dst n)" using shift_in[OF S D sk kn] by (simp add: bytes_of_def)
    have "om_find m ?j = None" using fresh[OF j] k by (simp add: iterator_le_def)
    then have m1: "fst (map_insert ?j t m) = om_insert ?j t m" by (simp add: map_insert_fresh)
    let ?m = "om_insert ?j t m"
    have wf1: "om_wf ?m" using wf by (rule om_wf_insert)
    have f1: "om_find ?m = (om_find m)(?j \<mapsto> t)" using wf by (rule om_find_insert)
    have sep: "?j < src \<and> dst + n \<le> src \<or> (\<exists>l. stop = Some l \<and> l < dst \<and> src + n \<le> l \<and> k < l \<and> l \<in> dom (om_find m))"
    proof (cases "dst + n \<le> src")
      case True
      then show ?thesis using j by (auto simp: bytes_of_def)
    next
      case False
      with apart obtain l where l: "stop = Some l" "l < dst" by auto
      with om_lower_bound_Some[OF wf, of "src + n" l] stop have "src + n \<le> l" "l \<in> dom (om_find m)" by simp_all
      with l kn show ?thesis by (intro disjI2 exI[of _ l]) simp
    qed
    have jd: "dst \<le> ?j" "?j < dst + n" using j by (simp_all add: bytes_of_def)
    have stop1: "stop = om_lower_bound (src + n) ?m"
    proof -
      have "?j < src + n \<or> (\<exists>l. om_lower_bound (src + n) m = Some l \<and> l \<le> ?j)"
        using sep stop jd S by auto
      from om_lower_bound_insert[OF wf this] stop show ?thesis by simp
    qed
    have next1: "om_next k ?m = om_next k m"
    proof (rule om_next_insert[OF wf])
      show "?j < k \<or> (\<exists>l. om_next k m = Some l \<and> l \<le> ?j)"
        using sep
      proof
        assume "\<exists>l. stop = Some l \<and> l < dst \<and> src + n \<le> l \<and> k < l \<and> l \<in> dom (om_find m)"
        then obtain l where l: "l < dst" "k < l" "l \<in> dom (om_find m)" by blast
        with next_le[OF wf l(3), of k] show ?thesis
          using jd by (auto simp: iterator_le_def split: option.splits)
      qed (use sk in auto)
    qed
    have cur1: "l \<in> dom (om_find ?m) \<and> src \<le> l" if "om_next k ?m = Some l" for l
      using om_next_Some[OF wf that[unfolded next1]] sk f1 by auto
    have le1: "iterator_le (om_next k ?m) stop"
    proof (cases stop)
      case (Some l)
      then have "l \<in> dom (om_find m)" "k < l"
        using om_lower_bound_Some[OF wf, of "src + n" l] stop kn by auto
      then show ?thesis using next_le[OF wf, of l k] by (simp add: next1 Some)
    qed (simp add: iterator_le_def)
    have after: "iterator_le (Some k) (Some (?g i)) \<and> i \<noteq> ?j" if i: "iterator_le (om_next k m) (Some (?g i))" for i
    proof
      obtain l where l: "om_next k m = Some l" "l \<le> ?g i"
        using i by (auto simp: iterator_le_def split: option.splits)
      from om_next_Some[OF wf l(1)] l(2) show "iterator_le (Some k) (Some (?g i))" by (auto simp: iterator_le_def)
      show "i \<noteq> ?j" using om_next_Some[OF wf l(1)] l(2) by auto
    qed
    have fresh1: "om_find ?m i = None" if "i \<in> bytes_of (area dst n)" "iterator_le (om_next k ?m) (Some (?g i))" for i
      using after[of i] fresh[OF that(1)] that(2) by (simp add: f1 next1 k)
    have apart1: "dst + n \<le> src \<or> (\<exists>l. stop = Some l \<and> l < dst)" by (rule apart)
    from "1.IH"[OF False k t refl, unfolded m1, OF wf1 S D apart1 stop1 cur1 le1 fresh1]
    obtain m' where m': "copy_loop src dst (om_next k ?m) stop ?m = Some m'" "om_wf m'"
      and fm: "om_find m' i = (if i \<in> bytes_of (area dst n) \<and> iterator_le (om_next k ?m) (Some (?g i))
                               then om_find ?m (?g i) else om_find ?m i)" for i by blast
    have "om_find m' i = (if i \<in> bytes_of (area dst n) \<and> iterator_le cur (Some (?g i))
                               then om_find m (?g i) else om_find m i)" for i
    proof (cases "i \<in> bytes_of (area dst n)")
      case True
      have ne: "?g i \<noteq> ?j"
      proof
        assume "?g i = ?j"
        with g[OF True] jd have "src \<le> ?j" "?j < src + n" "dst \<le> ?j" by simp_all
        note h = this
        from sep show False
        proof
          assume "?j < src \<and> dst + n \<le> src"
          with h(1) show False using leD by blast
        next
          assume "\<exists>l. stop = Some l \<and> l < dst \<and> src + n \<le> l \<and> k < l \<and> l \<in> dom (om_find m)"
          then obtain l where "l < dst" "src + n \<le> l" by blast
          then have "src + n < dst" by (rule order_le_less_trans[rotated])
          from order_less_le_trans[OF h(2) less_imp_le[OF this]] h(3) show False using leD by blast
        qed
      qed
      show ?thesis
      proof (cases "i = ?j")
        case True
        then show ?thesis using fm[of i] after[of i] j t by (auto simp: next1 f1 k iterator_le_def)
      next
        case False
        have gk: "?g i \<noteq> k" using False by (auto simp: algebra_simps)
        show ?thesis
        proof (cases "iterator_le cur (Some (?g i))")
          case ik: True
          have "om_find m (?g i) = None" if "\<not> iterator_le (om_next k m) (Some (?g i))"
            using next_le[OF wf, of "?g i" k] that ik gk by (auto simp: k iterator_le_def)
          then show ?thesis
            using fm[of i] True ik ne False fresh[OF True ik] by (auto simp: next1 f1)
        next
          case False
          then show ?thesis using fm[of i] after[of i] \<open>i \<noteq> ?j\<close> by (auto simp: next1 f1 k)
        qed
      qed
    next
      case False
      then show ?thesis using fm[of i] j by (auto simp: f1)
    qed
    moreover have "copy_loop src dst cur stop m = Some m'"
      using False m'(1) by (simp add: copy_loop.simps[of src dst "Some k" stop m] k t m1 Let_def)
    ultimately show ?thesis using m'(2) by blast
  qed
qed

lemma copy_objects_apart:
  assumes wf: "om_wf m" and S: "src \<le> src + n" and D: "dst \<le> dst + n"
    and a: "\<not> intersects (area src n) (area dst n)"
    and ok: "dst + n \<le> src \<or> (\<exists>k \<in> dom (om_find m). src + n \<le> k \<and> k < dst)"
  shows "\<exists>m'. copy_objects src dst n m = Some m' \<and> om_wf m' \<and> om_find m' = moved_objects src dst n m"
proof -
  let ?c = "clear_objects (area dst n) m"
  let ?b = "om_lower_bound src m" and ?e = "om_lower_bound (src + n) m"
  have wfc: "om_wf ?c" using wf by (rule clear_objects_wf)
  have f: "om_find ?c k = (if k \<in> bytes_of (area dst n) then None else om_find m k)" for k
    by (rule clear_objects_find[OF wf])
  have dl: "k \<notin> bytes_of (area dst n)" if "k < dst \<or> dst + n \<le> k" for k using that by (auto simp: bytes_of_def)
  have outside: "om_lower_bound c ?c = om_lower_bound c m \<and> (\<forall>k. om_lower_bound c m = Some k \<longrightarrow> k \<notin> bytes_of (area dst n))"
    if c: "dst + n \<le> c \<or> (\<exists>k \<in> dom (om_find m). c \<le> k \<and> k < dst)" for c
  proof -
    have keep: "k \<notin> bytes_of (area dst n)" if "om_lower_bound c m = Some k" for k
      using c om_lower_bound_Some[OF wf that] by (auto intro!: dl)
    have "om_lower_bound c ?c = om_lower_bound c m"
    proof (cases "om_lower_bound c m")
      case None
      have "om_lower_bound c ?c \<noteq> Some k" for k
        using om_lower_bound_Some[OF wfc, of c k] om_lower_bound_None[OF wf None, of k] f[of k]
        by (metis domIff option.distinct(1))
      with None show ?thesis by (cases "om_lower_bound c ?c") auto
    next
      case (Some k)
      note k = om_lower_bound_Some[OF wf Some]
      have kd: "k \<in> dom (om_find ?c)" using k keep[OF Some] f[of k] by auto
      then obtain l where l: "om_lower_bound c ?c = Some l"
        using om_lower_bound_None[OF wfc _ kd, of c] k by (cases "om_lower_bound c ?c") auto
      have "l \<le> k" using om_lower_bound_Some[OF wfc l] kd k by blast
      moreover have "k \<le> l" using om_lower_bound_Some[OF wfc l] k f[of l] by (metis domIff)
      ultimately have "l = k" by simp
      with l Some show ?thesis by simp
    qed
    with keep show ?thesis by blast
  qed
  have se: "dst + n \<le> src + n \<or> (\<exists>k \<in> dom (om_find m). src + n \<le> k \<and> k < dst)"
    using ok S by auto
  have sb: "dst + n \<le> src \<or> (\<exists>k \<in> dom (om_find m). src \<le> k \<and> k < dst)"
    using ok S by (auto intro: order_trans)
  have valid: "iterator_valid ?b ?c \<and> iterator_valid ?e ?c"
    using outside[OF sb] outside[OF se] om_lower_bound_Some[OF wf, of src] om_lower_bound_Some[OF wf, of "src + n"] f
    by (auto simp: iterator_valid_def split: option.split)
  have apart: "dst + n \<le> src \<or> (\<exists>l. ?e = Some l \<and> l < dst)"
  proof (cases "dst + n \<le> src")
    case False
    with ok obtain k where k: "k \<in> dom (om_find m)" "src + n \<le> k" "k < dst" by blast
    with lower_bound_le[OF wf k(1), of "src + n"] show ?thesis
      by (auto simp: iterator_le_def split: option.splits)
  qed simp
  have e: "?e = om_lower_bound (src + n) ?c" using outside[OF se] by simp
  have cur: "k \<in> dom (om_find ?c) \<and> src \<le> k" if "?b = Some k" for k
    using outside[OF sb] om_lower_bound_Some[OF wf that] that f[of k] by auto
  have le: "iterator_le ?b ?e"
  proof (cases ?e)
    case (Some l)
    then show ?thesis using om_lower_bound_Some[OF wf Some] lower_bound_le[OF wf, of l src] S by auto
  qed (simp add: iterator_le_def)
  have fresh: "om_find ?c j = None" if "j \<in> bytes_of (area dst n)" for j using that f by simp
  from copy_loop_moves[OF wfc S D apart e cur le fresh] obtain m' where
    m': "copy_loop src dst ?b ?e ?c = Some m'" "om_wf m'"
    and fm: "om_find m' j = (if j \<in> bytes_of (area dst n) \<and> iterator_le ?b (Some (src + (j - dst)))
                             then om_find ?c (src + (j - dst)) else om_find ?c j)" for j by blast
  have "om_find m' j = moved_objects src dst n m j" for j
  proof (cases "j \<in> bytes_of (area dst n)")
    case True
    then have g: "src \<le> src + (j - dst)" "src + (j - dst) < src + n"
      using shift_in[OF D S, of j] by (auto simp: bytes_of_def)
    have "src + (j - dst) \<notin> bytes_of (area dst n)"
      using a g S by (intro dl) (auto simp: intersects_def not_less)
    moreover have "om_find m (src + (j - dst)) = None" if "\<not> iterator_le ?b (Some (src + (j - dst)))"
      using lower_bound_le[OF wf, of "src + (j - dst)" src] that g(1) by auto
    ultimately show ?thesis using True by (auto simp: fm f moved_objects_def)
  next
    case False
    then show ?thesis by (simp add: fm f moved_objects_def)
  qed
  then show ?thesis using a valid m' by (auto simp: copy_objects_def Let_def fun_eq_iff)
qed

section \<open>Claims\<close>

text \<open>C15: \<open>copyInMemoryPointerObjects\<close> succeeds and gives every address of the destination the
  pointer object that the corresponding address of the source had before (or none), and leaves every
  other address alone, if the areas overlap, or the destination is below the source, or some pointer
  object lies between the source and a destination above it.\<close>

theorem pointer_objects_copied:
  assumes "om_wf (pl_InMemoryPointerObjects p)"
    and "unat src + unat n < 2 ^ 64" and "unat dst + unat n < 2 ^ 64"
    and "intersects (area src n) (area dst n) \<or> dst < src \<or>
         (\<exists>k \<in> dom (om_find (pl_InMemoryPointerObjects p)). src + n \<le> k \<and> k < dst)"
  shows "\<exists>p'. copyInMemoryPointerObjects src dst n p = Some p' \<and> om_wf (pl_InMemoryPointerObjects p') \<and>
     om_find (pl_InMemoryPointerObjects p') = (\<lambda>a.
       if unat dst \<le> unat a \<and> unat a < unat dst + unat n
       then om_find (pl_InMemoryPointerObjects p) (src + (a - dst))
       else om_find (pl_InMemoryPointerObjects p) a)"
proof -
  let ?m = "pl_InMemoryPointerObjects p"
  have S: "src \<le> src + n" and D: "dst \<le> dst + n" using assms(2,3) by (simp_all add: le_add_no_wrap)
  have "\<exists>m'. copy_objects src dst n ?m = Some m' \<and> om_wf m' \<and> om_find m' = moved_objects src dst n ?m"
  proof (cases "intersects (area src n) (area dst n)")
    case True
    with copy_objects_together[OF assms(1) S D] show ?thesis by blast
  next
    case False
    have "dst + n \<le> src" if "dst < src"
      using False that S by (auto simp: intersects_def)
    with copy_objects_apart[OF assms(1) S D False] assms(4) False show ?thesis by blast
  qed
  then show ?thesis
    by (auto simp: copyInMemoryPointerObjects_def moved_objects_def bytes_of_area[OF assms(3)] fun_eq_iff)
qed

definition sample_listener :: "(u64, PointerTarget) omap \<Rightarrow> ProcessListener" where
  "sample_listener m = (new_ProcessListener 0 0 (\<lambda>s. 0) True 1 2 3)\<lparr>pl_InMemoryPointerObjects := m\<rparr>"

lemma sample_listener_objects [simp]: "pl_InMemoryPointerObjects (sample_listener m) = m"
  by (simp add: sample_listener_def)

theorem pointer_objects_copied_witness:
  "\<exists>p'. copyInMemoryPointerObjects 64 16 16 (sample_listener [(24, null_target), (72, pointer_target 5 1)]) = Some p' \<and>
     om_find (pl_InMemoryPointerObjects p') 24 = Some (pointer_target 5 1) \<and>
     om_find (pl_InMemoryPointerObjects p') 16 = None"
proof -
  let ?p = "sample_listener [(24, null_target), (72, pointer_target 5 1)]"
  have wf: "om_wf (pl_InMemoryPointerObjects ?p)" by (simp add: om_wf_def)
  have "\<exists>p'. copyInMemoryPointerObjects 64 16 16 ?p = Some p' \<and> om_wf (pl_InMemoryPointerObjects p') \<and>
     om_find (pl_InMemoryPointerObjects p') = (\<lambda>a. if unat (16 :: u64) \<le> unat a \<and> unat a < unat (16 :: u64) + unat (16 :: u64)
       then om_find (pl_InMemoryPointerObjects ?p) (64 + (a - 16)) else om_find (pl_InMemoryPointerObjects ?p) a)"
    by (rule pointer_objects_copied[OF wf]) simp_all
  then show ?thesis by (auto simp: om_find_Cons)
qed


end
