(* ===== verification/ThreadRecorder.thy ===== *)
theory ThreadRecorder
  imports ProcessRecorder Events BlockStore
begin

text \<open>
  The recorder's view of one thread: \<open>TraceThreadListener\<close>
  (\<open>include/seec/Trace/TraceThreadListener.hpp\<close>, \<open>lib/Trace/TraceThreadListener.cpp\<close>), its event output
  \<open>EventWriter\<close> (\<open>include/seec/Trace/TraceEventWriter.hpp\<close>) and its stack of executing functions
  (\<open>TracedFunction.hpp\<close>, \<open>TracedFunction.cpp\<close>, \<open>RuntimeValue.hpp\<close>). Events are written to a list
  and their offsets are positions in it. A \<open>Recorder\<close> is the process listener with the listener of
  the thread that runs; the locks are the thread's flags that say which it holds. Signals, the
  error callback and the messages printed on a fatal error are left out.
\<close>

section \<open>Functions being executed\<close>

record TracedAlloca =
  ta_Instruction :: nat
  ta_Address :: u64
  ta_ElementSize :: u64
  ta_ElementCount :: u64
  ta_EventOffset :: nat

definition ta_area :: "TracedAlloca \<Rightarrow> MemoryArea" where
  "ta_area a = area (ta_Address a) (ta_ElementSize a * ta_ElementCount a)"

text \<open>Comparison does not look at the offset of the event.\<close>

definition ta_eq :: "TracedAlloca \<Rightarrow> TracedAlloca \<Rightarrow> bool" where
  "ta_eq a b \<longleftrightarrow> ta_Instruction a = ta_Instruction b \<and> ta_Address a = ta_Address b \<and>
     ta_ElementSize a = ta_ElementSize b \<and> ta_ElementCount a = ta_ElementCount b"

record RecordedFunction =
  rf_StartEventWrite :: nat
  rf_Index :: u32
  rf_EventOffsetStart :: nat
  rf_EventOffsetEnd :: nat
  rf_ThreadTimeEntered :: u64
  rf_ThreadTimeExited :: u64

definition new_RecordedFunction :: "u32 \<Rightarrow> nat \<Rightarrow> u64 \<Rightarrow> RecordedFunction" where
  "new_RecordedFunction i w t =
     \<lparr>rf_StartEventWrite = w, rf_Index = i, rf_EventOffsetStart = w, rf_EventOffsetEnd = 0,
      rf_ThreadTimeEntered = t, rf_ThreadTimeExited = 0\<rparr>"

text \<open>A value: the offset of the record that wrote it (\<open>None\<close> is \<open>noOffset()\<close>) and its bits; only a
  \<open>long double\<close> has more than 64.\<close>

record RuntimeValue =
  rv_RecordOffset :: "nat option"
  rv_Data :: u64
  rv_Extra :: u64

definition rv_assigned :: "RuntimeValue \<Rightarrow> bool" where
  "rv_assigned v \<longleftrightarrow> rv_RecordOffset v \<noteq> None"

text \<open>
  \<open>tf_FIndex\<close> is \<open>None\<close> for a shim. The reference to the recorded function is its position in
  \<open>RecordedFunctions\<close>. Arguments and instructions are their indices in the function.
\<close>

record TracedFunction =
  tf_FIndex :: "FunctionIndex option"
  tf_Record :: nat
  tf_ActiveInstruction :: "nat option"
  tf_PreviousBasicBlock :: "nat option"
  tf_ActiveBasicBlock :: "nat option"
  tf_Allocas :: "TracedAlloca list"
  tf_ByValArgs :: "(nat \<times> MemoryArea) list"
  tf_StackSaves :: "(u64, TracedAlloca list) omap"
  tf_StackLow :: u64
  tf_StackHigh :: u64
  tf_CurrentValues :: "RuntimeValue list"
  tf_ArgPointerObjects :: "(nat, PointerTarget) omap"
  tf_PointerObjects :: "(nat, PointerTarget) omap"

definition new_TracedFunction ::
  "FunctionIndex option \<Rightarrow> nat \<Rightarrow> (nat, PointerTarget) omap \<Rightarrow> TracedFunction" where
  "new_TracedFunction f r args =
     \<lparr>tf_FIndex = f, tf_Record = r, tf_ActiveInstruction = None, tf_PreviousBasicBlock = None,
      tf_ActiveBasicBlock = None, tf_Allocas = [], tf_ByValArgs = [], tf_StackSaves = [],
      tf_StackLow = 0, tf_StackHigh = 0,
      tf_CurrentValues = (case f of None \<Rightarrow> []
        | Some i \<Rightarrow> replicate (getInstructionCount i) \<lparr>rv_RecordOffset = None, rv_Data = 0, rv_Extra = 0\<rparr>),
      tf_ArgPointerObjects = args, tf_PointerObjects = []\<rparr>"

definition isShim :: "TracedFunction \<Rightarrow> bool" where
  "isShim f \<longleftrightarrow> tf_FIndex f = None"

definition setActiveInstruction :: "nat \<Rightarrow> TracedFunction \<Rightarrow> TracedFunction option" where
  "setActiveInstruction i f = do {
     fi \<leftarrow> tf_FIndex f;
     bb \<leftarrow> block_of (fn_Blocks fi) i;
     let f1 = f\<lparr>tf_ActiveInstruction := Some i\<rparr>;
     Some (if Some bb \<noteq> tf_ActiveBasicBlock f1
           then f1\<lparr>tf_PreviousBasicBlock := tf_ActiveBasicBlock f1, tf_ActiveBasicBlock := Some bb\<rparr>
           else f1)
   }"

definition clearActiveInstruction :: "TracedFunction \<Rightarrow> TracedFunction" where
  "clearActiveInstruction f = f\<lparr>tf_ActiveInstruction := None\<rparr>"

definition getStackArea :: "TracedFunction \<Rightarrow> MemoryArea" where
  "getStackArea f = area (tf_StackLow f) ((tf_StackHigh f - tf_StackLow f) + 1)"

definition tf_getContainingMemoryArea :: "u64 \<Rightarrow> TracedFunction \<Rightarrow> MemoryArea option" where
  "tf_getContainingMemoryArea a f =
     (if a < tf_StackLow f \<or> tf_StackHigh f < a
      then List.find (\<lambda>r. contains_value r a) (map snd (tf_ByValArgs f))
      else List.find (\<lambda>r. contains_value r a) (map ta_area (tf_Allocas f)))"

definition tf_getCurrentRuntimeValue :: "nat \<Rightarrow> TracedFunction \<Rightarrow> RuntimeValue option" where
  "tf_getCurrentRuntimeValue i f =
     (if i < length (tf_CurrentValues f) then Some (tf_CurrentValues f ! i) else None)"

definition set_runtime_value :: "nat \<Rightarrow> nat \<Rightarrow> u64 \<times> u64 \<Rightarrow> TracedFunction \<Rightarrow> TracedFunction option" where
  "set_runtime_value i off v f = do {
     require (i < length (tf_CurrentValues f));
     Some (f\<lparr>tf_CurrentValues := (tf_CurrentValues f)[i := \<lparr>rv_RecordOffset = Some off, rv_Data = fst v, rv_Extra = snd v\<rparr>]\<rparr>)
   }"

definition addByValArg :: "nat \<Rightarrow> MemoryArea \<Rightarrow> ProcessListener \<Rightarrow> TracedFunction \<Rightarrow> TracedFunction" where
  "addByValArg arg r p f =
     f\<lparr>tf_ArgPointerObjects := om_insert arg (makePointerObject (iv_Start r) p) (tf_ArgPointerObjects f),
       tf_ByValArgs := tf_ByValArgs f @ [(arg, r)]\<rparr>"

definition tf_getParamByValArea :: "nat \<Rightarrow> TracedFunction \<Rightarrow> MemoryArea option" where
  "tf_getParamByValArea arg f = map_option snd (List.find (\<lambda>x. fst x = arg) (tf_ByValArgs f))"

text \<open>
  The pointer objects of an \<open>llvm::Value\<close>. Of a constant expression only a cast or an address
  computation is followed to its operand.
\<close>

datatype ValueRef =
    ValueInstruction nat
  | ValueArgument nat
  | ValueCastExpr ValueRef
  | ValueGEPExpr ValueRef
  | ValueConstant ConstantPointer

definition target_of :: "nat \<Rightarrow> (nat, PointerTarget) omap \<Rightarrow> PointerTarget" where
  "target_of k m = (case om_find m k of Some t \<Rightarrow> t | None \<Rightarrow> null_target)"

fun tf_getPointerObject :: "ValueRef \<Rightarrow> ProcessListener \<Rightarrow> TracedFunction \<Rightarrow> PointerTarget option" where
  "tf_getPointerObject (ValueInstruction i) p f = Some (target_of i (tf_PointerObjects f))"
| "tf_getPointerObject (ValueArgument a) p f = Some (target_of a (tf_ArgPointerObjects f))"
| "tf_getPointerObject (ValueCastExpr v) p f = tf_getPointerObject v p f"
| "tf_getPointerObject (ValueGEPExpr v) p f = tf_getPointerObject v p f"
| "tf_getPointerObject (ValueConstant c) p f = pl_getPointerObject c p"

definition setArgumentObject :: "nat \<Rightarrow> PointerTarget \<Rightarrow> TracedFunction \<Rightarrow> TracedFunction" where
  "setArgumentObject a t f = f\<lparr>tf_ArgPointerObjects := om_insert a t (tf_ArgPointerObjects f)\<rparr>"

definition setInstructionObject :: "nat \<Rightarrow> PointerTarget \<Rightarrow> TracedFunction \<Rightarrow> TracedFunction" where
  "setInstructionObject i t f = f\<lparr>tf_PointerObjects := om_insert i t (tf_PointerObjects f)\<rparr>"

definition transferPointerObject :: "ValueRef \<Rightarrow> nat \<Rightarrow> ProcessListener \<Rightarrow> TracedFunction \<Rightarrow> TracedFunction option" where
  "transferPointerObject v i p f = do {
     t \<leftarrow> tf_getPointerObject v p f;
     Some (if target_set t then setInstructionObject i t f else f)
   }"

definition addAlloca :: "TracedAlloca \<Rightarrow> TracedFunction \<Rightarrow> TracedFunction" where
  "addAlloca a f =
     (let r = ta_area a;
          f1 = (if iv_Start r < tf_StackLow f \<or> tf_StackLow f = 0 then f\<lparr>tf_StackLow := iv_Start r\<rparr> else f);
          f2 = (if tf_StackHigh f1 < interval_last r \<or> tf_StackHigh f1 = 0
                then f1\<lparr>tf_StackHigh := interval_last r\<rparr> else f1)
      in f2\<lparr>tf_Allocas := tf_Allocas f2 @ [a]\<rparr>)"

definition stackSave :: "u64 \<Rightarrow> TracedFunction \<Rightarrow> TracedFunction" where
  "stackSave key f = f\<lparr>tf_StackSaves := om_insert key (tf_Allocas f) (tf_StackSaves f)\<rparr>"

fun first_mismatch :: "TracedAlloca list \<Rightarrow> TracedAlloca list \<Rightarrow> nat" where
  "first_mismatch (a # as) (b # bs) = (if ta_eq a b then Suc (first_mismatch as bs) else 0)"
| "first_mismatch as bs = 0"

fun remove_allocas :: "TracedAlloca list \<Rightarrow> TraceMemoryState \<Rightarrow> TraceMemoryState option" where
  "remove_allocas [] m = Some m"
| "remove_allocas (a # as) m =
     (if interval_length (ta_area a) > 0 then removeAllocation (ta_Address a) m else Some m) \<bind> remove_allocas as"

fun add_allocas :: "TracedAlloca list \<Rightarrow> TraceMemoryState \<Rightarrow> TraceMemoryState option" where
  "add_allocas [] m = Some m"
| "add_allocas (a # as) m =
     (if interval_length (ta_area a) > 0 then addAllocation (ta_Address a) (interval_length (ta_area a)) m
      else Some m) \<bind> add_allocas as"

text \<open>\<open>StackSaves[Key]\<close> creates an empty entry for an unknown key.\<close>

definition stackRestore ::
  "u64 \<Rightarrow> TracedFunction \<Rightarrow> TraceMemoryState \<Rightarrow> (TracedFunction \<times> TraceMemoryState) option" where
  "stackRestore key f m = do {
     let saved = (case om_find (tf_StackSaves f) key of Some s \<Rightarrow> s | None \<Rightarrow> []);
     let k = first_mismatch (tf_Allocas f) saved;
     m1 \<leftarrow> remove_allocas (drop k (tf_Allocas f)) m;
     m2 \<leftarrow> add_allocas (drop k saved) m1;
     Some (f\<lparr>tf_StackSaves := om_insert key saved (tf_StackSaves f), tf_Allocas := saved\<rparr>, m2)
   }"

section \<open>The listener\<close>

record ThreadListener =
  tl_ThreadID :: u32
  tl_OutputEnabled :: bool
  tl_Open :: bool
  tl_Events :: "Event list"
  tl_Time :: u64
  tl_ProcessTime :: u64
  tl_RecordedFunctions :: "RecordedFunction list"
  tl_FunctionStack :: "TracedFunction list"
  tl_GlobalMemoryLock :: bool
  tl_DynamicMemoryLock :: bool
  tl_StreamsLock :: bool
  tl_DirsLock :: bool
  tl_CIProcessTime :: "u64 option"

type_synonym Recorder = "ProcessListener \<times> ThreadListener"

definition new_ThreadListener :: "ProcessListener \<Rightarrow> Recorder" where
  "new_ThreadListener p =
     (let (i, p1) = registerThreadListener p
      in (p1, \<lparr>tl_ThreadID = i, tl_OutputEnabled = True, tl_Open = True, tl_Events = [], tl_Time = 0,
               tl_ProcessTime = 0, tl_RecordedFunctions = [], tl_FunctionStack = [],
               tl_GlobalMemoryLock = False, tl_DynamicMemoryLock = False, tl_StreamsLock = False,
               tl_DirsLock = False, tl_CIProcessTime = None\<rparr>))"

definition tl_traceClose :: "Recorder \<Rightarrow> Recorder" where
  "tl_traceClose r = (fst r, (snd r)\<lparr>tl_Open := False, tl_OutputEnabled := False\<rparr>)"

definition delete_ThreadListener :: "Recorder \<Rightarrow> ProcessListener" where
  "delete_ThreadListener r = deregisterThreadListener (fst (tl_traceClose r))"

text \<open>
  \<open>EventWriter::write\<close> gives the offset of the record, or nothing if the output is closed;
  \<open>rewrite\<close> replaces a record. \<open>getPreviousOffsetOf\<close> is the offset of the last record of a type.
\<close>

definition write_event :: "Event \<Rightarrow> Recorder \<Rightarrow> nat option \<times> Recorder" where
  "write_event e r =
     (if tl_Open (snd r)
      then (Some (length (tl_Events (snd r))), (fst r, (snd r)\<lparr>tl_Events := tl_Events (snd r) @ [e]\<rparr>))
      else (None, r))"

definition emit :: "Event \<Rightarrow> Recorder \<Rightarrow> Recorder" where
  "emit e r = snd (write_event e r)"

definition rewrite_event :: "nat \<Rightarrow> Event \<Rightarrow> Recorder \<Rightarrow> Recorder option" where
  "rewrite_event k e r = do {
     require (tl_Open (snd r) \<and> k < length (tl_Events (snd r)));
     Some (fst r, (snd r)\<lparr>tl_Events := (tl_Events (snd r))[k := e]\<rparr>)
   }"

fun last_position :: "(Event \<Rightarrow> bool) \<Rightarrow> nat \<Rightarrow> Event list \<Rightarrow> nat option" where
  "last_position P k [] = None"
| "last_position P k (e # es) =
     (case last_position P (Suc k) es of Some i \<Rightarrow> Some i | None \<Rightarrow> if P e then Some k else None)"

definition getPreviousOffsetOf :: "(Event \<Rightarrow> bool) \<Rightarrow> Recorder \<Rightarrow> nat option" where
  "getPreviousOffsetOf P r = last_position P 0 (tl_Events (snd r))"

definition with_process :: "(ProcessListener \<Rightarrow> ProcessListener option) \<Rightarrow> Recorder \<Rightarrow> Recorder option" where
  "with_process f r = do { p \<leftarrow> f (fst r); Some (p, snd r) }"

definition record_data :: "byte list \<Rightarrow> Recorder \<Rightarrow> u64 \<times> Recorder" where
  "record_data d r = (let (off, p) = recordData d (fst r) in (off, (p, snd r)))"

section \<open>Times\<close>

definition synchronizeProcessTime :: "Recorder \<Rightarrow> Recorder" where
  "synchronizeProcessTime r =
     (let t = pl_Time (fst r) in
      if t \<noteq> tl_ProcessTime (snd r)
      then emit (NewProcessTime t) (fst r, (snd r)\<lparr>tl_ProcessTime := t\<rparr>)
      else r)"

text \<open>The process time of the current instruction: taken once, when it is first needed.\<close>

definition getCIProcessTime :: "Recorder \<Rightarrow> u64 \<times> Recorder" where
  "getCIProcessTime r =
     (case tl_CIProcessTime (snd r) of
        Some t \<Rightarrow> (t, r)
      | None \<Rightarrow> (let (t, p) = getNewTime (fst r) in (t, (p, (snd r)\<lparr>tl_CIProcessTime := Some t\<rparr>))))"

text \<open>\<open>ProcessTime = getCIProcessTime();\<close>\<close>

definition take_time :: "Recorder \<Rightarrow> Recorder" where
  "take_time r = (let (t, r1) = getCIProcessTime r in (fst r1, (snd r1)\<lparr>tl_ProcessTime := t\<rparr>))"

definition emit_timed :: "(u64 \<Rightarrow> Event) \<Rightarrow> Recorder \<Rightarrow> Recorder" where
  "emit_timed e r = emit (e (tl_ProcessTime (snd r))) r"

definition incrementThreadTime :: "Recorder \<Rightarrow> Recorder" where
  "incrementThreadTime r =
     (let t = tl_Time (snd r) + 1;
          r1 = emit (NewThreadTime t) (fst r, (snd r)\<lparr>tl_Time := t\<rparr>)
      in (fst r1, (snd r1)\<lparr>tl_CIProcessTime := None\<rparr>))"

definition on_active :: "(TracedFunction \<Rightarrow> TracedFunction option) \<Rightarrow> Recorder \<Rightarrow> Recorder option" where
  "on_active f r = do {
     let fs = tl_FunctionStack (snd r);
     require (fs \<noteq> []);
     a \<leftarrow> f (last fs);
     Some (fst r, (snd r)\<lparr>tl_FunctionStack := butlast fs @ [a]\<rparr>)
   }"

definition active_function :: "Recorder \<Rightarrow> TracedFunction option" where
  "active_function r = (if tl_FunctionStack (snd r) = [] then None else Some (last (tl_FunctionStack (snd r))))"

definition clearCI :: "Recorder \<Rightarrow> Recorder" where
  "clearCI r =
     (let l1 = (snd r)\<lparr>tl_CIProcessTime := None\<rparr>; fs = tl_FunctionStack l1
      in (fst r, if fs = [] then l1
                 else l1\<lparr>tl_FunctionStack := butlast fs @ [clearActiveInstruction (last fs)]\<rparr>))"

section \<open>Stack space\<close>

text \<open>\<open>limit\<close> is the soft stack limit, \<open>None\<close> if it cannot be read.\<close>

definition getRemainingStack :: "u64 option \<Rightarrow> Recorder \<Rightarrow> u64 option" where
  "getRemainingStack limit r =
     (case limit of
        None \<Rightarrow> Some (- 1)
      | Some lim \<Rightarrow> do {
          let fs = tl_FunctionStack (snd r);
          require (fs \<noteq> []);
          let front = getStackArea (hd fs);
          let back = getStackArea (last fs);
          let low = (if iv_Start front \<noteq> 0 \<and> iv_Start front < iv_Start back then iv_Start front else iv_Start back);
          let high = max (interval_last front) (interval_last back);
          let remaining = lim - (high - low);
          let reserved = 100 * 1024;
          Some (if remaining > reserved then remaining - reserved else 0)
        })"

section \<open>Streams and directories\<close>

definition acquireStreamsLock :: "Recorder \<Rightarrow> Recorder" where
  "acquireStreamsLock r = (fst r, (snd r)\<lparr>tl_StreamsLock := True\<rparr>)"

definition acquireDirsLock :: "Recorder \<Rightarrow> Recorder" where
  "acquireDirsLock r = (fst r, (snd r)\<lparr>tl_DirsLock := True\<rparr>)"

text \<open>Names are C strings with their final zero byte.\<close>

definition recordStreamOpen :: "u64 \<Rightarrow> byte list \<Rightarrow> byte list \<Rightarrow> Recorder \<Rightarrow> Recorder" where
  "recordStreamOpen fp name mode r =
     (let r1 = take_time (acquireStreamsLock r);
          (a, r2) = record_data name r1;
          (b, r3) = record_data mode r2;
          r4 = ((fst r3)\<lparr>pl_Streams := streamOpened fp a b (pl_Streams (fst r3))\<rparr>, snd r3)
      in emit_timed (\<lambda>t. FileOpen t fp a b) r4)"

definition recordStreamWrite :: "u64 \<Rightarrow> byte list \<Rightarrow> Recorder \<Rightarrow> Recorder" where
  "recordStreamWrite fp d r =
     (let (off, r1) = record_data d (take_time r)
      in emit_timed (\<lambda>t. FileWrite t fp off (of_nat (length d))) r1)"

definition recordStreamWriteFromMemory :: "u64 \<Rightarrow> MemoryArea \<Rightarrow> Recorder \<Rightarrow> Recorder" where
  "recordStreamWriteFromMemory fp m r =
     emit_timed (\<lambda>t. FileWriteFromMemory t fp (iv_Start m) (interval_length m)) (take_time r)"

definition recordStreamClose :: "u64 \<Rightarrow> Recorder \<Rightarrow> (bool \<times> Recorder) option" where
  "recordStreamClose fp r =
     (let r1 = take_time (acquireStreamsLock r) in
      case streamInfo fp (pl_Streams (fst r1)) of
        None \<Rightarrow> Some (False, r1)
      | Some i \<Rightarrow> do {
          let r2 = emit_timed (\<lambda>t. FileClose t fp (ts_FilenameOffset i) (ts_ModeOffset i)) r1;
          ss \<leftarrow> streamClosed fp (pl_Streams (fst r2));
          Some (True, ((fst r2)\<lparr>pl_Streams := ss\<rparr>, snd r2))
        })"

definition recordDirOpen :: "u64 \<Rightarrow> byte list \<Rightarrow> Recorder \<Rightarrow> Recorder" where
  "recordDirOpen d name r =
     (let r1 = take_time (acquireDirsLock r);
          (a, r2) = record_data name r1;
          r3 = ((fst r2)\<lparr>pl_Dirs := DIROpened d a (pl_Dirs (fst r2))\<rparr>, snd r2)
      in emit_timed (\<lambda>t. DirOpen t d a) r3)"

definition recordDirClose :: "u64 \<Rightarrow> Recorder \<Rightarrow> (bool \<times> Recorder) option" where
  "recordDirClose d r =
     (let r1 = take_time (acquireDirsLock r) in
      case DIRInfo d (pl_Dirs (fst r1)) of
        None \<Rightarrow> Some (False, r1)
      | Some i \<Rightarrow> do {
          let r2 = emit_timed (\<lambda>t. DirClose t d i) r1;
          ds \<leftarrow> DIRClosed d (pl_Dirs (fst r2));
          Some (True, ((fst r2)\<lparr>pl_Dirs := ds\<rparr>, snd r2))
        })"

section \<open>Dynamic memory\<close>

definition acquireDynamicMemoryLock :: "Recorder \<Rightarrow> Recorder" where
  "acquireDynamicMemoryLock r = (fst r, (snd r)\<lparr>tl_DynamicMemoryLock := True\<rparr>)"

definition acquireGlobalMemoryLock :: "Recorder \<Rightarrow> Recorder" where
  "acquireGlobalMemoryLock r = (fst r, (snd r)\<lparr>tl_GlobalMemoryLock := True\<rparr>)"

definition unlockGlobalMemory :: "Recorder \<Rightarrow> Recorder" where
  "unlockGlobalMemory r = (fst r, (snd r)\<lparr>tl_GlobalMemoryLock := False\<rparr>)"

definition recordMalloc :: "u64 \<Rightarrow> u64 \<Rightarrow> Recorder \<Rightarrow> Recorder option" where
  "recordMalloc a n r =
     (let r1 = take_time r;
          (w, r2) = write_event (Malloc n (tl_ProcessTime (snd r1))) r1;
          off = (case w of Some k \<Rightarrow> k | None \<Rightarrow> 0)
      in with_process (setCurrentDynamicMemoryAllocation a (tl_ThreadID (snd r2)) off n) r2)"

definition recordRealloc :: "u64 \<Rightarrow> u64 \<Rightarrow> Recorder \<Rightarrow> Recorder option" where
  "recordRealloc a new r = do {
     require (tl_GlobalMemoryLock (snd r));
     d \<leftarrow> getCurrentDynamicMemoryAllocation a (fst r);
     let old = da_Size d;
     let r1 = take_time r;
     let r2 = emit_timed (Realloc a old new) r1;
     r3 \<leftarrow> with_process (with_memory (\<lambda>m. do {
             m1 \<leftarrow> (if new < old then tm_clear (a + new) (old - new) m else Some m);
             resizeAllocation a new m1
           })) r2;
     r4 \<leftarrow> with_process (setCurrentDynamicMemoryAllocation (da_Address d) (da_Thread d) (da_Offset d) new) r3;
     with_process (\<lambda>p. Some (incrementRegionTemporalID a p)) r4
   }"

definition recordFree :: "u64 \<Rightarrow> Recorder \<Rightarrow> (DynamicAllocation \<times> Recorder) option" where
  "recordFree a r = do {
     d \<leftarrow> getCurrentDynamicMemoryAllocation a (fst r);
     let r1 = emit_timed (Free a) (take_time r);
     r2 \<leftarrow> with_process (\<lambda>p. map_option fst (removeCurrentDynamicMemoryAllocation a p)) r1;
     Some (d, r2)
   }"

section \<open>Memory states\<close>

definition recordStateClear :: "u64 \<Rightarrow> u64 \<Rightarrow> Recorder \<Rightarrow> Recorder option" where
  "recordStateClear a n r = do {
     require (tl_GlobalMemoryLock (snd r));
     Some (if n = 0 then r else emit_timed (\<lambda>t. StateClear a t n) (take_time r))
   }"

definition recordFreeAndClear :: "u64 \<Rightarrow> Recorder \<Rightarrow> Recorder option" where
  "recordFreeAndClear a r = do {
     (d, r1) \<leftarrow> recordFree a r;
     recordStateClear (da_Address d) (da_Size d) r1
   }"

text \<open>
  Up to eight bytes go into the event itself. The rest of its word is not initialised in the
  source; it is zero here, and the reader does not look at it.
\<close>

definition recordUntypedState :: "u64 \<Rightarrow> byte list \<Rightarrow> Recorder \<Rightarrow> Recorder option" where
  "recordUntypedState a d r = do {
     require (tl_GlobalMemoryLock (snd r));
     if d = [] then Some r
     else do {
       let n = of_nat (length d);
       r1 \<leftarrow> with_process (with_memory (tm_add a n)) (take_time r);
       if length d \<le> 8
       then Some (emit_timed (\<lambda>t. StateUntypedSmall (of_nat (length d)) a t (of_nat (of_le_bytes d))) r1)
       else let (off, r2) = record_data d r1
            in Some (emit_timed (\<lambda>t. StateUntyped a t off n) r2)
     }
   }"

definition recordTypedState :: "u64 \<Rightarrow> byte list \<Rightarrow> nat option \<Rightarrow> Recorder \<Rightarrow> Recorder option" where
  "recordTypedState a d off = recordUntypedState a d"

definition recordMemmove :: "u64 \<Rightarrow> u64 \<Rightarrow> u64 \<Rightarrow> Recorder \<Rightarrow> Recorder option" where
  "recordMemmove src dst n r = do {
     require (tl_GlobalMemoryLock (snd r));
     if n = 0 then Some r
     else do {
       r1 \<leftarrow> with_process (copyInMemoryPointerObjects src dst n) (take_time r);
       r2 \<leftarrow> with_process (with_memory (tm_memmove src dst n)) r1;
       Some (emit_timed (\<lambda>t. StateMemmove t src dst n) r2)
     }
   }"

definition readable :: "MemoryPermission \<Rightarrow> bool" where
  "readable a \<longleftrightarrow> a = ReadOnly \<or> a = ReadWrite"

definition writable :: "MemoryPermission \<Rightarrow> bool" where
  "writable a \<longleftrightarrow> a = WriteOnly \<or> a = ReadWrite"

definition tl_addKnownMemoryRegion :: "u64 \<Rightarrow> u64 \<Rightarrow> MemoryPermission \<Rightarrow> Recorder \<Rightarrow> Recorder option" where
  "tl_addKnownMemoryRegion a n access r = do {
     require (tl_GlobalMemoryLock (snd r));
     r1 \<leftarrow> with_process (pl_addKnownMemoryRegion a n access) r;
     Some (emit (KnownRegionAdd a n (readable access) (writable access)) r1)
   }"

definition isKnownMemoryRegionAt :: "u64 \<Rightarrow> Recorder \<Rightarrow> bool option" where
  "isKnownMemoryRegionAt a r = do {
     require (tl_GlobalMemoryLock (snd r));
     Some (imv_count a (pl_KnownMemory (fst r)) \<noteq> 0)
   }"

definition isKnownMemoryRegionCovering :: "u64 \<Rightarrow> u64 \<Rightarrow> Recorder \<Rightarrow> bool option" where
  "isKnownMemoryRegionCovering a n r = do {
     require (tl_GlobalMemoryLock (snd r));
     let km = pl_KnownMemory (fst r);
     let it = imv_find a km;
     Some (it < length km \<and> item_Begin (km ! it) \<le> a \<and> a + n \<le> item_End (km ! it))
   }"

definition tl_removeKnownMemoryRegion :: "u64 \<Rightarrow> Recorder \<Rightarrow> (bool \<times> Recorder) option" where
  "tl_removeKnownMemoryRegion a r = do {
     require (tl_GlobalMemoryLock (snd r));
     let km = pl_KnownMemory (fst r);
     let it = imv_find a km;
     if length km \<le> it then Some (False, r)
     else do {
       let key = item_Begin (km ! it);
       let n = (item_End (km ! it) - item_Begin (km ! it)) + 1;
       let access = item_Value (km ! it);
       (p, res) \<leftarrow> pl_removeKnownMemoryRegion a (fst r);
       let r1 = (p, snd r);
       Some (if \<not> res then (False, r1)
             else (True, emit (KnownRegionRemove key n (readable access) (writable access)) r1))
     }
   }"

section \<open>Run-time errors and shims\<close>

datatype RunErrorSeverity = Warning | Fatal

text \<open>A fatal error ends the program after it has been written: \<open>Inl\<close> is the recorder at that moment.\<close>

definition handleRunError ::
  "RunError \<Rightarrow> RunErrorSeverity \<Rightarrow> nat option \<Rightarrow> Recorder \<Rightarrow> Recorder + Recorder" where
  "handleRunError err sev pre r =
     (let r1 = (case pre of
                  None \<Rightarrow> r
                | Some i \<Rightarrow> emit (PreInstruction i) (fst r, (snd r)\<lparr>tl_Time := tl_Time (snd r) + 1\<rparr>));
          r2 = fold emit (writeError True err) r1
      in case sev of Warning \<Rightarrow> Inr r2 | Fatal \<Rightarrow> Inl r2)"

definition pushShimFunction :: "Recorder \<Rightarrow> Recorder option" where
  "pushShimFunction r = do {
     a \<leftarrow> active_function r;
     Some (fst r, (snd r)\<lparr>tl_FunctionStack := tl_FunctionStack (snd r) @ [new_TracedFunction None (tf_Record a) []]\<rparr>)
   }"

definition popShimFunction :: "Recorder \<Rightarrow> Recorder option" where
  "popShimFunction r = do {
     require (tl_FunctionStack (snd r) \<noteq> []);
     Some (fst r, (snd r)\<lparr>tl_FunctionStack := butlast (tl_FunctionStack (snd r))\<rparr>)
   }"

section \<open>Accessors\<close>

definition tl_getCurrentRuntimeValue :: "nat \<Rightarrow> Recorder \<Rightarrow> RuntimeValue option" where
  "tl_getCurrentRuntimeValue i r = active_function r \<bind> tf_getCurrentRuntimeValue i"

definition tl_getParamByValArea :: "nat \<Rightarrow> Recorder \<Rightarrow> MemoryArea option" where
  "tl_getParamByValArea arg r = active_function r \<bind> tf_getParamByValArea arg"

end
