(* ===== verification/RuntimeErrors.thy ===== *)
theory RuntimeErrors
  imports Events
begin

text \<open>
  The vocabulary of run-time errors: their types and declared arguments
  (\<open>include/seec/RuntimeErrors/RuntimeErrors.def\<close>), the kinds of arguments and their encoding as a
  kind and 64 bits of data (\<open>ArgumentTypes.def\<close>, \<open>ArgumentTypes.hpp\<close>,
  \<open>lib/RuntimeErrors/ArgumentTypes.cpp\<close>), and the selections (\<open>FormatSelects.def\<close>). An error as the
  recorder writes it is a \<open>RunError\<close> of theory \<open>Events\<close>, whose arguments are already encoded.
\<close>

section \<open>Selections\<close>

text \<open>A selection is its enumeration and the number of the item therein.\<close>

datatype SelectID = MemoryAccess | CStdFunction | CFormatConversionFlag | CFormatLengthModifier | CStdStream

definition select_ids :: "SelectID list" where
  "select_ids = [MemoryAccess, CStdFunction, CFormatConversionFlag, CFormatLengthModifier, CStdStream]"

fun position :: "'a \<Rightarrow> 'a list \<Rightarrow> nat" where
  "position x [] = 0"
| "position x (y # ys) = (if x = y then 0 else Suc (position x ys))"

definition select_code :: "SelectID \<Rightarrow> u32" where
  "select_code s = of_nat (position s select_ids)"

definition select_of_code :: "u32 \<Rightarrow> SelectID option" where
  "select_of_code c = (if unat c < length select_ids then Some (select_ids ! unat c) else None)"

datatype AccessKind = ReadAccess | WriteAccess | CopyAccess

definition access_code :: "AccessKind \<Rightarrow> u32" where
  "access_code a = (case a of ReadAccess \<Rightarrow> 0 | WriteAccess \<Rightarrow> 1 | CopyAccess \<Rightarrow> 2)"

datatype StdStream = UnknownStream | OutStream | ErrStream | InStream

definition stream_code :: "StdStream \<Rightarrow> u32" where
  "stream_code s = (case s of UnknownStream \<Rightarrow> 0 | OutStream \<Rightarrow> 1 | ErrStream \<Rightarrow> 2 | InStream \<Rightarrow> 3)"

text \<open>The names of the enumeration \<open>CStdFunction\<close>, in order.\<close>

definition cstd_functions :: "string list" where
  "cstd_functions =
    [''userdefined'', ''__errno_location'', ''__error'', ''fegetexceptflag'',
     ''fesetexceptflag'', ''fegetenv'', ''fesetenv'', ''feholdexcept'', ''feupdateenv'',
     ''setlocale'', ''localeconv'', ''fabs'', ''fabsf'', ''fabsl'', ''fmod'', ''fmodf'',
     ''fmodl'', ''remainder'', ''remainderf'', ''remainderl'', ''remquo'', ''remquof'',
     ''remquol'', ''fma'', ''fmaf'', ''fmal'', ''fmax'', ''fmaxf'', ''fmaxl'', ''fmin'',
     ''fminf'', ''fminl'', ''fdim'', ''fdimf'', ''fdiml'', ''nan'', ''nanf'', ''nanl'',
     ''exp'', ''expf'', ''expl'', ''exp2'', ''exp2f'', ''exp2l'', ''expm1'', ''expm1f'',
     ''expm1l'', ''log'', ''logf'', ''logl'', ''log10'', ''log10f'', ''log10l'', ''log2'',
     ''log2f'', ''log2l'', ''log1p'', ''log1pf'', ''log1pl'', ''pow'', ''powf'', ''powl'',
     ''sqrt'', ''sqrtf'', ''sqrtl'', ''cbrt'', ''cbrtf'', ''cbrtl'', ''hypot'', ''hypotf'',
     ''hypotl'', ''sin'', ''sinf'', ''sinl'', ''cos'', ''cosf'', ''cosl'', ''tan'', ''tanf'',
     ''tanl'', ''asin'', ''asinf'', ''asinl'', ''acos'', ''acosf'', ''acosl'', ''atan'',
     ''atanf'', ''atanl'', ''atan2'', ''atan2f'', ''atan2l'', ''sinh'', ''sinhf'', ''sinhl'',
     ''cosh'', ''coshf'', ''coshl'', ''tanh'', ''tanhf'', ''tanhl'', ''asinh'', ''asinhf'',
     ''asinhl'', ''acosh'', ''acoshf'', ''acoshl'', ''atanh'', ''atanhf'', ''atanhl'', ''erf'',
     ''erff'', ''erfl'', ''erfc'', ''erfcf'', ''erfcl'', ''tgamma'', ''tgammaf'', ''tgammal'',
     ''lgamma'', ''lgammaf'', ''lgammal'', ''ceil'', ''ceilf'', ''ceill'', ''floor'',
     ''floorf'', ''floorl'', ''trunc'', ''truncf'', ''truncl'', ''round'', ''lround'',
     ''llround'', ''nearbyint'', ''nearbyintf'', ''nearbyintl'', ''rint'', ''rintf'',
     ''rintl'', ''lrint'', ''lrintf'', ''lrintl'', ''llrint'', ''llrintf'', ''llrintl'',
     ''frexp'', ''frexpf'', ''frexpl'', ''ldexp'', ''ldexpf'', ''ldexpl'', ''modf'', ''modff'',
     ''modfl'', ''scalbn'', ''scalbnf'', ''scalbnl'', ''scalbln'', ''scalblnf'', ''scalblnl'',
     ''ilogb'', ''ilogbf'', ''ilogbl'', ''logb'', ''logbf'', ''logbl'', ''nextafter'',
     ''nextafterf'', ''nextafterl'', ''copysign'', ''copysignf'', ''copysignl'', ''qsort'',
     ''bsearch'', ''mkstemp'', ''mkostemp'', ''mkstemps'', ''mkostemps'', ''strcasecmp'',
     ''strncasecmp'', ''strcasestr'', ''strndup'', ''strnlen'', ''strsep'', ''time'',
     ''timespec_get'', ''asctime'', ''ctime'', ''strftime'', ''gmtime'', ''localtime'',
     ''mktime'', ''closedir'', ''opendir'', ''readdir'', ''rewinddir'', ''seekdir'',
     ''telldir'', ''pthread_create'', ''pthread_join'', ''chmod'', ''fchmod'', ''fstat'',
     ''lstat'', ''mkdir'', ''mkfifo'', ''mknod'', ''stat'', ''umask'', ''gettimeofday'',
     ''settimeofday'', ''wait'', ''waitpid'', ''access'', ''dup'', ''dup2'', ''dup3'',
     ''close'', ''getcwd'', ''getopt'', ''read'', ''rmdir'', ''fopen'', ''freopen'',
     ''fclose'', ''fflush'', ''fwide'', ''setbuf'', ''fread'', ''fwrite'', ''fgetc'', ''getc'',
     ''fgets'', ''fputc'', ''putc'', ''fputs'', ''getchar'', ''gets'', ''putchar'', ''puts'',
     ''ungetc'', ''scanf'', ''fscanf'', ''sscanf'', ''vscanf'', ''vfscanf'', ''vsscanf'',
     ''printf'', ''fprintf'', ''sprintf'', ''snprintf'', ''vprintf'', ''vfprintf'',
     ''vsprintf'', ''vsnprintf'', ''ftell'', ''fgetpos'', ''fseek'', ''fsetpos'', ''rewind'',
     ''clearerr'', ''feof'', ''ferror'', ''perror'', ''remove'', ''rename'', ''tmpfile'',
     ''tmpnam'', ''Calloc'', ''Free'', ''Malloc'', ''Realloc'', ''Memchr'', ''Memcmp'',
     ''Memcpy'', ''Memmove'', ''Memset'', ''Strcpy'', ''Strncpy'', ''Strcat'', ''Strncat'',
     ''Atof'', ''Atoi'', ''Atol'', ''Strtod'', ''Strtol'', ''Strtoul'', ''Getenv'', ''System'',
     ''Strchr'', ''Strcmp'', ''Strcoll'', ''Strcspn'', ''Strerror'', ''Strlen'', ''Strncmp'',
     ''Strpbrk'', ''Strrchr'', ''Strspn'', ''Strstr'', ''Strtok'', ''Strxfrm'', ''strdup'',
     ''pipe'', ''fork'', ''execl'', ''execlp'', ''execle'', ''execv'', ''execvp'', ''execve'',
     ''execvpe'', ''unlink'']"

definition cstd_function :: "string \<Rightarrow> u32" where
  "cstd_function f = of_nat (position f cstd_functions)"

section \<open>Arguments\<close>

text \<open>The argument classes, with what they hold.\<close>

datatype Arg =
    ArgAddress u64
  | ArgObject
  | ArgSelect SelectID u32
  | ArgSize u64
  | ArgOperand u64
  | ArgParameter u64
  | ArgCharacter byte

definition arg_type :: "Arg \<Rightarrow> u8" where
  "arg_type a =
     (case a of ArgAddress _ \<Rightarrow> 1 | ArgObject \<Rightarrow> 2 | ArgSelect _ _ \<Rightarrow> 3 | ArgSize _ \<Rightarrow> 4
      | ArgOperand _ \<Rightarrow> 5 | ArgParameter _ \<Rightarrow> 6 | ArgCharacter _ \<Rightarrow> 7)"

text \<open>A \<open>char\<close> is signed, and is converted to 64 bits with its sign.\<close>

definition arg_data :: "Arg \<Rightarrow> u64" where
  "arg_data a =
     (case a of
        ArgAddress v \<Rightarrow> v
      | ArgObject \<Rightarrow> 0
      | ArgSelect s i \<Rightarrow> or (push_bit 32 (ucast (select_code s))) (ucast i)
      | ArgSize v \<Rightarrow> v
      | ArgOperand v \<Rightarrow> v
      | ArgParameter v \<Rightarrow> v
      | ArgCharacter c \<Rightarrow> scast c)"

text \<open>\<open>Arg::deserialize\<close>: an unknown kind or selection is unreachable.\<close>

definition createArgSelect :: "u32 \<Rightarrow> u32 \<Rightarrow> Arg option" where
  "createArgSelect s i = map_option (\<lambda>sel. ArgSelect sel i) (select_of_code s)"

definition arg_deserialize :: "u8 \<Rightarrow> u64 \<Rightarrow> Arg option" where
  "arg_deserialize k d =
     (if k = 1 then Some (ArgAddress d)
      else if k = 2 then Some ArgObject
      else if k = 3 then createArgSelect (ucast (drop_bit 32 d)) (ucast (and d 0xFFFFFFFF))
      else if k = 4 then Some (ArgSize d)
      else if k = 5 then Some (ArgOperand d)
      else if k = 6 then Some (ArgParameter d)
      else if k = 7 then Some (ArgCharacter (ucast d))
      else None)"

section \<open>Errors\<close>

datatype (plugins only: code size) RunErrorType =
    InfoCStdFunction | InfoCStdFunctionParameter | InfoElementOfArray | MemoryUnowned
  | MemoryUninitialized | MemoryOverflow | BadDynamicMemoryAddress | OverlappingSourceDest
  | InvalidCString | DivideByZero | IntegerOverflow | IntegerUnderflow | PointerObjectNULL
  | PointerObjectMismatch | PointerObjectOutdated | PointerArithmeticResultInvalid
  | PointerArithmeticOperandInvalid | PointerArithmeticOperandOutdated
  | ReturnPointerToLocalAllocation | PassPointerToUnowned | PassPointerToUninitialized
  | PassPointerToInsufficient | PassInvalidStream | UseInvalidStream | PassInvalidDIR
  | FormatSpecifierParse | FormatSpecifierFlag | FormatSpecifierWidthDenied
  | FormatSpecifierWidthArgType | FormatSpecifierWidthMissing | FormatSpecifierPrecisionDenied
  | FormatSpecifierPrecisionArgType | FormatSpecifierLengthDenied
  | FormatSpecifierSuppressionDenied | FormatSpecifierArgType | ScanFormattedStringOverflow
  | VarArgsSuperfluous | VarArgsInsufficient | VarArgsExpectedCharPointer
  | VarArgsExpectedCStringArray | VarArgsNonTerminated | VarArgsPostTerminator
  | UnsafeMultithreaded | NonTerminatedArray | StackOverflowAlloca

definition run_error_types :: "RunErrorType list" where
  "run_error_types =
    [InfoCStdFunction, InfoCStdFunctionParameter, InfoElementOfArray, MemoryUnowned,
     MemoryUninitialized, MemoryOverflow, BadDynamicMemoryAddress, OverlappingSourceDest,
     InvalidCString, DivideByZero, IntegerOverflow, IntegerUnderflow, PointerObjectNULL,
     PointerObjectMismatch, PointerObjectOutdated, PointerArithmeticResultInvalid,
     PointerArithmeticOperandInvalid, PointerArithmeticOperandOutdated,
     ReturnPointerToLocalAllocation, PassPointerToUnowned, PassPointerToUninitialized,
     PassPointerToInsufficient, PassInvalidStream, UseInvalidStream, PassInvalidDIR,
     FormatSpecifierParse, FormatSpecifierFlag, FormatSpecifierWidthDenied,
     FormatSpecifierWidthArgType, FormatSpecifierWidthMissing, FormatSpecifierPrecisionDenied,
     FormatSpecifierPrecisionArgType, FormatSpecifierLengthDenied,
     FormatSpecifierSuppressionDenied, FormatSpecifierArgType, ScanFormattedStringOverflow,
     VarArgsSuperfluous, VarArgsInsufficient, VarArgsExpectedCharPointer,
     VarArgsExpectedCStringArray, VarArgsNonTerminated, VarArgsPostTerminator,
     UnsafeMultithreaded, NonTerminatedArray, StackOverflowAlloca]"

definition error_code :: "RunErrorType \<Rightarrow> u16" where
  "error_code t = of_nat (position t run_error_types)"

datatype ArgKind = KAddress | KObject | KSelect SelectID | KSize | KOperand | KParameter | KCharacter

fun kind_of :: "Arg \<Rightarrow> ArgKind" where
  "kind_of (ArgAddress v) = KAddress"
| "kind_of ArgObject = KObject"
| "kind_of (ArgSelect s i) = KSelect s"
| "kind_of (ArgSize v) = KSize"
| "kind_of (ArgOperand v) = KOperand"
| "kind_of (ArgParameter v) = KParameter"
| "kind_of (ArgCharacter c) = KCharacter"

text \<open>The declared arguments of each error.\<close>

fun error_signature :: "RunErrorType \<Rightarrow> ArgKind list" where
  "error_signature InfoCStdFunction = [KSelect CStdFunction]"
| "error_signature InfoCStdFunctionParameter = [KSelect CStdFunction, KParameter]"
| "error_signature InfoElementOfArray = [KSize]"
| "error_signature MemoryUnowned = [KSelect MemoryAccess, KAddress, KSize]"
| "error_signature MemoryUninitialized = [KAddress, KSize]"
| "error_signature MemoryOverflow = [KSelect MemoryAccess, KAddress, KSize, KObject, KAddress, KSize]"
| "error_signature BadDynamicMemoryAddress = [KSelect CStdFunction, KAddress]"
| "error_signature OverlappingSourceDest = [KSelect CStdFunction, KAddress, KSize]"
| "error_signature InvalidCString = [KSelect CStdFunction, KAddress, KParameter]"
| "error_signature DivideByZero = [KObject]"
| "error_signature IntegerOverflow = [KObject]"
| "error_signature IntegerUnderflow = [KObject]"
| "error_signature PointerObjectNULL = [KAddress]"
| "error_signature PointerObjectMismatch = [KAddress, KAddress]"
| "error_signature PointerObjectOutdated = [KSize, KSize]"
| "error_signature PointerArithmeticResultInvalid = [KAddress, KAddress]"
| "error_signature PointerArithmeticOperandInvalid = [KAddress]"
| "error_signature PointerArithmeticOperandOutdated = [KSize, KSize]"
| "error_signature ReturnPointerToLocalAllocation = [KAddress]"
| "error_signature PassPointerToUnowned = [KSelect CStdFunction, KAddress, KParameter]"
| "error_signature PassPointerToUninitialized = [KSelect CStdFunction, KAddress, KParameter]"
| "error_signature PassPointerToInsufficient = [KSelect CStdFunction, KParameter, KAddress, KSize, KSize, KObject, KAddress, KSize]"
| "error_signature PassInvalidStream = [KSelect CStdFunction, KParameter]"
| "error_signature UseInvalidStream = [KSelect CStdFunction, KSelect CStdStream]"
| "error_signature PassInvalidDIR = [KSelect CStdFunction, KParameter]"
| "error_signature FormatSpecifierParse = [KSelect CStdFunction, KParameter, KSize]"
| "error_signature FormatSpecifierFlag = [KSelect CStdFunction, KParameter, KSize, KSize, KCharacter]"
| "error_signature FormatSpecifierWidthDenied = [KSelect CStdFunction, KParameter, KSize, KSize]"
| "error_signature FormatSpecifierWidthArgType = [KSelect CStdFunction, KParameter, KSize, KSize, KParameter]"
| "error_signature FormatSpecifierWidthMissing = [KSelect CStdFunction, KParameter, KSize, KSize]"
| "error_signature FormatSpecifierPrecisionDenied = [KSelect CStdFunction, KParameter, KSize, KSize]"
| "error_signature FormatSpecifierPrecisionArgType = [KSelect CStdFunction, KParameter, KSize, KSize, KParameter]"
| "error_signature FormatSpecifierLengthDenied = [KSelect CStdFunction, KParameter, KSize, KSize, KSelect CFormatLengthModifier]"
| "error_signature FormatSpecifierSuppressionDenied = [KSelect CStdFunction, KParameter, KSize, KSize]"
| "error_signature FormatSpecifierArgType = [KSelect CStdFunction, KParameter, KSize, KSize, KSelect CFormatLengthModifier, KParameter]"
| "error_signature ScanFormattedStringOverflow = [KSelect CStdFunction, KParameter, KSize, KSize, KSelect CFormatLengthModifier, KParameter, KSize, KSize]"
| "error_signature VarArgsSuperfluous = [KSelect CStdFunction, KSize, KSize]"
| "error_signature VarArgsInsufficient = [KSelect CStdFunction, KSize, KSize]"
| "error_signature VarArgsExpectedCharPointer = [KSelect CStdFunction]"
| "error_signature VarArgsExpectedCStringArray = [KSelect CStdFunction]"
| "error_signature VarArgsNonTerminated = [KSelect CStdFunction]"
| "error_signature VarArgsPostTerminator = [KSelect CStdFunction]"
| "error_signature UnsafeMultithreaded = [KSelect CStdFunction]"
| "error_signature NonTerminatedArray = [KSelect CStdFunction, KParameter]"
| "error_signature StackOverflowAlloca = [KAddress]"

text \<open>
  \<open>createRunError\<close>: the C++ types make sure that the arguments are as declared; an error with
  other arguments does not compile and is \<open>None\<close>. \<open>addAdditional\<close> attaches an error.
\<close>

definition encode_args :: "Arg list \<Rightarrow> (u8 \<times> u64) list" where
  "encode_args as = map (\<lambda>a. (arg_type a, arg_data a)) as"

definition createRunError :: "RunErrorType \<Rightarrow> Arg list \<Rightarrow> RunError option" where
  "createRunError t as = do {
     require (map kind_of as = error_signature t);
     Some (RunError (error_code t) (encode_args as) [])
   }"

fun addAdditional :: "RunError \<Rightarrow> RunError \<Rightarrow> RunError" where
  "addAdditional e (RunError t as es) = RunError t as (es @ [e])"

section \<open>Encoding and decoding\<close>

lemma nth_position: "x \<in> set xs \<Longrightarrow> position x xs < length xs \<and> xs ! position x xs = x"
  by (induction xs) auto

lemma select_in: "s \<in> set select_ids"
  by (cases s) (simp_all add: select_ids_def)

lemma select_code_inverse: "select_of_code (select_code s) = Some s"
proof -
  have "position s select_ids < length select_ids" using nth_position[OF select_in[of s]] by simp
  moreover have "length select_ids = 5" by (simp add: select_ids_def)
  ultimately have "unat (select_code s) = position s select_ids"
    by (simp add: select_code_def unsigned_of_nat take_bit_nat_eq_self)
  then show ?thesis using nth_position[OF select_in[of s]] by (simp add: select_of_code_def)
qed

lemma select_halves:
  fixes s i :: u32
  defines "d \<equiv> or (push_bit 32 (ucast s)) (ucast i) :: u64"
  shows "ucast (drop_bit 32 d) = s" and "ucast (and d 0xFFFFFFFF) = i"
proof -
  have m: "(0xFFFFFFFF :: u64) = mask 32" by (simp add: mask_eq_exp_minus_1)
  show "ucast (drop_bit 32 d) = s"
    unfolding d_def by (rule bit_word_eqI) (auto simp: bit_simps dest: bit_imp_le_length)
  show "ucast (and d 0xFFFFFFFF) = i"
    unfolding d_def m by (rule bit_word_eqI) (auto simp: bit_simps)
qed

lemma arg_roundtrip: "arg_deserialize (arg_type a) (arg_data a) = Some a"
proof (cases a)
  case (ArgSelect s i)
  then show ?thesis
    using select_halves[of "select_code s" i]
    by (simp add: arg_type_def arg_data_def arg_deserialize_def createArgSelect_def select_code_inverse)
next
  case (ArgCharacter c)
  have "ucast (scast c :: u64) = c" by (rule bit_word_eqI) (simp add: bit_simps)
  then show ?thesis by (simp add: ArgCharacter arg_type_def arg_data_def arg_deserialize_def)
qed (simp_all add: arg_type_def arg_data_def arg_deserialize_def)

lemma error_in: "t \<in> set run_error_types"
  by (cases t) (simp_all add: run_error_types_def)

lemma error_code_position: "unat (error_code t) = position t run_error_types"
proof -
  have "position t run_error_types < length run_error_types" using nth_position[OF error_in[of t]] by simp
  moreover have "length run_error_types = 45" by (simp add: run_error_types_def)
  ultimately show ?thesis by (simp add: error_code_def unsigned_of_nat take_bit_nat_eq_self)
qed

text \<open>What a reader makes of a recorded error: the enumerator with its number, and its arguments.\<close>

definition decode_error :: "RunError \<Rightarrow> (RunErrorType \<times> Arg list) option" where
  "decode_error e = (case e of RunError c as es \<Rightarrow>
     if unat c < length run_error_types \<and> list_all (\<lambda>(k, d). arg_deserialize k d \<noteq> None) as
     then Some (run_error_types ! unat c, map (\<lambda>(k, d). the (arg_deserialize k d)) as)
     else None)"

lemma decode_created: "createRunError t as = Some e \<Longrightarrow> decode_error e = Some (t, as)"
  using nth_position[OF error_in[of t]]
  by (auto simp: createRunError_def decode_error_def error_code_position encode_args_def arg_roundtrip
      list_all_iff comp_def)

section \<open>Properties\<close>

definition created :: "RunError \<Rightarrow> bool" where
  "created e \<longleftrightarrow> (\<exists>t as. createRunError t as = Some e)"

lemma signature_length: "length (error_signature t) < 256"
  by (cases t) simp_all

lemma created_parts:
  assumes "createRunError t as = Some e"
  shows "e = RunError (error_code t) (encode_args as) []" and "map kind_of as = error_signature t"
    and "length as < 256"
proof -
  show k: "e = RunError (error_code t) (encode_args as) []" "map kind_of as = error_signature t"
    using assms by (auto simp: createRunError_def)
  show "length as < 256" using signature_length[of t] by (metis k(2) length_map)
qed

lemma fold_addAdditional: "fold addAdditional ns (RunError c as es) = RunError c as (es @ ns)"
  by (induction ns arbitrary: es) simp_all

text \<open>C16: The recorder's errors keep their types. An error that is created with the arguments its
  type declares, with any notes attached to it, is written as events from which the viewer reads an
  error of the same type with the same arguments, in number and kind as declared, and with the same
  notes.\<close>

theorem recorded_error_types:
  assumes "createRunError t as = Some e" and "length notes < 256" and "list_all created notes"
  shows "\<exists>e'. deserializeRuntimeError (writeError True (fold addAdditional notes e) @ rest) = Some (Some e') \<and>
           decode_error e' = Some (t, as) \<and> map kind_of as = error_signature t \<and>
           e' = RunError (error_code t) (encode_args as) notes"
proof -
  note P = created_parts[OF assms(1)]
  have "error_fits n" if "n \<in> set notes" for n
    using that assms(3) created_parts(1,3) by (fastforce simp: created_def list_all_iff encode_args_def)
  then have "error_fits (fold addAdditional notes e)"
    using P assms(2) by (simp add: fold_addAdditional encode_args_def list_all_iff)
  from deserializeRuntimeError_written[OF this] show ?thesis
    using decode_created[OF assms(1)] P by (simp add: fold_addAdditional decode_error_def)
qed

theorem recorded_error_types_witness:
  "\<exists>e'. deserializeRuntimeError (writeError True
       (fold addAdditional [the (createRunError InfoCStdFunction [ArgSelect CStdFunction 3])]
         (the (createRunError FormatSpecifierFlag
            [ArgSelect CStdFunction 0, ArgParameter 1, ArgSize 0, ArgSize 2, ArgCharacter 45]))) @ [TraceEnd 0]) = Some (Some e') \<and>
     decode_error e' = Some (FormatSpecifierFlag, [ArgSelect CStdFunction 0, ArgParameter 1, ArgSize 0, ArgSize 2, ArgCharacter 45])"
proof -
  have c: "createRunError FormatSpecifierFlag
      [ArgSelect CStdFunction 0, ArgParameter 1, ArgSize 0, ArgSize 2, ArgCharacter 45] \<noteq> None"
    "createRunError InfoCStdFunction [ArgSelect CStdFunction 3] \<noteq> None"
    by (simp_all add: createRunError_def)
  have n: "list_all created [the (createRunError InfoCStdFunction [ArgSelect CStdFunction 3])]"
    using c(2) by (auto simp: created_def)
  from c(1) obtain e where e: "createRunError FormatSpecifierFlag
      [ArgSelect CStdFunction 0, ArgParameter 1, ArgSize 0, ArgSize 2, ArgCharacter 45] = Some e" by auto
  from recorded_error_types[OF e _ n, of "[TraceEnd 0]"] e show ?thesis by auto
qed

end
