(* ===== verification/RuntimeChecks.thy ===== *)
theory RuntimeChecks
  imports ThreadRecorder RuntimeErrors
begin

text \<open>
  The run-time error checks: \<open>RuntimeErrorChecker\<close>, \<open>CStdLibChecker\<close>, \<open>CIOChecker\<close> and
  \<open>DIRChecker\<close> (\<open>include/seec/Trace/TraceThreadMemCheck.hpp\<close>, \<open>lib/Trace/TraceThreadMemCheck.cpp\<close>). A
  checker is a record; the classes that derive from it extend the record. All errors here
  are fatal, so a check that raises one ends the program, with the recorder as it is then
  (\<open>Inl\<close>); a check that passes does not change the recorder (\<open>Inr\<close>). \<open>None\<close> is a failed assertion.
  The checks of print formats are in theory \<open>FormatChecks\<close>.
\<close>

section \<open>Checks\<close>

type_synonym 'a checked = "(Recorder + 'a) option"

definition passes :: "'a \<Rightarrow> 'a checked" where
  "passes v = Some (Inr v)"

definition check_bind :: "'a checked \<Rightarrow> ('a \<Rightarrow> 'b checked) \<Rightarrow> 'b checked" where
  "check_bind c f = (case c of None \<Rightarrow> None | Some (Inl r) \<Rightarrow> Some (Inl r) | Some (Inr v) \<Rightarrow> f v)"

definition check_then :: "unit checked \<Rightarrow> 'b checked \<Rightarrow> 'b checked" where
  "check_then c d = check_bind c (\<lambda>_. d)"

record Checker =
  ck_Instruction :: nat
  ck_PermanentNotes :: "RunError list"
  ck_TemporaryNotes :: "RunError list"

definition new_Checker :: "nat \<Rightarrow> Checker" where
  "new_Checker i = \<lparr>ck_Instruction = i, ck_PermanentNotes = [], ck_TemporaryNotes = []\<rparr>"

definition raiseError :: "'a Checker_scheme \<Rightarrow> RunError \<Rightarrow> RunErrorSeverity \<Rightarrow> Recorder \<Rightarrow> Recorder + Recorder" where
  "raiseError ck e sev r =
     handleRunError (fold addAdditional (ck_PermanentNotes ck @ ck_TemporaryNotes ck) e) sev (Some (ck_Instruction ck)) r"

text \<open>An error of severity \<open>Fatal\<close> ends the program, so its result has any type.\<close>

definition fatal :: "'a Checker_scheme \<Rightarrow> RunErrorType \<Rightarrow> Arg list \<Rightarrow> Recorder \<Rightarrow> 'b checked" where
  "fatal ck t as r =
     (case createRunError t as of
        None \<Rightarrow> None
      | Some e \<Rightarrow> (case raiseError ck e Fatal r of Inl r' \<Rightarrow> Some (Inl r') | Inr r' \<Rightarrow> None))"

definition addPermanentNote :: "RunError \<Rightarrow> 'a Checker_scheme \<Rightarrow> 'a Checker_scheme" where
  "addPermanentNote n ck = ck\<lparr>ck_PermanentNotes := ck_PermanentNotes ck @ [n]\<rparr>"

definition addTemporaryNote :: "RunError \<Rightarrow> 'a Checker_scheme \<Rightarrow> 'a Checker_scheme" where
  "addTemporaryNote n ck = ck\<lparr>ck_TemporaryNotes := ck_TemporaryNotes ck @ [n]\<rparr>"

definition clearTemporaryNotes :: "'a Checker_scheme \<Rightarrow> 'a Checker_scheme" where
  "clearTemporaryNotes ck = ck\<lparr>ck_TemporaryNotes := []\<rparr>"

section \<open>RuntimeErrorChecker\<close>

definition containing_area :: "u64 \<Rightarrow> Recorder \<Rightarrow> MemoryArea option" where
  "containing_area a r = pl_getContainingMemoryArea a (fst r)"

definition getSizeOfAreaStartingAt :: "u64 \<Rightarrow> Recorder \<Rightarrow> u64 option" where
  "getSizeOfAreaStartingAt a r =
     (case containing_area a r of None \<Rightarrow> Some 0 | Some ar \<Rightarrow> map_option interval_length (withStart a ar))"

definition getSizeOfWritableAreaStartingAt :: "u64 \<Rightarrow> Recorder \<Rightarrow> u64 option" where
  "getSizeOfWritableAreaStartingAt a r =
     (case containing_area a r of
        None \<Rightarrow> Some 0
      | Some ar \<Rightarrow> if area_Access ar \<noteq> ReadWrite \<and> area_Access ar \<noteq> WriteOnly then Some 0
                   else map_option interval_length (withStart a ar))"

definition checkPointer :: "'a Checker_scheme \<Rightarrow> PointerTarget \<Rightarrow> u64 \<Rightarrow> Recorder \<Rightarrow> unit checked" where
  "checkPointer ck obj a r =
     (if \<not> target_set obj then passes ()
      else if getRegionTemporalID (tgt_Base obj) (fst r) \<noteq> tgt_Time obj
      then fatal ck PointerObjectOutdated
             [ArgSize (tgt_Time obj), ArgSize (getRegionTemporalID (tgt_Base obj) (fst r))] r
      else case containing_area (tgt_Base obj) r of
        None \<Rightarrow> fatal ck PointerObjectOutdated [ArgSize (tgt_Time obj), ArgSize (tgt_Time obj)] r
      | Some ar \<Rightarrow>
          if \<not> contains_value ar a
          then fatal ck PointerObjectMismatch [ArgAddress (tgt_Base obj), ArgAddress a] r
          else passes ())"

definition memoryExists ::
  "'a Checker_scheme \<Rightarrow> u64 \<Rightarrow> u64 \<Rightarrow> AccessKind \<Rightarrow> MemoryArea option \<Rightarrow> Recorder \<Rightarrow> unit checked" where
  "memoryExists ck a n access ar r =
     (if ar \<noteq> None then passes ()
      else fatal ck MemoryUnowned [ArgSelect MemoryAccess (access_code access), ArgAddress a, ArgSize n] r)"

definition checkMemoryAccess ::
  "'a Checker_scheme \<Rightarrow> u64 \<Rightarrow> u64 \<Rightarrow> AccessKind \<Rightarrow> MemoryArea \<Rightarrow> Recorder \<Rightarrow> unit checked" where
  "checkMemoryAccess ck a n access ar r =
     (if \<not> contains_interval ar (area a n)
      then fatal ck MemoryOverflow
             [ArgSelect MemoryAccess (access_code access), ArgAddress a, ArgSize n, ArgObject,
              ArgAddress (iv_Start ar), ArgSize (interval_length ar)] r
      else if access = ReadAccess
      then (case hasKnownState a n (pl_TraceMemory (fst r)) of
              None \<Rightarrow> None
            | Some known \<Rightarrow>
                if \<not> known then fatal ck MemoryUninitialized [ArgAddress a, ArgSize n] r else passes ())
      else passes ())"

definition checkMemoryExistsAndAccessible ::
  "'a Checker_scheme \<Rightarrow> u64 \<Rightarrow> u64 \<Rightarrow> AccessKind \<Rightarrow> Recorder \<Rightarrow> unit checked" where
  "checkMemoryExistsAndAccessible ck a n access r =
     check_then (memoryExists ck a n access (containing_area a r) r)
       (case containing_area a r of
          None \<Rightarrow> None
        | Some ar \<Rightarrow> checkMemoryAccess ck a n access ar r)"

text \<open>\<open>peek\<close> is the program's memory, byte by byte.\<close>

fun string_end :: "(u64 \<Rightarrow> byte) \<Rightarrow> u64 \<Rightarrow> nat \<Rightarrow> nat \<Rightarrow> nat option" where
  "string_end peek a i 0 = None"
| "string_end peek a i (Suc left) =
     (if peek (a + of_nat i) = 0 then Some i else string_end peek a (Suc i) left)"

definition getCStringInArea :: "(u64 \<Rightarrow> byte) \<Rightarrow> u64 \<Rightarrow> MemoryArea \<Rightarrow> MemoryArea option option" where
  "getCStringInArea peek a ar = do {
     rest \<leftarrow> withStart a ar;
     Some (map_option (\<lambda>i. area a (of_nat i + 1)) (string_end peek a 0 (unat (interval_length rest))))
   }"

definition getLimitedCStringInArea :: "(u64 \<Rightarrow> byte) \<Rightarrow> u64 \<Rightarrow> MemoryArea \<Rightarrow> u64 \<Rightarrow> MemoryArea option" where
  "getLimitedCStringInArea peek a ar limit = do {
     found \<leftarrow> getCStringInArea peek a ar;
     Some (case found of
             Some s \<Rightarrow> area_withLength (min (interval_length s) limit) s
           | None \<Rightarrow> area a limit)
   }"

section \<open>CStdLibChecker\<close>

text \<open>\<open>sc_Call\<close> holds the operands of the call, if the instruction is one.\<close>

record CStdLibChecker = Checker +
  sc_Function :: u32
  sc_CallerIdx :: nat
  sc_Call :: "ValueRef list option"

definition new_CStdLibChecker :: "nat \<Rightarrow> u32 \<Rightarrow> ValueRef list option \<Rightarrow> Recorder \<Rightarrow> CStdLibChecker option" where
  "new_CStdLibChecker i f call r = do {
     n \<leftarrow> createRunError InfoCStdFunction [ArgSelect CStdFunction f];
     Some (addPermanentNote n
       \<lparr>ck_Instruction = i, ck_PermanentNotes = [], ck_TemporaryNotes = [], sc_Function = f,
        sc_CallerIdx = length (tl_FunctionStack (snd r)) - 1, sc_Call = call\<rparr>)
   }"

definition fn_arg :: "'a CStdLibChecker_scheme \<Rightarrow> Arg" where
  "fn_arg ck = ArgSelect CStdFunction (sc_Function ck)"

text \<open>\<open>Thread.FunctionStack[CallerIdx].getPointerObject(Call->getArgOperand(Parameter))\<close>\<close>

definition argument_object :: "'a CStdLibChecker_scheme \<Rightarrow> nat \<Rightarrow> Recorder \<Rightarrow> PointerTarget option" where
  "argument_object ck k r = do {
     call \<leftarrow> sc_Call ck;
     require (k < length call \<and> sc_CallerIdx ck < length (tl_FunctionStack (snd r)));
     tf_getPointerObject (call ! k) (fst r) (tl_FunctionStack (snd r) ! sc_CallerIdx ck)
   }"

text \<open>The note on the parameter is attached while the given checks run.\<close>

definition with_parameter_note ::
  "'a CStdLibChecker_scheme \<Rightarrow> nat \<Rightarrow> ('a CStdLibChecker_scheme \<Rightarrow> 'b checked) \<Rightarrow> 'b checked" where
  "with_parameter_note ck k f =
     (case createRunError InfoCStdFunctionParameter [fn_arg ck, ArgParameter (of_nat k)] of
        None \<Rightarrow> None
      | Some n \<Rightarrow> f (addTemporaryNote n ck))"

definition memoryExistsForParameter ::
  "'a CStdLibChecker_scheme \<Rightarrow> nat \<Rightarrow> u64 \<Rightarrow> MemoryArea option \<Rightarrow> PointerTarget \<Rightarrow> Recorder \<Rightarrow> unit checked" where
  "memoryExistsForParameter ck k a ar obj r =
     check_then (if sc_Call ck \<noteq> None then checkPointer ck obj a r else passes ())
       (if ar = None then fatal ck PassPointerToUnowned [fn_arg ck, ArgAddress a, ArgParameter (of_nat k)] r
        else passes ())"

definition checkMemoryAccessForParameter ::
  "'a CStdLibChecker_scheme \<Rightarrow> nat \<Rightarrow> u64 \<Rightarrow> u64 \<Rightarrow> AccessKind \<Rightarrow> MemoryArea \<Rightarrow> Recorder \<Rightarrow> unit checked" where
  "checkMemoryAccessForParameter ck k a n access ar r =
     (if \<not> contains_interval ar (area a n)
      then (case withStart a ar of
              None \<Rightarrow> None
            | Some rest \<Rightarrow>
                fatal ck PassPointerToInsufficient
                  [fn_arg ck, ArgParameter (of_nat k), ArgAddress a, ArgSize n, ArgSize (interval_length rest),
                   ArgObject, ArgAddress (iv_Start ar), ArgSize (interval_length ar)] r)
      else if access = ReadAccess
      then (case hasKnownState a n (pl_TraceMemory (fst r)) of
              None \<Rightarrow> None
            | Some known \<Rightarrow>
                if \<not> known then fatal ck PassPointerToUninitialized [fn_arg ck, ArgAddress a, ArgParameter (of_nat k)] r
                else passes ())
      else passes ())"

definition checkCStringIsValid ::
  "'a CStdLibChecker_scheme \<Rightarrow> u64 \<Rightarrow> nat \<Rightarrow> MemoryArea option \<Rightarrow> Recorder \<Rightarrow> unit checked" where
  "checkCStringIsValid ck a k ar r =
     (let invalid = fatal ck InvalidCString [fn_arg ck, ArgAddress a, ArgParameter (of_nat k)] r in
      case ar of
        None \<Rightarrow> invalid
      | Some s \<Rightarrow>
          (case getLengthOfKnownState (iv_Start s) (interval_length s) (pl_TraceMemory (fst r)) of
             None \<Rightarrow> None
           | Some n \<Rightarrow> if n = 0 \<or> unat (interval_length s) \<le> n then passes () else invalid))"

text \<open>The private overload, which is given the pointer's object.\<close>

definition checkCStringRead_object ::
  "(u64 \<Rightarrow> byte) \<Rightarrow> 'a CStdLibChecker_scheme \<Rightarrow> nat \<Rightarrow> u64 \<Rightarrow> PointerTarget \<Rightarrow> Recorder \<Rightarrow> u64 checked" where
  "checkCStringRead_object peek ck k a obj r =
     check_then (memoryExistsForParameter ck k a (containing_area a r) obj r)
       (case containing_area a r of
          None \<Rightarrow> None
        | Some ar \<Rightarrow>
            (case getCStringInArea peek a ar of
               None \<Rightarrow> None
             | Some s \<Rightarrow>
                 check_then (checkCStringIsValid ck a k s r)
                   (case s of
                      None \<Rightarrow> None
                    | Some sa \<Rightarrow>
                        check_then (checkMemoryAccessForParameter ck k a (interval_length sa) ReadAccess sa r)
                          (passes (interval_length sa)))))"

definition checkMemoryExistsAndAccessibleForParameter ::
  "'a CStdLibChecker_scheme \<Rightarrow> nat \<Rightarrow> u64 \<Rightarrow> u64 \<Rightarrow> AccessKind \<Rightarrow> Recorder \<Rightarrow> unit checked" where
  "checkMemoryExistsAndAccessibleForParameter ck k a n access r =
     with_parameter_note ck k (\<lambda>ck.
       case argument_object ck k r of
         None \<Rightarrow> None
       | Some obj \<Rightarrow>
           check_then (memoryExistsForParameter ck k a (containing_area a r) obj r)
             (case containing_area a r of
                None \<Rightarrow> None
              | Some ar \<Rightarrow> checkMemoryAccessForParameter ck k a n access ar r))"

definition checkMemoryDoesNotOverlap ::
  "'a CStdLibChecker_scheme \<Rightarrow> MemoryArea \<Rightarrow> MemoryArea \<Rightarrow> Recorder \<Rightarrow> unit checked" where
  "checkMemoryDoesNotOverlap ck x y r =
     (case intersection x y of
        None \<Rightarrow> None
      | Some i \<Rightarrow>
          if interval_length i = 0 then passes ()
          else fatal ck OverlappingSourceDest [fn_arg ck, ArgAddress (iv_Start i), ArgSize (interval_length i)] r)"

definition checkCStringRead ::
  "(u64 \<Rightarrow> byte) \<Rightarrow> 'a CStdLibChecker_scheme \<Rightarrow> nat \<Rightarrow> u64 \<Rightarrow> Recorder \<Rightarrow> u64 checked" where
  "checkCStringRead peek ck k a r =
     with_parameter_note ck k (\<lambda>ck.
       case argument_object ck k r of
         None \<Rightarrow> None
       | Some obj \<Rightarrow> checkCStringRead_object peek ck k a obj r)"

definition checkLimitedCStringRead ::
  "(u64 \<Rightarrow> byte) \<Rightarrow> 'a CStdLibChecker_scheme \<Rightarrow> nat \<Rightarrow> u64 \<Rightarrow> u64 \<Rightarrow> Recorder \<Rightarrow> u64 checked" where
  "checkLimitedCStringRead peek ck k a limit r =
     with_parameter_note ck k (\<lambda>ck.
       case argument_object ck k r of
         None \<Rightarrow> None
       | Some obj \<Rightarrow>
           check_then (memoryExistsForParameter ck k a (containing_area a r) obj r)
             (case containing_area a r of
                None \<Rightarrow> None
              | Some ar \<Rightarrow>
                  (case getLimitedCStringInArea peek a ar limit of
                     None \<Rightarrow> None
                   | Some s \<Rightarrow>
                       check_then (checkCStringIsValid ck a k (Some s) r)
                         (check_then (checkMemoryAccessForParameter ck k a (interval_length s) ReadAccess s r)
                            (passes (interval_length s))))))"

text \<open>
  An array of C strings: \<open>ptr_at\<close> reads a pointer from the program's memory. Only the first byte of
  each element is checked. A parameter that is not a pointer gives zero.
\<close>

fun check_elements ::
  "(u64 \<Rightarrow> byte) \<Rightarrow> (u64 \<Rightarrow> u64) \<Rightarrow> 'a CStdLibChecker_scheme \<Rightarrow> nat \<Rightarrow> u64 \<Rightarrow> MemoryArea \<Rightarrow> nat \<Rightarrow> nat \<Rightarrow>
   Recorder \<Rightarrow> u64 checked" where
  "check_elements peek ptr_at ck k a ar i 0 r = fatal ck NonTerminatedArray [fn_arg ck, ArgParameter (of_nat k)] r"
| "check_elements peek ptr_at ck k a ar i (Suc left) r =
     (let e = a + of_nat i * 8 in
      check_then (checkMemoryAccessForParameter ck k e 1 ReadAccess ar r)
        (if ptr_at e = 0 then passes (of_nat i + 1)
         else check_bind (checkCStringRead_object peek ck k (ptr_at e) (getInMemoryPointerObject e (fst r)) r)
                (\<lambda>n. if n = 0 then passes 0 else check_elements peek ptr_at ck k a ar (Suc i) left r)))"

definition checkCStringArray ::
  "(u64 \<Rightarrow> byte) \<Rightarrow> (u64 \<Rightarrow> u64) \<Rightarrow> bool \<Rightarrow> 'a CStdLibChecker_scheme \<Rightarrow> nat \<Rightarrow> u64 \<Rightarrow> Recorder \<Rightarrow> u64 checked" where
  "checkCStringArray peek ptr_at is_pointer ck k a r =
     with_parameter_note ck k (\<lambda>ck.
       if \<not> is_pointer then passes 0
       else case argument_object ck k r of
         None \<Rightarrow> None
       | Some obj \<Rightarrow>
           check_then (memoryExistsForParameter ck k a (containing_area a r) obj r)
             (case containing_area a r of
                None \<Rightarrow> None
              | Some ar \<Rightarrow> check_elements peek ptr_at ck k a ar 0 (unat (interval_length ar) div 8) r))"

section \<open>CIOChecker and DIRChecker\<close>

record CIOChecker = CStdLibChecker +
  io_Streams :: TraceStreams

definition checkStreamIsValid :: "'a CIOChecker_scheme \<Rightarrow> nat \<Rightarrow> u64 \<Rightarrow> Recorder \<Rightarrow> unit checked" where
  "checkStreamIsValid ck k fp r =
     with_parameter_note ck k (\<lambda>ck.
       case argument_object ck k r of
         None \<Rightarrow> None
       | Some obj \<Rightarrow>
           let t = getRegionTemporalID fp (fst r) in
           if tgt_Time obj \<noteq> t then fatal ck PointerObjectOutdated [ArgSize (tgt_Time obj), ArgSize t] r
           else if \<not> streamWillClose fp (io_Streams ck)
           then fatal ck PassInvalidStream [fn_arg ck, ArgParameter (of_nat k)] r
           else passes ())"

text \<open>The standard streams are the addresses of \<open>stdin\<close>, \<open>stdout\<close> and \<open>stderr\<close>; another is unreachable.\<close>

definition checkStandardStreamIsValid ::
  "u64 \<Rightarrow> u64 \<Rightarrow> u64 \<Rightarrow> 'a CIOChecker_scheme \<Rightarrow> u64 \<Rightarrow> Recorder \<Rightarrow> unit checked" where
  "checkStandardStreamIsValid stdin stdout stderr ck fp r =
     (if streamWillClose fp (io_Streams ck) then passes ()
      else let raise = (\<lambda>s. fatal ck UseInvalidStream [fn_arg ck, ArgSelect CStdStream (stream_code s)] r) in
        if fp = stdout then raise OutStream
        else if fp = stdin then raise InStream
        else if fp = stderr then raise ErrStream
        else None)"

definition checkDIRIsValid :: "nat \<Rightarrow> u32 \<Rightarrow> TraceDirs \<Rightarrow> nat \<Rightarrow> u64 \<Rightarrow> Recorder \<Rightarrow> unit checked" where
  "checkDIRIsValid i f dirs k d r =
     (if DIRWillClose d dirs then passes ()
      else fatal (new_Checker i) PassInvalidDIR [ArgSelect CStdFunction f, ArgParameter (of_nat k)] r)"

end
