(* ===== verification/Notifications.thy ===== *)
theory Notifications
  imports RuntimeChecks
begin

text \<open>
  The notifications that the instrumented program sends to its \<open>TraceThreadListener\<close>
  (\<open>lib/Trace/TraceThreadListenerNotify.cpp\<close>) and the values of operands
  (\<open>include/seec/Trace/GetCurrentRuntimeValue.hpp\<close>). What the source asks of an LLVM instruction or
  value is an argument of the notification, and so are the bytes of the program's memory that it
  reads. Calls that are detected by name have their own handlers, which are arguments here.
\<close>

section \<open>The course of a notification\<close>

text \<open>\<open>Inl\<close>: the program was ended. \<open>None\<close>: a failed assertion or undefined behaviour.\<close>

type_synonym run = "(Recorder + Recorder) option"

definition continue :: "Recorder \<Rightarrow> run" where
  "continue r = Some (Inr r)"

definition run_then :: "run \<Rightarrow> (Recorder \<Rightarrow> run) \<Rightarrow> run" where
  "run_then m f = (case m of None \<Rightarrow> None | Some (Inl r) \<Rightarrow> Some (Inl r) | Some (Inr r) \<Rightarrow> f r)"

definition run_defined :: "Recorder option \<Rightarrow> run" where
  "run_defined m = map_option Inr m"

definition run_checked :: "unit checked \<Rightarrow> Recorder \<Rightarrow> run" where
  "run_checked c r = (case c of None \<Rightarrow> None | Some (Inl r') \<Rightarrow> Some (Inl r') | Some (Inr u) \<Rightarrow> Some (Inr r))"

text \<open>\<open>handleRunError\<close> of a fatal error.\<close>

definition run_error :: "RunErrorType \<Rightarrow> Arg list \<Rightarrow> nat option \<Rightarrow> Recorder \<Rightarrow> run" where
  "run_error t as i r =
     (case createRunError t as of None \<Rightarrow> None | Some e \<Rightarrow> Some (handleRunError e Fatal i r))"

definition enterNotification :: "Recorder \<Rightarrow> Recorder" where
  "enterNotification r = synchronizeProcessTime r"

definition exitNotification :: "Recorder \<Rightarrow> Recorder" where
  "exitNotification r = (if pl_OutputEnabled (fst r) then r else tl_traceClose r)"

definition exitPreNotification :: "Recorder \<Rightarrow> Recorder" where
  "exitPreNotification r = exitNotification r"

definition unlock_all :: "Recorder \<Rightarrow> Recorder" where
  "unlock_all r = (fst r, (snd r)\<lparr>tl_GlobalMemoryLock := False, tl_DynamicMemoryLock := False,
                                tl_StreamsLock := False, tl_DirsLock := False\<rparr>)"

definition exitPostNotification :: "Recorder \<Rightarrow> Recorder" where
  "exitPostNotification r = exitNotification (clearCI (unlock_all r))"

text \<open>\<open>++Time\<close>\<close>

definition next_time :: "Recorder \<Rightarrow> Recorder" where
  "next_time r = (fst r, (snd r)\<lparr>tl_Time := tl_Time (snd r) + 1\<rparr>)"

definition set_active :: "nat \<Rightarrow> Recorder \<Rightarrow> Recorder option" where
  "set_active i r = on_active (setActiveInstruction i) r"

section \<open>The values of operands\<close>

text \<open>
  An \<open>llvm::Value\<close> as its run-time value is computed. A step of an address computation goes
  into an array, with the size of its elements, or into a structure, with the offsets of its
  members, or into neither. \<open>OpOther\<close> is any value the source gives up on, and \<open>OpArgument\<close>
  one that is unreachable.
\<close>

datatype GEPStep = SequentialStep u64 | StructStep "u64 list" | NoStep

datatype Operand =
    OpInstruction nat
  | OpConstantInt u64
  | OpFunction "nat option"
  | OpGlobal "nat option"
  | OpNull
  | OpByVal nat
  | OpArgument
  | OpGEP Operand "(Operand \<times> GEPStep) list"
  | OpOther

text \<open>The outer option is an assertion, the inner one the source's \<open>Maybe\<close>.\<close>

definition gep_add :: "u64 \<Rightarrow> GEPStep \<Rightarrow> u64 \<Rightarrow> u64 option" where
  "gep_add v st a =
     (case st of
        SequentialStep n \<Rightarrow> Some (a + v * n)
      | StructStep offs \<Rightarrow> if unat v < length offs then Some (a + offs ! unat v) else None
      | NoStep \<Rightarrow> Some a)"

fun operand_address :: "ProcessListener \<Rightarrow> TracedFunction \<Rightarrow> Operand \<Rightarrow> u64 option option"
  and gep_steps :: "ProcessListener \<Rightarrow> TracedFunction \<Rightarrow> (Operand \<times> GEPStep) list \<Rightarrow> u64 \<Rightarrow> u64 option option" where
  "operand_address p f (OpInstruction i) = map_option (\<lambda>v. Some (rv_Data v)) (tf_getCurrentRuntimeValue i f)"
| "operand_address p f (OpConstantInt v) = Some (Some v)"
| "operand_address p f (OpFunction g) =
     (let a = getFunctionRuntimeAddress g p in Some (if a \<noteq> 0 then Some a else None))"
| "operand_address p f (OpGlobal g) =
     (let a = getGlobalRuntimeAddress g p in Some (if a \<noteq> 0 then Some a else None))"
| "operand_address p f OpNull = Some (Some 0)"
| "operand_address p f (OpByVal arg) = Some (map_option iv_Start (tf_getParamByValArea arg f))"
| "operand_address p f OpArgument = None"
| "operand_address p f (OpGEP base steps) =
     (case operand_address p f base of Some (Some a) \<Rightarrow> gep_steps p f steps a | _ \<Rightarrow> None)"
| "operand_address p f OpOther = Some None"
| "gep_steps p f [] a = Some (Some a)"
| "gep_steps p f ((v, st) # steps) a =
     (case operand_address p f v of
        None \<Rightarrow> None
      | Some None \<Rightarrow> Some None
      | Some (Some x) \<Rightarrow> (case gep_add x st a of None \<Rightarrow> None | Some b \<Rightarrow> gep_steps p f steps b))"

text \<open>The value of an operand of integer type as an unsigned 64-bit number.\<close>

definition operand_unsigned :: "TracedFunction \<Rightarrow> Operand \<Rightarrow> u64 option" where
  "operand_unsigned f v =
     (case v of
        OpInstruction i \<Rightarrow> map_option rv_Data (tf_getCurrentRuntimeValue i f)
      | OpConstantInt c \<Rightarrow> Some c
      | _ \<Rightarrow> None)"

section \<open>Functions\<close>

text \<open>
  The table of pointers to strings that \<open>environ\<close> or \<open>argv\<close> is: its address, the bytes of the
  table and the strings, each with its address and with its final zero byte.
\<close>

record StringTable =
  st_Address :: u64
  st_Bytes :: "byte list"
  st_Strings :: "(u64 \<times> byte list) list"

fun add_strings ::
  "MemoryPermission \<Rightarrow> u64 \<Rightarrow> nat \<Rightarrow> (u64 \<times> byte list) list \<Rightarrow> Recorder \<Rightarrow> Recorder option" where
  "add_strings access table i [] r = Some r"
| "add_strings access table i ((a, s) # ss) r = do {
     r1 \<leftarrow> tl_addKnownMemoryRegion a (of_nat (length s)) access r;
     r2 \<leftarrow> recordUntypedState a s r1;
     let p = setInMemoryPointerObject (table + of_nat i * 8) (makePointerObject a (fst r2)) (fst r2);
     add_strings access table (Suc i) ss (p, snd r2)
   }"

definition setupEnvironTable :: "StringTable \<Rightarrow> Recorder \<Rightarrow> Recorder option" where
  "setupEnvironTable t r = do {
     require (tl_GlobalMemoryLock (snd r));
     r1 \<leftarrow> tl_addKnownMemoryRegion (st_Address t) (of_nat (length (st_Bytes t))) ReadWrite r;
     r2 \<leftarrow> recordUntypedState (st_Address t) (st_Bytes t) r1;
     add_strings ReadOnly (st_Address t) 0 (st_Strings t) r2
   }"

text \<open>
  The pointer objects of the arguments, from the call that is active in the caller (\<open>call\<close> gives
  the operands of an instruction if it is a call) or from a shim. \<open>ptr_args\<close> are the numbers of
  the parameters of pointer type.
\<close>

fun argument_objects ::
  "(nat \<Rightarrow> PointerTarget option) \<Rightarrow> nat list \<Rightarrow> (nat, PointerTarget) omap \<Rightarrow> (nat, PointerTarget) omap option" where
  "argument_objects obj [] m = Some m"
| "argument_objects obj (k # ks) m = do { t \<leftarrow> obj k; argument_objects obj ks (om_insert k t m) }"

definition call_objects ::
  "(nat \<Rightarrow> ValueRef list option) \<Rightarrow> nat list \<Rightarrow> Recorder \<Rightarrow> (nat, PointerTarget) omap option" where
  "call_objects call ptr_args r =
     (case active_function r of
        None \<Rightarrow> Some []
      | Some f \<Rightarrow>
          if \<not> isShim f then
            (case tf_ActiveInstruction f of
               None \<Rightarrow> None
             | Some i \<Rightarrow>
                 (case call i of
                    None \<Rightarrow> Some []
                  | Some ops \<Rightarrow> argument_objects (\<lambda>k. if k < length ops then tf_getPointerObject (ops ! k) (fst r) f else None) ptr_args []))
          else argument_objects (\<lambda>k. tf_getPointerObject (ValueArgument k) (fst r) f) ptr_args [])"

text \<open>
  \<open>environ\<close> is the address of the variable \<open>environ\<close> and its table, if it is not null. It is set up
  by the first top-level function, once in the process.
\<close>

definition notifyFunctionBegin ::
  "(nat \<Rightarrow> ValueRef list option) \<Rightarrow> (u64 \<times> StringTable) option \<Rightarrow> u32 \<Rightarrow> FunctionIndex \<Rightarrow> nat list \<Rightarrow>
   Recorder \<Rightarrow> Recorder option" where
  "notifyFunctionBegin call environ index findex ptr_args r = do {
     let r1 = next_time (enterNotification r);
     let entered = tl_Time (snd r1);
     let (w, r2) = write_event (FunctionStart index 0 0 entered 0) r1;
     start \<leftarrow> w;
     objects \<leftarrow> call_objects call ptr_args r2;
     let l = snd r2;
     let f = new_TracedFunction (Some findex) (length (tl_RecordedFunctions l)) objects;
     let top = (tl_FunctionStack l = []);
     let l1 = l\<lparr>tl_RecordedFunctions := tl_RecordedFunctions l @ [new_RecordedFunction index start entered],
                tl_FunctionStack := tl_FunctionStack l @ [f]\<rparr>;
     let r3 = (fst r2, l1);
     r4 \<leftarrow> (case environ of
       Some (var, t) \<Rightarrow>
         if top \<and> \<not> pl_EnvironSetup (fst r3) then do {
           r' \<leftarrow> setupEnvironTable t (acquireGlobalMemoryLock ((fst r3)\<lparr>pl_EnvironSetup := True\<rparr>, snd r3));
           Some (setInMemoryPointerObject var (makePointerObject (st_Address t) (fst r')) (fst r'), snd r')
         } else Some r3
     | None \<Rightarrow> Some r3);
     Some (exitPostNotification r4)
   }"

text \<open>The function that called the active one.\<close>

definition parent_function :: "Recorder \<Rightarrow> TracedFunction option" where
  "parent_function r =
     (let fs = tl_FunctionStack (snd r) in
      if 2 \<le> length fs then Some (fs ! (length fs - 2)) else None)"

text \<open>
  A by-value argument: \<open>original i\<close> is the operand of the caller's instruction \<open>i\<close> if that calls this
  function (\<open>Inl\<close>), or not (\<open>Inr True\<close>); an instruction that is no call is \<open>Inr False\<close>, whose use as
  one is undefined. \<open>pointee\<close> is \<open>None\<close> if the argument is no pointer.
\<close>

definition notifyArgumentByVal ::
  "(nat \<Rightarrow> Operand + bool) \<Rightarrow> nat \<Rightarrow> byte list option \<Rightarrow> u64 \<Rightarrow> Recorder \<Rightarrow> Recorder option" where
  "notifyArgumentByVal original arg pointee a r =
     (case pointee of
        None \<Rightarrow> Some (exitNotification (enterNotification r))
      | Some bytes \<Rightarrow> do {
          let n = of_nat (length bytes);
          let r1 = emit (ByValRegionAdd (of_nat arg) a n) (enterNotification r);
          let r2 = acquireGlobalMemoryLock r1;
          let r3 = (incrementRegionTemporalID a (fst r2), snd r2);
          r4 \<leftarrow> (if 0 < n then with_process (with_memory (addAllocation a n)) r3 else Some r3);
          r5 \<leftarrow> on_active (\<lambda>f. Some (addByValArg arg (area a n) (fst r4) f)) r4;
          r6 \<leftarrow> (case parent_function r5 of
            None \<Rightarrow> recordUntypedState a bytes r5
          | Some parent \<Rightarrow>
              (case tf_ActiveInstruction parent of
                 None \<Rightarrow> recordUntypedState a bytes r5
               | Some i \<Rightarrow>
                   (case original i of
                      Inl op \<Rightarrow>
                        (case operand_address (fst r5) parent op of
                           Some (Some src) \<Rightarrow> recordMemmove src a n r5
                         | _ \<Rightarrow> None)
                    | Inr is_call \<Rightarrow> if is_call then recordUntypedState a bytes r5 else None)));
          Some (exitNotification (unlockGlobalMemory r6))
        })"

definition notifyArgs :: "StringTable \<Rightarrow> Recorder \<Rightarrow> Recorder option" where
  "notifyArgs t r = do {
     let r1 = acquireGlobalMemoryLock (enterNotification r);
     r2 \<leftarrow> tl_addKnownMemoryRegion (st_Address t) (of_nat (length (st_Bytes t))) ReadWrite r1;
     r3 \<leftarrow> recordUntypedState (st_Address t) (st_Bytes t) r2;
     r4 \<leftarrow> on_active (\<lambda>f. Some (setArgumentObject 1 (makePointerObject (st_Address t) (fst r3)) f)) r3;
     r5 \<leftarrow> add_strings ReadWrite (st_Address t) 0 (st_Strings t) r4;
     Some (exitPostNotification (unlockGlobalMemory r5))
   }"

definition notifyEnv :: "u64 \<Rightarrow> Recorder \<Rightarrow> Recorder option" where
  "notifyEnv a r = do {
     let r1 = acquireGlobalMemoryLock (enterNotification r);
     r2 \<leftarrow> on_active (\<lambda>f. Some (setArgumentObject 2 (makePointerObject a (fst r1)) f)) r1;
     Some (exitNotification (unlockGlobalMemory r2))
   }"

text \<open>The memory of a returning function: recorded as cleared, cleared and removed.\<close>

fun clear_areas :: "MemoryArea list \<Rightarrow> Recorder \<Rightarrow> Recorder option" where
  "clear_areas [] r = Some r"
| "clear_areas (x # xs) r = do {
     r1 \<leftarrow> recordStateClear (iv_Start x) (interval_length x) r;
     r2 \<leftarrow> with_process (with_memory (tm_clear (iv_Start x) (interval_length x))) r1;
     r3 \<leftarrow> (if 0 < interval_length x then with_process (with_memory (removeAllocation (iv_Start x))) r2 else Some r2);
     clear_areas xs r3
   }"

definition setCompletion :: "nat \<Rightarrow> nat \<Rightarrow> u64 \<Rightarrow> Recorder \<Rightarrow> Recorder option" where
  "setCompletion k end exited r = do {
     require (k < length (tl_RecordedFunctions (snd r)));
     let f = tl_RecordedFunctions (snd r) ! k;
     require (rf_EventOffsetEnd f = 0 \<and> rf_ThreadTimeExited f = 0);
     let g = f\<lparr>rf_EventOffsetEnd := end, rf_ThreadTimeExited := exited\<rparr>;
     rewrite_event (rf_StartEventWrite g)
       (FunctionStart (rf_Index g) (rf_EventOffsetStart g) (rf_EventOffsetEnd g) (rf_ThreadTimeEntered g) (rf_ThreadTimeExited g))
       (fst r, (snd r)\<lparr>tl_RecordedFunctions := (tl_RecordedFunctions (snd r))[k := g]\<rparr>)
   }"

text \<open>\<open>ret\<close> is the returned value if the function returns a pointer.\<close>

definition check_returned :: "nat \<Rightarrow> ValueRef option \<Rightarrow> Recorder \<Rightarrow> run" where
  "check_returned i ret r =
     (case (active_function r, parent_function r, ret) of
        (Some f, Some parent, Some v) \<Rightarrow>
          (case tf_getPointerObject v (fst r) f of
             None \<Rightarrow> None
           | Some t \<Rightarrow>
               if contains_value (getStackArea f) (tgt_Base t)
               then run_error ReturnPointerToLocalAllocation [ArgAddress (tgt_Base t)]
                      (Some (case v of ValueInstruction j \<Rightarrow> j | _ \<Rightarrow> i)) r
               else if isShim parent then continue r
               else (case tf_ActiveInstruction parent of
                 None \<Rightarrow> continue r
               | Some c \<Rightarrow>
                   let fs = tl_FunctionStack (snd r) in
                   continue (fst r, (snd r)\<lparr>tl_FunctionStack :=
                     fs[length fs - 2 := setInstructionObject c t parent]\<rparr>)))
      | _ \<Rightarrow> continue r)"

definition end_function :: "u64 \<Rightarrow> Recorder \<Rightarrow> Recorder option" where
  "end_function exited r = do {
     f \<leftarrow> active_function r;
     require (tf_Record f < length (tl_RecordedFunctions (snd r)));
     let (w, r1) = write_event (FunctionEnd (rf_EventOffsetStart (tl_RecordedFunctions (snd r) ! tf_Record f))) r;
     end \<leftarrow> w;
     r2 \<leftarrow> clear_areas (map ta_area (tf_Allocas f)) (acquireGlobalMemoryLock r1);
     r3 \<leftarrow> clear_areas (map snd (tf_ByValArgs f)) r2;
     let l = (snd r3)\<lparr>tl_FunctionStack := butlast (tl_FunctionStack (snd r3))\<rparr>;
     setCompletion (tf_Record f) end exited (unlockGlobalMemory (fst r3, l))
   }"

definition notifyFunctionEnd :: "nat \<Rightarrow> ValueRef option \<Rightarrow> Recorder \<Rightarrow> run" where
  "notifyFunctionEnd i ret r =
     (if tl_FunctionStack (snd r) = [] then None
      else let r1 = next_time (enterNotification r) in
        run_then (check_returned i ret r1)
          (\<lambda>r2. run_defined (map_option exitNotification (end_function (tl_Time (snd r1)) r2))))"

section \<open>Calls\<close>

text \<open>The handlers of a detected call, before and after it, are arguments.\<close>

definition notifyPreCall :: "(Recorder \<Rightarrow> run) \<Rightarrow> nat \<Rightarrow> Recorder \<Rightarrow> run" where
  "notifyPreCall detect i r =
     run_then (run_defined (set_active i (enterNotification r)))
       (\<lambda>r1. run_then (detect r1)
         (\<lambda>r2. continue (exitPreNotification (emit (PreInstruction i) (next_time r2)))))"

definition notifyPostCall :: "(Recorder \<Rightarrow> run) \<Rightarrow> Recorder \<Rightarrow> run" where
  "notifyPostCall detect r =
     run_then (detect (enterNotification r)) (\<lambda>r1. continue (exitPostNotification r1))"

datatype Intrinsic = MemIntrinsic | StackSave nat | StackRestoreTo Operand | OtherIntrinsic

definition notifyPreCallIntrinsic :: "(Recorder \<Rightarrow> run) \<Rightarrow> Intrinsic \<Rightarrow> nat \<Rightarrow> Recorder \<Rightarrow> run" where
  "notifyPreCallIntrinsic detect k i r =
     run_then (run_defined (set_active i (enterNotification r)))
       (\<lambda>r1. run_then (if k = MemIntrinsic then detect r1 else continue r1)
         (\<lambda>r2. continue (exitPreNotification
            (case k of StackRestoreTo v \<Rightarrow> acquireGlobalMemoryLock r2 | _ \<Rightarrow> r2))))"

definition no_offset :: nat where
  "no_offset = 2 ^ 64 - 1"

definition is_StackRestore_event :: "Event \<Rightarrow> bool" where
  "is_StackRestore_event e = (case e of StackRestore _ \<Rightarrow> True | _ \<Rightarrow> False)"

definition restore_stack :: "nat \<Rightarrow> Operand \<Rightarrow> Recorder \<Rightarrow> Recorder option" where
  "restore_stack i v r = do {
     f \<leftarrow> active_function r;
     key \<leftarrow> operand_address (fst r) f v;
     k \<leftarrow> key;
     (f', m) \<leftarrow> stackRestore k f (pl_TraceMemory (fst r));
     r1 \<leftarrow> on_active (\<lambda>_. Some f') ((fst r)\<lparr>pl_TraceMemory := m\<rparr>, snd r);
     let r2 = emit (Instruction i) (next_time r1);
     let prev = (case getPreviousOffsetOf is_StackRestore_event r2 of None \<Rightarrow> no_offset | Some j \<Rightarrow> j);
     let r3 = emit (StackRestore prev) r2;
     Some (fold emit (map (\<lambda>a. StackRestoreAlloca (ta_EventOffset a)) (tf_Allocas f')) r3)
   }"

definition save_stack :: "nat \<Rightarrow> Recorder \<Rightarrow> Recorder option" where
  "save_stack i r = do {
     f \<leftarrow> active_function r;
     key \<leftarrow> operand_address (fst r) f (OpInstruction i);
     k \<leftarrow> key;
     on_active (\<lambda>f. Some (stackSave k f)) r
   }"

definition notifyPostCallIntrinsic :: "(Recorder \<Rightarrow> run) \<Rightarrow> Intrinsic \<Rightarrow> nat \<Rightarrow> Recorder \<Rightarrow> run" where
  "notifyPostCallIntrinsic detect k i r =
     run_then
       (let r1 = enterNotification r in
        case k of
          MemIntrinsic \<Rightarrow> detect r1
        | StackSave j \<Rightarrow> run_defined (save_stack j r1)
        | StackRestoreTo v \<Rightarrow> run_defined (restore_stack i v r1)
        | OtherIntrinsic \<Rightarrow> if tl_FunctionStack (snd r1) = [] then None else continue r1)
       (\<lambda>r2. continue (exitPostNotification r2))"

section \<open>Loads and stores\<close>

definition notifyPreAlloca :: "u64 option \<Rightarrow> nat \<Rightarrow> u64 \<Rightarrow> u64 \<Rightarrow> Recorder \<Rightarrow> run" where
  "notifyPreAlloca limit i elem_size elem_count r =
     (case getRemainingStack limit r of
        None \<Rightarrow> None
      | Some remaining \<Rightarrow>
          if elem_size = 0 then None
          else if remaining div elem_size < elem_count
          then run_error StackOverflowAlloca [ArgAddress 0] (Some i) r
          else continue r)"

text \<open>
  The type that is loaded: a structure with its members and their offsets, or another type with its
  store size. Only the members that are not structures are checked. The structures still to be
  checked are a stack.
\<close>

datatype LoadType = ScalarType u64 | StructType "(LoadType \<times> u64) list"

fun scalar_members :: "u64 \<Rightarrow> (LoadType \<times> u64) list \<Rightarrow> (u64 \<times> u64) list" where
  "scalar_members a [] = []"
| "scalar_members a ((ScalarType n, off) # es) = (a + off, n) # scalar_members a es"
| "scalar_members a ((StructType ms, off) # es) = scalar_members a es"

fun struct_members :: "u64 \<Rightarrow> (LoadType \<times> u64) list \<Rightarrow> ((LoadType \<times> u64) list \<times> u64) list" where
  "struct_members a [] = []"
| "struct_members a ((ScalarType n, off) # es) = struct_members a es"
| "struct_members a ((StructType ms, off) # es) = (ms, a + off) # struct_members a es"

primrec type_weight :: "LoadType \<Rightarrow> nat" where
  "type_weight (ScalarType n) = 0"
| "type_weight (StructType ms) = Suc (sum_list (map (\<lambda>w. fst w) (map (map_prod type_weight id) ms)))"

definition members_weight :: "(LoadType \<times> u64) list \<Rightarrow> nat" where
  "members_weight ms = Suc (sum_list (map (\<lambda>e. type_weight (fst e)) ms))"

lemma struct_members_weight:
  "sum_list (map (\<lambda>e. members_weight (fst e)) (struct_members a es)) < members_weight es"
proof (induction a es rule: struct_members.induct)
  case (3 a ms off es)
  have "type_weight (StructType ms) = members_weight ms" by (simp add: members_weight_def comp_def)
  with 3 show ?case by (simp add: members_weight_def)
qed (simp_all add: members_weight_def)

function checked_members :: "((LoadType \<times> u64) list \<times> u64) list \<Rightarrow> (u64 \<times> u64) list" where
  "checked_members [] = []"
| "checked_members ((es, a) # stack) =
     scalar_members a es @ checked_members (rev (struct_members a es) @ stack)"
  by pat_completeness auto
termination
  by (relation "measure (\<lambda>st. sum_list (map (\<lambda>e. members_weight (fst e)) st))")
    (simp_all add: rev_map[symmetric] struct_members_weight)

fun check_ranges :: "Checker \<Rightarrow> AccessKind \<Rightarrow> MemoryArea \<Rightarrow> (u64 \<times> u64) list \<Rightarrow> Recorder \<Rightarrow> unit checked" where
  "check_ranges ck access ar [] r = passes ()"
| "check_ranges ck access ar ((a, n) # xs) r =
     check_then (checkMemoryAccess ck a n access ar r) (check_ranges ck access ar xs r)"

definition loaded_ranges :: "LoadType \<Rightarrow> u64 \<Rightarrow> u64 \<Rightarrow> (u64 \<times> u64) list" where
  "loaded_ranges ty a n = (case ty of ScalarType _ \<Rightarrow> [(a, n)] | StructType ms \<Rightarrow> checked_members [(ms, a)])"

text \<open>The checks that loads and stores share, for the ranges to be accessed.\<close>

definition check_access ::
  "nat \<Rightarrow> ValueRef \<Rightarrow> AccessKind \<Rightarrow> u64 \<Rightarrow> u64 \<Rightarrow> (u64 \<times> u64) list \<Rightarrow> Recorder \<Rightarrow> unit checked" where
  "check_access i ptr access a n ranges r =
     (let ck = new_Checker i in
      case active_function r of
        None \<Rightarrow> None
      | Some f \<Rightarrow>
          (case tf_getPointerObject ptr (fst r) f of
             None \<Rightarrow> None
           | Some obj \<Rightarrow>
               check_then (checkPointer ck obj a r)
                 (check_then (memoryExists ck a n access (containing_area a r) r)
                   (case containing_area a r of
                      None \<Rightarrow> None
                    | Some ar \<Rightarrow> check_ranges ck access ar ranges r))))"

definition notifyPreLoad :: "nat \<Rightarrow> ValueRef \<Rightarrow> LoadType \<Rightarrow> u64 \<Rightarrow> u64 \<Rightarrow> Recorder \<Rightarrow> run" where
  "notifyPreLoad i ptr ty a n r =
     run_then (run_defined (set_active i (enterNotification r)))
       (\<lambda>r1. let r2 = acquireGlobalMemoryLock r1 in
         run_then (run_checked (check_access i ptr ReadAccess a n (loaded_ranges ty a n) r2) r2)
           (\<lambda>r3. continue (exitPreNotification r3)))"

definition notifyPostLoad :: "nat \<Rightarrow> bool \<Rightarrow> u64 \<Rightarrow> Recorder \<Rightarrow> run" where
  "notifyPostLoad i is_pointer a r =
     (let r1 = enterNotification r; t = getInMemoryPointerObject a (fst r1) in
      run_then (if is_pointer \<and> target_set t
                then run_defined (on_active (\<lambda>f. Some (setInstructionObject i t f)) r1) else continue r1)
        (\<lambda>r2. continue (exitPostNotification r2)))"

definition notifyPreStore :: "nat \<Rightarrow> ValueRef \<Rightarrow> u64 \<Rightarrow> u64 \<Rightarrow> Recorder \<Rightarrow> run" where
  "notifyPreStore i ptr a n r =
     run_then (run_defined (set_active i (enterNotification r)))
       (\<lambda>r1. let r2 = acquireGlobalMemoryLock r1 in
         run_then (run_checked (check_access i ptr WriteAccess a n [(a, n)] r2) r2)
           (\<lambda>r3. continue (exitPreNotification r3)))"

text \<open>\<open>d\<close> are the bytes that have been stored. Without an object for a stored pointer the old object
  in memory is left.\<close>

definition notifyPostStore :: "nat \<Rightarrow> bool \<Rightarrow> ValueRef \<Rightarrow> u64 \<Rightarrow> byte list \<Rightarrow> Recorder \<Rightarrow> Recorder option" where
  "notifyPostStore i is_pointer v a d r = do {
     let r1 = emit (Instruction i) (next_time (enterNotification r));
     f \<leftarrow> active_function r1;
     r2 \<leftarrow> (if is_pointer then do {
         t \<leftarrow> tf_getPointerObject v (fst r1) f;
         Some (if target_set t then (setInMemoryPointerObject a t (fst r1), snd r1) else r1)
       } else Some r1);
     r3 \<leftarrow> (case v of
       ValueInstruction j \<Rightarrow> do {
         rv \<leftarrow> tf_getCurrentRuntimeValue j f;
         recordTypedState a d (rv_RecordOffset rv) r2
       }
     | _ \<Rightarrow> recordUntypedState a d r2);
     Some (exitPostNotification r3)
   }"

section \<open>Division\<close>

text \<open>
  A divisor of integer type is read at the width of 8, 16, 32 or 64 bits that holds it. One of type
  \<open>float\<close> or \<open>double\<close> is zero if all its bits but the sign are.
\<close>

datatype Opcode = UDiv | URem | SDiv | SRem | FDiv | FRem | OtherOpcode

definition divisor_width :: "nat \<Rightarrow> nat option" where
  "divisor_width w =
     (if w \<le> 8 then Some 8 else if w \<le> 16 then Some 16 else if w \<le> 32 then Some 32
      else if w \<le> 64 then Some 64 else None)"

definition integer_divisor_zero :: "nat \<Rightarrow> Operand \<Rightarrow> TracedFunction \<Rightarrow> bool option" where
  "integer_divisor_zero w d f = do {
     k \<leftarrow> divisor_width w;
     v \<leftarrow> operand_unsigned f d;
     Some (take_bit k v = 0)
   }"

definition float_divisor_zero :: "IRType \<Rightarrow> Operand \<Rightarrow> TracedFunction \<Rightarrow> bool option" where
  "float_divisor_zero ty d f =
     (case ty of
        FloatTy \<Rightarrow> map_option (\<lambda>v. take_bit 31 v = 0) (operand_unsigned f d)
      | DoubleTy \<Rightarrow> map_option (\<lambda>v. take_bit 63 v = 0) (operand_unsigned f d)
      | _ \<Rightarrow> None)"

definition divisor_zero :: "Opcode \<Rightarrow> IRType \<Rightarrow> Operand \<Rightarrow> TracedFunction \<Rightarrow> bool option" where
  "divisor_zero opc ty d f =
     (if opc \<in> {UDiv, URem, SDiv, SRem} then (case ty of IntegerTy w \<Rightarrow> integer_divisor_zero w d f | _ \<Rightarrow> None)
      else if opc \<in> {FDiv, FRem} then float_divisor_zero ty d f
      else Some False)"

definition notifyPreDivide :: "nat \<Rightarrow> Opcode \<Rightarrow> IRType \<Rightarrow> Operand \<Rightarrow> Recorder \<Rightarrow> run" where
  "notifyPreDivide i opc ty d r =
     (let r1 = enterNotification r in
      case active_function r1 of
        None \<Rightarrow> None
      | Some f \<Rightarrow>
          (case divisor_zero opc ty d f of
             None \<Rightarrow> None
           | Some zero \<Rightarrow>
               if zero then run_error DivideByZero [ArgObject] (Some i) r1
               else continue (exitPreNotification r1)))"

section \<open>Values\<close>

text \<open>\<open>RTValue.set\<close> with the offset of the record, or zero if the output is closed.\<close>

definition set_value :: "nat \<Rightarrow> u64 \<times> u64 \<Rightarrow> nat option \<Rightarrow> Recorder \<Rightarrow> Recorder option" where
  "set_value i v w r = do {
     off \<leftarrow> (if tl_OutputEnabled (snd r) then w else Some 0);
     on_active (set_runtime_value i off v) r
   }"

definition notifyValue :: "nat \<Rightarrow> Recorder \<Rightarrow> Recorder option" where
  "notifyValue i r = do {
     r1 \<leftarrow> set_active i (enterNotification r);
     Some (exitNotification (emit (Instruction i) (next_time r1)))
   }"

definition notify_recorded :: "nat \<Rightarrow> Event \<Rightarrow> u64 \<times> u64 \<Rightarrow> Recorder \<Rightarrow> Recorder option" where
  "notify_recorded i e v r = do {
     let (w, r1) = write_event e (next_time (enterNotification r));
     r2 \<leftarrow> set_value i v w r1;
     Some (exitNotification r2)
   }"

definition notifyValueUInt64 :: "nat \<Rightarrow> u64 \<Rightarrow> Recorder \<Rightarrow> Recorder option" where
  "notifyValueUInt64 i v = notify_recorded i (InstructionWithUInt64 i v) (v, 0)"

definition notifyValueUInt32 :: "nat \<Rightarrow> u32 \<Rightarrow> Recorder \<Rightarrow> Recorder option" where
  "notifyValueUInt32 i v = notify_recorded i (InstructionWithUInt32 v i) (ucast v, 0)"

definition notifyValueUInt16 :: "nat \<Rightarrow> u16 \<Rightarrow> Recorder \<Rightarrow> Recorder option" where
  "notifyValueUInt16 i v = notify_recorded i (InstructionWithUInt16 v i) (ucast v, 0)"

definition notifyValueUInt8 :: "nat \<Rightarrow> u8 \<Rightarrow> Recorder \<Rightarrow> Recorder option" where
  "notifyValueUInt8 i v = notify_recorded i (InstructionWithUInt8 v i) (ucast v, 0)"

definition notifyValueFloat :: "nat \<Rightarrow> u32 \<Rightarrow> Recorder \<Rightarrow> Recorder option" where
  "notifyValueFloat i v = notify_recorded i (InstructionWithFloat i v) (ucast v, 0)"

definition notifyValueDouble :: "nat \<Rightarrow> u64 \<Rightarrow> Recorder \<Rightarrow> Recorder option" where
  "notifyValueDouble i v = notify_recorded i (InstructionWithDouble i v) (v, 0)"

definition notifyValueLongDouble :: "nat \<Rightarrow> u64 \<Rightarrow> u64 \<Rightarrow> Recorder \<Rightarrow> Recorder option" where
  "notifyValueLongDouble i v w = notify_recorded i (InstructionWithLongDouble i v w) (v, w)"

text \<open>
  The instructions that produce a pointer: the sizes and operands that the source asks of them. A
  phi node has its incoming values by basic block.
\<close>

datatype PointerInstr =
    AllocaInstr u64 Operand
  | BitCastInstr ValueRef
  | LoadInstr
  | GEPInstr ValueRef
  | CallInstr
  | PhiInstr "(nat \<times> ValueRef) list"
  | OtherInstr

definition record_alloca :: "nat \<Rightarrow> u64 \<Rightarrow> u64 \<Rightarrow> Operand \<Rightarrow> Recorder \<Rightarrow> Recorder option" where
  "record_alloca i v elem_size count r = do {
     f \<leftarrow> active_function r;
     n \<leftarrow> operand_unsigned f count;
     let (w, r1) = write_event (Alloca elem_size n) r;
     let off = (case w of Some k \<Rightarrow> k | None \<Rightarrow> 0);
     r2 \<leftarrow> on_active (\<lambda>f. Some (addAlloca \<lparr>ta_Instruction = i, ta_Address = v, ta_ElementSize = elem_size,
             ta_ElementCount = n, ta_EventOffset = off\<rparr> f)) r1;
     let r3 = acquireGlobalMemoryLock r2;
     let total = elem_size * n;
     r4 \<leftarrow> (if 0 < total then with_process (with_memory (addAllocation v total)) r3 else Some r3);
     let r5 = (incrementRegionTemporalID v (fst r4), snd r4);
     r6 \<leftarrow> on_active (\<lambda>f. Some (setInstructionObject i (makePointerObject v (fst r5)) f)) r5;
     Some (unlockGlobalMemory r6)
   }"

definition check_gep :: "nat \<Rightarrow> u64 \<Rightarrow> ValueRef \<Rightarrow> Recorder \<Rightarrow> run" where
  "check_gep i v base r =
     (case active_function r of
        None \<Rightarrow> None
      | Some f \<Rightarrow>
          (case tf_getPointerObject base (fst r) f of
             None \<Rightarrow> None
           | Some t \<Rightarrow>
               if \<not> target_set t then run_error PointerArithmeticOperandInvalid [ArgAddress (tgt_Base t)] None r
               else
                 run_then (run_defined (on_active (\<lambda>f. Some (setInstructionObject i t f)) r))
                   (\<lambda>r1. let now = getRegionTemporalID (tgt_Base t) (fst r1) in
                     if now \<noteq> tgt_Time t
                     then run_error PointerArithmeticOperandOutdated [ArgSize (tgt_Time t), ArgSize now] None r1
                     else case containing_area (tgt_Base t) r1 of
                       None \<Rightarrow> run_error PointerArithmeticOperandInvalid [ArgAddress (tgt_Base t)] None r1
                     | Some ar \<Rightarrow>
                         if \<not> contains_value ar v \<and> iv_End ar \<noteq> v
                         then run_error PointerArithmeticResultInvalid [ArgAddress (tgt_Base t), ArgAddress v] None r1
                         else continue r1)))"

definition record_phi :: "nat \<Rightarrow> (nat \<times> ValueRef) list \<Rightarrow> Recorder \<Rightarrow> Recorder option" where
  "record_phi i incoming r = do {
     f \<leftarrow> active_function r;
     bb \<leftarrow> tf_PreviousBasicBlock f;
     v \<leftarrow> map_of incoming bb;
     t \<leftarrow> tf_getPointerObject v (fst r) f;
     on_active (\<lambda>f. Some (setInstructionObject i t f)) r
   }"

definition notify_pointer_kind :: "nat \<Rightarrow> PointerInstr \<Rightarrow> u64 \<Rightarrow> Recorder \<Rightarrow> run" where
  "notify_pointer_kind i k v r =
     (case k of
        AllocaInstr n c \<Rightarrow> run_defined (record_alloca i v n c r)
      | BitCastInstr src \<Rightarrow> run_defined (on_active (transferPointerObject src i (fst r)) r)
      | GEPInstr base \<Rightarrow> check_gep i v base r
      | PhiInstr incoming \<Rightarrow> run_defined (record_phi i incoming r)
      | _ \<Rightarrow> continue r)"

definition notifyValuePtr :: "nat \<Rightarrow> PointerInstr \<Rightarrow> u64 \<Rightarrow> Recorder \<Rightarrow> run" where
  "notifyValuePtr i k v r =
     run_then (run_defined (do {
         r1 \<leftarrow> set_active i (enterNotification r);
         let (w, r2) = write_event (InstructionWithPtr i v) (next_time r1);
         set_value i (v, 0) w r2
       }))
       (\<lambda>r3. run_then (notify_pointer_kind i k v r3) (\<lambda>r4. continue (exitNotification r4)))"

end
