(* ===== verification/CheckLaws.thy ===== *)
theory CheckLaws
  imports RuntimeChecks
begin

text \<open>
  Laws of the run-time checks of theory \<open>RuntimeChecks\<close>: a read passes exactly if all its bytes are
  in one allocation and initialised, a store that passes can be recorded and makes its bytes
  readable, a string that passes is a C string, and an error that is raised is read back from the
  trace with its notes.
\<close>

section \<open>Allocations of the shadow memory\<close>

definition shadow_wf :: "TraceMemoryState \<Rightarrow> bool" where
  "shadow_wf m \<longleftrightarrow> om_wf m \<and>
     om_all (\<lambda>k t. tma_Address t = k \<and> unat k + length (tma_Shadow t) < 2 ^ 64) m"

text \<open>The bytes at an address are in one allocation and all of them are initialised.\<close>

definition known_range :: "TraceMemoryState \<Rightarrow> u64 \<Rightarrow> nat \<Rightarrow> bool" where
  "known_range m a n \<longleftrightarrow>
     (case findAllocationContaining a m of
        None \<Rightarrow> False
      | Some t \<Rightarrow>
          let off = unat (a - tma_Address t) in
          off + n \<le> length (tma_Shadow t) \<and>
          list_all (\<lambda>c. c = getInitializedByte) (take n (drop off (tma_Shadow t))))"

lemma found_allocation:
  assumes "shadow_wf m" and "findAllocationContaining a m = Some t"
  shows "om_before a m = Some (tma_Address t, t)" and "tma_Address t \<le> a"
    and "unat (iv_End (tma_getArea t)) = unat (tma_Address t) + length (tma_Shadow t)"
    and "unat (a - tma_Address t) < length (tma_Shadow t)"
    and "unat a = unat (tma_Address t) + unat (a - tma_Address t)"
    and "unat (tma_Address t) + length (tma_Shadow t) < 2 ^ 64"
proof -
  from assms(2) obtain k where b: "om_before a m = Some (k, t)" and c: "contains_value (tma_getArea t) a"
    by (auto simp: findAllocationContaining_def getAllocationAtOrPreceding_def split: option.splits if_splits)
  from b assms(1) have f: "om_find m k = Some t" "k \<le> a"
    by (auto simp: shadow_wf_def om_before_Some_iff)
  with assms(1) have k: "tma_Address t = k" and fit: "unat k + length (tma_Shadow t) < 2 ^ 64"
    by (auto simp: shadow_wf_def dest: om_all_find)
  then have e: "unat (iv_End (tma_getArea t)) = unat k + length (tma_Shadow t)"
    by (simp add: tma_getArea_def tma_getLength_def unat_add_no_wrap unat_of_nat_small)
  have s: "unat (a - k) = unat a - unat k" "unat k \<le> unat a" using f(2) by (simp_all add: unat_diff_le word_le_nat_alt)
  have "unat a < unat k + length (tma_Shadow t)" using c e by (simp add: contains_value_def word_less_nat_alt)
  with s fit k e f b show "om_before a m = Some (tma_Address t, t)" "tma_Address t \<le> a"
    "unat (iv_End (tma_getArea t)) = unat (tma_Address t) + length (tma_Shadow t)"
    "unat (a - tma_Address t) < length (tma_Shadow t)"
    "unat a = unat (tma_Address t) + unat (a - tma_Address t)"
    "unat (tma_Address t) + length (tma_Shadow t) < 2 ^ 64"
    by simp_all
qed

lemma iv_Start_area_of: "iv_Start (tma_getArea t) = tma_Address t"
  by (simp add: tma_getArea_def)

lemma contains_in_shadow:
  assumes "shadow_wf m" and "findAllocationContaining a m = Some t" and "unat a + unat n < 2 ^ 64"
  shows "contains_interval (tma_getArea t) (area a n) \<longleftrightarrow>
    unat (a - tma_Address t) + unat n \<le> length (tma_Shadow t)"
  using found_allocation[OF assms(1,2)] assms(3)
  by (simp add: contains_interval_def iv_Start_area_of word_le_nat_alt unat_add_no_wrap)

lemma shadow_bytes_found:
  assumes "shadow_wf m" and "findAllocationContaining a m = Some t" and "unat a + unat n < 2 ^ 64"
  shows "shadow_bytes a n m =
    (if unat (a - tma_Address t) + unat n \<le> length (tma_Shadow t)
     then Some (take (unat n) (drop (unat (a - tma_Address t)) (tma_Shadow t))) else None)"
  using found_allocation[OF assms(1,2)] contains_in_shadow[OF assms]
  by (simp add: shadow_bytes_def getAllocationContaining_def getAllocationAtOrPreceding_def getShadowAt_def slice_def)

lemma known_state_exact:
  assumes "shadow_wf m" and "findAllocationContaining a m = Some t" and "unat a + unat n < 2 ^ 64"
  shows "hasKnownState a n m =
    (if unat (a - tma_Address t) + unat n \<le> length (tma_Shadow t) then Some (known_range m a (unat n)) else None)"
  using assms(2) by (simp add: hasKnownState_def shadow_bytes_found[OF assms] known_range_def Let_def)

lemma shadow_wf_fill:
  assumes "shadow_wf m" and "findAllocationContaining a m = Some t" and "length s = length (tma_Shadow t)"
  shows "shadow_wf (om_insert (tma_Address t) (t\<lparr>tma_Shadow := s\<rparr>) m)"
  using assms found_allocation(6)[OF assms(1,2)]
  by (auto simp: shadow_wf_def om_wf_insert intro: om_all_insert)

lemma fill_found:
  assumes wf: "shadow_wf m" and f: "findAllocationContaining a m = Some t" and n: "unat a + unat n < 2 ^ 64"
    and fit: "unat (a - tma_Address t) + unat n \<le> length (tma_Shadow t)"
  obtains s m' where "fill_shadow c a n m = Some m'" and "shadow_wf m'"
    and "findAllocationContaining a m' = Some (t\<lparr>tma_Shadow := s\<rparr>)" and "length s = length (tma_Shadow t)"
    and "take (unat n) (drop (unat (a - tma_Address t)) s) = replicate (unat n) c"
proof -
  note F = found_allocation[OF wf f]
  obtain s where s: "overwrite (unat (a - tma_Address t)) (replicate (unat n) c) (tma_Shadow t) = Some s"
    using overwrite_defined[of "unat (a - tma_Address t)" "replicate (unat n) c"] fit by auto
  have sl: "take (unat n) (drop (unat (a - tma_Address t)) s) = replicate (unat n) c"
    using slice_overwrite[OF s] by (simp add: slice_Some_iff)
  define m' where "m' = om_insert (tma_Address t) (t\<lparr>tma_Shadow := s\<rparr>) m"
  have "fill_shadow c a n m = Some m'"
    using F fit s contains_in_shadow[OF wf f n]
    by (simp add: fill_shadow_def getAllocationContaining_def getAllocationAtOrPreceding_def getShadowAt_def m'_def)
  moreover have "shadow_wf m'" unfolding m'_def by (rule shadow_wf_fill[OF wf f length_overwrite[OF s]])
  moreover have "findAllocationContaining a m' = Some (t\<lparr>tma_Shadow := s\<rparr>)"
    using f F(1) wf length_overwrite[OF s]
    by (simp add: findAllocationContaining_def getAllocationAtOrPreceding_def m'_def om.before_insert_hit shadow_wf_def
        tma_getArea_def tma_getLength_def split: if_splits)
  ultimately show ?thesis using that[of m' s] length_overwrite[OF s] sl by simp
qed

section \<open>Raising errors\<close>

lemma emit_open:
  "tl_Open (snd r) \<Longrightarrow> emit e r = (fst r, (snd r)\<lparr>tl_Events := tl_Events (snd r) @ [e]\<rparr>)"
  by (simp add: emit_def write_event_def)

lemma fold_emit:
  "tl_Open (snd r) \<Longrightarrow> fold emit es r = (fst r, (snd r)\<lparr>tl_Events := tl_Events (snd r) @ es\<rparr>)"
  by (induction es arbitrary: r) (simp_all add: emit_open)

text \<open>An error whose arguments are as declared ends the program.\<close>

lemma fatal_Inl:
  assumes "map kind_of as = error_signature t"
  obtains r' where "fatal ck t as r = Some (Inl r')"
  using assms by (auto simp: fatal_def createRunError_def raiseError_def handleRunError_def Let_def)

lemma fatal_not_passed: "fatal ck t as r \<noteq> Some (Inr v)"
  by (auto simp: fatal_def split: option.splits sum.splits)

lemma fatal_events:
  assumes "tl_Open (snd r)" and "createRunError t as = Some e"
  shows "fatal ck t as r = Some (Inl (fst r, (snd r)
    \<lparr>tl_Time := tl_Time (snd r) + 1,
     tl_Events := tl_Events (snd r) @ PreInstruction (ck_Instruction ck) #
       writeError True (fold addAdditional (ck_PermanentNotes ck @ ck_TemporaryNotes ck) e)\<rparr>))"
  using assms by (simp add: fatal_def raiseError_def handleRunError_def emit_open fold_emit)

lemma check_then_passed: "check_then c d = Some (Inr v) \<longleftrightarrow> c = passes () \<and> d = Some (Inr v)"
  by (auto simp: check_then_def check_bind_def passes_def split: option.splits sum.splits)

lemma check_then_passes [simp]: "check_then (passes u) d = d"
  by (simp add: check_then_def check_bind_def passes_def)

lemma check_then_ended [simp]: "check_then (Some (Inl r)) d = Some (Inl r)"
  by (simp add: check_then_def check_bind_def)

lemma fatal_then [simp]: "check_then (fatal ck t as r) d = fatal ck t as r"
  by (auto simp: check_then_def check_bind_def fatal_def split: option.splits sum.splits)


section \<open>Samples\<close>

text \<open>A recorder with one allocation of four bytes at 16 of which the first three are initialised.\<close>

definition sample_memory :: TraceMemoryState where
  "sample_memory = [(16, \<lparr>tma_Address = 16, tma_Shadow = [0, 0, 0, 255]\<rparr>)]"

definition sample_recorder :: Recorder where
  "sample_recorder =
     (let r = new_ThreadListener (new_ProcessListener 0 0 (\<lambda>_. 0) True 1 2 3)
      in ((fst r)\<lparr>pl_TraceMemory := sample_memory\<rparr>, (snd r)\<lparr>tl_GlobalMemoryLock := True\<rparr>))"

lemma sample_recorder_parts [simp]:
  "pl_TraceMemory (fst sample_recorder) = sample_memory"
  "tl_GlobalMemoryLock (snd sample_recorder)" "tl_Open (snd sample_recorder)"
  "tl_FunctionStack (snd sample_recorder) = []" "tl_Events (snd sample_recorder) = []"
  by (simp_all add: sample_recorder_def new_ThreadListener_def Let_def split_beta)

lemma sample_memory_wf: "shadow_wf sample_memory"
  by (simp add: sample_memory_def shadow_wf_def om_wf_Cons om_all_def)

lemma sample_found: "findAllocationContaining 16 sample_memory = Some \<lparr>tma_Address = 16, tma_Shadow = [0, 0, 0, 255]\<rparr>"
  by code_simp

section \<open>Properties\<close>

lemma found_checked:
  "findAllocationContaining a (pl_TraceMemory (fst r)) = Some t \<Longrightarrow>
   checkMemoryExistsAndAccessible ck a n access r = checkMemoryAccess ck a n access (tma_getArea t) r"
  by (simp add: checkMemoryExistsAndAccessible_def memoryExists_def containing_area_def pl_getContainingMemoryArea_def)



lemma store_recorded:
  assumes "shadow_wf (pl_TraceMemory (fst r))" and "tl_GlobalMemoryLock (snd r)" and "tl_Open (snd r)"
    and "d \<noteq> []" and "unat a + length d < 2 ^ 64"
    and t: "findAllocationContaining a (pl_TraceMemory (fst r)) = Some t"
    and c: "contains_interval (tma_getArea t) (area a (of_nat (length d)))"
  obtains r' e s where "recordUntypedState a d r = Some r'" and "tl_Events (snd r') = tl_Events (snd r) @ [e]"
    and "shadow_wf (pl_TraceMemory (fst r'))"
    and "findAllocationContaining a (pl_TraceMemory (fst r')) = Some (t\<lparr>tma_Shadow := s\<rparr>)"
    and "length s = length (tma_Shadow t)" and "known_range (pl_TraceMemory (fst r')) a (length d)"
proof -
  let ?m = "pl_TraceMemory (fst r)" and ?n = "of_nat (length d) :: u64"
  have n: "unat ?n = length d" "unat a + unat ?n < 2 ^ 64" using assms(5) by (simp_all add: unat_of_nat_small)
  have fit: "unat (a - tma_Address t) + unat ?n \<le> length (tma_Shadow t)"
    using contains_in_shadow[OF assms(1) t n(2)] c by simp
  from fill_found[OF assms(1) t n(2) fit, of getInitializedByte] obtain s m' where
    m': "fill_shadow getInitializedByte a ?n ?m = Some m'" "shadow_wf m'"
    and f: "findAllocationContaining a m' = Some (t\<lparr>tma_Shadow := s\<rparr>)" "length s = length (tma_Shadow t)"
    and s: "take (unat ?n) (drop (unat (a - tma_Address t)) s) = replicate (unat ?n) getInitializedByte" by metis
  have k: "known_range m' a (length d)"
    using f s fit n(1) by (simp add: known_range_def Let_def list_all_iff)
  define q where "q = take_time r"
  have q: "pl_TraceMemory (fst q) = ?m" "tl_Open (snd q)" "tl_Events (snd q) = tl_Events (snd r)"
    using assms(3) by (auto simp: q_def take_time_def getCIProcessTime_def getNewTime_def Let_def split: option.splits)
  obtain r' e where r': "recordUntypedState a d r = Some r'" "pl_TraceMemory (fst r') = m'"
    "tl_Events (snd r') = tl_Events (snd r) @ [e]"
    using assms(2,4) m'(1) q
    by (cases "length d \<le> 8"; cases "pl_DataOut (fst q)")
      (auto simp: recordUntypedState_def with_process_def with_memory_def tm_add_def emit_timed_def emit_open
        record_data_def recordData_def Let_def q_def[symmetric])
  show ?thesis by (rule that[OF r'(1,3), of s]) (simp_all add: r'(2) m'(2) f k)
qed




section \<open>Strings\<close>

text \<open>A C string of \<open>n\<close> bytes, the terminating zero byte included.\<close>

definition c_string_at :: "(u64 \<Rightarrow> byte) \<Rightarrow> u64 \<Rightarrow> u64 \<Rightarrow> bool" where
  "c_string_at peek a n \<longleftrightarrow>
     n \<noteq> 0 \<and> peek (a + (n - 1)) = 0 \<and> list_all (\<lambda>i. peek (a + of_nat i) \<noteq> 0) [0..<unat n - 1]"

lemma string_end_first:
  "string_end peek a i left = Some j \<Longrightarrow>
     i \<le> j \<and> j < i + left \<and> peek (a + of_nat j) = 0 \<and> (\<forall>l. i \<le> l \<and> l < j \<longrightarrow> peek (a + of_nat l) \<noteq> 0)"
proof (induction peek a i left rule: string_end.induct)
  case (2 peek a i left)
  show ?case
  proof (cases "peek (a + of_nat i) = 0")
    case False
    with 2 have IH: "Suc i \<le> j \<and> j < Suc i + left \<and> peek (a + of_nat j) = 0 \<and>
        (\<forall>l. Suc i \<le> l \<and> l < j \<longrightarrow> peek (a + of_nat l) \<noteq> 0)" by simp
    have "peek (a + of_nat l) \<noteq> 0" if "i \<le> l" "l < j" for l
      using that IH False by (cases "l = i") auto
    with IH show ?thesis by auto
  qed (use 2 in auto)
qed simp

lemma string_end_None: "string_end peek a i left = None \<longleftrightarrow> (\<forall>j. i \<le> j \<and> j < i + left \<longrightarrow> peek (a + of_nat j) \<noteq> 0)"
proof (induction peek a i left rule: string_end.induct)
  case (2 peek a i left)
  have "(\<forall>j. i \<le> j \<and> j < i + Suc left \<longrightarrow> peek (a + of_nat j) \<noteq> 0) \<longleftrightarrow>
      peek (a + of_nat i) \<noteq> 0 \<and> (\<forall>j. Suc i \<le> j \<and> j < Suc i + left \<longrightarrow> peek (a + of_nat j) \<noteq> 0)"
    by (metis Suc_leI add_Suc_right add_Suc le_add1 less_Suc_eq_le le_eq_less_or_eq Suc_leD le_refl)
  with 2 show ?case by simp
qed auto

lemma found_string:
  assumes "getCStringInArea peek a ar = Some (Some s)"
  shows "\<exists>n. s = area a n \<and> c_string_at peek a n"
proof -
  from assms obtain rest j where w: "withStart a ar = Some rest"
    and j: "string_end peek a 0 (unat (interval_length rest)) = Some j" and s: "s = area a (of_nat j + 1)"
    by (auto simp: getCStringInArea_def bind_eq_Some_conv)
  note e = string_end_first[OF j]
  have "unat (interval_length rest) < 2 ^ 64" using unsigned_less[of "interval_length rest"] by simp
  then have u: "unat (of_nat j + 1 :: u64) = j + 1"
    using e unat_of_nat_small[of "j + 1"] by (simp add: algebra_simps)
  then have "(of_nat j + 1 :: u64) \<noteq> 0" by (metis add_is_0 unat_0 zero_neq_one)
  moreover have "(of_nat j + 1 - 1 :: u64) = of_nat j" by simp
  ultimately show ?thesis
    using e u by (intro exI[of _ "of_nat j + 1"]) (auto simp: s c_string_at_def list_all_iff)
qed

lemma known_state_range:
  assumes "shadow_wf m" and "findAllocationContaining a m = Some t" and "hasKnownState a n m = Some True"
  shows "known_range m a (unat n)"
proof -
  note F = found_allocation[OF assms(1,2)]
  from assms(3) obtain bs where "shadow_bytes a n m = Some bs" and l: "list_all (\<lambda>c. c = getInitializedByte) bs"
    by (auto simp: hasKnownState_def bind_eq_Some_conv)
  then have "slice (unat (a - tma_Address t)) (unat n) (tma_Shadow t) = Some bs"
    using F(1,2) by (auto simp: shadow_bytes_def getAllocationContaining_def getAllocationAtOrPreceding_def
        getShadowAt_def bind_eq_Some_conv)
  with l show ?thesis using assms(2) by (simp add: known_range_def slice_Some_iff)
qed

lemma memory_passed:
  "memoryExistsForParameter ck k a ar obj r = passes () \<Longrightarrow> ar \<noteq> None"
  unfolding memoryExistsForParameter_def passes_def[of "()"]
  by (auto simp: check_then_passed fatal_not_passed split: if_splits)

lemma access_passed:
  "checkMemoryAccessForParameter ck k a n ReadAccess ar r = passes () \<Longrightarrow>
   hasKnownState a n (pl_TraceMemory (fst r)) = Some True"
  by (auto simp: checkMemoryAccessForParameter_def passes_def fatal_not_passed split: if_splits option.splits)

text \<open>C11: A string that is passed to a library function is a string. If the check of a string
  argument passes with a length, then that many bytes at the address lie in one allocation and are
  all initialised, the last of them is zero and no other is.\<close>

theorem checked_string_is_string:
  assumes "shadow_wf (pl_TraceMemory (fst r))" and "checkCStringRead peek ck k a r = Some (Inr n)"
  shows "c_string_at peek a n \<and> known_range (pl_TraceMemory (fst r)) a (unat n)"
proof -
  from assms(2) obtain nt obj where read: "checkCStringRead_object peek (addTemporaryNote nt ck) k a obj r = Some (Inr n)"
    by (auto simp: checkCStringRead_def with_parameter_note_def split: option.splits)
  then obtain ar s where ar: "containing_area a r = Some ar" and s: "getCStringInArea peek a ar = Some (Some s)"
    and acc: "checkMemoryAccessForParameter (addTemporaryNote nt ck) k a (interval_length s) ReadAccess s r = passes ()"
    and n: "n = interval_length s"
    by (auto simp: checkCStringRead_object_def check_then_passed passes_def split: option.splits)
  from ar obtain t where "findAllocationContaining a (pl_TraceMemory (fst r)) = Some t"
    by (auto simp: containing_area_def pl_getContainingMemoryArea_def)
  from known_state_range[OF assms(1) this access_passed[OF acc]] found_string[OF s] n show ?thesis by auto
qed

text \<open>A caller on the stack, which passes a null pointer, and bytes that spell a string.\<close>

definition sample_caller :: Recorder where
  "sample_caller = (fst sample_recorder, (snd sample_recorder)\<lparr>tl_FunctionStack := [new_TracedFunction None 0 []]\<rparr>)"

definition sample_checker :: CStdLibChecker where
  "sample_checker =
     \<lparr>ck_Instruction = 4, ck_PermanentNotes = [], ck_TemporaryNotes = [], sc_Function = 0, sc_CallerIdx = 0,
      sc_Call = Some [ValueConstant NullPointer]\<rparr>"

definition sample_bytes :: "u64 \<Rightarrow> byte" where
  "sample_bytes a = (if a = 18 then 0 else 97)"


lemma sample_string_passes: "checkCStringRead sample_bytes sample_checker 0 16 sample_caller = Some (Inr 3)"
proof -
  have m: "pl_TraceMemory (fst sample_caller) = sample_memory" by (simp add: sample_caller_def)
  have ar: "containing_area 16 sample_caller = Some (area 16 4)"
    by (simp add: containing_area_def pl_getContainingMemoryArea_def m sample_found tma_getArea_def tma_getLength_def)
  have str: "getCStringInArea sample_bytes 16 (area 16 4) = Some (Some (area 16 3))" by code_simp
  have known: "hasKnownState 16 3 sample_memory = Some True" "getLengthOfKnownState 16 3 sample_memory = Some 3"
    by code_simp+
  have obj: "argument_object (addTemporaryNote n sample_checker) 0 sample_caller = Some null_target" for n
    by (simp add: argument_object_def sample_checker_def addTemporaryNote_def sample_caller_def pl_getPointerObject_def)
  show ?thesis
    by (simp add: checkCStringRead_def with_parameter_note_def createRunError_def fn_arg_def obj
        checkCStringRead_object_def memoryExistsForParameter_def checkPointer_def target_set_def pointer_target_def
        ar str checkCStringIsValid_def known m checkMemoryAccessForParameter_def)
      (simp add: passes_def)
qed

theorem checked_string_is_string_witness:
  "c_string_at sample_bytes 16 3 \<and> known_range sample_memory 16 3"
  using checked_string_is_string[OF _ sample_string_passes] sample_memory_wf by (simp add: sample_caller_def)

section \<open>Limits of the checks\<close>

text \<open>C36: The check of a store does not see sizes that wrap around. A store of
  \<open>SIZE_MAX\<close> bytes at any address inside an allocation passes, although it would go far beyond the
  end of the allocation: the last address of the access is computed modulo the address space.\<close>

theorem wrapping_write_accepted:
  assumes "shadow_wf (pl_TraceMemory (fst r))" and "findAllocationContaining a (pl_TraceMemory (fst r)) = Some t" and "a \<noteq> 0"
  shows "checkMemoryExistsAndAccessible ck a (- 1) WriteAccess r = passes () \<and>
    unat (iv_End (tma_getArea t)) < unat a + unat (- 1 :: u64)"
proof -
  note F = found_allocation[OF assms(1,2)]
  have "unat a \<noteq> 0" using assms(3) by (simp add: unat_eq_0)
  have "unat (a - 1) = unat a - 1" using assms(3) by (simp add: unat_minus_one)
  then have "a + (- 1) \<le> iv_End (tma_getArea t)"
    using F by (simp add: word_le_nat_alt)
  then have "contains_interval (tma_getArea t) (area a (- 1))"
    using F(2) by (simp add: contains_interval_def iv_Start_area_of)
  then have "checkMemoryExistsAndAccessible ck a (- 1) WriteAccess r = passes ()"
    by (simp add: found_checked[OF assms(2)] checkMemoryAccess_def)
  moreover have "unat (- 1 :: u64) = 2 ^ 64 - 1" by (simp add: unsigned_minus_1_eq_mask mask_eq_exp_minus_1)
  then have "unat (iv_End (tma_getArea t)) < unat a + unat (- 1 :: u64)"
    using F(3,6) \<open>unat a \<noteq> 0\<close> by linarith
  ultimately show ?thesis by blast
qed

theorem wrapping_write_accepted_witness:
  "checkMemoryExistsAndAccessible (new_Checker 0) 16 (- 1) WriteAccess sample_recorder = passes ()"
  using wrapping_write_accepted[of sample_recorder 16 _ "new_Checker 0"] sample_memory_wf sample_found by simp

lemma checkPointer_any: "checkPointer ck obj a r = passes () \<Longrightarrow> checkPointer ck' obj a r = passes ()"
  by (auto simp: checkPointer_def passes_def fatal_not_passed split: if_splits option.splits)



section \<open>Errors in the trace\<close>

lemma created_fits:
  assumes "created n"
  shows "error_fits n"
proof -
  from assms obtain t as where "createRunError t as = Some n" by (auto simp: created_def)
  from created_parts[OF this] show ?thesis by (simp add: encode_args_def)
qed

text \<open>C17: A fatal error can be read from the trace. When a check raises an error, the program ends;
  the thread's events end with the instruction that was about to be run, followed by records from
  which the viewer reads an error with the number of its type, its arguments, and all notes that
  the checker held, the permanent ones first.\<close>

theorem fatal_error_readable:
  assumes "tl_Open (snd r)" and "map kind_of as = error_signature t"
    and "list_all created (ck_PermanentNotes ck @ ck_TemporaryNotes ck)"
    and "length (ck_PermanentNotes ck @ ck_TemporaryNotes ck) < 256"
  shows "\<exists>r' es. (fatal ck t as r :: unit checked) = Some (Inl r') \<and> fst r' = fst r \<and>
      tl_Events (snd r') = tl_Events (snd r) @ PreInstruction (ck_Instruction ck) # es \<and>
      deserializeRuntimeError es =
        Some (Some (RunError (error_code t) (encode_args as) (ck_PermanentNotes ck @ ck_TemporaryNotes ck)))"
proof -
  define ns where "ns = ck_PermanentNotes ck @ ck_TemporaryNotes ck"
  obtain e where e: "createRunError t as = Some e" using assms(2) by (auto simp: createRunError_def)
  note P = created_parts[OF e]
  have "list_all error_fits ns"
    using assms(3) created_fits unfolding ns_def[symmetric] by (simp add: list_all_iff)
  then have "error_fits (fold addAdditional ns e)"
    using P assms(4) by (simp add: fold_addAdditional encode_args_def list_all_iff ns_def)
  from deserializeRuntimeError_written[OF this, of True "[]"]
  have d: "deserializeRuntimeError (writeError True (fold addAdditional ns e)) =
      Some (Some (RunError (error_code t) (encode_args as) ns))"
    using P by (simp add: fold_addAdditional)
  let ?es = "writeError True (fold addAdditional ns e)"
  let ?r = "(fst r, (snd r)\<lparr>tl_Time := tl_Time (snd r) + 1,
    tl_Events := tl_Events (snd r) @ PreInstruction (ck_Instruction ck) # ?es\<rparr>)"
  have "(fatal ck t as r :: unit checked) = Some (Inl ?r)"
    unfolding ns_def by (rule fatal_events[OF assms(1) e])
  moreover have "fst ?r = fst r \<and> tl_Events (snd ?r) = tl_Events (snd r) @ PreInstruction (ck_Instruction ck) # ?es"
    by simp
  ultimately show ?thesis using d unfolding ns_def by blast
qed


theorem fatal_error_readable_witness:
  "\<exists>r' es. (fatal (addPermanentNote (RunError (error_code InfoCStdFunction) (encode_args [ArgSelect CStdFunction 0]) []) sample_checker)
        PassInvalidStream [ArgSelect CStdFunction 0, ArgParameter 0] sample_recorder :: unit checked) = Some (Inl r') \<and>
     tl_Events (snd r') = PreInstruction 4 # es \<and>
     deserializeRuntimeError es =
       Some (Some (RunError (error_code PassInvalidStream) (encode_args [ArgSelect CStdFunction 0, ArgParameter 0])
         [RunError (error_code InfoCStdFunction) (encode_args [ArgSelect CStdFunction 0]) []]))"
proof -
  let ?n = "RunError (error_code InfoCStdFunction) (encode_args [ArgSelect CStdFunction 0]) []"
  let ?ck = "addPermanentNote ?n sample_checker"
  have "createRunError InfoCStdFunction [ArgSelect CStdFunction 0] = Some ?n" by (simp add: createRunError_def)
  then have "created ?n" unfolding created_def by blast
  then have cr: "list_all created [?n]" by simp
  have ck: "ck_PermanentNotes ?ck = [?n]" "ck_TemporaryNotes ?ck = []" "ck_Instruction ?ck = 4"
    by (simp_all add: addPermanentNote_def sample_checker_def)
  have "map kind_of [ArgSelect CStdFunction 0, ArgParameter 0] = error_signature PassInvalidStream" by simp
  from fatal_error_readable[OF sample_recorder_parts(3) this, of ?ck, unfolded ck append_Nil2, OF cr]
  obtain r' es where "(fatal ?ck PassInvalidStream [ArgSelect CStdFunction 0, ArgParameter 0] sample_recorder :: unit checked) =
      Some (Inl r')" "tl_Events (snd r') = PreInstruction 4 # es"
    "deserializeRuntimeError es = Some (Some (RunError (error_code PassInvalidStream)
      (encode_args [ArgSelect CStdFunction 0, ArgParameter 0]) [?n]))"
    by auto
  then show ?thesis by blast
qed

end
