(* ===== verification/RecorderLaws.thy ===== *)
theory RecorderLaws
  imports Notifications CheckLaws ThreadRuns
begin

text \<open>
  The trace that the recorder writes can be replayed, and replaying it recreates what the recorder
  knew. One thread of the recorded program makes a sequence of recording operations; the viewer's
  thread moves forward over the events that they have written, one \<open>addNextEvent\<close> per event. After
  each operation the recreated process (memory, dynamic allocations, known regions, streams,
  directories and time) corresponds to the state of the recorder.
\<close>

section \<open>Lengths of the recorder's allocations\<close>

definition lens :: "TraceMemoryState \<Rightarrow> u64 \<Rightarrow> nat option" where
  "lens m a = map_option tma_getLength (om_find m a)"

lemma lens_fill: "om_wf m \<Longrightarrow> fill_shadow c a n m = Some m' \<Longrightarrow> lens m' = lens m"
  by (auto simp: fill_shadow_def getAllocationContaining_def getAllocationAtOrPreceding_def lens_def fun_eq_iff
      om_find_insert om.before_find tma_getLength_def length_overwrite bind_eq_Some_conv)

lemma lens_memmove: "om_wf m \<Longrightarrow> tm_memmove src dst n m = Some m' \<Longrightarrow> lens m' = lens m"
  by (auto simp: tm_memmove_def getAllocationContaining_def getAllocationAtOrPreceding_def lens_def fun_eq_iff
      om_find_insert om.before_find tma_getLength_def length_overwrite bind_eq_Some_conv)

lemma lens_add: "om_wf m \<Longrightarrow> addAllocation a n m = Some m' \<Longrightarrow> lens m a = None \<and> lens m' = (lens m)(a \<mapsto> unat n)"
  by (auto simp: addAllocation_def lens_def fun_eq_iff om_find_insert tma_getLength_def new_TraceMemoryAllocation_def
      bind_eq_Some_conv)

lemma lens_remove: "removeAllocation a m = Some m' \<Longrightarrow> lens m a \<noteq> None \<and> lens m' = (lens m)(a := None)"
  by (auto simp: removeAllocation_def lens_def fun_eq_iff om_find_erase bind_eq_Some_conv)

lemma lens_resize: "om_wf m \<Longrightarrow> resizeAllocation a n m = Some m' \<Longrightarrow> lens m a \<noteq> None \<and> lens m' = (lens m)(a \<mapsto> unat n)"
  by (auto simp: resizeAllocation_def lens_def fun_eq_iff om_find_insert tma_getLength_def tma_resize_def bind_eq_Some_conv)

section \<open>What the recorder keeps true\<close>

text \<open>Every dynamic allocation and every known region has an allocation of its length in the shadow memory.\<close>

definition dynamic_ok :: "ProcessListener \<Rightarrow> bool" where
  "dynamic_ok p \<longleftrightarrow> om_wf (pl_DynamicMemoryAllocations p) \<and>
     om_all (\<lambda>a d. da_Address d = a \<and> lens (pl_TraceMemory p) a = Some (unat (da_Size d))) (pl_DynamicMemoryAllocations p)"

definition known_ok :: "ProcessListener \<Rightarrow> bool" where
  "known_ok p \<longleftrightarrow> distinct (map item_Begin (pl_KnownMemory p)) \<and>
     (\<forall>x \<in> set (pl_KnownMemory p).
        lens (pl_TraceMemory p) (item_Begin x) = Some (unat ((item_End x - item_Begin x) + 1)) \<and>
        om_find (pl_DynamicMemoryAllocations p) (item_Begin x) = None)"

definition listener_ok :: "ProcessListener \<Rightarrow> bool" where
  "listener_ok p \<longleftrightarrow> dynamic_ok p \<and> known_ok p"

text \<open>How the invariant follows the memory, the dynamic allocations and the known regions.\<close>

lemma listener_ok_same:
  assumes "listener_ok p" and "lens (pl_TraceMemory q) = lens (pl_TraceMemory p)"
    and "pl_DynamicMemoryAllocations q = pl_DynamicMemoryAllocations p" and "pl_KnownMemory q = pl_KnownMemory p"
  shows "listener_ok q"
  using assms by (simp add: listener_ok_def dynamic_ok_def known_ok_def)

lemma listener_ok_dynamic:
  assumes "listener_ok p" and "lens (pl_TraceMemory q) = (lens (pl_TraceMemory p))(a \<mapsto> unat (da_Size d))"
    and "pl_DynamicMemoryAllocations q = om_insert a d (pl_DynamicMemoryAllocations p)"
    and "pl_KnownMemory q = pl_KnownMemory p" and "da_Address d = a"
    and "lens (pl_TraceMemory p) a = None \<or> om_find (pl_DynamicMemoryAllocations p) a \<noteq> None"
  shows "listener_ok q"
proof -
  have "item_Begin x \<noteq> a" if "x \<in> set (pl_KnownMemory p)" for x
    using that assms(1,6) by (auto simp: listener_ok_def known_ok_def)
  then show ?thesis
    using assms by (auto simp: listener_ok_def dynamic_ok_def known_ok_def om_wf_insert om_all_iff om_find_insert)
qed

lemma listener_ok_fresh:
  assumes "listener_ok p" and "lens (pl_TraceMemory p) a = None" and "lens (pl_TraceMemory q) = (lens (pl_TraceMemory p))(a \<mapsto> n)"
    and "pl_DynamicMemoryAllocations q = pl_DynamicMemoryAllocations p" and "pl_KnownMemory q = pl_KnownMemory p"
  shows "listener_ok q"
proof -
  have "item_Begin x \<noteq> a" if "x \<in> set (pl_KnownMemory p)" for x
    using that assms(1,2) by (auto simp: listener_ok_def known_ok_def)
  then show ?thesis
    using assms by (auto simp: listener_ok_def dynamic_ok_def known_ok_def om_all_iff)
qed

lemma listener_ok_freed:
  assumes "listener_ok p" and "om_find (pl_DynamicMemoryAllocations p) a \<noteq> None"
    and "lens (pl_TraceMemory q) = (lens (pl_TraceMemory p))(a := None)"
    and "pl_DynamicMemoryAllocations q = om_erase a (pl_DynamicMemoryAllocations p)" and "pl_KnownMemory q = pl_KnownMemory p"
  shows "listener_ok q"
proof -
  have "item_Begin x \<noteq> a" if "x \<in> set (pl_KnownMemory p)" for x
    using that assms(1,2) by (auto simp: listener_ok_def known_ok_def)
  then show ?thesis
    using assms by (auto simp: listener_ok_def dynamic_ok_def known_ok_def om_wf_erase om_all_iff om_find_erase split: if_splits)
qed

lemma listener_ok_known:
  assumes "listener_ok p" and "lens (pl_TraceMemory p) a = None" and "lens (pl_TraceMemory q) = (lens (pl_TraceMemory p))(a \<mapsto> unat n)"
    and "pl_DynamicMemoryAllocations q = pl_DynamicMemoryAllocations p"
    and "pl_KnownMemory q = fst (imv_insert a (a + (n - 1)) v (pl_KnownMemory p))"
  shows "listener_ok q"
proof -
  have b: "item_Begin x \<noteq> a" if "x \<in> set (pl_KnownMemory p)" for x
    using that assms(1,2) by (auto simp: listener_ok_def known_ok_def)
  have d: "om_find (pl_DynamicMemoryAllocations p) a = None"
    using assms(1,2) by (cases "om_find (pl_DynamicMemoryAllocations p) a") (auto simp: listener_ok_def dynamic_ok_def om_all_iff)
  let ?u = "imv_upper_bound a (pl_KnownMemory p)" and ?x = "makeIntervalMapItem a (a + (n - 1)) v"
  have x: "item_Begin ?x = a" "item_End ?x - a + 1 = n" by (simp_all add: makeIntervalMapItem_def)
  consider "pl_KnownMemory q = pl_KnownMemory p" | "pl_KnownMemory q = take ?u (pl_KnownMemory p) @ ?x # drop ?u (pl_KnownMemory p)"
    using assms(5) by (auto simp: imv_insert_def Let_def split: if_splits)
  then show ?thesis
  proof cases
    case 1
    then show ?thesis using listener_ok_fresh[OF assms(1,2,3,4)] by simp
  next
    case 2
    have s: "set (pl_KnownMemory q) = insert ?x (set (pl_KnownMemory p))"
      unfolding 2 by (metis append_take_drop_id list.simps(15) set_append Un_insert_right)
    obtain xs ys where xs: "pl_KnownMemory p = xs @ ys" "pl_KnownMemory q = xs @ ?x # ys"
      using 2 by (metis append_take_drop_id)
    have "distinct (map item_Begin (xs @ ys))"
      using assms(1) xs by (simp add: listener_ok_def known_ok_def)
    moreover have "a \<notin> item_Begin ` set (xs @ ys)" using b xs by auto
    ultimately have "distinct (map item_Begin (pl_KnownMemory q))" using x(1) by (auto simp: xs(2))
    then show ?thesis
      using assms(1-4) b d x by (auto simp: listener_ok_def dynamic_ok_def known_ok_def s om_all_iff)
  qed
qed


lemma listener_ok_unknown:
  assumes "listener_ok p" and i: "i < length (pl_KnownMemory p)" "item_Begin (pl_KnownMemory p ! i) = a"
    and "lens (pl_TraceMemory q) = (lens (pl_TraceMemory p))(a := None)"
    and "pl_DynamicMemoryAllocations q = pl_DynamicMemoryAllocations p"
    and "pl_KnownMemory q = imv_erase_at i (pl_KnownMemory p)"
  shows "listener_ok q"
proof -
  let ?k = "pl_KnownMemory p"
  have k: "?k = take i ?k @ ?k ! i # drop (i + 1) ?k" using i(1) by (simp add: id_take_nth_drop)
  have "distinct (map item_Begin ?k)" using assms(1) by (simp add: listener_ok_def known_ok_def)
  then have "distinct (map item_Begin (take i ?k @ ?k ! i # drop (i + 1) ?k))" using k by simp
  then have d: "distinct (map item_Begin (pl_KnownMemory q))"
    and "a \<notin> item_Begin ` set (pl_KnownMemory q)"
    unfolding assms(6) imv_erase_at_def i(2)[symmetric] by auto
  then have f: "\<And>x. x \<in> set (pl_KnownMemory q) \<Longrightarrow> item_Begin x \<noteq> a" by auto
  have sub: "set (pl_KnownMemory q) \<subseteq> set ?k"
    unfolding assms(6) imv_erase_at_def by (auto dest: in_set_takeD in_set_dropD)
  have "om_find (pl_DynamicMemoryAllocations p) a = None"
    using assms(1) i by (auto simp: listener_ok_def known_ok_def)
  then show ?thesis
    using assms(1,4,5) d f sub by (auto simp: listener_ok_def dynamic_ok_def known_ok_def om_all_iff)
qed

section \<open>The recorder and the viewer\<close>

definition malloc_rel :: "DynamicAllocation \<Rightarrow> MallocState \<Rightarrow> bool" where
  "malloc_rel d m \<longleftrightarrow> da_Address d = mst_Address m \<and> da_Size d = mst_Size m"

definition stream_rel :: "ProcessTrace \<Rightarrow> TraceStream \<Rightarrow> StreamState \<Rightarrow> bool" where
  "stream_rel pt t s \<longleftrightarrow> getDataString pt (ts_FilenameOffset t) = Some (ss_Filename s) \<and>
     getDataString pt (ts_ModeOffset t) = Some (ss_Mode s)"

definition dir_rel :: "ProcessTrace \<Rightarrow> u64 \<Rightarrow> DIRState \<Rightarrow> bool" where
  "dir_rel pt off d \<longleftrightarrow> getDataString pt off = Some (ds_Dirname d)"

definition process_rel :: "ProcessTrace \<Rightarrow> ProcessListener \<Rightarrow> ProcessState \<Rightarrow> bool" where
  "process_rel pt p ps \<longleftrightarrow>
     shadow_rel (pl_TraceMemory p) (ps_Memory ps) \<and>
     omap_rel malloc_rel (pl_DynamicMemoryAllocations p) (ps_Mallocs ps) \<and>
     pl_KnownMemory p = ps_KnownMemory ps \<and>
     om_wf (pl_Streams p) \<and> omap_rel (stream_rel pt) (pl_Streams p) (ps_Streams ps) \<and>
     om_wf (pl_Dirs p) \<and> omap_rel (dir_rel pt) (pl_Dirs p) (ps_Dirs ps) \<and>
     ps_ProcessTime ps = pl_Time p"

text \<open>
  The viewer has moved over the events written so far, and is in a function. There is one thread,
  so the process time of the current instruction is the newest one.
\<close>

definition recorder_rel :: "Env \<Rightarrow> Recorder \<Rightarrow> World \<Rightarrow> bool" where
  "recorder_rel env r w \<longleftrightarrow>
     process_rel (env_Trace env) (fst r) (fst w) \<and> listener_ok (fst r) \<and> tl_Open (snd r) \<and>
     tl_CIProcessTime (snd r) \<in> {None, Some (pl_Time (fst r))} \<and>
     th_ProcessTime (snd w) = tl_ProcessTime (snd r) \<and> th_CallStack (snd w) \<noteq> [] \<and>
     th_NextEvent (snd w) = length (tl_Events (snd r)) \<and>
     take (length (tl_Events (snd r))) (th_Events (snd w)) = tl_Events (snd r)"

text \<open>The events and the data that the recorder has written so far are the beginning of the trace.\<close>

definition in_trace :: "Env \<Rightarrow> Event list \<Rightarrow> Recorder \<Rightarrow> bool" where
  "in_trace env es r \<longleftrightarrow>
     take (length (tl_Events (snd r))) es = tl_Events (snd r) \<and> length (tl_Events (snd r)) \<le> length es \<and>
     (case pl_DataOut (fst r) of
        None \<Rightarrow> False
      | Some d \<Rightarrow> take (length d) (pt_Data (env_Trace env)) = d \<and> length d \<le> length (pt_Data (env_Trace env))) \<and>
     length (pt_Data (env_Trace env)) < 2 ^ 64"

text \<open>The viewer's step over the event that is written next.\<close>

lemma replay_event:
  assumes w: "th_NextEvent (snd w) = k" "k < length (th_Events (snd w))" "th_Events (snd w) ! k = e"
    and e: "\<not> is_subservient e" "is_function_level e \<Longrightarrow> th_CallStack (snd w) \<noteq> []"
    and add: "addEvent env k e w = Some w1"
  shows "forward env 1 w = Some (fst w1, (snd w1)\<lparr>th_NextEvent := k + 1\<rparr>)"
  using assms by (simp add: addNextEvent_def addNextEventForwarder_def event_at_def)

definition ci_time :: "Recorder \<Rightarrow> u64" where
  "ci_time r = (case tl_CIProcessTime (snd r) of Some t \<Rightarrow> t | None \<Rightarrow> pl_Time (fst r) + 1)"

lemma take_time_parts:
  assumes "tl_CIProcessTime (snd r) \<in> {None, Some (pl_Time (fst r))}"
  shows "take_time r = ((fst r)\<lparr>pl_Time := ci_time r\<rparr>,
    (snd r)\<lparr>tl_CIProcessTime := Some (ci_time r), tl_ProcessTime := ci_time r\<rparr>)"
  using assms by (cases r) (auto simp: take_time_def getCIProcessTime_def getNewTime_def ci_time_def Let_def)

lemma emit_timed_open: "tl_Open (snd r) \<Longrightarrow> emit_timed f r =
    (fst r, (snd r)\<lparr>tl_Events := tl_Events (snd r) @ [f (tl_ProcessTime (snd r))]\<rparr>)"
  by (simp add: emit_timed_def emit_open)


definition replays :: "Env \<Rightarrow> Recorder \<Rightarrow> Recorder \<Rightarrow> World \<Rightarrow> bool" where
  "replays env r r' w \<longleftrightarrow>
     (\<exists>w'. forward env (length (tl_Events (snd r')) - length (tl_Events (snd r))) w = Some w' \<and>
           recorder_rel env r' w' \<and> th_Events (snd w') = th_Events (snd w))"

lemma next_event:
  assumes "in_trace env es r'" and "tl_Events (snd r') = tl_Events (snd r) @ [e]"
  shows "length (tl_Events (snd r)) < length es" and "es ! length (tl_Events (snd r)) = e"
    and "take (length (tl_Events (snd r))) es = tl_Events (snd r)"
    and "take (length (tl_Events (snd r)) + 1) es = tl_Events (snd r) @ [e]"
proof -
  let ?k = "length (tl_Events (snd r))"
  show t: "take (?k + 1) es = tl_Events (snd r) @ [e]" and l: "?k < length es" using assms by (simp_all add: in_trace_def)
  show "es ! ?k = e" using t l by (metis less_add_one nth_append_length nth_take)
  show "take ?k es = tl_Events (snd r)" using t by (metis append_eq_conv_conj le_add1 min.absorb1 take_take)
qed

lemma replays_event:
  assumes rel: "recorder_rel env r w" and tr: "in_trace env (th_Events (snd w)) r'"
    and l: "tl_Events (snd r') = tl_Events (snd r) @ [e]" "tl_Open (snd r')"
      "tl_CIProcessTime (snd r') \<in> {None, Some (pl_Time (fst r'))}"
    and e: "\<not> is_subservient e"
    and add: "addEvent env (length (tl_Events (snd r))) e w = Some w1"
    and w1: "th_Events (snd w1) = th_Events (snd w)" "th_ProcessTime (snd w1) = tl_ProcessTime (snd r')"
      "th_CallStack (snd w1) \<noteq> []"
    and p: "process_rel (env_Trace env) (fst r') (fst w1)" "listener_ok (fst r')"
  shows "replays env r r' w"
proof -
  let ?k = "length (tl_Events (snd r))" and ?es = "th_Events (snd w)"
  have k: "th_NextEvent (snd w) = ?k" "th_CallStack (snd w) \<noteq> []" using rel by (simp_all add: recorder_rel_def)
  note N = next_event[OF tr l(1)]
  from replay_event[OF k(1) N(1,2) e k(2) add]
  have "forward env 1 w = Some (fst w1, (snd w1)\<lparr>th_NextEvent := ?k + 1\<rparr>)" .
  moreover have "recorder_rel env r' (fst w1, (snd w1)\<lparr>th_NextEvent := ?k + 1\<rparr>)"
    using l w1 p N(4) by (simp add: recorder_rel_def)
  ultimately show ?thesis using l(1) w1(1) unfolding replays_def by auto
qed

lemma replays_idle:
  assumes rel: "recorder_rel env r w" and l: "tl_Events (snd r') = tl_Events (snd r)" "tl_Open (snd r')"
      "tl_CIProcessTime (snd r') \<in> {None, Some (pl_Time (fst r'))}" "tl_ProcessTime (snd r') = tl_ProcessTime (snd r)"
    and p: "process_rel (env_Trace env) (fst r') (fst w)" "listener_ok (fst r')"
  shows "replays env r r' w"
  using assms by (auto simp: replays_def recorder_rel_def)

text \<open>The last instruction with a pointer that has been written, which is where the viewer takes the
  address of an allocation from.\<close>

definition last_ptr :: "Event list \<Rightarrow> (nat \<times> u64) option" where
  "last_ptr es =
     (let ps = filter (\<lambda>e. ptr_instruction e \<noteq> None) es in if ps = [] then None else ptr_instruction (last ps))"

lemma last_ptr_snoc: "last_ptr (es @ [e]) = (if ptr_instruction e \<noteq> None then ptr_instruction e else last_ptr es)"
  by (auto simp: last_ptr_def Let_def)

lemma rfind_last_ptr:
  "n \<le> length es \<Longrightarrow>
   (case rfind_event (\<lambda>e. ptr_instruction e \<noteq> None) es 0 n of None \<Rightarrow> None | Some i \<Rightarrow> ptr_instruction (es ! i)) =
   last_ptr (take n es)"
proof (induction n)
  case (Suc n)
  then have t: "take (Suc n) es = take n es @ [es ! n]" by (simp add: take_Suc_conv_app_nth)
  show ?case
    using Suc unfolding t last_ptr_snoc by (cases "n = 0") (auto simp: last_ptr_def)
qed (simp add: last_ptr_def)

lemma preceding_ptr_last:
  assumes "k < length (th_Events th)" and "ptr_instruction (th_Events th ! k) = None"
  shows "preceding_ptr th k = last_ptr (take k (th_Events th))"
proof -
  have t: "take (Suc k) (th_Events th) = take k (th_Events th) @ [th_Events th ! k]"
    using assms(1) by (simp add: take_Suc_conv_app_nth)
  have "preceding_ptr th k = last_ptr (take (Suc k) (th_Events th))"
    using assms(1) rfind_last_ptr[of "Suc k" "th_Events th"]
    by (auto simp: preceding_ptr_def rangeBeforeIncluding_def events_range_def bind_eq_Some_conv split: option.splits bind_splits)
  with assms(2) show ?thesis by (simp add: t last_ptr_snoc)
qed

lemma preceding_ptr_written:
  assumes "in_trace env (th_Events th) r'" and "tl_Events (snd r') = tl_Events (snd r) @ [e]" and "ptr_instruction e = None"
  shows "preceding_ptr th (length (tl_Events (snd r))) = last_ptr (tl_Events (snd r))"
  using next_event[OF assms(1,2)] assms(3) by (simp add: preceding_ptr_last)

section \<open>Recording operations\<close>

text \<open>
  Events that concern the thread alone (instructions and their times) are \<open>LocalEvent\<close>s. Memory is
  locked before it is recorded, and the notification after an instruction ends it.
\<close>

datatype RecordOp =
    LocalEvent Event
  | LockMemory
  | EndNotification
  | StackAlloc nat u64 u64 u64
  | Allocate u64 u64
  | Reallocate u64 u64
  | Deallocate u64
  | Store u64 "byte list"
  | Move u64 u64 u64
  | AddRegion u64 u64 MemoryPermission
  | RemoveRegion u64
  | OpenStream u64 "byte list" "byte list"
  | WriteStream u64 "byte list"
  | WriteStreamMemory u64 u64 u64
  | CloseStream u64
  | OpenDir u64 "byte list"
  | CloseDir u64

fun rec_step :: "RecordOp \<Rightarrow> Recorder \<Rightarrow> Recorder option" where
  "rec_step (LocalEvent e) r = Some (emit e r)"
| "rec_step LockMemory r = Some (acquireGlobalMemoryLock r)"
| "rec_step EndNotification r = Some (exitPostNotification r)"
| "rec_step (StackAlloc i v n c) r = record_alloca i v n (OpConstantInt c) r"
| "rec_step (Allocate a n) r = recordMalloc a n r"
| "rec_step (Reallocate a n) r = recordRealloc a n r"
| "rec_step (Deallocate a) r = recordFreeAndClear a r"
| "rec_step (Store a d) r = recordUntypedState a d r"
| "rec_step (Move src dst n) r = recordMemmove src dst n r"
| "rec_step (AddRegion a n access) r = tl_addKnownMemoryRegion a n access r"
| "rec_step (RemoveRegion a) r = map_option snd (tl_removeKnownMemoryRegion a r)"
| "rec_step (OpenStream fp name mode) r = Some (recordStreamOpen fp name mode r)"
| "rec_step (WriteStream fp d) r = Some (recordStreamWrite fp d r)"
| "rec_step (WriteStreamMemory fp a n) r = Some (recordStreamWriteFromMemory fp (area a n) r)"
| "rec_step (CloseStream fp) r = map_option snd (recordStreamClose fp r)"
| "rec_step (OpenDir d name) r = Some (recordDirOpen d name r)"
| "rec_step (CloseDir d) r = map_option snd (recordDirClose d r)"

definition is_local :: "Event \<Rightarrow> bool" where
  "is_local e \<longleftrightarrow> is_instruction e \<or> (\<exists>t. e = NewThreadTime t)"

text \<open>No other allocation overlaps an area.\<close>

definition apart :: "u64 \<Rightarrow> u64 \<Rightarrow> TraceMemoryState \<Rightarrow> bool" where
  "apart a n m \<longleftrightarrow> list_all (\<lambda>e. fst e = a \<or> unat (fst e) + length (tma_Shadow (snd e)) \<le> unat a \<or>
     unat a + unat n \<le> unat (fst e)) m"

fun legal_op :: "Env \<Rightarrow> RecordOp \<Rightarrow> Recorder \<Rightarrow> World \<Rightarrow> bool" where
  "legal_op env (LocalEvent e) r w \<longleftrightarrow> is_local e \<and> addEvent env (length (tl_Events (snd r))) e w \<noteq> None"
| "legal_op env EndNotification r w \<longleftrightarrow> pl_OutputEnabled (fst r)"
| "legal_op env (StackAlloc i v n c) r w \<longleftrightarrow>
     last_ptr (tl_Events (snd r)) = Some (i, v) \<and> unat v + unat (n * c) < 2 ^ 64"
| "legal_op env (Allocate a n) r w \<longleftrightarrow>
     map_option snd (last_ptr (tl_Events (snd r))) = Some a \<and>
     \<not> isCurrentDynamicMemoryAllocation a (fst r) \<and> unat a + unat n < 2 ^ 64"
| "legal_op env (Reallocate a n) r w \<longleftrightarrow>
     (case getCurrentDynamicMemoryAllocation a (fst r) of None \<Rightarrow> True
      | Some d \<Rightarrow> unat a + unat (da_Size d) < 2 ^ 64 \<and> unat a + unat n < 2 ^ 64 \<and>
                  apart a (da_Size d) (pl_TraceMemory (fst r)))"
| "legal_op env (Deallocate a) r w \<longleftrightarrow>
     (case getCurrentDynamicMemoryAllocation a (fst r) of None \<Rightarrow> True
      | Some d \<Rightarrow> unat a + unat (da_Size d) < 2 ^ 64 \<and> apart a (da_Size d) (pl_TraceMemory (fst r)))"
| "legal_op env (Store a d) r w \<longleftrightarrow> unat a + length d < 2 ^ 64"
| "legal_op env (Move src dst n) r w \<longleftrightarrow> unat src + unat n < 2 ^ 64 \<and> unat dst + unat n < 2 ^ 64"
| "legal_op env (AddRegion a n access) r w \<longleftrightarrow> unat a + unat n < 2 ^ 64"
| "legal_op env (RemoveRegion a) r w \<longleftrightarrow>
     (let km = pl_KnownMemory (fst r); it = imv_find a km in it < length km \<longrightarrow> item_Begin (km ! it) = a)"
| "legal_op env (OpenStream fp name mode) r w \<longleftrightarrow> 0 \<in> set name \<and> 0 \<in> set mode"
| "legal_op env (WriteStream fp d) r w \<longleftrightarrow> streamWillClose fp (pl_Streams (fst r)) \<and> length d < 2 ^ 64"
| "legal_op env (WriteStreamMemory fp a n) r w \<longleftrightarrow>
     streamWillClose fp (pl_Streams (fst r)) \<and> n \<noteq> 0 \<and> unat a + unat n < 2 ^ 64 \<and>
     hasKnownState a n (pl_TraceMemory (fst r)) = Some True"
| "legal_op env (CloseStream fp) r w \<longleftrightarrow> streamWillClose fp (pl_Streams (fst r))"
| "legal_op env (OpenDir d name) r w \<longleftrightarrow> 0 \<in> set name"
| "legal_op env (CloseDir d) r w \<longleftrightarrow> DIRWillClose d (pl_Dirs (fst r))"
| "legal_op env LockMemory r w \<longleftrightarrow> True"


section \<open>Memory\<close>

lemma of_le_bytes_bound: "of_le_bytes d < 256 ^ length d"
proof (induction d)
  case (Cons b d)
  have "unat b < 256" using unsigned_less[of b] by simp
  with Cons show ?case by simp
qed simp

lemma le_bytes_prefix: "length d \<le> n \<Longrightarrow> take (length d) (le_bytes n (of_le_bytes d)) = d"
proof (induction d arbitrary: n)
  case (Cons b d)
  then obtain m where n: "n = Suc m" by (cases n) auto
  have "unat b < 256" using unsigned_less[of b] by simp
  then have "(unat b + 256 * of_le_bytes d) mod 256 = unat b" "(unat b + 256 * of_le_bytes d) div 256 = of_le_bytes d" by simp_all
  with Cons n show ?case by simp
qed simp

lemma small_data:
  assumes "length d \<le> 8"
  shows "slice 0 (unat (of_nat (length d) :: u8)) (le_bytes 8 (unat (of_nat (of_le_bytes d) :: u64))) = Some d"
proof -
  have "of_le_bytes d < 256 ^ 8"
    using of_le_bytes_bound[of d] assms power_increasing[of "length d" 8 "256 :: nat"] by linarith
  then have "unat (of_nat (of_le_bytes d) :: u64) = of_le_bytes d" by (simp add: unat_of_nat_small)
  moreover have "unat (of_nat (length d) :: u8) = length d" using assms by (simp add: unsigned_of_nat take_bit_nat_eq_self)
  ultimately show ?thesis using assms le_bytes_prefix[of d 8] by (simp add: slice_def)
qed

lemma recorder_rel_shadow:
  assumes "recorder_rel env r w"
  shows "shadow_rel (pl_TraceMemory (fst r)) (ps_Memory (fst w))" and "om_wf (pl_TraceMemory (fst r))"
  using assms by (auto simp: recorder_rel_def process_rel_def shadow_rel_def)

lemma take_time_rel:
  assumes "recorder_rel env r w"
  shows "take_time r = ((fst r)\<lparr>pl_Time := ci_time r\<rparr>,
    (snd r)\<lparr>tl_CIProcessTime := Some (ci_time r), tl_ProcessTime := ci_time r\<rparr>)"
  using assms by (intro take_time_parts) (simp add: recorder_rel_def)

lemma data_in_trace:
  assumes "in_trace env es r'" and "pl_DataOut (fst r') = Some (out @ d)"
  shows "getData (env_Trace env) (of_nat (length out)) (of_nat (length d)) = Some d"
proof -
  let ?b = "pt_Data (env_Trace env)"
  from assms have t: "take (length out + length d) ?b = out @ d" "length out + length d \<le> length ?b" "length ?b < 2 ^ 64"
    by (auto simp: in_trace_def)
  then have "unat (of_nat (length out) :: u64) = length out" "unat (of_nat (length d) :: u64) = length d"
    by (simp_all add: unat_of_nat_small)
  moreover have "take (length d) (drop (length out) ?b) = d"
    using t(1) by (metis add.commute append_eq_conv_conj drop_take append_take_drop_id add_diff_cancel_left' length_take)
  ultimately show ?thesis using t(2) by (simp add: getData_def slice_def)
qed

lemma data_out:
  "in_trace env es (snd (record_data d r)) \<Longrightarrow> \<exists>out. pl_DataOut (fst r) = Some out \<and>
     record_data d r = (of_nat (length out), ((fst r)\<lparr>pl_DataOut := Some (out @ d)\<rparr>, snd r))"
  by (auto simp: record_data_def recordData_def in_trace_def Let_def split: option.splits)

lemma step_Store:
  assumes rel: "recorder_rel env r w" and leg: "unat a + length d < 2 ^ 64"
    and step: "recordUntypedState a d r = Some r'" and tr: "in_trace env (th_Events (snd w)) r'"
  shows "replays env r r' w"
proof (cases "d = []")
  case True
  with step have "r' = r" by (simp add: recordUntypedState_def)
  with rel show ?thesis by (intro replays_idle) (simp_all add: recorder_rel_def)
next
  case False
  note R = rel[unfolded recorder_rel_def]
  let ?n = "of_nat (length d) :: u64" and ?b = "\<lparr>block_Address = a, block_Data = d\<rparr>" and ?k = "length (tl_Events (snd r))"
  have n: "unat ?n = length d" using leg by (simp add: unat_of_nat_small)
  note T = take_time_rel[OF rel]
  from step False T obtain m' where m': "tm_add a ?n (pl_TraceMemory (fst r)) = Some m'"
    by (auto simp: recordUntypedState_def with_process_def with_memory_def bind_eq_Some_conv Let_def)
  have leg': "shadow_legal (OpBlock ?b) (pl_TraceMemory (fst r))"
    using False leg n by (simp add: block_area_def interval_ok_area)
  from shadow_step[OF recorder_rel_shadow(1)[OF rel] leg'] m' obtain s' where
    s': "addBlock_state ?b (ps_Memory (fst w)) = Some s'" "shadow_rel m' s'" by auto
  define w1 where "w1 = set_times (ci_time r) ((fst w)\<lparr>ps_Memory := s'\<rparr>, snd w)"
  have w1: "th_Events (snd w1) = th_Events (snd w)" "th_ProcessTime (snd w1) = ci_time r" "th_CallStack (snd w1) \<noteq> []"
    "fst w1 = (fst w)\<lparr>ps_Memory := s', ps_ProcessTime := ci_time r\<rparr>"
    using R by (simp_all add: w1_def set_times_def)
  have m: "on_memory (addBlock_state ?b) (fst w) = Some ((fst w)\<lparr>ps_Memory := s'\<rparr>)" using s' by (simp add: on_memory_def)
  have pr: "process_rel (env_Trace env) p' (fst w1)" "listener_ok p'"
    if "p' = (fst r)\<lparr>pl_Time := ci_time r, pl_TraceMemory := m', pl_DataOut := x\<rparr>" for p' x
    using R w1 s' lens_fill[OF recorder_rel_shadow(2)[OF rel]] m' that
    by (auto simp: process_rel_def tm_add_def intro: listener_ok_same[of "fst r"])
  show ?thesis
  proof (cases "length d \<le> 8")
    case True
    let ?e = "StateUntypedSmall (of_nat (length d)) a (ci_time r) (of_nat (of_le_bytes d))"
    have r': "r' = ((fst r)\<lparr>pl_Time := ci_time r, pl_TraceMemory := m'\<rparr>,
      (snd r)\<lparr>tl_CIProcessTime := Some (ci_time r), tl_ProcessTime := ci_time r, tl_Events := tl_Events (snd r) @ [?e]\<rparr>)"
      using step False True T m' R by (auto simp: recordUntypedState_def with_process_def with_memory_def emit_timed_open)
    have "addEvent env ?k ?e w = Some w1"
      using m small_data[OF True] by (simp add: addEvent_def is_instruction_def addEvent_StateUntypedSmall_def split_beta w1_def)
    then show ?thesis
      using w1 R pr[of "fst r'" "pl_DataOut (fst r)"]
      by (intro replays_event[OF rel tr, of ?e w1]) (simp_all add: r' is_subservient_def)
  next
    case big: False
    have "in_trace env (th_Events (snd w)) r' \<Longrightarrow> \<exists>out. pl_DataOut (fst r) = Some out \<and>
      r' = ((fst r)\<lparr>pl_Time := ci_time r, pl_TraceMemory := m', pl_DataOut := Some (out @ d)\<rparr>,
        (snd r)\<lparr>tl_CIProcessTime := Some (ci_time r), tl_ProcessTime := ci_time r,
          tl_Events := tl_Events (snd r) @ [StateUntyped a (ci_time r) (of_nat (length out)) ?n]\<rparr>)"
      using step False big T m' R
      by (auto simp: recordUntypedState_def with_process_def with_memory_def emit_timed_open record_data_def recordData_def
          in_trace_def Let_def split: option.splits)
    then obtain out where out: "pl_DataOut (fst r) = Some out" and
      r': "r' = ((fst r)\<lparr>pl_Time := ci_time r, pl_TraceMemory := m', pl_DataOut := Some (out @ d)\<rparr>,
        (snd r)\<lparr>tl_CIProcessTime := Some (ci_time r), tl_ProcessTime := ci_time r,
          tl_Events := tl_Events (snd r) @ [StateUntyped a (ci_time r) (of_nat (length out)) ?n]\<rparr>)"
      using tr by blast
    let ?e = "StateUntyped a (ci_time r) (of_nat (length out)) ?n"
    have "getData (env_Trace env) (of_nat (length out)) ?n = Some d"
      by (rule data_in_trace[OF tr]) (simp add: r')
    then have "addEvent env ?k ?e w = Some w1"
      using m by (simp add: addEvent_def is_instruction_def addEvent_StateUntyped_def split_beta w1_def)
    then show ?thesis
      using w1 R pr[of "fst r'" "Some (out @ d)"]
      by (intro replays_event[OF rel tr, of ?e w1]) (simp_all add: r' is_subservient_def)
  qed
qed


lemma step_Move:
  assumes rel: "recorder_rel env r w" and leg: "unat src + unat n < 2 ^ 64" "unat dst + unat n < 2 ^ 64"
    and step: "recordMemmove src dst n r = Some r'" and tr: "in_trace env (th_Events (snd w)) r'"
  shows "replays env r r' w"
proof (cases "n = 0")
  case True
  with step have "r' = r" by (simp add: recordMemmove_def)
  with rel show ?thesis by (intro replays_idle) (simp_all add: recorder_rel_def)
next
  case False
  note R = rel[unfolded recorder_rel_def] and T = take_time_rel[OF rel]
  let ?e = "StateMemmove (ci_time r) src dst n"
  from step False T R obtain x m' where m': "tm_memmove src dst n (pl_TraceMemory (fst r)) = Some m'"
    and r': "r' = ((fst r)\<lparr>pl_Time := ci_time r, pl_InMemoryPointerObjects := x, pl_TraceMemory := m'\<rparr>,
      (snd r)\<lparr>tl_CIProcessTime := Some (ci_time r), tl_ProcessTime := ci_time r, tl_Events := tl_Events (snd r) @ [?e]\<rparr>)"
    by (auto simp: recordMemmove_def with_process_def with_memory_def copyInMemoryPointerObjects_def emit_timed_open
        bind_eq_Some_conv)
  have "shadow_legal (OpCopy src dst n) (pl_TraceMemory (fst r))" using False leg by (simp add: interval_ok_area)
  from shadow_step[OF recorder_rel_shadow(1)[OF rel] this] m' obtain s' where
    s': "addCopy src dst n (ps_Memory (fst w)) = Some s'" "shadow_rel m' s'" by auto
  define w1 where "w1 = set_times (ci_time r) ((fst w)\<lparr>ps_Memory := s'\<rparr>, snd w)"
  have "addEvent env (length (tl_Events (snd r))) ?e w = Some w1"
    using s' by (simp add: addEvent_def is_instruction_def addEvent_StateMemmove_def on_memory_def w1_def)
  moreover have "process_rel (env_Trace env) (fst r') (fst w1)" "listener_ok (fst r')"
    using R s' lens_memmove[OF recorder_rel_shadow(2)[OF rel] m']
    by (auto simp: process_rel_def w1_def set_times_def r' intro: listener_ok_same[of "fst r"])
  ultimately show ?thesis
    using R by (intro replays_event[OF rel tr, of ?e w1]) (simp_all add: r' is_subservient_def w1_def set_times_def)
qed

section \<open>Dynamic memory\<close>

lemma malloc_found:
  assumes "recorder_rel env r w"
  shows "rel_option malloc_rel (om_find (pl_DynamicMemoryAllocations (fst r)) a) (om_find (ps_Mallocs (fst w)) a)"
  using assms by (auto simp: recorder_rel_def process_rel_def intro: omap_rel_find)

lemma step_Allocate:
  assumes rel: "recorder_rel env r w" and ptr: "map_option snd (last_ptr (tl_Events (snd r))) = Some a"
    and fresh: "\<not> isCurrentDynamicMemoryAllocation a (fst r)" and fit: "unat a + unat n < 2 ^ 64"
    and step: "recordMalloc a n r = Some r'" and tr: "in_trace env (th_Events (snd w)) r'"
  shows "replays env r r' w"
proof -
  note R = rel[unfolded recorder_rel_def] and T = take_time_rel[OF rel]
  let ?e = "Malloc n (ci_time r)" and ?k = "length (tl_Events (snd r))"
  let ?d = "\<lparr>da_Thread = tl_ThreadID (snd r), da_Offset = ?k, da_Address = a, da_Size = n\<rparr>"
  from step T R fresh obtain m' x where m': "addAllocation a n (pl_TraceMemory (fst r)) = Some m'"
    and r': "r' = ((fst r)\<lparr>pl_Time := ci_time r, pl_TraceMemory := m',
        pl_DynamicMemoryAllocations := om_insert a ?d (pl_DynamicMemoryAllocations (fst r)), pl_RegionTemporalIDs := x\<rparr>,
      (snd r)\<lparr>tl_CIProcessTime := Some (ci_time r), tl_ProcessTime := ci_time r, tl_Events := tl_Events (snd r) @ [?e]\<rparr>)"
    by (auto simp: recordMalloc_def write_event_def with_process_def with_memory_def setCurrentDynamicMemoryAllocation_def
        isCurrentDynamicMemoryAllocation_def incrementRegionTemporalID_def Let_def bind_eq_Some_conv)
  from shadow_step[OF recorder_rel_shadow(1)[OF rel], of "OpAdd a n"] m' fit obtain s' where
    s': "allocationAdd a n (ps_Memory (fst w)) = Some s'" "shadow_rel m' s'" by auto
  have pp: "preceding_ptr (snd w) ?k = last_ptr (tl_Events (snd r))"
    by (rule preceding_ptr_written[OF tr, of _ ?e]) (simp_all add: r' ptr_instruction_def)
  from ptr obtain i where i: "last_ptr (tl_Events (snd r)) = Some (i, a)" by auto
  have fm: "om_find (ps_Mallocs (fst w)) a = None"
    using malloc_found[OF rel, of a] fresh by (simp add: isCurrentDynamicMemoryAllocation_def)
  let ?b = "last (th_CallStack (snd w))"
  define al where "al = allocator_of ?b (getInstruction i ?b)"
  have b: "back_fn (snd w) = Some ?b" using R by (simp add: back_fn_def)
  define w1 where "w1 = set_times (ci_time r) ((fst w)\<lparr>ps_Mallocs := om_insert a (new_MallocState a n al) (ps_Mallocs (fst w)),
      ps_Memory := s'\<rparr>, snd w)"
  have add: "addMalloc a n al (fst w) = (fst w)\<lparr>ps_Mallocs := om_insert a (new_MallocState a n al) (ps_Mallocs (fst w))\<rparr>"
    using fm by (simp add: addMalloc_def map_insert_fresh)
  have "addEvent_Malloc ?k n (ci_time r) w = Some w1"
    using s'(1) add unfolding al_def w1_def by (simp add: addEvent_Malloc_def split_beta pp i b on_memory_def Let_def)
  then have "addEvent env ?k ?e w = Some w1" by (simp add: addEvent_def is_instruction_def)
  moreover have "process_rel (env_Trace env) (fst r') (fst w1)"
    using R s' by (auto simp: process_rel_def w1_def set_times_def r' malloc_rel_def new_MallocState_def intro!: omap_rel_insert)
  moreover
  have L: "lens (pl_TraceMemory (fst r)) a = None" "lens m' = (lens (pl_TraceMemory (fst r)))(a \<mapsto> unat n)"
    using lens_add[OF recorder_rel_shadow(2)[OF rel] m'] by blast+
  have "listener_ok (fst r')"
    by (rule listener_ok_dynamic[of "fst r" _ a ?d]) (use R in \<open>simp_all add: r' L\<close>)
  ultimately show ?thesis
    using R by (intro replays_event[OF rel tr, of ?e w1]) (simp_all add: r' is_subservient_def w1_def set_times_def)
qed


lemma step_Free:
  assumes rel: "recorder_rel env r w" and step: "recordFree a r = Some (d, r')" and tr: "in_trace env (th_Events (snd w)) r'"
  shows "replays env r r' w"
proof -
  note R = rel[unfolded recorder_rel_def] and T = take_time_rel[OF rel]
  let ?e = "Free a (ci_time r)"
  from step T R obtain m' where d: "om_find (pl_DynamicMemoryAllocations (fst r)) a = Some d"
    and m': "removeAllocation a (pl_TraceMemory (fst r)) = Some m'"
    and r': "r' = ((fst r)\<lparr>pl_Time := ci_time r, pl_TraceMemory := m',
        pl_DynamicMemoryAllocations := om_erase a (pl_DynamicMemoryAllocations (fst r))\<rparr>,
      (snd r)\<lparr>tl_CIProcessTime := Some (ci_time r), tl_ProcessTime := ci_time r, tl_Events := tl_Events (snd r) @ [?e]\<rparr>)"
    by (auto simp: recordFree_def with_process_def with_memory_def getCurrentDynamicMemoryAllocation_def
        removeCurrentDynamicMemoryAllocation_def emit_timed_open Let_def bind_eq_Some_conv)
  from d R have len: "lens (pl_TraceMemory (fst r)) a = Some (unat (da_Size d))"
    by (auto simp: listener_ok_def dynamic_ok_def dest: om_all_find)
  obtain mal where mal: "om_find (ps_Mallocs (fst w)) a = Some mal" "mst_Size mal = da_Size d"
    using malloc_found[OF rel, of a] d by (auto simp: option_rel_Some1 malloc_rel_def)
  have "shadow_legal (OpRemove a (da_Size d)) (pl_TraceMemory (fst r))" using len by (simp add: lens_def)
  from shadow_step[OF recorder_rel_shadow(1)[OF rel] this] m' obtain s' where
    s': "allocationRemove a (da_Size d) (ps_Memory (fst w)) = Some s'" "shadow_rel m' s'" by auto
  define w1 where "w1 = set_times (ci_time r) ((fst w)\<lparr>ps_PreviousMallocs := ps_PreviousMallocs (fst w) @ [mal],
    ps_Mallocs := om_erase a (ps_Mallocs (fst w)), ps_Memory := s'\<rparr>, snd w)"
  have "addEvent_Free a (ci_time r) w = Some w1"
    using s'(1) mal unfolding w1_def by (simp add: addEvent_Free_def split_beta removeMalloc_def on_memory_def)
  then have "addEvent env (length (tl_Events (snd r))) ?e w = Some w1" by (simp add: addEvent_def is_instruction_def)
  moreover have "process_rel (env_Trace env) (fst r') (fst w1)"
    using R s' by (auto simp: process_rel_def w1_def set_times_def r' intro!: omap_rel_erase)
  moreover have L: "lens m' = (lens (pl_TraceMemory (fst r)))(a := None)" using lens_remove[OF m'] by blast
  have "listener_ok (fst r')"
    by (rule listener_ok_freed[of "fst r" a]) (use R d in \<open>simp_all add: r' L\<close>)
  ultimately show ?thesis
    using R by (intro replays_event[OF rel tr, of ?e w1]) (simp_all add: r' is_subservient_def w1_def set_times_def)
qed

text \<open>Clearing an area that overlaps no allocation changes nothing in the viewer.\<close>

lemma clear_nothing:
  assumes rel: "shadow_rel m s" and ap: "apart a n m" "om_find m a = None" and n: "n \<noteq> 0" "unat a + unat n < 2 ^ 64"
  shows "addClear (area a n) s = Some s"
proof (cases "om_before a (ms_Allocations s)")
  case (Some e)
  obtain k al where e: "e = (k, al)" by (cases e)
  from rel have wf: "om_wf m" "mem_wf s" "omap_rel shadow_of (ms_Allocations s) (om_filter non_empty m)"
    by (simp_all add: shadow_rel_def)
  from wf(2) Some e have f: "om_find (ms_Allocations s) k = Some al" "k \<le> a" and w: "entry_wf k al"
    by (auto simp: mem_wf_def om_before_Some_iff dest: om_all_find)
  from omap_rel_findE[OF wf(3) f(1)] obtain t where t: "om_find m k = Some t" "shadow_of al t"
    using wf(1) by (auto simp: om_find_filter_Some)
  have len: "length (tma_Shadow t) = unat (ma_Size al)" using shadow_of_length[OF t(2)] w by (simp add: entry_wf_def)
  have "(k, t) \<in> set m" using t(1) by (rule om_find_SomeD)
  moreover have "k \<noteq> a" using t(1) ap(2) by auto
  ultimately have "unat k + unat (ma_Size al) \<le> unat a \<or> unat a + unat n \<le> unat k"
    using ap(1) len by (auto simp: apart_def list_all_iff)
  moreover have "unat n \<noteq> 0" using n(1) by (simp add: unat_eq_0)
  moreover have "unat k \<le> unat a" using f(2) by (simp add: word_le_nat_alt)
  ultimately have "unat k + unat (ma_Size al) < unat a + unat n" by linarith
  moreover have "unat (k + ma_Size al) = unat k + unat (ma_Size al)" "unat (a + n) = unat a + unat n"
    using w n(2) by (simp_all add: entry_wf_def unat_add_no_wrap)
  ultimately have "\<not> a + n \<le> k + ma_Size al" by (simp add: word_le_nat_alt)
  then have "\<not> contains_interval (ma_area al) (area a n)"
    using w by (simp add: contains_interval_def entry_wf_def)
  with Some e show ?thesis by (simp add: addClear_def)
qed (simp add: addClear_def)

lemma step_Clear:
  assumes rel: "recorder_rel env r w" and ap: "apart a n (pl_TraceMemory (fst r))" "om_find (pl_TraceMemory (fst r)) a = None"
    and fit: "unat a + unat n < 2 ^ 64"
    and step: "recordStateClear a n r = Some r'" and tr: "in_trace env (th_Events (snd w)) r'"
  shows "replays env r r' w"
proof (cases "n = 0")
  case True
  with step have "r' = r" by (simp add: recordStateClear_def)
  with rel show ?thesis by (intro replays_idle) (simp_all add: recorder_rel_def)
next
  case False
  note R = rel[unfolded recorder_rel_def] and T = take_time_rel[OF rel]
  let ?e = "StateClear a (ci_time r) n"
  have r': "r' = ((fst r)\<lparr>pl_Time := ci_time r\<rparr>,
      (snd r)\<lparr>tl_CIProcessTime := Some (ci_time r), tl_ProcessTime := ci_time r, tl_Events := tl_Events (snd r) @ [?e]\<rparr>)"
    using step False T R by (auto simp: recordStateClear_def emit_timed_open)
  have "addEvent_StateClear a (ci_time r) n w = Some (set_times (ci_time r) w)"
    using clear_nothing[OF recorder_rel_shadow(1)[OF rel] ap False fit]
    by (simp add: addEvent_StateClear_def on_memory_def set_times_def)
  then have "addEvent env (length (tl_Events (snd r))) ?e w = Some (set_times (ci_time r) w)"
    by (simp add: addEvent_def is_instruction_def)
  moreover have "process_rel (env_Trace env) (fst r') (fst (set_times (ci_time r) w))" "listener_ok (fst r')"
    using R by (auto simp: process_rel_def set_times_def r' intro: listener_ok_same[of "fst r"])
  ultimately show ?thesis
    using R by (intro replays_event[OF rel tr, of ?e "set_times (ci_time r) w"]) (simp_all add: r' is_subservient_def set_times_def)
qed


text \<open>Operations that write several events, one after the other.\<close>

lemma forward_add: "forward env (m + n) w = forward env m w \<bind> forward env n"
  by (induction m arbitrary: w) (auto split: bind_splits)

lemma replays_trans:
  assumes "replays env r r1 w" and "length (tl_Events (snd r)) \<le> length (tl_Events (snd r1))"
    and "length (tl_Events (snd r1)) \<le> length (tl_Events (snd r'))"
    and "\<And>w1. recorder_rel env r1 w1 \<Longrightarrow> th_Events (snd w1) = th_Events (snd w) \<Longrightarrow> replays env r1 r' w1"
  shows "replays env r r' w"
proof -
  let ?l = "\<lambda>r. length (tl_Events (snd r))"
  from assms(1) obtain w1 where w1: "forward env (?l r1 - ?l r) w = Some w1" "recorder_rel env r1 w1"
    "th_Events (snd w1) = th_Events (snd w)" unfolding replays_def by blast
  from assms(4)[OF w1(2,3)] obtain w2 where w2: "forward env (?l r' - ?l r1) w1 = Some w2" "recorder_rel env r' w2"
    "th_Events (snd w2) = th_Events (snd w1)" unfolding replays_def by blast
  have "?l r' - ?l r = (?l r1 - ?l r) + (?l r' - ?l r1)" using assms(2,3) by simp
  then have "forward env (?l r' - ?l r) w = Some w2" using w1(1) w2(1) by (simp add: forward_add)
  with w1(3) w2(2,3) show ?thesis unfolding replays_def by auto
qed

lemma in_trace_before:
  assumes "in_trace env es r'" and "tl_Events (snd r') = tl_Events (snd r) @ xs" and "pl_DataOut (fst r') = pl_DataOut (fst r)"
  shows "in_trace env es r"
proof -
  have "take (length (tl_Events (snd r)) + length xs) es = tl_Events (snd r) @ xs"
    using assms(1,2) by (simp add: in_trace_def)
  then have "take (length (tl_Events (snd r))) es = tl_Events (snd r)"
    by (metis append_eq_conv_conj le_add1 min.absorb1 take_take)
  with assms show ?thesis by (simp add: in_trace_def)
qed

lemma recordFree_parts:
  assumes "recorder_rel env r w" and "recordFree a r = Some (d, r')"
  obtains m' where "om_find (pl_DynamicMemoryAllocations (fst r)) a = Some d" "da_Address d = a"
    and "pl_TraceMemory (fst r') = om_erase a (pl_TraceMemory (fst r))"
    and "tl_Events (snd r') = tl_Events (snd r) @ [Free a (ci_time r)]"
  using assms take_time_rel[OF assms(1)]
  by (auto simp: recordFree_def with_process_def with_memory_def getCurrentDynamicMemoryAllocation_def removeAllocation_def
      removeCurrentDynamicMemoryAllocation_def emit_timed_open Let_def bind_eq_Some_conv recorder_rel_def listener_ok_def
      dynamic_ok_def dest: om_all_find)

lemma step_Deallocate:
  assumes rel: "recorder_rel env r w" and leg: "legal_op env (Deallocate a) r w"
    and step: "recordFreeAndClear a r = Some r'" and tr: "in_trace env (th_Events (snd w)) r'"
  shows "replays env r r' w"
proof -
  from step obtain d r1 where f: "recordFree a r = Some (d, r1)" and c: "recordStateClear (da_Address d) (da_Size d) r1 = Some r'"
    by (auto simp: recordFreeAndClear_def bind_eq_Some_conv)
  obtain d: "om_find (pl_DynamicMemoryAllocations (fst r)) a = Some d" "da_Address d = a"
    and m: "pl_TraceMemory (fst r1) = om_erase a (pl_TraceMemory (fst r))"
    and ev: "tl_Events (snd r1) = tl_Events (snd r) @ [Free a (ci_time r)]"
    using recordFree_parts[OF rel f] by metis
  obtain xs where xs: "tl_Events (snd r') = tl_Events (snd r1) @ xs" "pl_DataOut (fst r') = pl_DataOut (fst r1)"
    using c by (auto simp: recordStateClear_def emit_timed_def emit_def write_event_def take_time_def getCIProcessTime_def
        getNewTime_def Let_def split: if_splits option.splits)
  have tr1: "in_trace env (th_Events (snd w)) r1" by (rule in_trace_before[OF tr xs])
  have ap: "apart a (da_Size d) (pl_TraceMemory (fst r1))" "om_find (pl_TraceMemory (fst r1)) a = None"
    and fit: "unat a + unat (da_Size d) < 2 ^ 64"
    using leg d by (auto simp: getCurrentDynamicMemoryAllocation_def m apart_def om_erase_def list_all_iff om_find_def
        map_of_eq_None_iff)
  show ?thesis
  proof (rule replays_trans[OF step_Free[OF rel f tr1]])
    fix w1 assume "recorder_rel env r1 w1" "th_Events (snd w1) = th_Events (snd w)"
    then show "replays env r1 r' w1" using step_Clear[OF _ ap fit] c tr d(2) by simp
  qed (simp_all add: ev xs(1))
qed


end
