(* ===== verification/RecorderGrowth.thy ===== *)
theory RecorderGrowth
  imports RecorderLaws
begin

text \<open>
  Recording operations only append to the events of the thread and to the data block of the process,
  and leave the list of standard streams alone: what has been recorded is a beginning of what will
  have been recorded.
\<close>

section \<open>What the recorder writes only grows\<close>

definition grows :: "Recorder \<Rightarrow> Recorder \<Rightarrow> bool" where
  "grows r r' \<longleftrightarrow> (\<exists>es. tl_Events (snd r') = tl_Events (snd r) @ es) \<and>
     (case pl_DataOut (fst r) of None \<Rightarrow> pl_DataOut (fst r') = None
      | Some d \<Rightarrow> \<exists>ds. pl_DataOut (fst r') = Some (d @ ds)) \<and>
     pl_StreamsInitial (fst r') = pl_StreamsInitial (fst r)"

lemma grows_same: "tl_Events (snd r') = tl_Events (snd r) \<Longrightarrow> pl_DataOut (fst r') = pl_DataOut (fst r) \<Longrightarrow>
  pl_StreamsInitial (fst r') = pl_StreamsInitial (fst r) \<Longrightarrow> grows r r'"
  by (auto simp: grows_def split: option.splits)

lemma grows_trans: "grows r r1 \<Longrightarrow> grows r1 r2 \<Longrightarrow> grows r r2"
  by (fastforce simp: grows_def split: option.splits)

lemma grows_emit: "grows r (emit e r)"
  by (auto simp: grows_def emit_def write_event_def split: option.splits)

lemma grows_write: "write_event e r = (k, r') \<Longrightarrow> grows r r'"
  using grows_emit[of r e] by (simp add: emit_def)

lemma grows_timed: "grows r (emit_timed f r)"
  by (simp add: emit_timed_def grows_emit)

lemma grows_take_time: "grows r (take_time r)"
  by (rule grows_same)
    (auto simp: take_time_def getCIProcessTime_def getNewTime_def Let_def split: option.splits)

lemma grows_record: "grows r (snd (record_data d r))"
  by (auto simp: grows_def record_data_def recordData_def split: option.splits)

lemma grows_process: "with_process f r = Some r' \<Longrightarrow> (\<And>p q. f p = Some q \<Longrightarrow> pl_DataOut q = pl_DataOut p \<and> pl_StreamsInitial q = pl_StreamsInitial p) \<Longrightarrow> grows r r'"
  by (rule grows_same) (auto simp: with_process_def bind_eq_Some_conv)

lemma with_memory_data: "with_memory f p = Some q \<Longrightarrow> pl_DataOut q = pl_DataOut p \<and> pl_StreamsInitial q = pl_StreamsInitial p"
  by (auto simp: with_memory_def bind_eq_Some_conv)

lemma grows_active: "on_active f r = Some r' \<Longrightarrow> grows r r'"
  by (rule grows_same) (auto simp: on_active_def bind_eq_Some_conv Let_def)

lemma take_prefix: "take (length xs + k) es = xs @ ys \<Longrightarrow> take (length xs) es = xs"
  by (metis append_eq_conv_conj le_add1 min.absorb1 take_take)

lemma in_trace_grows:
  assumes "in_trace env es r'" and "grows r r'"
  shows "in_trace env es r" and "length (tl_Events (snd r)) \<le> length (tl_Events (snd r'))"
proof -
  from assms(2) obtain xs where xs: "tl_Events (snd r') = tl_Events (snd r) @ xs" by (auto simp: grows_def)
  then show "length (tl_Events (snd r)) \<le> length (tl_Events (snd r'))" by simp
  have "take (length (tl_Events (snd r))) es = tl_Events (snd r)"
    using assms(1) xs by (intro take_prefix[of _ "length xs" es xs]) (simp add: in_trace_def)
  moreover obtain d ds where d: "pl_DataOut (fst r) = Some d" "pl_DataOut (fst r') = Some (d @ ds)"
    using assms by (auto simp: in_trace_def grows_def split: option.splits)
  moreover have "take (length d) (pt_Data (env_Trace env)) = d"
    using assms(1) d by (intro take_prefix[of _ "length ds" _ ds]) (simp add: in_trace_def)
  ultimately show "in_trace env es r" using assms(1) xs by (simp add: in_trace_def)
qed

lemmas grows_intros = grows_emit grows_timed grows_take_time grows_record

lemma setCurrent_data: "setCurrentDynamicMemoryAllocation a th off n p = Some q \<Longrightarrow> pl_DataOut q = pl_DataOut p \<and> pl_StreamsInitial q = pl_StreamsInitial p"
  by (auto simp: setCurrentDynamicMemoryAllocation_def incrementRegionTemporalID_def bind_eq_Some_conv
      split: option.splits dest!: with_memory_data)

lemma grows_malloc: "recordMalloc a n r = Some r' \<Longrightarrow> grows r r'"
  unfolding recordMalloc_def Let_def split_beta
  by (rule grows_trans[OF grows_trans[OF grows_take_time grows_write[OF surjective_pairing]]])
    (erule grows_process, erule setCurrent_data)

lemma grows_realloc: "recordRealloc a n r = Some r' \<Longrightarrow> grows r r'"
proof -
  assume "recordRealloc a n r = Some r'"
  then obtain f d th off m r3 r4 where
    "with_process (with_memory f) (emit_timed (Realloc a m n) (take_time r)) = Some r3"
    "with_process (setCurrentDynamicMemoryAllocation d th off n) r3 = Some r4"
    "with_process (\<lambda>p. Some (incrementRegionTemporalID a p)) r4 = Some r'"
    by (auto simp: recordRealloc_def Let_def bind_eq_Some_conv)
  note s = this
  have "grows (emit_timed (Realloc a m n) (take_time r)) r3" using s(1) by (rule grows_process) (rule with_memory_data)
  moreover have "grows r3 r4" using s(2) by (rule grows_process) (rule setCurrent_data)
  moreover have "grows r4 r'" using s(3) by (rule grows_process) (auto simp: incrementRegionTemporalID_def)
  ultimately show ?thesis by (metis grows_trans grows_take_time grows_timed)
qed

lemma grows_clear: "recordStateClear a n r = Some r' \<Longrightarrow> grows r r'"
  by (auto simp: recordStateClear_def grows_same intro!: grows_trans[OF grows_take_time grows_timed] split: if_splits)

lemma grows_free: "recordFree a r = Some (d, r') \<Longrightarrow> grows r r'"
proof -
  assume "recordFree a r = Some (d, r')"
  then have "with_process (\<lambda>p. map_option fst (removeCurrentDynamicMemoryAllocation a p)) (emit_timed (Free a) (take_time r)) = Some r'"
    by (auto simp: recordFree_def Let_def bind_eq_Some_conv)
  then have "grows (emit_timed (Free a) (take_time r)) r'"
    by (rule grows_process) (auto simp: removeCurrentDynamicMemoryAllocation_def bind_eq_Some_conv dest: with_memory_data)
  then show ?thesis by (metis grows_trans grows_take_time grows_timed)
qed

lemma grows_store: "recordUntypedState a d r = Some r' \<Longrightarrow> grows r r'"
proof (cases "d = []")
  case False
  assume "recordUntypedState a d r = Some r'"
  with False obtain r1 where r1: "with_process (with_memory (tm_add a (of_nat (length d)))) (take_time r) = Some r1"
    and r': "\<exists>f. r' = emit_timed f r1 \<or> r' = emit_timed f (snd (record_data d r1))"
    by (auto simp: recordUntypedState_def Let_def bind_eq_Some_conv split_beta split: if_splits)
  have "grows (take_time r) r1" using r1 by (rule grows_process) (rule with_memory_data)
  moreover have "grows r1 r'" using r' by (metis grows_trans grows_record grows_timed)
  ultimately show ?thesis by (metis grows_trans grows_take_time)
qed (simp add: recordUntypedState_def grows_same)

lemma grows_move: "recordMemmove src dst n r = Some r' \<Longrightarrow> grows r r'"
proof (cases "n = 0")
  case False
  assume "recordMemmove src dst n r = Some r'"
  with False obtain r1 r2 where "with_process (copyInMemoryPointerObjects src dst n) (take_time r) = Some r1"
    "with_process (with_memory (tm_memmove src dst n)) r1 = Some r2" "r' = emit_timed (\<lambda>t. StateMemmove t src dst n) r2"
    by (auto simp: recordMemmove_def bind_eq_Some_conv)
  note s = this
  have a: "grows (take_time r) r1" using s(1) by (rule grows_process) (auto simp: copyInMemoryPointerObjects_def bind_eq_Some_conv)
  have b: "grows r1 r2" using s(2) by (rule grows_process) (rule with_memory_data)
  have "grows r2 r'" unfolding s(3) by (rule grows_timed)
  then show ?thesis by (rule grows_trans[OF grows_take_time grows_trans[OF a grows_trans[OF b]]])
qed (simp add: recordMemmove_def grows_same)


lemma grows_alloca: "record_alloca i v n count r = Some r' \<Longrightarrow> grows r r'"
proof -
  assume "record_alloca i v n count r = Some r'"
  then obtain c f g r2 r4 r6 where
    "on_active f (emit (Alloca n c) r) = Some r2"
    "(if 0 < n * c then with_process (with_memory (addAllocation v (n * c))) (acquireGlobalMemoryLock r2)
      else Some (acquireGlobalMemoryLock r2)) = Some r4"
    "on_active g (incrementRegionTemporalID v (fst r4), snd r4) = Some r6" "r' = unlockGlobalMemory r6"
    by (auto simp: record_alloca_def emit_def split_beta Let_def bind_eq_Some_conv)
  note s = this
  have a: "grows (emit (Alloca n c) r) r2" using s(1) by (rule grows_active)
  have b: "grows r2 (acquireGlobalMemoryLock r2)" by (rule grows_same) (simp_all add: acquireGlobalMemoryLock_def)
  have c: "grows (acquireGlobalMemoryLock r2) r4"
    using s(2) by (auto intro: grows_same elim!: grows_process split: if_splits dest: with_memory_data)
  have d: "grows r4 (incrementRegionTemporalID v (fst r4), snd r4)" by (rule grows_same) (simp_all add: incrementRegionTemporalID_def)
  have "grows (incrementRegionTemporalID v (fst r4), snd r4) r'"
    unfolding s(4) by (rule grows_trans[OF grows_active[OF s(3)] grows_same]) (simp_all add: unlockGlobalMemory_def)
  then show ?thesis by (rule grows_trans[OF grows_emit grows_trans[OF a grows_trans[OF b grows_trans[OF c grows_trans[OF d]]]]])
qed

lemma grows_add_region: "tl_addKnownMemoryRegion a n access r = Some r' \<Longrightarrow> grows r r'"
proof -
  assume "tl_addKnownMemoryRegion a n access r = Some r'"
  then obtain r1 where r1: "with_process (pl_addKnownMemoryRegion a n access) r = Some r1"
    and r': "r' = emit (KnownRegionAdd a n (readable access) (writable access)) r1"
    by (auto simp: tl_addKnownMemoryRegion_def bind_eq_Some_conv)
  have "grows r r1" using r1
    by (rule grows_process) (auto simp: pl_addKnownMemoryRegion_def incrementRegionTemporalID_def bind_eq_Some_conv dest: with_memory_data)
  then show ?thesis unfolding r' by (rule grows_trans) (rule grows_emit)
qed

lemma grows_remove_region: "tl_removeKnownMemoryRegion a r = Some (res, r') \<Longrightarrow> grows r r'"
proof -
  assume "tl_removeKnownMemoryRegion a r = Some (res, r')"
  then consider "r' = r" | p res' e where "pl_removeKnownMemoryRegion a (fst r) = Some (p, res')"
      "r' = (p, snd r) \<or> r' = emit e (p, snd r)"
    by (auto simp: tl_removeKnownMemoryRegion_def Let_def bind_eq_Some_conv split: if_splits)
  then show ?thesis
  proof cases
    case 2
    then have "grows r (p, snd r)"
      by (intro grows_same) (auto simp: pl_removeKnownMemoryRegion_def Let_def bind_eq_Some_conv dest: with_memory_data)
    then show ?thesis using 2(2) grows_trans[OF _ grows_emit] by blast
  qed (simp add: grows_same)
qed

lemma grows_locks: "grows r (acquireStreamsLock r)" "grows r (acquireDirsLock r)"
  by (rule grows_same; simp add: acquireStreamsLock_def acquireDirsLock_def)+

lemma grows_open_stream: "grows r (recordStreamOpen fp name mode r)"
proof -
  define r1 where "r1 = take_time (acquireStreamsLock r)"
  define r2 where "r2 = snd (record_data name r1)"
  define r3 where "r3 = snd (record_data mode r2)"
  let ?r4 = "((fst r3)\<lparr>pl_Streams := streamOpened fp (fst (record_data name r1)) (fst (record_data mode r2)) (pl_Streams (fst r3))\<rparr>, snd r3)"
  have "grows r r1" unfolding r1_def by (rule grows_trans[OF grows_locks(1) grows_take_time])
  moreover have "grows r1 r2" "grows r2 r3" by (simp_all add: r2_def r3_def grows_record)
  moreover have "grows r3 ?r4" by (rule grows_same) simp_all
  moreover have "grows ?r4 (recordStreamOpen fp name mode r)"
    by (simp add: recordStreamOpen_def r1_def r2_def r3_def split_beta Let_def grows_timed)
  ultimately show ?thesis using grows_trans by blast
qed

lemma grows_write_stream: "grows r (recordStreamWrite fp d r)"
  by (simp add: recordStreamWrite_def split_beta)
    (rule grows_trans[OF grows_take_time grows_trans[OF grows_record grows_timed]])

lemma grows_write_memory: "grows r (recordStreamWriteFromMemory fp m r)"
  by (simp add: recordStreamWriteFromMemory_def) (rule grows_trans[OF grows_take_time grows_timed])

lemma grows_close_stream: "recordStreamClose fp r = Some (res, r') \<Longrightarrow> grows r r'"
proof -
  assume "recordStreamClose fp r = Some (res, r')"
  then consider "r' = take_time (acquireStreamsLock r)"
    | f ss where "r' = ((fst (emit_timed f (take_time (acquireStreamsLock r))))\<lparr>pl_Streams := ss\<rparr>,
        snd (emit_timed f (take_time (acquireStreamsLock r))))"
    by (auto simp: recordStreamClose_def Let_def bind_eq_Some_conv split: option.splits)
  then show ?thesis
  proof cases
    case 2
    then have "grows (emit_timed f (take_time (acquireStreamsLock r))) r'" by (intro grows_same) simp_all
    then show ?thesis by (rule grows_trans[OF grows_locks(1) grows_trans[OF grows_take_time grows_trans[OF grows_timed]]])
  qed (simp add: grows_trans[OF grows_locks(1) grows_take_time])
qed

lemma grows_open_dir: "grows r (recordDirOpen d name r)"
proof -
  define r1 where "r1 = take_time (acquireDirsLock r)"
  define r2 where "r2 = snd (record_data name r1)"
  let ?r3 = "((fst r2)\<lparr>pl_Dirs := DIROpened d (fst (record_data name r1)) (pl_Dirs (fst r2))\<rparr>, snd r2)"
  have "grows r r1" unfolding r1_def by (rule grows_trans[OF grows_locks(2) grows_take_time])
  moreover have "grows r1 r2" by (simp add: r2_def grows_record)
  moreover have "grows r2 ?r3" by (rule grows_same) simp_all
  moreover have "grows ?r3 (recordDirOpen d name r)"
    by (simp add: recordDirOpen_def r1_def r2_def split_beta Let_def grows_timed)
  ultimately show ?thesis using grows_trans by blast
qed

lemma grows_close_dir: "recordDirClose d r = Some (res, r') \<Longrightarrow> grows r r'"
proof -
  assume "recordDirClose d r = Some (res, r')"
  then consider "r' = take_time (acquireDirsLock r)"
    | f ds where "r' = ((fst (emit_timed f (take_time (acquireDirsLock r))))\<lparr>pl_Dirs := ds\<rparr>,
        snd (emit_timed f (take_time (acquireDirsLock r))))"
    by (auto simp: recordDirClose_def Let_def bind_eq_Some_conv split: option.splits)
  then show ?thesis
  proof cases
    case 2
    then have "grows (emit_timed f (take_time (acquireDirsLock r))) r'" by (intro grows_same) simp_all
    then show ?thesis by (rule grows_trans[OF grows_locks(2) grows_trans[OF grows_take_time grows_trans[OF grows_timed]]])
  qed (simp add: grows_trans[OF grows_locks(2) grows_take_time])
qed

lemma rec_step_grows: "rec_step x r = Some r' \<Longrightarrow> grows r r'"
proof (cases x)
  case EndNotification
  assume "rec_step x r = Some r'"
  with EndNotification show ?thesis
    by (intro grows_same)
      (auto simp: exitPostNotification_def exitNotification_def clearCI_def unlock_all_def tl_traceClose_def Let_def)
next
  case LockMemory
  assume "rec_step x r = Some r'"
  with LockMemory show ?thesis by (intro grows_same) (auto simp: acquireGlobalMemoryLock_def)
next
  case (Deallocate a)
  assume "rec_step x r = Some r'"
  with Deallocate obtain d r1 where "recordFree a r = Some (d, r1)" "recordStateClear (da_Address d) (da_Size d) r1 = Some r'"
    by (auto simp: recordFreeAndClear_def bind_eq_Some_conv)
  then show ?thesis by (blast intro: grows_trans grows_free grows_clear)
qed (auto intro: grows_emit grows_alloca grows_malloc grows_realloc grows_store grows_move grows_add_region
      grows_remove_region grows_open_stream grows_write_stream grows_write_memory grows_close_stream grows_open_dir
      grows_close_dir)

end
