(* ===== verification/RecorderRuns.thy ===== *)
theory RecorderRuns
  imports RecorderGrowth
begin

text \<open>
  Replaying what the recorder writes, operation by operation: one lemma for each recording operation
  (reallocations, known regions, stack allocations, the thread's own events, streams and
  directories; the memory operations are in \<open>RecorderLaws\<close>), and runs of operations. The locale \<open>recording\<close> is the contract between a recorder that
  writes any number of events for an operation and a viewer that moves over them one by one.
\<close>

section \<open>Reallocation\<close>

text \<open>
  A reallocation clears the bytes that are cut off, and resizes the allocation twice. The allocation
  ends up with its new size and the initialisation of the bytes it keeps.
\<close>

lemma resized_after_clear:
  assumes wf: "om_wf m" and t: "om_find m a = Some t" "tma_Address t = a" "length (tma_Shadow t) = unat old"
    and ap: "apart a old m" and fit: "unat a + unat old < 2 ^ 64"
    and m1: "(if new < old then tm_clear (a + new) (old - new) m else Some m) = Some m1"
  shows "resizeAllocation a new m1 = Some (om_insert a (tma_resize new t) m)"
proof (cases "new < old")
  case False
  with m1 t(1) show ?thesis by (simp add: resizeAllocation_def)
next
  case True
  then have lt: "unat new < unat old" by (simp add: word_less_nat_alt)
  then have an: "unat (a + new) = unat a + unat new" "a \<le> a + new"
    using fit by (simp_all add: unat_add_no_wrap le_add_no_wrap)
  have "b \<le> a" if "b \<in> dom (om_find m)" "b \<le> a + new" for b
  proof -
    from that obtain u where "(b, u) \<in> set m" by (auto dest: om_find_SomeD)
    with ap have "b = a \<or> unat b + length (tma_Shadow u) \<le> unat a \<or> unat a + unat old \<le> unat b"
      by (auto simp: apart_def list_all_iff)
    with that(2) an lt show ?thesis by (auto simp: word_le_nat_alt)
  qed
  with wf t(1) an(2) have b: "om_before (a + new) m = Some (a, t)" by (auto simp: om_before_Some_iff)
  have "tm_clear (a + new) (old - new) m = Some m1" using m1 True by simp
  then obtain sh where m1': "m1 = om_insert a (t\<lparr>tma_Shadow := sh\<rparr>) m"
    and sh: "overwrite (unat (a + new - a)) (replicate (unat (old - new)) getUninitializedByte) (tma_Shadow t) = Some sh"
    using t(2) b by (auto simp: tm_clear_def fill_shadow_def getAllocationContaining_def getAllocationAtOrPreceding_def
        getShadowAt_def bind_eq_Some_conv)
  have "vector_resize (unat new) getUninitializedByte sh = vector_resize (unat new) getUninitializedByte (tma_Shadow t)"
    using sh lt t(3) by (intro nth_equalityI) (auto simp: nth_vector_resize nth_overwrite length_overwrite)
  then have "tma_resize new (t\<lparr>tma_Shadow := sh\<rparr>) = tma_resize new t" by (simp add: tma_resize_def)
  then show ?thesis using wf m1' by (simp add: resizeAllocation_def om_find_insert om.insert_insert)
qed

lemma fst_emit_timed: "tl_Open (snd r) \<Longrightarrow> fst (emit_timed f r) = fst r"
  by (simp add: emit_timed_open)

lemma resize_twice:
  assumes "om_wf m"
  shows "resizeAllocation a n (om_insert a (tma_resize n t) m) = Some (om_insert a (tma_resize n t) m)"
proof -
  have "tma_resize n (tma_resize n t) = tma_resize n t"
    using vector_resize_same[of "vector_resize (unat n) getUninitializedByte (tma_Shadow t)" getUninitializedByte]
    by (simp add: tma_resize_def length_vector_resize)
  with assms show ?thesis by (simp add: resizeAllocation_def om_find_insert om.insert_insert)
qed

lemma step_Reallocate:
  assumes rel: "recorder_rel env r w" and leg: "legal_op env (Reallocate a n) r w"
    and step: "recordRealloc a n r = Some r'" and tr: "in_trace env (th_Events (snd w)) r'"
  shows "replays env r r' w"
proof -
  note R = rel[unfolded recorder_rel_def] and T = take_time_rel[OF rel]
  let ?m = "pl_TraceMemory (fst r)"
  have wf: "om_wf ?m" and ad: "om_all (\<lambda>k t. tma_Address t = k) ?m" using recorder_rel_shadow(1)[OF rel] by (simp_all add: shadow_rel_def)
  from step obtain d where d: "om_find (pl_DynamicMemoryAllocations (fst r)) a = Some d"
    by (auto simp: recordRealloc_def getCurrentDynamicMemoryAllocation_def bind_eq_Some_conv)
  then have D: "da_Address d = a" "lens ?m a = Some (unat (da_Size d))"
    using R by (auto simp: listener_ok_def dynamic_ok_def dest: om_all_find)
  then obtain t where t: "om_find ?m a = Some t" "length (tma_Shadow t) = unat (da_Size d)" "tma_Address t = a"
    using ad by (auto simp: lens_def tma_getLength_def dest: om_all_find)
  have L: "unat a + unat (da_Size d) < 2 ^ 64" "unat a + unat n < 2 ^ 64" "apart a (da_Size d) ?m"
    using leg d by (simp_all add: getCurrentDynamicMemoryAllocation_def)
  have op: "tl_Open (snd r)" using R by simp
  let ?e = "Realloc a (da_Size d) n (ci_time r)" and ?m' = "om_insert a (tma_resize n t) ?m"
  let ?d = "da_update (da_Thread d) (da_Offset d) n d"
  have re: "resizeAllocation a n m1 = Some ?m'"
    if "(if n < da_Size d then tm_clear (a + n) (da_Size d - n) ?m else Some ?m) = Some m1" for m1
    using resized_after_clear[OF wf t(1,3,2) L(3,1) that] .
  have tw: "resizeAllocation a n ?m' = Some ?m'" using resize_twice[OF wf] .
  obtain m1 where m1: "(if n < da_Size d then tm_clear (a + n) (da_Size d - n) ?m else Some ?m) = Some m1"
    using step T op d D
    by (cases "if n < da_Size d then tm_clear (a + n) (da_Size d - n) ?m else Some ?m")
      (simp_all add: recordRealloc_def with_process_def with_memory_def getCurrentDynamicMemoryAllocation_def fst_emit_timed Let_def cong: if_cong)
  obtain x where
    r': "r' = ((fst r)\<lparr>pl_Time := ci_time r, pl_TraceMemory := ?m',
        pl_DynamicMemoryAllocations := om_insert a ?d (pl_DynamicMemoryAllocations (fst r)), pl_RegionTemporalIDs := x\<rparr>,
      (snd r)\<lparr>tl_CIProcessTime := Some (ci_time r), tl_ProcessTime := ci_time r, tl_Events := tl_Events (snd r) @ [?e]\<rparr>)"
    using step T op d D m1 re[OF m1] tw
    by (simp add: recordRealloc_def with_process_def with_memory_def setCurrentDynamicMemoryAllocation_def
        getCurrentDynamicMemoryAllocation_def incrementRegionTemporalID_def fst_emit_timed Let_def cong: if_cong)
      (auto simp: emit_timed_open)
  have "shadow_legal (OpResize a (da_Size d) n) ?m" using L t by (simp add: tma_getLength_def)
  from shadow_step[OF recorder_rel_shadow(1)[OF rel] this, of ?m'] t(1) obtain s' where
    s': "allocationResize a (da_Size d) n (ps_Memory (fst w)) = Some s'" "shadow_rel ?m' s'"
    by (auto simp: resizeAllocation_def)
  obtain mal where mal: "om_find (ps_Mallocs (fst w)) a = Some mal" "mst_Address mal = a"
    using malloc_found[OF rel, of a] d D(1) by (auto simp: option_rel_Some1 malloc_rel_def)
  let ?b = "last (th_CallStack (snd w))"
  define mal' where "mal' = setSize n (pushAllocator (allocator_of ?b (getActiveInstruction ?b)) mal)"
  have b: "back_fn (snd w) = Some ?b" using R by (simp add: back_fn_def)
  define w1 where "w1 = set_times (ci_time r) ((fst w)\<lparr>ps_Mallocs := om_insert a mal' (ps_Mallocs (fst w)), ps_Memory := s'\<rparr>, snd w)"
  have "addEvent_Realloc a (da_Size d) n (ci_time r) w = Some w1"
    using s'(1) mal b unfolding w1_def mal'_def by (simp add: addEvent_Realloc_def split_beta on_memory_def Let_def)
  then have "addEvent env (length (tl_Events (snd r))) ?e w = Some w1" by (simp add: addEvent_def is_instruction_def)
  moreover have "process_rel (env_Trace env) (fst r') (fst w1)"
    using R s' mal D by (auto simp: process_rel_def w1_def set_times_def r' malloc_rel_def mal'_def setSize_def pushAllocator_def
        da_update_def intro!: omap_rel_insert)
  moreover
  have M: "lens ?m' = (lens ?m)(a \<mapsto> unat n)"
    using wf by (auto simp: lens_def fun_eq_iff om_find_insert tma_getLength_def tma_resize_def)
  have "listener_ok (fst r')"
    by (rule listener_ok_dynamic[of "fst r" _ a ?d]) (use R d D in \<open>simp_all add: r' M da_update_def\<close>)
  ultimately show ?thesis
    using R by (intro replays_event[OF rel tr, of ?e w1]) (simp_all add: r' is_subservient_def w1_def set_times_def)
qed


section \<open>Known regions and stack allocations\<close>

lemma region_permission_of: "region_permission (readable access) (writable access) = access"
  by (cases access) (simp_all add: region_permission_def readable_def writable_def)

lemma step_AddRegion:
  assumes rel: "recorder_rel env r w" and fit: "unat a + unat n < 2 ^ 64"
    and step: "tl_addKnownMemoryRegion a n access r = Some r'" and tr: "in_trace env (th_Events (snd w)) r'"
  shows "replays env r r' w"
proof -
  note R = rel[unfolded recorder_rel_def]
  let ?e = "KnownRegionAdd a n (readable access) (writable access)"
  let ?km = "fst (imv_insert a (a + (n - 1)) access (pl_KnownMemory (fst r)))"
  have op: "tl_Open (snd r)" using R by simp
  from step op obtain m' x where m': "addAllocation a n (pl_TraceMemory (fst r)) = Some m'"
    and r': "r' = ((fst r)\<lparr>pl_TraceMemory := m', pl_KnownMemory := ?km, pl_RegionTemporalIDs := x\<rparr>,
      (snd r)\<lparr>tl_Events := tl_Events (snd r) @ [?e]\<rparr>)"
    by (auto simp: tl_addKnownMemoryRegion_def pl_addKnownMemoryRegion_def with_process_def with_memory_def
        incrementRegionTemporalID_def emit_open bind_eq_Some_conv)
  from shadow_step[OF recorder_rel_shadow(1)[OF rel], of "OpAdd a n"] m' fit obtain s' where
    s': "allocationAdd a n (ps_Memory (fst w)) = Some s'" "shadow_rel m' s'" by auto
  define w1 where "w1 = ((fst w)\<lparr>ps_KnownMemory := ?km, ps_Memory := s'\<rparr>, snd w)"
  have km: "pl_KnownMemory (fst r) = ps_KnownMemory (fst w)" using R by (simp add: process_rel_def)
  have "addEvent_KnownRegionAdd a n (readable access) (writable access) w = Some w1"
    using s'(1) by (simp add: addEvent_KnownRegionAdd_def region_permission_of addKnownMemory_def on_memory_def w1_def km)
  then have "addEvent env (length (tl_Events (snd r))) ?e w = Some w1" by (simp add: addEvent_def is_instruction_def)
  moreover have "process_rel (env_Trace env) (fst r') (fst w1)"
    using R s' by (simp add: process_rel_def w1_def r')
  moreover have "listener_ok (fst r')"
    by (rule listener_ok_known[of "fst r" a _ n access])
      (use R lens_add[OF recorder_rel_shadow(2)[OF rel] m'] in \<open>simp_all add: r'\<close>)
  ultimately show ?thesis
    using R by (intro replays_event[OF rel tr, of ?e w1]) (simp_all add: r' is_subservient_def w1_def)
qed

lemma step_RemoveRegion:
  assumes rel: "recorder_rel env r w" and leg: "legal_op env (RemoveRegion a) r w"
    and step: "tl_removeKnownMemoryRegion a r = Some (res, r')" and tr: "in_trace env (th_Events (snd w)) r'"
  shows "replays env r r' w"
proof -
  note R = rel[unfolded recorder_rel_def]
  let ?km = "pl_KnownMemory (fst r)"
  define it where "it = imv_find a ?km"
  have op: "tl_Open (snd r)" using R by simp
  show ?thesis
  proof (cases "it < length ?km")
    case False
    with step have "r' = r" by (auto simp: tl_removeKnownMemoryRegion_def it_def)
    with rel show ?thesis by (intro replays_idle) (simp_all add: recorder_rel_def)
  next
    case True
    define n where "n = (item_End (?km ! it) - item_Begin (?km ! it)) + 1"
    define access where "access = item_Value (?km ! it)"
    have b: "item_Begin (?km ! it) = a" using leg True by (simp add: it_def Let_def)
    let ?e = "KnownRegionRemove a n (readable access) (writable access)"
    have er: "imv_erase a ?km = (imv_erase_at it ?km, 1)" using True by (simp add: imv_erase_def it_def Let_def)
    have "\<exists>m'. removeAllocation a (pl_TraceMemory (fst r)) = Some m' \<and>
        r' = ((fst r)\<lparr>pl_TraceMemory := m', pl_KnownMemory := imv_erase_at it ?km\<rparr>,
          (snd r)\<lparr>tl_Events := tl_Events (snd r) @ [?e]\<rparr>)"
      using step True op b er
      by (auto simp: tl_removeKnownMemoryRegion_def pl_removeKnownMemoryRegion_def with_memory_def emit_open
          bind_eq_Some_conv Let_def it_def[symmetric] n_def access_def)
    then obtain m' where m': "removeAllocation a (pl_TraceMemory (fst r)) = Some m'"
      and r': "r' = ((fst r)\<lparr>pl_TraceMemory := m', pl_KnownMemory := imv_erase_at it ?km\<rparr>,
          (snd r)\<lparr>tl_Events := tl_Events (snd r) @ [?e]\<rparr>)" by blast
    have len: "lens (pl_TraceMemory (fst r)) a = Some (unat n)"
      using R True b nth_mem[OF True] by (auto simp: listener_ok_def known_ok_def n_def)
    then have "shadow_legal (OpRemove a n) (pl_TraceMemory (fst r))" by (simp add: lens_def)
    from shadow_step[OF recorder_rel_shadow(1)[OF rel] this] m' obtain s' where
      s': "allocationRemove a n (ps_Memory (fst w)) = Some s'" "shadow_rel m' s'" by auto
    define w1 where "w1 = ((fst w)\<lparr>ps_KnownMemory := imv_erase_at it ?km, ps_Memory := s'\<rparr>, snd w)"
    have km: "?km = ps_KnownMemory (fst w)" using R by (simp add: process_rel_def)
    have "addEvent_KnownRegionRemove a n w = Some w1"
      using s'(1) er by (simp add: addEvent_KnownRegionRemove_def removeKnownMemory_def on_memory_def w1_def km)
    then have "addEvent env (length (tl_Events (snd r))) ?e w = Some w1" by (simp add: addEvent_def is_instruction_def)
    moreover have "process_rel (env_Trace env) (fst r') (fst w1)"
      using R s' by (simp add: process_rel_def w1_def r')
    moreover have "listener_ok (fst r')"
      by (rule listener_ok_unknown[of "fst r" it a])
        (use R True b lens_remove[OF m'] in \<open>simp_all add: r'\<close>)
    ultimately show ?thesis
      using R by (intro replays_event[OF rel tr, of ?e w1]) (simp_all add: r' is_subservient_def w1_def)
  qed
qed



lemma on_back_parts: "on_back f th = Some th' \<Longrightarrow>
  th_Events th' = th_Events th \<and> th_ProcessTime th' = th_ProcessTime th \<and> th_CallStack th' \<noteq> [] \<and>
  th_NextEvent th' = th_NextEvent th"
  by (auto simp: on_back_def bind_eq_Some_conv)

lemma emit_alloca:
  assumes "tl_Open (snd r)" and "record_alloca i v n (OpConstantInt c) r = Some r'"
  obtains m' x fs where
    "(if 0 < n * c then addAllocation v (n * c) (pl_TraceMemory (fst r)) else Some (pl_TraceMemory (fst r))) = Some m'"
    and "r' = ((fst r)\<lparr>pl_TraceMemory := m', pl_RegionTemporalIDs := x\<rparr>,
      (snd r)\<lparr>tl_Events := tl_Events (snd r) @ [Alloca n c], tl_FunctionStack := fs, tl_GlobalMemoryLock := False\<rparr>)"
proof -
  let ?m = "if 0 < n * c then addAllocation v (n * c) (pl_TraceMemory (fst r)) else Some (pl_TraceMemory (fst r))"
  have fs: "tl_FunctionStack (snd r) \<noteq> []"
    using assms(2) by (auto simp: record_alloca_def active_function_def split: if_splits)
  note defs = record_alloca_def active_function_def operand_unsigned_def write_event_def on_active_def
    acquireGlobalMemoryLock_def with_process_def with_memory_def incrementRegionTemporalID_def unlockGlobalMemory_def Let_def
  obtain m' where m': "?m = Some m'"
    using assms fs by (cases "0 < n * c"; cases "addAllocation v (n * c) (pl_TraceMemory (fst r))") (simp_all add: defs)
  define p where "p = incrementRegionTemporalID v ((fst r)\<lparr>pl_TraceMemory := m'\<rparr>)"
  define f where "f = setInstructionObject i (makePointerObject v p) (addAlloca \<lparr>ta_Instruction = i, ta_Address = v,
    ta_ElementSize = n, ta_ElementCount = c, ta_EventOffset = length (tl_Events (snd r))\<rparr> (last (tl_FunctionStack (snd r))))"
  have "record_alloca i v n (OpConstantInt c) r = Some (p,
      (snd r)\<lparr>tl_Events := tl_Events (snd r) @ [Alloca n c], tl_FunctionStack := butlast (tl_FunctionStack (snd r)) @ [f],
        tl_GlobalMemoryLock := False\<rparr>)"
  proof (cases "0 < n * c")
    case True
    then show ?thesis using assms(1) fs m' by (simp add: defs f_def p_def)
  next
    case False
    then have "pl_TraceMemory (fst r) = m'" using m' by simp
    then have "(fst r)\<lparr>pl_TraceMemory := m'\<rparr> = fst r" by auto
    with False show ?thesis using assms(1) fs by (simp add: defs f_def p_def)
  qed
  then have "r' = (p, (snd r)\<lparr>tl_Events := tl_Events (snd r) @ [Alloca n c],
      tl_FunctionStack := butlast (tl_FunctionStack (snd r)) @ [f], tl_GlobalMemoryLock := False\<rparr>)"
    using assms(2) by simp
  then show ?thesis unfolding p_def incrementRegionTemporalID_def by (intro that[OF m']) simp
qed

lemma step_StackAlloc:
  assumes rel: "recorder_rel env r w" and leg: "legal_op env (StackAlloc i v n c) r w"
    and step: "record_alloca i v n (OpConstantInt c) r = Some r'" and tr: "in_trace env (th_Events (snd w)) r'"
  shows "replays env r r' w"
proof -
  note R = rel[unfolded recorder_rel_def]
  have ok: "listener_ok (fst r)" using R by blast
  let ?e = "Alloca n c" and ?k = "length (tl_Events (snd r))"
  have op: "tl_Open (snd r)" using R by simp
  obtain m' x fs where m': "(if 0 < n * c then addAllocation v (n * c) (pl_TraceMemory (fst r)) else Some (pl_TraceMemory (fst r))) = Some m'"
    and r': "r' = ((fst r)\<lparr>pl_TraceMemory := m', pl_RegionTemporalIDs := x\<rparr>,
      (snd r)\<lparr>tl_Events := tl_Events (snd r) @ [?e], tl_FunctionStack := fs, tl_GlobalMemoryLock := False\<rparr>)"
    by (rule emit_alloca[OF op step])
  have l: "tl_Events (snd r') = tl_Events (snd r) @ [?e]" by (simp add: r')
  note N = next_event[OF tr l]
  have fit: "unat v + unat (n * c) < 2 ^ 64" and ptr: "last_ptr (tl_Events (snd r)) = Some (i, v)" using leg by simp_all
  have "\<exists>s'. allocationAdd v (n * c) (ps_Memory (fst w)) = Some s' \<and> shadow_rel m' s'"
  proof (cases "n * c = 0")
    case True
    then show ?thesis using m' recorder_rel_shadow(1)[OF rel] by (simp add: allocationAdd_def)
  next
    case False
    then have "0 < n * c" by (simp add: word_gt_0)
    then show ?thesis
      using shadow_step[OF recorder_rel_shadow(1)[OF rel], of "OpAdd v (n * c)"] m' fit by auto
  qed
  then obtain s' where s': "allocationAdd v (n * c) (ps_Memory (fst w)) = Some s'" "shadow_rel m' s'" by blast
  let ?al = "\<lparr>al_InstructionIndex = i, al_Address = v, al_ElementSize = n, al_ElementCount = c\<rparr>"
  let ?b = "last (th_CallStack (snd w))"
  define th1 where "th1 = (snd w)\<lparr>th_CallStack := butlast (th_CallStack (snd w)) @ [?b\<lparr>fs_Allocas := fs_Allocas ?b @ [?al]\<rparr>]\<rparr>"
  have pp: "preceding_ptr (snd w) ?k = Some (i, v)"
    using preceding_ptr_written[OF tr l] ptr by (simp add: ptr_instruction_def)
  have "tl_Events (snd r) \<noteq> []" using ptr by (auto simp: last_ptr_def)
  moreover have "event_at (snd w) ?k = Some ?e" using N by (simp add: event_at_def)
  ultimately have "readdEvent_Alloca ?k (snd w) = Some th1"
    using pp R by (simp add: readdEvent_Alloca_def alloca_sizes_def on_back_def back_fn_def th1_def)
  moreover define w1 where "w1 = ((fst w)\<lparr>ps_Memory := s'\<rparr>, th1)"
  ultimately have "addEvent_Alloca ?k w = Some w1"
    using s'(1) by (simp add: addEvent_Alloca_def split_beta back_fn_def th1_def getTotalSize_def on_memory_def)
  then have "addEvent env ?k ?e w = Some w1" by (simp add: addEvent_def is_instruction_def)
  moreover have "process_rel (env_Trace env) (fst r') (fst w1)"
    using R s' by (simp add: process_rel_def w1_def r')
  moreover have "listener_ok (fst r')"
  proof (cases "0 < n * c")
    case True
    with m' have "addAllocation v (n * c) (pl_TraceMemory (fst r)) = Some m'" by simp
    from lens_add[OF recorder_rel_shadow(2)[OF rel] this]
    have L: "lens (pl_TraceMemory (fst r)) v = None" "lens m' = (lens (pl_TraceMemory (fst r)))(v \<mapsto> unat (n * c))" by blast+
    show ?thesis by (rule listener_ok_fresh[OF ok L(1)]) (simp_all add: r' L(2))
  next
    case False
    with m' have "m' = pl_TraceMemory (fst r)" by simp
    then show ?thesis by (intro listener_ok_same[OF ok]) (simp_all add: r')
  qed
  ultimately show ?thesis
    using R by (intro replays_event[OF rel tr, of ?e w1]) (simp_all add: r' is_subservient_def w1_def th1_def)
qed

section \<open>The thread's own events\<close>

lemma step_LocalEvent:
  assumes rel: "recorder_rel env r w" and leg: "legal_op env (LocalEvent e) r w"
    and tr: "in_trace env (th_Events (snd w)) (emit e r)"
  shows "replays env r (emit e r) w"
proof -
  note R = rel[unfolded recorder_rel_def]
  let ?k = "length (tl_Events (snd r))"
  have op: "tl_Open (snd r)" using R by simp
  obtain w1 where w1: "addEvent env ?k e w = Some w1" using leg by auto
  have loc: "is_local e" using leg by simp
  then have "fst w1 = fst w \<and> th_Events (snd w1) = th_Events (snd w) \<and> th_ProcessTime (snd w1) = th_ProcessTime (snd w) \<and>
    th_CallStack (snd w1) \<noteq> []"
  proof (cases "is_instruction e")
    case True
    then obtain i where i: "addEvent_instruction e i w = Some w1" using w1 by (auto simp: addEvent_def bind_eq_Some_conv)
    then obtain th1 th2 where th: "on_back (forwardingToInstruction i) (snd w) = Some th1"
      "on_back (readdEvent_instruction e i) th1 = Some th2" "w1 = (fst w, th2\<lparr>th_ThreadTime := th_ThreadTime th2 + 1\<rparr>)"
      by (auto simp: addEvent_instruction_def bind_eq_Some_conv)
    show ?thesis using on_back_parts[OF th(1)] on_back_parts[OF th(2)] th(3) by simp
  next
    case False
    then obtain t where "e = NewThreadTime t" using loc by (auto simp: is_local_def)
    then show ?thesis using w1 R by (auto simp: addEvent_def is_instruction_def addEvent_NewThreadTime_def)
  qed
  moreover have "\<not> is_subservient e" using loc by (auto simp: is_local_def is_subservient_def is_instruction_def split: Event.splits)
  ultimately show ?thesis
    using R by (intro replays_event[OF rel tr _ _ _ _ w1]) (simp_all add: emit_open[OF op])
qed

lemma step_LockMemory:
  "recorder_rel env r w \<Longrightarrow> replays env r (acquireGlobalMemoryLock r) w"
  by (intro replays_idle) (simp_all add: recorder_rel_def acquireGlobalMemoryLock_def)

lemma step_EndNotification:
  "recorder_rel env r w \<Longrightarrow> pl_OutputEnabled (fst r) \<Longrightarrow> replays env r (exitPostNotification r) w"
  by (intro replays_idle)
    (simp_all add: recorder_rel_def exitPostNotification_def exitNotification_def clearCI_def unlock_all_def Let_def)



section \<open>Streams and directories\<close>

lemma om_insert_found: "om_wf m \<Longrightarrow> om_find m k = Some v \<Longrightarrow> om_insert k v m = m"
  by (rule om.insert_same)

lemma omap_rel_map_insert:
  assumes "omap_rel P m n" and "P v w"
  shows "omap_rel P (fst (map_insert k v m)) (fst (map_insert k w n))"
  using assms omap_rel_insert[OF assms, of k] omap_rel_find_None[OF assms(1), of k]
  by (auto simp: map_insert_def split: option.splits)

text \<open>A string that has been recorded can be read back.\<close>

lemma recorded_string:
  assumes "in_trace env es r'" and "pl_DataOut (fst r') = Some (out @ d @ rest)" and "0 \<in> set d"
  shows "getDataString (env_Trace env) (of_nat (length out)) \<noteq> None"
proof -
  let ?b = "pt_Data (env_Trace env)"
  from assms have t: "take (length out + (length d + length rest)) ?b = out @ d @ rest" "length out + length d \<le> length ?b"
    "length ?b < 2 ^ 64" by (auto simp: in_trace_def)
  have "drop (length out) (take (length out + (length d + length rest)) ?b) = d @ rest" by (simp add: t(1))
  then have "take (length d + length rest) (drop (length out) ?b) = d @ rest" by (simp add: drop_take)
  then have "0 \<in> set (take (length d + length rest) (drop (length out) ?b))" using assms(3) by simp
  then have "0 \<in> set (drop (length out) ?b)" by (rule in_set_takeD)
  moreover have "unat (of_nat (length out) :: u64) = length out" using t by (simp add: unat_of_nat_small)
  ultimately show ?thesis using t(2) by (simp add: getDataString_def Let_def)
qed

lemma stream_found:
  assumes "recorder_rel env r w" and "streamWillClose fp (pl_Streams (fst r))"
  obtains t st where "om_find (pl_Streams (fst r)) fp = Some t" and "getStream fp (fst w) = Some st"
    and "stream_rel (env_Trace env) t st"
proof -
  have "omap_rel (stream_rel (env_Trace env)) (pl_Streams (fst r)) (ps_Streams (fst w))"
    using assms(1) by (simp add: recorder_rel_def process_rel_def)
  from omap_rel_find[OF this, of fp] assms(2) that show ?thesis
    by (auto simp: streamWillClose_def getStream_def option_rel_Some1)
qed

lemma process_rel_written:
  assumes "process_rel pt p ps" and "om_find (pl_Streams p) fp = Some t" and "stream_rel pt t st"
  shows "omap_rel (stream_rel pt) (pl_Streams p) (om_insert fp (stream_write d st) (ps_Streams ps))"
proof -
  have "stream_rel pt t (stream_write d st)" using assms(3) by (simp add: stream_rel_def stream_write_def Let_def)
  moreover have "omap_rel (stream_rel pt) (pl_Streams p) (ps_Streams ps)" "om_wf (pl_Streams p)"
    using assms(1) by (simp_all add: process_rel_def)
  ultimately show ?thesis using omap_rel_insert om_insert_found[OF _ assms(2)] by metis
qed

text \<open>What a timed event that leaves the memory alone has to keep.\<close>

lemma replays_timed:
  assumes rel: "recorder_rel env r w" and tr: "in_trace env (th_Events (snd w)) r'"
    and r': "tl_Events (snd r') = tl_Events (snd r) @ [e]" "tl_Open (snd r')"
      "tl_CIProcessTime (snd r') = Some (ci_time r)" "tl_ProcessTime (snd r') = ci_time r" "pl_Time (fst r') = ci_time r"
      "pl_TraceMemory (fst r') = pl_TraceMemory (fst r)" "pl_KnownMemory (fst r') = pl_KnownMemory (fst r)"
      "pl_DynamicMemoryAllocations (fst r') = pl_DynamicMemoryAllocations (fst r)"
    and e: "\<not> is_subservient e"
    and add: "addEvent env (length (tl_Events (snd r))) e w = Some (set_times (ci_time r) (ps, snd w))"
    and p: "process_rel (env_Trace env) (fst r') (ps\<lparr>ps_ProcessTime := ci_time r\<rparr>)"
  shows "replays env r r' w"
proof -
  note R = rel[unfolded recorder_rel_def]
  have "listener_ok (fst r')" by (rule listener_ok_same[of "fst r"]) (use R r' in simp_all)
  moreover have "tl_CIProcessTime (snd r') \<in> {None, Some (pl_Time (fst r'))}" using r'(3,5) by simp
  ultimately show ?thesis
    using R r'(4) p by (intro replays_event[OF rel tr r'(1,2) _ e add]) (simp_all add: set_times_def)
qed

lemma step_OpenStream:
  assumes rel: "recorder_rel env r w" and leg: "0 \<in> set name" "0 \<in> set mode"
    and tr: "in_trace env (th_Events (snd w)) (recordStreamOpen fp name mode r)"
  shows "replays env r (recordStreamOpen fp name mode r) w"
proof -
  note R = rel[unfolded recorder_rel_def] and T = take_time_rel[OF rel]
  have op: "tl_Open (snd r)" using R by simp
  have ci: "take_time (acquireStreamsLock r) = ((fst r)\<lparr>pl_Time := ci_time r\<rparr>,
      (snd r)\<lparr>tl_StreamsLock := True, tl_CIProcessTime := Some (ci_time r), tl_ProcessTime := ci_time r\<rparr>)"
    using R by (subst take_time_parts) (auto simp: acquireStreamsLock_def ci_time_def)
  have "pl_DataOut (fst r) \<noteq> None"
  proof
    assume "pl_DataOut (fst r) = None"
    with tr op ci show False by (simp add: recordStreamOpen_def record_data_def recordData_def in_trace_def emit_timed_open)
  qed
  then obtain out where out: "pl_DataOut (fst r) = Some out" by blast
  let ?a = "of_nat (length out) :: u64" and ?b = "of_nat (length (out @ name)) :: u64"
  let ?e = "FileOpen (ci_time r) fp ?a ?b"
  have r': "recordStreamOpen fp name mode r = ((fst r)\<lparr>pl_Time := ci_time r, pl_DataOut := Some (out @ name @ mode),
        pl_Streams := streamOpened fp ?a ?b (pl_Streams (fst r))\<rparr>,
      (snd r)\<lparr>tl_StreamsLock := True, tl_CIProcessTime := Some (ci_time r), tl_ProcessTime := ci_time r,
        tl_Events := tl_Events (snd r) @ [?e]\<rparr>)"
    using out op ci by (simp add: recordStreamOpen_def record_data_def recordData_def emit_timed_open Let_def)
  obtain fn where fn: "getDataString (env_Trace env) ?a = Some fn"
    using recorded_string[OF tr, of out name mode] leg(1) by (auto simp: r')
  obtain md where md: "getDataString (env_Trace env) ?b = Some md"
    using recorded_string[OF tr, of "out @ name" mode "[]"] leg(2) by (auto simp: r')
  define st where "st = new_StreamState fp Kind_none fn md"
  define ps where "ps = fst (addStream st (fst w))"
  have ps: "ps = (fst w)\<lparr>ps_Streams := fst (map_insert fp st (ps_Streams (fst w)))\<rparr>"
    by (simp add: ps_def addStream_def st_def new_StreamState_def split_beta)
  have "addEvent env (length (tl_Events (snd r))) ?e w = Some (set_times (ci_time r) (ps, snd w))"
    using fn md by (simp add: addEvent_def is_instruction_def addEvent_FileOpen_def ps_def st_def)
  moreover have "stream_rel (env_Trace env) \<lparr>ts_FilenameOffset = ?a, ts_ModeOffset = ?b\<rparr> st"
    using fn md by (simp add: stream_rel_def st_def new_StreamState_def)
  then have "process_rel (env_Trace env) (fst (recordStreamOpen fp name mode r)) (ps\<lparr>ps_ProcessTime := ci_time r\<rparr>)"
    using R by (auto simp: process_rel_def r' ps streamOpened_def map_insert_wf intro: omap_rel_map_insert)
  ultimately show ?thesis
    using op by (intro replays_timed[OF rel tr, of ?e ps]) (simp_all add: r' is_subservient_def)
qed

lemma step_WriteStream:
  assumes rel: "recorder_rel env r w" and leg: "streamWillClose fp (pl_Streams (fst r))" "length d < 2 ^ 64"
    and tr: "in_trace env (th_Events (snd w)) (recordStreamWrite fp d r)"
  shows "replays env r (recordStreamWrite fp d r) w"
proof -
  note R = rel[unfolded recorder_rel_def] and T = take_time_rel[OF rel]
  have op: "tl_Open (snd r)" using R by simp
  have "pl_DataOut (fst r) \<noteq> None"
  proof
    assume "pl_DataOut (fst r) = None"
    with tr op T show False by (simp add: recordStreamWrite_def record_data_def recordData_def in_trace_def emit_timed_open)
  qed
  then obtain out where out: "pl_DataOut (fst r) = Some out" by blast
  let ?e = "FileWrite (ci_time r) fp (of_nat (length out)) (of_nat (length d))"
  have r': "recordStreamWrite fp d r = ((fst r)\<lparr>pl_Time := ci_time r, pl_DataOut := Some (out @ d)\<rparr>,
      (snd r)\<lparr>tl_CIProcessTime := Some (ci_time r), tl_ProcessTime := ci_time r, tl_Events := tl_Events (snd r) @ [?e]\<rparr>)"
    using out op T by (simp add: recordStreamWrite_def record_data_def recordData_def emit_timed_open)
  obtain t st where st: "om_find (pl_Streams (fst r)) fp = Some t" "getStream fp (fst w) = Some st"
    "stream_rel (env_Trace env) t st" by (rule stream_found[OF rel leg(1)])
  have "getData (env_Trace env) (of_nat (length out)) (of_nat (length d)) = Some d"
    by (rule data_in_trace[OF tr]) (simp add: r')
  then have "addEvent env (length (tl_Events (snd r))) ?e w =
      Some (set_times (ci_time r) (put_stream (stream_write d st) fp (fst w), snd w))"
    using st(2) by (simp add: addEvent_def is_instruction_def addEvent_FileWrite_def)
  moreover have pr: "process_rel (env_Trace env) (fst r) (fst w)" using R by blast
  have "process_rel (env_Trace env) (fst (recordStreamWrite fp d r))
      ((put_stream (stream_write d st) fp (fst w))\<lparr>ps_ProcessTime := ci_time r\<rparr>)"
    using pr process_rel_written[OF pr st(1,3), of d] by (simp add: process_rel_def r' put_stream_def)
  ultimately show ?thesis
    using op by (intro replays_timed[OF rel tr, of ?e "put_stream (stream_write d st) fp (fst w)"])
      (simp_all add: r' is_subservient_def)
qed

text \<open>An area that is known to the recorder is initialised in the viewer, and its bytes can be read.\<close>

lemma known_area:
  assumes rel: "shadow_rel m s" and n: "n \<noteq> 0" "interval_ok (area a n)" and known: "hasKnownState a n m = Some True"
  shows "region_isCompletelyInitialized (area a n) s = Some True" and "getByteValues (area a n) s \<noteq> None"
proof -
  from known obtain c where c: "shadow_bytes a n m = Some c" "list_all (\<lambda>c. c = getInitializedByte) c"
    by (auto simp: hasKnownState_def bind_eq_Some_conv)
  from shadow_bytes_init[OF rel c(1) n] obtain i where
    i: "getByteInitialization (area a n) s = Some i" "list_all2 shadow_byte i c" "length c = unat n" .
  have "i \<noteq> []" using i(2,3) n(1) by (auto simp: unat_eq_0)
  then show "region_isCompletelyInitialized (area a n) s = Some True"
    using i(1) all_shadow[OF i(2)] c(2) by (simp add: region_isCompletelyInitialized_def)
  from i(1) \<open>i \<noteq> []\<close> obtain al where al: "findAllocation a s = Some al" "contains_interval (ma_area al) (area a n)"
    "getAreaInitialization (area a n) al = Some i"
    by (auto simp: getByteInitialization_def split: option.splits if_splits)
  have "mem_wf s" using rel by (simp add: shadow_rel_def)
  then have "alloc_wf al"
    using al(1) by (auto simp: findAllocation_def mem_wf_def entry_wf_def om_before_Some_iff split: option.splits if_splits
        dest!: om_all_find)
  then show "getByteValues (area a n) s \<noteq> None"
    using al by (auto simp: getByteValues_def getAreaData_def getAreaInitialization_def alloc_wf_def slice_def split: if_splits)
qed

lemma step_WriteStreamMemory:
  assumes rel: "recorder_rel env r w" and leg: "legal_op env (WriteStreamMemory fp a n) r w"
    and tr: "in_trace env (th_Events (snd w)) (recordStreamWriteFromMemory fp (area a n) r)"
  shows "replays env r (recordStreamWriteFromMemory fp (area a n) r) w"
proof -
  note R = rel[unfolded recorder_rel_def] and T = take_time_rel[OF rel]
  have op: "tl_Open (snd r)" using R by simp
  let ?e = "FileWriteFromMemory (ci_time r) fp a n"
  have r': "recordStreamWriteFromMemory fp (area a n) r = ((fst r)\<lparr>pl_Time := ci_time r\<rparr>,
      (snd r)\<lparr>tl_CIProcessTime := Some (ci_time r), tl_ProcessTime := ci_time r, tl_Events := tl_Events (snd r) @ [?e]\<rparr>)"
    using op T by (simp add: recordStreamWriteFromMemory_def emit_timed_open interval_length_def)
  have sc: "streamWillClose fp (pl_Streams (fst r))" and n: "n \<noteq> 0" "unat a + unat n < 2 ^ 64"
    and kn: "hasKnownState a n (pl_TraceMemory (fst r)) = Some True" using leg by simp_all
  obtain t st where st: "om_find (pl_Streams (fst r)) fp = Some t" "getStream fp (fst w) = Some st"
    "stream_rel (env_Trace env) t st" by (rule stream_found[OF rel sc])
  note K = known_area[OF recorder_rel_shadow(1)[OF rel] n(1) interval_ok_area[OF n(2)] kn]
  then obtain d where d: "getByteValues (area a n) (ps_Memory (fst w)) = Some d" by blast
  have "addEvent env (length (tl_Events (snd r))) ?e w =
      Some (set_times (ci_time r) (put_stream (stream_write d st) fp (fst w), snd w))"
    using st(2) K(1) d n(1) by (simp add: addEvent_def is_instruction_def addEvent_FileWriteFromMemory_def)
  moreover have pr: "process_rel (env_Trace env) (fst r) (fst w)" using R by blast
  have "process_rel (env_Trace env) (fst (recordStreamWriteFromMemory fp (area a n) r))
      ((put_stream (stream_write d st) fp (fst w))\<lparr>ps_ProcessTime := ci_time r\<rparr>)"
    using pr process_rel_written[OF pr st(1,3), of d] by (simp add: process_rel_def r' put_stream_def)
  ultimately show ?thesis
    using op by (intro replays_timed[OF rel tr, of ?e "put_stream (stream_write d st) fp (fst w)"])
      (simp_all add: r' is_subservient_def)
qed



lemma step_CloseStream:
  assumes rel: "recorder_rel env r w" and leg: "streamWillClose fp (pl_Streams (fst r))"
    and step: "recordStreamClose fp r = Some (res, r')" and tr: "in_trace env (th_Events (snd w)) r'"
  shows "replays env r r' w"
proof -
  note R = rel[unfolded recorder_rel_def]
  have op: "tl_Open (snd r)" using R by simp
  have ci: "take_time (acquireStreamsLock r) = ((fst r)\<lparr>pl_Time := ci_time r\<rparr>,
      (snd r)\<lparr>tl_StreamsLock := True, tl_CIProcessTime := Some (ci_time r), tl_ProcessTime := ci_time r\<rparr>)"
    using R by (subst take_time_parts) (auto simp: acquireStreamsLock_def ci_time_def)
  obtain t st where st: "om_find (pl_Streams (fst r)) fp = Some t" "getStream fp (fst w) = Some st" by (rule stream_found[OF rel leg])
  let ?e = "FileClose (ci_time r) fp (ts_FilenameOffset t) (ts_ModeOffset t)"
  have r': "r' = ((fst r)\<lparr>pl_Time := ci_time r, pl_Streams := om_erase fp (pl_Streams (fst r))\<rparr>,
      (snd r)\<lparr>tl_StreamsLock := True, tl_CIProcessTime := Some (ci_time r), tl_ProcessTime := ci_time r,
        tl_Events := tl_Events (snd r) @ [?e]\<rparr>)"
    using step st(1) ci op by (simp add: recordStreamClose_def streamInfo_def streamClosed_def emit_timed_open)
  define ps where "ps = (fst w)\<lparr>ps_StreamsClosed := ps_StreamsClosed (fst w) @ [st], ps_Streams := om_erase fp (ps_Streams (fst w))\<rparr>"
  have "addEvent env (length (tl_Events (snd r))) ?e w = Some (set_times (ci_time r) (ps, snd w))"
    using st(2) by (simp add: addEvent_def is_instruction_def addEvent_FileClose_def closeStream_def getStream_def ps_def)
  moreover have "process_rel (env_Trace env) (fst r') (ps\<lparr>ps_ProcessTime := ci_time r\<rparr>)"
    using R by (auto simp: process_rel_def r' ps_def om_wf_erase intro: omap_rel_erase)
  ultimately show ?thesis
    using op by (intro replays_timed[OF rel tr, of ?e ps]) (simp_all add: r' is_subservient_def)
qed

lemma acquire_dirs_time:
  assumes "recorder_rel env r w"
  shows "take_time (acquireDirsLock r) = ((fst r)\<lparr>pl_Time := ci_time r\<rparr>,
      (snd r)\<lparr>tl_DirsLock := True, tl_CIProcessTime := Some (ci_time r), tl_ProcessTime := ci_time r\<rparr>)"
  using assms by (subst take_time_parts) (auto simp: acquireDirsLock_def ci_time_def recorder_rel_def)

lemma step_OpenDir:
  assumes rel: "recorder_rel env r w" and leg: "0 \<in> set name"
    and tr: "in_trace env (th_Events (snd w)) (recordDirOpen d name r)"
  shows "replays env r (recordDirOpen d name r) w"
proof -
  note R = rel[unfolded recorder_rel_def] and ci = acquire_dirs_time[OF rel]
  have op: "tl_Open (snd r)" using R by simp
  have "pl_DataOut (fst r) \<noteq> None"
  proof
    assume "pl_DataOut (fst r) = None"
    with tr op ci show False by (simp add: recordDirOpen_def record_data_def recordData_def in_trace_def emit_timed_open)
  qed
  then obtain out where out: "pl_DataOut (fst r) = Some out" by blast
  let ?a = "of_nat (length out) :: u64"
  let ?e = "DirOpen (ci_time r) d ?a"
  have r': "recordDirOpen d name r = ((fst r)\<lparr>pl_Time := ci_time r, pl_DataOut := Some (out @ name),
        pl_Dirs := DIROpened d ?a (pl_Dirs (fst r))\<rparr>,
      (snd r)\<lparr>tl_DirsLock := True, tl_CIProcessTime := Some (ci_time r), tl_ProcessTime := ci_time r,
        tl_Events := tl_Events (snd r) @ [?e]\<rparr>)"
    using out op ci by (simp add: recordDirOpen_def record_data_def recordData_def emit_timed_open Let_def)
  obtain dn where dn: "getDataString (env_Trace env) ?a = Some dn"
    using recorded_string[OF tr, of out name "[]"] leg by (auto simp: r')
  let ?d = "\<lparr>ds_Address = d, ds_Dirname = dn\<rparr>"
  define ps where "ps = fst (addDir ?d (fst w))"
  have ps: "ps = (fst w)\<lparr>ps_Dirs := fst (map_insert d ?d (ps_Dirs (fst w)))\<rparr>"
    by (simp add: ps_def addDir_def split_beta)
  have "addEvent env (length (tl_Events (snd r))) ?e w = Some (set_times (ci_time r) (ps, snd w))"
    using dn by (simp add: addEvent_def is_instruction_def addEvent_DirOpen_def ps_def)
  moreover have "dir_rel (env_Trace env) ?a ?d" using dn by (simp add: dir_rel_def)
  then have "process_rel (env_Trace env) (fst (recordDirOpen d name r)) (ps\<lparr>ps_ProcessTime := ci_time r\<rparr>)"
    using R by (auto simp: process_rel_def r' ps DIROpened_def map_insert_wf intro: omap_rel_map_insert)
  ultimately show ?thesis
    using op by (intro replays_timed[OF rel tr, of ?e ps]) (simp_all add: r' is_subservient_def)
qed

lemma step_CloseDir:
  assumes rel: "recorder_rel env r w" and leg: "DIRWillClose d (pl_Dirs (fst r))"
    and step: "recordDirClose d r = Some (res, r')" and tr: "in_trace env (th_Events (snd w)) r'"
  shows "replays env r r' w"
proof -
  note R = rel[unfolded recorder_rel_def] and ci = acquire_dirs_time[OF rel]
  have op: "tl_Open (snd r)" using R by simp
  obtain i where i: "om_find (pl_Dirs (fst r)) d = Some i" using leg by (auto simp: DIRWillClose_def)
  let ?e = "DirClose (ci_time r) d i"
  have r': "r' = ((fst r)\<lparr>pl_Time := ci_time r, pl_Dirs := om_erase d (pl_Dirs (fst r))\<rparr>,
      (snd r)\<lparr>tl_DirsLock := True, tl_CIProcessTime := Some (ci_time r), tl_ProcessTime := ci_time r,
        tl_Events := tl_Events (snd r) @ [?e]\<rparr>)"
    using step i ci op by (simp add: recordDirClose_def DIRInfo_def DIRClosed_def emit_timed_open)
  define ps where "ps = (fst w)\<lparr>ps_Dirs := om_erase d (ps_Dirs (fst w))\<rparr>"
  have "addEvent env (length (tl_Events (snd r))) ?e w = Some (set_times (ci_time r) (ps, snd w))"
    by (simp add: addEvent_def is_instruction_def addEvent_DirClose_def removeDir_def ps_def)
  moreover have "process_rel (env_Trace env) (fst r') (ps\<lparr>ps_ProcessTime := ci_time r\<rparr>)"
    using R by (auto simp: process_rel_def r' ps_def om_wf_erase intro: omap_rel_erase)
  ultimately show ?thesis
    using op by (intro replays_timed[OF rel tr, of ?e ps]) (simp_all add: r' is_subservient_def)
qed

section \<open>Runs\<close>

lemma op_replays:
  assumes rel: "recorder_rel env r w" and leg: "legal_op env x r w" and step: "rec_step x r = Some r'"
    and tr: "in_trace env (th_Events (snd w)) r'"
  shows "replays env r r' w"
proof (cases x)
  case (RemoveRegion a)
  with step obtain res where "tl_removeKnownMemoryRegion a r = Some (res, r')" by auto
  with leg RemoveRegion tr show ?thesis by (intro step_RemoveRegion[OF rel]) simp_all
next
  case (CloseStream fp)
  with step obtain res where "recordStreamClose fp r = Some (res, r')" by auto
  with leg CloseStream tr show ?thesis by (intro step_CloseStream[OF rel]) simp_all
next
  case (CloseDir d)
  with step obtain res where "recordDirClose d r = Some (res, r')" by auto
  with leg CloseDir tr show ?thesis by (intro step_CloseDir[OF rel]) simp_all
next
  case (LocalEvent e)
  with step leg tr show ?thesis using step_LocalEvent[OF rel, of e] by simp
next
  case LockMemory
  with step show ?thesis using step_LockMemory[OF rel] by simp
next
  case EndNotification
  with step leg show ?thesis using step_EndNotification[OF rel] by simp
next
  case (StackAlloc i v n c)
  with step leg tr show ?thesis using step_StackAlloc[OF rel, of i v n c] by simp
next
  case (Allocate a n)
  with step leg tr show ?thesis using step_Allocate[OF rel, of a n] by simp
next
  case (Reallocate a n)
  with step leg tr show ?thesis using step_Reallocate[OF rel, of a n] by simp
next
  case (Deallocate a)
  with step leg tr show ?thesis using step_Deallocate[OF rel, of a] by simp
next
  case (Store a d)
  with step leg tr show ?thesis using step_Store[OF rel, of a d] by simp
next
  case (Move src dst n)
  with step leg tr show ?thesis using step_Move[OF rel, of src n dst] by simp
next
  case (AddRegion a n access)
  with step leg tr show ?thesis using step_AddRegion[OF rel, of a n access] by simp
next
  case (OpenStream fp name mode)
  with step leg tr show ?thesis using step_OpenStream[OF rel, of name mode fp] by simp
next
  case (WriteStream fp d)
  with step leg tr show ?thesis using step_WriteStream[OF rel, of fp d] by simp
next
  case (WriteStreamMemory fp a n)
  with step leg tr show ?thesis using step_WriteStreamMemory[OF rel, of fp a n] by simp
next
  case (OpenDir d name)
  with step leg tr show ?thesis using step_OpenDir[OF rel, of name d] by simp
qed

text \<open>
  The contract between a recorder whose operations write any number of events and a viewer that
  moves over them: \<open>emitted\<close> counts the events, \<open>advance\<close> moves, and a state of the recorder \<open>fits\<close>
  a viewer if what has been written is a beginning of what the viewer reads.
\<close>

locale recording =
  fixes op_step :: "'op \<Rightarrow> 'r \<Rightarrow> 'r option"
    and emitted :: "'r \<Rightarrow> nat"
    and advance :: "nat \<Rightarrow> 'w \<Rightarrow> 'w option"
    and legal :: "'op \<Rightarrow> 'r \<Rightarrow> 'w \<Rightarrow> bool"
    and fits :: "'r \<Rightarrow> 'w \<Rightarrow> bool"
    and related :: "'r \<Rightarrow> 'w \<Rightarrow> bool"
    and same :: "'w \<Rightarrow> 'w \<Rightarrow> bool"
  assumes advance_add: "advance (m + n) w = advance m w \<bind> advance n"
    and advance_none: "advance 0 w = Some w"
    and fits_before: "op_step x r = Some r' \<Longrightarrow> fits r' w \<Longrightarrow> fits r w \<and> emitted r \<le> emitted r'"
    and replay_step: "related r w \<Longrightarrow> legal x r w \<Longrightarrow> op_step x r = Some r' \<Longrightarrow> fits r' w \<Longrightarrow>
      \<exists>w'. advance (emitted r' - emitted r) w = Some w' \<and> related r' w' \<and> same w w'"
    and same_refl: "same w w"
    and same_trans: "same u v \<Longrightarrow> same v w \<Longrightarrow> same u w"
    and same_fits: "same v w \<Longrightarrow> fits r w = fits r v"

fun legal_along ::
  "('op \<Rightarrow> 'r \<Rightarrow> 'r option) \<Rightarrow> ('r \<Rightarrow> nat) \<Rightarrow> (nat \<Rightarrow> 'w \<Rightarrow> 'w option) \<Rightarrow> ('op \<Rightarrow> 'r \<Rightarrow> 'w \<Rightarrow> bool) \<Rightarrow>
   'op list \<Rightarrow> 'r \<Rightarrow> 'w \<Rightarrow> bool" where
  "legal_along st emitted advance legal [] r w = True"
| "legal_along st emitted advance legal (x # xs) r w \<longleftrightarrow>
     legal x r w \<and>
     (case st x r of
        None \<Rightarrow> True
      | Some r' \<Rightarrow> (case advance (emitted r' - emitted r) w of
          None \<Rightarrow> True
        | Some w' \<Rightarrow> legal_along st emitted advance legal xs r' w'))"

context recording
begin

lemma fits_start: "run_ops op_step xs r = Some r' \<Longrightarrow> fits r' w \<Longrightarrow> fits r w \<and> emitted r \<le> emitted r'"
  by (induction xs arbitrary: r) (auto simp: bind_eq_Some_conv dest: fits_before, meson fits_before le_trans)

lemma run_replays:
  "related r w \<Longrightarrow> run_ops op_step xs r = Some r' \<Longrightarrow> legal_along op_step emitted advance legal xs r w \<Longrightarrow> fits r' w \<Longrightarrow>
   \<exists>w'. advance (emitted r' - emitted r) w = Some w' \<and> related r' w' \<and> same w w'"
proof (induction xs arbitrary: r w)
  case Nil
  then show ?case using advance_none same_refl by simp
next
  case (Cons x xs)
  from Cons.prems(2) obtain r1 where r1: "op_step x r = Some r1" "run_ops op_step xs r1 = Some r'"
    by (auto simp: bind_eq_Some_conv)
  note f = fits_start[OF r1(2) Cons.prems(4)]
  from replay_step[OF Cons.prems(1) _ r1(1)] f Cons.prems(3) obtain w1 where
    w1: "advance (emitted r1 - emitted r) w = Some w1" "related r1 w1" "same w w1" by auto
  have leg: "legal_along op_step emitted advance legal xs r1 w1" using Cons.prems(3) r1(1) w1(1) by simp
  have "fits r' w1" using Cons.prems(4) same_fits[OF w1(3)] by simp
  from Cons.IH[OF w1(2) r1(2) leg this] obtain w' where
    w': "advance (emitted r' - emitted r1) w1 = Some w'" "related r' w'" "same w1 w'" by blast
  have "emitted r' - emitted r = (emitted r1 - emitted r) + (emitted r' - emitted r1)"
    using f fits_before[OF r1(1) conjunct1[OF f]] by simp
  with w1 w' show ?case using same_trans by (auto simp: advance_add)
qed

end

definition events_written :: "Recorder \<Rightarrow> nat" where
  "events_written r = length (tl_Events (snd r))"

definition legal_ops :: "Env \<Rightarrow> RecordOp list \<Rightarrow> Recorder \<Rightarrow> World \<Rightarrow> bool" where
  "legal_ops env = legal_along rec_step events_written (forward env) (legal_op env)"

interpretation recorder: recording rec_step events_written "forward env" "legal_op env"
  "\<lambda>r w. in_trace env (th_Events (snd w)) r" "recorder_rel env" "\<lambda>v w. th_Events (snd w) = th_Events (snd v)"
  for env
proof (unfold_locales, goal_cases)
  case (3 x r r' w)
  then show ?case using in_trace_grows[OF _ rec_step_grows] by (simp add: events_written_def)
next
  case (4 r w x r')
  then show ?case using op_replays unfolding replays_def events_written_def by blast
qed (auto simp: forward_add)

end
