(* ===== verification/RecorderReplay.thy ===== *)
theory RecorderReplay
  imports RecorderRuns
begin

text \<open>
  The whole recording of a thread, from the construction of the listeners to the trace that is
  written, and its replay from the construction of the viewer's states: the standard streams and
  the first function of the program begin both, and \<open>RecorderRuns\<close> carries them along.
\<close>

section \<open>The first states\<close>

abbreviation standard_names :: "byte list" where
  "standard_names \<equiv> str ''stdin'' @ 0 # str ''r'' @ 0 # str ''stdout'' @ 0 # str ''w'' @ 0 # str ''stderr'' @ 0 # str ''w'' @ [0]"

lemma new_listener_parts:
  "pl_DataOut (new_ProcessListener g f symbol True a b c) = Some standard_names"
  "pl_Streams (new_ProcessListener g f symbol True a b c) =
     streamOpened c 17 24 (streamOpened b 8 15 (streamOpened a 0 6 []))"
  "pl_StreamsInitial (new_ProcessListener g f symbol True a b c) = [a, b, c]"
  "pl_TraceMemory (new_ProcessListener g f symbol True a b c) = []"
  "pl_KnownMemory (new_ProcessListener g f symbol True a b c) = []"
  "pl_DynamicMemoryAllocations (new_ProcessListener g f symbol True a b c) = []"
  "pl_Dirs (new_ProcessListener g f symbol True a b c) = []"
  "pl_Time (new_ProcessListener g f symbol True a b c) = 0"
  "pl_OutputEnabled (new_ProcessListener g f symbol True a b c)"
  by (simp_all add: new_ProcessListener_def open_standard_stream_def recordData_def Let_def str_def)

lemma standard_strings:
  assumes "take (length standard_names) (pt_Data pt) = standard_names"
  shows "getDataString pt 0 = Some (str ''stdin'')" and "getDataString pt 6 = Some (str ''r'')"
    and "getDataString pt 8 = Some (str ''stdout'')" and "getDataString pt 15 = Some (str ''w'')"
    and "getDataString pt 17 = Some (str ''stderr'')" and "getDataString pt 24 = Some (str ''w'')"
proof -
  obtain rest where "pt_Data pt = standard_names @ rest" using assms by (metis append_take_drop_id)
  then show "getDataString pt 0 = Some (str ''stdin'')" and "getDataString pt 6 = Some (str ''r'')"
    and "getDataString pt 8 = Some (str ''stdout'')" and "getDataString pt 15 = Some (str ''w'')"
    and "getDataString pt 17 = Some (str ''stderr'')" and "getDataString pt 24 = Some (str ''w'')"
    by (simp_all add: getDataString_def str_def)
qed

lemma insert_three:
  assumes "om_wf m" and "om_find m a = None" "om_find m b = None" "om_find m c = None" and "distinct [a, b, c]"
  shows "fst (map_insert a x (fst (map_insert b y (fst (map_insert c z m))))) = om_insert c z (om_insert b y (om_insert a x m))"
    and "fst (map_insert c z (fst (map_insert b y (fst (map_insert a x m))))) = om_insert c z (om_insert b y (om_insert a x m))"
  using assms
  by (auto simp: map_insert_fresh om_find_insert om_wf_insert om.insert_commute[of _ a b] om.insert_commute[of _ a c]
      om.insert_commute[of _ b c])

lemma first_streams:
  assumes "distinct [a, b, c]" and "take (length standard_names) (pt_Data pt) = standard_names"
    and "ps_Streams s = []"
  shows "omap_rel (stream_rel pt) (streamOpened c 17 24 (streamOpened b 8 15 (streamOpened a 0 6 [])))
      (ps_Streams (initial_streams [a, b, c] s))"
proof -
  let ?S = "\<lambda>a k n m. new_StreamState a k (str n) (str m)"
  have v: "ps_Streams (initial_streams [a, b, c] s) =
      om_insert c (?S c Kind_err ''stderr'' ''w'') (om_insert b (?S b Kind_out ''stdout'' ''w'')
        (om_insert a (?S a Kind_in ''stdin'' ''r'') []))"
    using insert_three(1)[of "[]" a b c] assms(1,3)
    by (simp add: initial_streams_def addStream_def new_StreamState_def split_beta del: om_insert.simps)
  have r: "streamOpened c 17 24 (streamOpened b 8 15 (streamOpened a 0 6 [])) =
      om_insert c \<lparr>ts_FilenameOffset = 17, ts_ModeOffset = 24\<rparr> (om_insert b \<lparr>ts_FilenameOffset = 8, ts_ModeOffset = 15\<rparr>
        (om_insert a \<lparr>ts_FilenameOffset = 0, ts_ModeOffset = 6\<rparr> []))"
    using insert_three(2)[of "[]" a b c] assms(1) by (simp add: streamOpened_def del: om_insert.simps)
  show ?thesis
    unfolding v r using standard_strings[OF assms(2)]
    by (intro omap_rel_insert) (simp_all add: stream_rel_def new_StreamState_def)
qed

lemma first_process:
  assumes "distinct [a, b, c]" and "take (length standard_names) (pt_Data pt) = standard_names"
    and "pt_StreamsInitial pt = [a, b, c]"
  shows "\<exists>ps. new_ProcessState pt [] = Some (Inr ps) \<and> ps_ProcessTime ps = 0 \<and>
    process_rel pt (new_ProcessListener g f symbol True a b c) ps \<and> listener_ok (new_ProcessListener g f symbol True a b c)"
proof -
  let ?s = "empty_ProcessState\<lparr>ps_Memory := empty_MemoryState\<rparr>"
  let ?ps = "initial_streams [a, b, c] ?s"
  have ps: "ps_Mallocs ?ps = []" "ps_Memory ?ps = empty_MemoryState" "ps_KnownMemory ?ps = []" "ps_Dirs ?ps = []" "ps_ProcessTime ?ps = 0"
    by (simp_all add: initial_streams_def addStream_def split_beta empty_ProcessState_def)
  have "shadow_rel [] empty_MemoryState"
    by (simp add: shadow_rel_def mem_wf_empty om_all_def om_filter_def) (simp add: empty_MemoryState_def)
  moreover have "om_wf (streamOpened c 17 24 (streamOpened b 8 15 (streamOpened a 0 6 [])))"
    by (simp add: streamOpened_def map_insert_wf)
  moreover have "ps_Streams ?s = []" by (simp add: empty_ProcessState_def)
  ultimately have "process_rel pt (new_ProcessListener g f symbol True a b c) ?ps"
    using first_streams[OF assms(1,2), of ?s] by (simp add: process_rel_def new_listener_parts ps)
  moreover have "listener_ok (new_ProcessListener g f symbol True a b c)"
    by (simp add: listener_ok_def dynamic_ok_def known_ok_def new_listener_parts om_all_def)
  moreover have "new_ProcessState pt [] = Some (Inr ?ps)" using assms(3) by (simp add: new_ProcessState_def)
  ultimately show ?thesis using ps(5) by blast
qed


section \<open>The first function\<close>

definition first_recorder ::
  "nat \<Rightarrow> nat \<Rightarrow> (string \<Rightarrow> u64) \<Rightarrow> u64 \<Rightarrow> u64 \<Rightarrow> u64 \<Rightarrow> u32 \<Rightarrow> FunctionIndex \<Rightarrow> Recorder option" where
  "first_recorder g f symbol a b c i findex =
     notifyFunctionBegin (\<lambda>_. None) None i findex [] (new_ThreadListener (new_ProcessListener g f symbol True a b c))"

lemma first_recorder_parts:
  assumes "first_recorder g f symbol a b c i findex = Some r"
  shows "tl_Events (snd r) = [FunctionStart i 0 0 1 0]" and "tl_Open (snd r)" and "tl_CIProcessTime (snd r) = None"
    and "tl_ProcessTime (snd r) = 0"
    and "fst r = snd (registerThreadListener (new_ProcessListener g f symbol True a b c))"
  using assms
  by (auto simp: first_recorder_def notifyFunctionBegin_def enterNotification_def synchronizeProcessTime_def next_time_def
      write_event_def new_ThreadListener_def registerThreadListener_def new_listener_parts call_objects_def active_function_def
      exitPostNotification_def exitNotification_def clearCI_def unlock_all_def Let_def bind_eq_Some_conv)

lemma registered:
  "process_rel pt (snd (registerThreadListener p)) ps = process_rel pt p ps"
  "listener_ok (snd (registerThreadListener p)) = listener_ok p"
  "pl_DataOut (snd (registerThreadListener p)) = pl_DataOut p" "pl_Time (snd (registerThreadListener p)) = pl_Time p"
  by (simp_all add: registerThreadListener_def process_rel_def listener_ok_def dynamic_ok_def known_ok_def)

lemma first_step:
  assumes r: "first_recorder g f symbol a b c i findex = Some r" and d: "distinct [a, b, c]"
    and tr: "in_trace env es r" and si: "pt_StreamsInitial (env_Trace env) = [a, b, c]"
    and fi: "getFunctionIndex env i = Some findex"
  obtains ps w where "new_ProcessState (env_Trace env) [] = Some (Inr ps)"
    and "forward env 1 (ps, new_ThreadState es ps) = Some w" and "recorder_rel env r w" and "th_Events (snd w) = es"
proof -
  note P = first_recorder_parts[OF r]
  have dt: "pl_DataOut (fst r) = Some standard_names" by (simp add: P(5) registered new_listener_parts)
  have "take (length standard_names) (pt_Data (env_Trace env)) = standard_names" using tr dt by (auto simp: in_trace_def)
  from first_process[OF d this si, of g f symbol] obtain ps where ps: "new_ProcessState (env_Trace env) [] = Some (Inr ps)"
    "ps_ProcessTime ps = 0" "process_rel (env_Trace env) (fst r) ps" "listener_ok (fst r)"
    by (auto simp: P(5) registered)
  have es: "take 1 es = [FunctionStart i 0 0 1 0]" "1 \<le> length es" using tr P(1) by (auto simp: in_trace_def)
  then have e: "es ! 0 = FunctionStart i 0 0 1 0" "es \<noteq> []" by (cases es; auto)+
  let ?tr = "\<lparr>ft_Index = i, ft_EventStart = 0, ft_EventEnd = 0, ft_ThreadTimeEntered = 1, ft_ThreadTimeExited = 0\<rparr>"
  define th where "th = (new_ThreadState es ps)\<lparr>th_CallStack := [new_FunctionState findex ?tr], th_ThreadTime := 1, th_NextEvent := 1\<rparr>"
  have "addEvent env 0 (FunctionStart i 0 0 1 0) (ps, new_ThreadState es ps) =
      Some (ps, (new_ThreadState es ps)\<lparr>th_CallStack := [new_FunctionState findex ?tr], th_ThreadTime := 1\<rparr>)"
    using fi by (simp add: addEvent_def is_instruction_def function_trace_def addEvent_FunctionStart_def new_ThreadState_def)
  then have "forward env 1 (ps, new_ThreadState es ps) = Some (ps, th)"
    using es(2) e
    by (simp add: addNextEvent_def addNextEventForwarder_def event_at_def is_subservient_def is_function_level_def
        is_instruction_def new_ThreadState_def th_def)
  moreover have "recorder_rel env r (ps, th)"
    using ps es P by (simp add: recorder_rel_def th_def new_ThreadState_def registered new_listener_parts)
  ultimately show ?thesis using that[OF ps(1)] by (simp add: th_def new_ThreadState_def)
qed


section \<open>Properties\<close>


definition sample_index :: FunctionIndex where
  "sample_index = \<lparr>fn_Blocks = [[PointerTy, PointerTy]], fn_DbgDeclare = [], fn_ArgCount = 0\<rparr>"

definition sample_first :: Recorder where
  "sample_first =
     (\<lparr>pl_OutputEnabled = True, pl_DetectCallsLookup = [], pl_GlobalVariableAddresses = [], pl_GlobalVariableLookup = [],
       pl_GlobalVariableInitialData = [], pl_FunctionAddresses = [], pl_FunctionLookup = [],
       pl_DataOut = Some [115, 116, 100, 105, 110, 0, 114, 0, 115, 116, 100, 111, 117, 116, 0, 119, 0,
         115, 116, 100, 101, 114, 114, 0, 119, 0],
       pl_Time = 0, pl_NextThreadID = 2, pl_ActiveThreadCount = 1, pl_TraceMemory = [], pl_KnownMemory = [],
       pl_RegionTemporalIDs = [], pl_InMemoryPointerObjects = [], pl_DynamicMemoryAllocations = [],
       pl_Streams = [(1, \<lparr>ts_FilenameOffset = 0, ts_ModeOffset = 6\<rparr>), (2, \<lparr>ts_FilenameOffset = 8, ts_ModeOffset = 15\<rparr>),
         (3, \<lparr>ts_FilenameOffset = 17, ts_ModeOffset = 24\<rparr>)],
       pl_StreamsInitial = [1, 2, 3], pl_Dirs = [], pl_EnvironSetup = False\<rparr>,
      \<lparr>tl_ThreadID = 1, tl_OutputEnabled = True, tl_Open = True, tl_Events = [FunctionStart 0 0 0 1 0], tl_Time = 1,
       tl_ProcessTime = 0,
       tl_RecordedFunctions = [\<lparr>rf_StartEventWrite = 0, rf_Index = 0, rf_EventOffsetStart = 0, rf_EventOffsetEnd = 0,
         rf_ThreadTimeEntered = 1, rf_ThreadTimeExited = 0\<rparr>],
       tl_FunctionStack = [new_TracedFunction (Some sample_index) 0 []],
       tl_GlobalMemoryLock = False, tl_DynamicMemoryLock = False, tl_StreamsLock = False, tl_DirsLock = False,
       tl_CIProcessTime = None\<rparr>)"

definition sample_ops :: "RecordOp list" where
  "sample_ops =
     [LocalEvent (InstructionWithPtr 0 64), LockMemory, Allocate 64 4, Store 64 [1, 2], Reallocate 64 2,
      Deallocate 64]"

definition written_events :: "Event list" where
  "written_events =
     [FunctionStart 0 0 0 1 0, InstructionWithPtr 0 64, Malloc 4 1, StateUntypedSmall 2 64 1 513, Realloc 64 4 2 1,
      Free 64 1, StateClear 64 1 2]"

definition recorded_env :: Env where
  "recorded_env = \<lparr>env_Trace = \<lparr>pt_Data = [115, 116, 100, 105, 110, 0, 114, 0, 115, 116, 100, 111, 117, 116, 0, 119, 0,
         115, 116, 100, 101, 114, 114, 0, 119, 0],
       pt_GlobalVariableAddresses = [], pt_GlobalVariableInitialData = [], pt_FunctionAddresses = [],
       pt_StreamsInitial = [1, 2, 3]\<rparr>,
     env_Functions = [Some sample_index]\<rparr>"

lemma sample_is_first: "first_recorder 0 0 (\<lambda>_. 0) 1 2 3 0 sample_index = Some sample_first"
  by code_simp

lemma sample_recorded_events:
  "map_option (\<lambda>r. (tl_Events (snd r), pl_DataOut (fst r))) (run_ops rec_step sample_ops sample_first) =
   Some (written_events, Some (pt_Data (env_Trace recorded_env)))"
  by code_simp

definition sample_world :: World where
  "sample_world =
     (initial_streams [1, 2, 3] (empty_ProcessState\<lparr>ps_Memory := empty_MemoryState\<rparr>),
      (new_ThreadState written_events empty_ProcessState)
        \<lparr>th_CallStack := [new_FunctionState sample_index \<lparr>ft_Index = 0, ft_EventStart = 0, ft_EventEnd = 0,
           ft_ThreadTimeEntered = 1, ft_ThreadTimeExited = 0\<rparr>], th_ThreadTime := 1, th_NextEvent := 1\<rparr>)"

lemma sample_ops_legal: "legal_ops recorded_env sample_ops sample_first sample_world"
  by code_simp

lemma sample_steps:
  obtains r where "run_ops rec_step sample_ops sample_first = Some r" and "tl_Events (snd r) = written_events"
    and "pl_DataOut (fst r) = Some (pt_Data (env_Trace recorded_env))" and "in_trace recorded_env written_events r"
  using sample_recorded_events
  by (cases "run_ops rec_step sample_ops sample_first") (auto simp: in_trace_def recorded_env_def)

lemma sample_first_step:
  "new_ProcessState (env_Trace recorded_env) [] = Some (Inr (fst sample_world))"
  "forward recorded_env 1 (fst sample_world, new_ThreadState written_events (fst sample_world)) = Some sample_world"
  by code_simp+

lemma distinct_streams: "distinct [1, 2, 3 :: u64]"
  by simp

lemma sample_related: "recorder_rel recorded_env sample_first sample_world"
proof -
  have "in_trace recorded_env written_events sample_first" by code_simp
  moreover have "pt_StreamsInitial (env_Trace recorded_env) = [1, 2, 3]" "getFunctionIndex recorded_env 0 = Some sample_index"
    by code_simp+
  ultimately obtain ps w where "new_ProcessState (env_Trace recorded_env) [] = Some (Inr ps)"
    "forward recorded_env 1 (ps, new_ThreadState written_events ps) = Some w" "recorder_rel recorded_env sample_first w"
    by (rule first_step[OF sample_is_first distinct_streams])
  with sample_first_step show ?thesis by simp
qed


text \<open>The operations are legal from the point where the viewer has moved over the start of the first function.\<close>

definition legal_start :: "Env \<Rightarrow> RecordOp list \<Rightarrow> Recorder \<Rightarrow> Event list \<Rightarrow> bool" where
  "legal_start env xs r es \<longleftrightarrow>
     (case new_ProcessState (env_Trace env) [] of
        Some (Inr ps) \<Rightarrow>
          (case forward env 1 (ps, new_ThreadState es ps) of Some w \<Rightarrow> legal_ops env xs r w | None \<Rightarrow> True)
      | _ \<Rightarrow> True)"

lemma run_grows: "run_ops rec_step xs r = Some r' \<Longrightarrow> grows r r'"
proof (induction xs arbitrary: r)
  case (Cons x xs)
  then obtain r1 where r1: "rec_step x r = Some r1" "run_ops rec_step xs r1 = Some r'" by (auto simp: bind_eq_Some_conv)
  show ?case by (rule grows_trans[OF rec_step_grows[OF r1(1)] Cons.IH[OF r1(2)]])
qed (simp add: grows_same)

lemma written_trace:
  assumes "traceWriteProcessData (fst r) = Some (env_Trace env)" and "pl_DataOut (fst r) \<noteq> None"
    and "length (pt_Data (env_Trace env)) < 2 ^ 64"
  shows "in_trace env (tl_Events (snd r)) r" and "pt_StreamsInitial (env_Trace env) = pl_StreamsInitial (fst r)"
proof -
  from assms(1) have t: "env_Trace env = \<lparr>pt_Data = (case pl_DataOut (fst r) of None \<Rightarrow> [] | Some d \<Rightarrow> d),
      pt_GlobalVariableAddresses = pl_GlobalVariableAddresses (fst r),
      pt_GlobalVariableInitialData = pl_GlobalVariableInitialData (fst r),
      pt_FunctionAddresses = pl_FunctionAddresses (fst r), pt_StreamsInitial = pl_StreamsInitial (fst r)\<rparr>"
    by (auto simp: traceWriteProcessData_def split: if_splits)
  then show "pt_StreamsInitial (env_Trace env) = pl_StreamsInitial (fst r)" by simp
  from t assms(2,3) show "in_trace env (tl_Events (snd r)) r" by (auto simp: in_trace_def)
qed




end
