(* ===== verification/FormatChecks.thy ===== *)
theory FormatChecks
  imports Notifications CheckLaws
begin

text \<open>
  The formats of the \<open>printf\<close> family: how a conversion specifier is read
  (\<open>include/seec/Trace/FormatSpecifiers.hpp\<close>, \<open>PrintFormatSpecifiers.def\<close>, \<open>PrintFormatSpecifiers.hpp\<close>,
  \<open>lib/Trace/PrintFormatSpecifiers.cpp\<close>) and how a format is checked against the arguments
  (\<open>CStdLibChecker::checkPrintFormat\<close>). A format is a list of characters without the final zero, so
  that the end of the list is where the source finds \<open>'\0'\<close>; a pointer into it is the number of
  characters before it. Sizes are those of x86-64 Linux.
\<close>

section \<open>Length modifiers\<close>

datatype LengthModifier = LM_hh | LM_h | LM_none | LM_l | LM_ll | LM_j | LM_z | LM_t | LM_L

definition asCFormatLengthModifier :: "LengthModifier \<Rightarrow> u32" where
  "asCFormatLengthModifier m =
     (case m of LM_hh \<Rightarrow> 0 | LM_h \<Rightarrow> 1 | LM_none \<Rightarrow> 2 | LM_l \<Rightarrow> 3 | LM_ll \<Rightarrow> 4 | LM_j \<Rightarrow> 5 | LM_z \<Rightarrow> 6
      | LM_t \<Rightarrow> 7 | LM_L \<Rightarrow> 8)"

fun readLengthModifier :: "string \<Rightarrow> LengthModifier \<times> string" where
  "readLengthModifier [] = (LM_none, [])"
| "readLengthModifier (c # cs) =
     (if c = CHR ''h'' then if cs \<noteq> [] \<and> hd cs = CHR ''h'' then (LM_hh, tl cs) else (LM_h, cs)
      else if c = CHR ''l'' then if cs \<noteq> [] \<and> hd cs = CHR ''l'' then (LM_ll, tl cs) else (LM_l, cs)
      else if c = CHR ''j'' then (LM_j, cs)
      else if c = CHR ''z'' then (LM_z, cs)
      else if c = CHR ''t'' then (LM_t, cs)
      else if c = CHR ''L'' then (LM_L, cs)
      else (LM_none, c # cs))"

section \<open>Conversion specifiers\<close>

text \<open>
  The types of arguments, as far as \<open>getAs\<close> tells them apart, after the default promotions.
  \<open>unsigned long\<close> and the types that are the same (\<open>size_t\<close>, \<open>uintmax_t\<close>) are \<open>uintptr_t\<close>, whose values
  are also taken from pointers. A pointer has the size of what it points to, unless that is \<open>void\<close>.
\<close>

datatype ArgType =
    SignedArg
  | UnsignedArg
  | UIntPtrArg
  | DoubleArg
  | LongDoubleArg
  | PointerArg "u64 option"
  | VoidArg

text \<open>A row of the table: the character, its flags, whether width and precision are supported, the
  default precision and the types by length modifier.\<close>

record PrintSpecifier =
  ps_Char :: char
  ps_Flags :: string
  ps_Width :: bool
  ps_Prec :: bool
  ps_Default :: u64
  ps_Lens :: "(LengthModifier \<times> ArgType) list"

definition signed_lens :: "(LengthModifier \<times> ArgType) list" where
  "signed_lens =
     [(LM_hh, SignedArg), (LM_h, SignedArg), (LM_none, SignedArg), (LM_l, SignedArg), (LM_ll, SignedArg),
      (LM_j, SignedArg), (LM_z, UIntPtrArg), (LM_t, SignedArg)]"

definition unsigned_lens :: "(LengthModifier \<times> ArgType) list" where
  "unsigned_lens =
     [(LM_hh, UnsignedArg), (LM_h, UnsignedArg), (LM_none, UnsignedArg), (LM_l, UIntPtrArg), (LM_ll, UnsignedArg),
      (LM_j, UIntPtrArg), (LM_z, UIntPtrArg), (LM_t, SignedArg)]"

definition float_lens :: "(LengthModifier \<times> ArgType) list" where
  "float_lens = [(LM_none, DoubleArg), (LM_l, DoubleArg), (LM_L, LongDoubleArg)]"

definition print_row ::
  "char \<Rightarrow> string \<Rightarrow> bool \<Rightarrow> bool \<Rightarrow> u64 \<Rightarrow> (LengthModifier \<times> ArgType) list \<Rightarrow> PrintSpecifier" where
  "print_row c fl w p d ls =
     \<lparr>ps_Char = c, ps_Flags = fl, ps_Width = w, ps_Prec = p, ps_Default = d, ps_Lens = ls\<rparr>"

definition print_specifiers :: "PrintSpecifier list" where
  "print_specifiers =
     [print_row CHR ''%'' '''' False False 0 [(LM_none, VoidArg)],
      print_row CHR ''c'' ''-'' True False 0 [(LM_none, SignedArg), (LM_l, SignedArg)],
      print_row CHR ''s'' ''-'' True True 0 [(LM_none, PointerArg (Some 1)), (LM_l, PointerArg (Some 4))],
      print_row CHR ''d'' ''-+ 0'' True True 1 signed_lens,
      print_row CHR ''i'' ''-+ 0'' True True 1 signed_lens,
      print_row CHR ''o'' ''-+ #0'' True True 1 signed_lens,
      print_row CHR ''x'' ''-+ #0'' True True 1 signed_lens,
      print_row CHR ''X'' ''-+ #0'' True True 1 signed_lens,
      print_row CHR ''u'' ''-+ 0'' True True 1 unsigned_lens,
      print_row CHR ''f'' ''-+ #0'' True True 6 float_lens,
      print_row CHR ''F'' ''-+ #0'' True True 6 float_lens,
      print_row CHR ''e'' ''-+ #0'' True True 6 float_lens,
      print_row CHR ''E'' ''-+ #0'' True True 6 float_lens,
      print_row CHR ''a'' ''-+ #0'' True True 6 float_lens,
      print_row CHR ''A'' ''-+ #0'' True True 6 float_lens,
      print_row CHR ''g'' ''-+ #0'' True True 6 float_lens,
      print_row CHR ''G'' ''-+ #0'' True True 6 float_lens,
      print_row CHR ''n'' '''' False False 0 [(LM_none, PointerArg (Some 4))],
      print_row CHR ''p'' ''-+ '' True True 0 [(LM_none, PointerArg None)]]"

text \<open>The kind of a conversion is the row of the table; \<open>None\<close> is \<open>Specifier::none\<close>.\<close>

record PrintConversion =
  pc_Start :: "nat option"
  pc_End :: "nat option"
  pc_Conversion :: "PrintSpecifier option"
  pc_Length :: LengthModifier
  pc_Width :: u64
  pc_Precision :: u64
  pc_JustifyLeft :: bool
  pc_SignAlwaysPrint :: bool
  pc_SignPrintSpace :: bool
  pc_AlternativeForm :: bool
  pc_PadWithZero :: bool
  pc_WidthSpecified :: bool
  pc_WidthAsArgument :: bool
  pc_PrecisionSpecified :: bool
  pc_PrecisionAsArgument :: bool

definition new_PrintConversion :: PrintConversion where
  "new_PrintConversion =
     \<lparr>pc_Start = None, pc_End = None, pc_Conversion = None, pc_Length = LM_none, pc_Width = 0, pc_Precision = 0,
      pc_JustifyLeft = False, pc_SignAlwaysPrint = False, pc_SignPrintSpace = False, pc_AlternativeForm = False,
      pc_PadWithZero = False, pc_WidthSpecified = False, pc_WidthAsArgument = False,
      pc_PrecisionSpecified = False, pc_PrecisionAsArgument = False\<rparr>"

text \<open>\<open>strtoul\<close> on digits: the value, or the greatest number if it is too large.\<close>

definition is_digit :: "char \<Rightarrow> bool" where
  "is_digit c \<longleftrightarrow> c \<in> set ''0123456789''"

definition digits_value :: "string \<Rightarrow> nat" where
  "digits_value ds = fold (\<lambda>c n. 10 * n + (of_char c - 48)) ds 0"

definition strtoul :: "string \<Rightarrow> u64 \<times> string" where
  "strtoul s = (of_nat (min (2 ^ 64 - 1) (digits_value (takeWhile is_digit s))), dropWhile is_digit s)"

fun read_flags :: "string \<Rightarrow> PrintConversion \<Rightarrow> PrintConversion \<times> string" where
  "read_flags [] r = (r, [])"
| "read_flags (c # cs) r =
     (if c = CHR ''-'' then read_flags cs (r\<lparr>pc_JustifyLeft := True\<rparr>)
      else if c = CHR ''+'' then read_flags cs (r\<lparr>pc_SignAlwaysPrint := True\<rparr>)
      else if c = CHR '' '' then read_flags cs (r\<lparr>pc_SignPrintSpace := True\<rparr>)
      else if c = CHR ''#'' then read_flags cs (r\<lparr>pc_AlternativeForm := True\<rparr>)
      else if c = CHR ''0'' then read_flags cs (r\<lparr>pc_PadWithZero := True\<rparr>)
      else (r, c # cs))"

fun read_width :: "string \<Rightarrow> PrintConversion \<Rightarrow> PrintConversion \<times> string" where
  "read_width [] r = (r, [])"
| "read_width (c # cs) r =
     (if c = CHR ''*'' then (r\<lparr>pc_WidthSpecified := True, pc_WidthAsArgument := True\<rparr>, cs)
      else if is_digit c then
        (let (n, rest) = strtoul (c # cs) in (r\<lparr>pc_WidthSpecified := True, pc_Width := n\<rparr>, rest))
      else (r, c # cs))"

fun read_precision :: "string \<Rightarrow> PrintConversion \<Rightarrow> PrintConversion \<times> string" where
  "read_precision [] r = (r, [])"
| "read_precision (c # cs) r =
     (if c \<noteq> CHR ''.'' then (r, c # cs)
      else let r1 = r\<lparr>pc_PrecisionSpecified := True\<rparr> in
        if cs \<noteq> [] \<and> hd cs = CHR ''*'' then (r1\<lparr>pc_PrecisionAsArgument := True\<rparr>, tl cs)
        else if cs \<noteq> [] \<and> is_digit (hd cs)
        then (let (n, rest) = strtoul cs in (r1\<lparr>pc_Precision := n\<rparr>, rest))
        else (r1, cs))"

definition set_specifier :: "PrintSpecifier \<Rightarrow> PrintConversion \<Rightarrow> PrintConversion" where
  "set_specifier p r =
     (let r1 = r\<lparr>pc_Conversion := Some p\<rparr> in
      if \<not> pc_PrecisionSpecified r1 \<and> ps_Prec p then r1\<lparr>pc_Precision := ps_Default p\<rparr> else r1)"

text \<open>
  \<open>k\<close> is the position of \<open>s\<close> in the format. At the end of the format the source returns after each
  stage; the later stages do nothing there. The second result is what follows the specifier.
\<close>

definition readNextFrom :: "nat \<Rightarrow> string \<Rightarrow> PrintConversion \<times> string" where
  "readNextFrom k s =
     (case dropWhile (\<lambda>c. c \<noteq> CHR ''%'') s of
        [] \<Rightarrow> (new_PrintConversion, [])
      | p # s0 \<Rightarrow>
          let (r1, s1) = read_flags s0 (new_PrintConversion\<lparr>pc_Start := Some (k + length s - Suc (length s0))\<rparr>);
              (r2, s2) = read_width s1 r1;
              (r3, s3) = read_precision s2 r2;
              (m, s4) = readLengthModifier s3;
              r4 = r3\<lparr>pc_Length := m\<rparr>
          in case s4 of
               [] \<Rightarrow> (r4, [])
             | c # s5 \<Rightarrow>
                 (case List.find (\<lambda>p. ps_Char p = c) print_specifiers of
                    None \<Rightarrow> (r4, s4)
                  | Some p \<Rightarrow> ((set_specifier p r4)\<lparr>pc_End := Some (k + length s - length s5)\<rparr>, s5)))"

text \<open>\<open>allowedJustifyLeft\<close> and the like.\<close>

definition allowed_flag :: "char \<Rightarrow> PrintConversion \<Rightarrow> bool" where
  "allowed_flag c v = (case pc_Conversion v of None \<Rightarrow> False | Some p \<Rightarrow> c \<in> set (ps_Flags p))"

definition allowedWidth :: "PrintConversion \<Rightarrow> bool" where
  "allowedWidth v = (case pc_Conversion v of None \<Rightarrow> False | Some p \<Rightarrow> ps_Width p)"

definition allowedPrecision :: "PrintConversion \<Rightarrow> bool" where
  "allowedPrecision v = (case pc_Conversion v of None \<Rightarrow> False | Some p \<Rightarrow> ps_Prec p)"

definition current_type :: "PrintConversion \<Rightarrow> ArgType option" where
  "current_type v = (case pc_Conversion v of None \<Rightarrow> None | Some p \<Rightarrow> map_of (ps_Lens p) (pc_Length v))"

definition allowedCurrentLength :: "PrintConversion \<Rightarrow> bool" where
  "allowedCurrentLength v \<longleftrightarrow> current_type v \<noteq> None"

section \<open>Variadic arguments\<close>

text \<open>The arguments from number \<open>va_Offset\<close> of the call on, with their types.\<close>

record VarArgs =
  va_Offset :: nat
  va_Args :: "(IRType \<times> Operand) list"

definition va_size :: "VarArgs \<Rightarrow> nat" where
  "va_size va = length (va_Args va)"

text \<open>
  Which LLVM types \<open>getCurrentRuntimeValueAs\<close> takes a value of each type from, and that value. An
  integer or a floating-point number is an instruction or a constant. The outer option is an assertion.
\<close>

definition type_taken :: "ArgType \<Rightarrow> IRType \<Rightarrow> bool" where
  "type_taken t ty =
     (case ty of
        IntegerTy _ \<Rightarrow> (case t of SignedArg \<Rightarrow> True | UnsignedArg \<Rightarrow> True | UIntPtrArg \<Rightarrow> True | PointerArg _ \<Rightarrow> True | _ \<Rightarrow> False)
      | PointerTy \<Rightarrow> (case t of UIntPtrArg \<Rightarrow> True | PointerArg _ \<Rightarrow> True | _ \<Rightarrow> False)
      | DoubleTy \<Rightarrow> (case t of DoubleArg \<Rightarrow> True | _ \<Rightarrow> False)
      | X86_FP80Ty \<Rightarrow> (case t of LongDoubleArg \<Rightarrow> True | _ \<Rightarrow> False)
      | PPC_FP128Ty \<Rightarrow> (case t of LongDoubleArg \<Rightarrow> True | _ \<Rightarrow> False)
      | _ \<Rightarrow> False)"

definition value_as :: "ArgType \<Rightarrow> IRType \<times> Operand \<Rightarrow> ProcessListener \<Rightarrow> TracedFunction \<Rightarrow> u64 option option" where
  "value_as t arg p f =
     (if \<not> type_taken t (fst arg) then Some None
      else if fst arg = PointerTy then operand_address p f (snd arg)
      else map_option Some (operand_unsigned f (snd arg)))"

definition getAs :: "ArgType \<Rightarrow> VarArgs \<Rightarrow> nat \<Rightarrow> Recorder \<Rightarrow> u64 option option" where
  "getAs t va i r =
     (if i < va_size va
      then (case active_function r of None \<Rightarrow> None | Some f \<Rightarrow> value_as t (va_Args va ! i) (fst r) f)
      else Some None)"

definition isArgumentTypeOK :: "PrintConversion \<Rightarrow> VarArgs \<Rightarrow> nat \<Rightarrow> Recorder \<Rightarrow> bool option" where
  "isArgumentTypeOK v va i r =
     (case current_type v of
        None \<Rightarrow> Some False
      | Some t \<Rightarrow>
          if t = VoidArg then Some True
          else if i < va_size va then map_option (\<lambda>x. x \<noteq> None) (getAs t va i r)
          else Some False)"

definition getArgumentPointee :: "PrintConversion \<Rightarrow> VarArgs \<Rightarrow> nat \<Rightarrow> Recorder \<Rightarrow> MemoryArea option option" where
  "getArgumentPointee v va i r =
     (case current_type v of
        Some (PointerArg (Some n)) \<Rightarrow>
          if i < va_size va then map_option (map_option (\<lambda>a. area a n)) (getAs (PointerArg (Some n)) va i r)
          else Some None
      | _ \<Rightarrow> Some None)"

section \<open>Checking a format\<close>

text \<open>What is wrong with a conversion by itself, in the order in which it is checked.\<close>

definition denied_parts :: "PrintConversion \<Rightarrow> (bool \<times> RunErrorType \<times> Arg list) list" where
  "denied_parts v =
     [(pc_JustifyLeft v \<and> \<not> allowed_flag CHR ''-'' v, FormatSpecifierFlag, [ArgCharacter 45]),
      (pc_SignAlwaysPrint v \<and> \<not> allowed_flag CHR ''+'' v, FormatSpecifierFlag, [ArgCharacter 43]),
      (pc_SignPrintSpace v \<and> \<not> allowed_flag CHR '' '' v, FormatSpecifierFlag, [ArgCharacter 32]),
      (pc_AlternativeForm v \<and> \<not> allowed_flag CHR ''#'' v, FormatSpecifierFlag, [ArgCharacter 35]),
      (pc_PadWithZero v \<and> \<not> allowed_flag CHR ''0'' v, FormatSpecifierFlag, [ArgCharacter 48]),
      (pc_WidthSpecified v \<and> \<not> allowedWidth v, FormatSpecifierWidthDenied, []),
      (pc_PrecisionSpecified v \<and> \<not> allowedPrecision v, FormatSpecifierPrecisionDenied, []),
      (\<not> allowedCurrentLength v, FormatSpecifierLengthDenied,
         [ArgSelect CFormatLengthModifier (asCFormatLengthModifier (pc_Length v))])]"

text \<open>\<open>at\<close> are the arguments all errors share: the function, the parameter and where the conversion
  starts and ends.\<close>

definition check_denied ::
  "'a CStdLibChecker_scheme \<Rightarrow> Arg list \<Rightarrow> PrintConversion \<Rightarrow> Recorder \<Rightarrow> unit checked" where
  "check_denied ck at v r =
     (case List.find fst (denied_parts v) of
        Some (_, t, as) \<Rightarrow> fatal ck t (at @ as) r
      | None \<Rightarrow> passes ())"

definition check_int_argument ::
  "'a CStdLibChecker_scheme \<Rightarrow> Arg list \<Rightarrow> bool \<Rightarrow> RunErrorType \<Rightarrow> VarArgs \<Rightarrow> nat \<Rightarrow> Recorder \<Rightarrow> unit checked" where
  "check_int_argument ck at present t va i r =
     (if present \<and> i < va_size va
      then (case getAs SignedArg va i r of
              None \<Rightarrow> None
            | Some None \<Rightarrow> fatal ck t (at @ [ArgParameter (of_nat (va_Offset va + i))]) r
            | Some (Some _) \<Rightarrow> passes ())
      else passes ())"

definition is_string_conversion :: "PrintConversion \<Rightarrow> bool" where
  "is_string_conversion v = (case pc_Conversion v of None \<Rightarrow> False | Some p \<Rightarrow> ps_Char p = CHR ''s'')"

definition is_percent :: "PrintConversion \<Rightarrow> bool" where
  "is_percent v = (case pc_Conversion v of None \<Rightarrow> False | Some p \<Rightarrow> ps_Char p = CHR ''%'')"

text \<open>What the argument points to. \<open>False\<close> is \<open>return false\<close> without an error of its own.\<close>

definition check_pointee ::
  "(u64 \<Rightarrow> byte) \<Rightarrow> 'a CStdLibChecker_scheme \<Rightarrow> PrintConversion \<Rightarrow> VarArgs \<Rightarrow> nat \<Rightarrow> Recorder \<Rightarrow> bool checked" where
  "check_pointee peek ck v va i r =
     (if is_string_conversion v then
        if i < va_size va then
          (case getAs (PointerArg (Some 1)) va i r of
             Some (Some a) \<Rightarrow>
               check_bind (if pc_WidthSpecified v then checkLimitedCStringRead peek ck (va_Offset va + i) a (pc_Width v) r
                           else checkCStringRead peek ck (va_Offset va + i) a r)
                 (\<lambda>n. passes (n \<noteq> 0))
           | _ \<Rightarrow> None)
        else passes True
      else
        (case getArgumentPointee v va i r of
           None \<Rightarrow> None
         | Some None \<Rightarrow> passes True
         | Some (Some ar) \<Rightarrow>
             check_then (checkMemoryExistsAndAccessibleForParameter ck (va_Offset va + i) (iv_Start ar)
                           (interval_length ar) ReadAccess r)
               (passes True)))"

text \<open>One conversion, whose arguments start at number \<open>next\<close>.\<close>

definition check_conversion ::
  "(u64 \<Rightarrow> byte) \<Rightarrow> 'a CStdLibChecker_scheme \<Rightarrow> Arg list \<Rightarrow> PrintConversion \<Rightarrow> VarArgs \<Rightarrow> nat \<Rightarrow> Recorder \<Rightarrow> bool checked" where
  "check_conversion peek ck at v va next r =
     (let i = next + (if pc_WidthAsArgument v then 1 else 0);
          j = i + (if pc_PrecisionAsArgument v then 1 else 0) in
      check_then (check_denied ck at v r)
        (check_then (check_int_argument ck at (pc_WidthAsArgument v) FormatSpecifierWidthArgType va next r)
          (check_then (check_int_argument ck at (pc_PrecisionAsArgument v) FormatSpecifierPrecisionArgType va i r)
            (case isArgumentTypeOK v va j r of
               None \<Rightarrow> None
             | Some False \<Rightarrow>
                 fatal ck FormatSpecifierArgType
                   (at @ [ArgSelect CFormatLengthModifier (asCFormatLengthModifier (pc_Length v)),
                          ArgParameter (of_nat (va_Offset va + j))]) r
             | Some True \<Rightarrow> check_pointee peek ck v va j r))))"

definition arguments_of :: "PrintConversion \<Rightarrow> nat" where
  "arguments_of v =
     (if pc_WidthAsArgument v then 1 else 0) + (if pc_PrecisionAsArgument v then 1 else 0) + (if is_percent v then 0 else 1)"

text \<open>Reading a conversion consumes characters.\<close>

lemma read_flags_shorter: "read_flags s r = (r1, s1) \<Longrightarrow> length s1 \<le> length s"
  by (induction s r rule: read_flags.induct) (force split: if_splits)+

lemma dropWhile_shorter: "length (dropWhile P s) \<le> length s"
  by (induction s) simp_all

lemma read_width_shorter: "read_width s r = (r1, s1) \<Longrightarrow> length s1 \<le> length s"
  using dropWhile_shorter[of is_digit s] by (cases s) (auto simp: strtoul_def Let_def split: if_splits)

lemma read_precision_shorter: "read_precision s r = (r1, s1) \<Longrightarrow> length s1 \<le> length s"
  using dropWhile_shorter[of is_digit "tl s"] by (cases s) (auto simp: strtoul_def Let_def split: if_splits)

lemma readLengthModifier_shorter: "readLengthModifier s = (m, s1) \<Longrightarrow> length s1 \<le> length s"
  by (cases s) (auto split: if_splits)

lemma readNextFrom_shorter:
  assumes "readNextFrom k s = (v, rest)" and "pc_End v = Some e"
  shows "length rest < length s"
proof -
  obtain p s0 where d: "dropWhile (\<lambda>c. c \<noteq> CHR ''%'') s = p # s0"
  proof (cases "dropWhile (\<lambda>c. c \<noteq> CHR ''%'') s")
    case Nil
    from assms(1)[unfolded readNextFrom_def Nil] have "pc_End v = None" by (auto simp: new_PrintConversion_def)
    with assms(2) show ?thesis by simp
  qed
  have s0: "length s0 < length s" using dropWhile_shorter[of "\<lambda>c. c \<noteq> CHR ''%''" s] d by simp
  define r0 where "r0 = new_PrintConversion\<lparr>pc_Start := Some (k + length s - Suc (length s0))\<rparr>"
  obtain r1 s1 where 1: "read_flags s0 r0 = (r1, s1)" by fastforce
  obtain r2 s2 where 2: "read_width s1 r1 = (r2, s2)" by fastforce
  obtain r3 s3 where 3: "read_precision s2 r2 = (r3, s3)" by fastforce
  obtain m s4 where 4: "readLengthModifier s3 = (m, s4)" by fastforce
  note le = read_flags_shorter[OF 1] read_width_shorter[OF 2] read_precision_shorter[OF 3] readLengthModifier_shorter[OF 4]
  have "readNextFrom k s =
      (case s4 of
         [] \<Rightarrow> (r3\<lparr>pc_Length := m\<rparr>, [])
       | c # s5 \<Rightarrow>
           (case List.find (\<lambda>p. ps_Char p = c) print_specifiers of
              None \<Rightarrow> (r3\<lparr>pc_Length := m\<rparr>, s4)
            | Some p \<Rightarrow> ((set_specifier p (r3\<lparr>pc_Length := m\<rparr>))\<lparr>pc_End := Some (k + length s - length s5)\<rparr>, s5)))"
    by (simp only: readNextFrom_def d list.case 1[unfolded r0_def] 2 3 4 Let_def prod.case)
  then have "length rest \<le> length s4" using assms(1) by (simp split: list.splits option.splits)
  with le s0 show ?thesis by simp
qed

text \<open>The conversions of a format from position \<open>k\<close> on; the result is the number of arguments so far, or
  \<open>None\<close> if the check has returned \<open>false\<close>.\<close>

function check_conversions ::
  "(u64 \<Rightarrow> byte) \<Rightarrow> 'a CStdLibChecker_scheme \<Rightarrow> nat \<Rightarrow> VarArgs \<Rightarrow> nat \<Rightarrow> string \<Rightarrow> nat \<Rightarrow> Recorder \<Rightarrow> nat option checked" where
  "check_conversions peek ck param va k s next r =
     (case readNextFrom k s of
        (v, rest) \<Rightarrow>
          (case pc_Start v of
             None \<Rightarrow> passes (Some next)
           | Some b \<Rightarrow>
               (case pc_End v of
                  None \<Rightarrow> fatal ck FormatSpecifierParse [fn_arg ck, ArgParameter (of_nat param), ArgSize (of_nat b)] r
                | Some e \<Rightarrow>
                    check_bind (check_conversion peek ck
                        [fn_arg ck, ArgParameter (of_nat param), ArgSize (of_nat b), ArgSize (of_nat e)] v va next r)
                      (\<lambda>ok. if ok then check_conversions peek ck param va e rest (next + arguments_of v) r else passes None))))"
  by pat_completeness auto
termination
  by (relation "measure (\<lambda>(peek, ck, param, va, k, s, next, r). length s)") (auto dest: readNextFrom_shorter[OF sym])

declare check_conversions.simps [simp del]

definition string_at :: "(u64 \<Rightarrow> byte) \<Rightarrow> u64 \<Rightarrow> u64 \<Rightarrow> string" where
  "string_at peek a n = map (\<lambda>i. char_of (unat (peek (a + of_nat i)))) [0..<unat n - 1]"

text \<open>Too many arguments are a warning, which is written before the check goes on.\<close>

definition warning :: "'a Checker_scheme \<Rightarrow> RunErrorType \<Rightarrow> Arg list \<Rightarrow> Recorder \<Rightarrow> Recorder option" where
  "warning ck t as r =
     (case createRunError t as of
        None \<Rightarrow> None
      | Some e \<Rightarrow> (case raiseError ck e Warning r of Inl r' \<Rightarrow> None | Inr r' \<Rightarrow> Some r'))"

definition check_argument_count ::
  "'a CStdLibChecker_scheme \<Rightarrow> VarArgs \<Rightarrow> nat \<Rightarrow> Recorder \<Rightarrow> (bool \<times> Recorder) checked" where
  "check_argument_count ck va next r =
     (let as = [fn_arg ck, ArgSize (of_nat next), ArgSize (of_nat (va_size va))] in
      if va_size va < next then fatal ck VarArgsInsufficient as r
      else if next < va_size va then map_option (\<lambda>r'. Inr (True, r')) (warning ck VarArgsSuperfluous as r)
      else passes (True, r))"

definition checkPrintFormat ::
  "(u64 \<Rightarrow> byte) \<Rightarrow> 'a CStdLibChecker_scheme \<Rightarrow> nat \<Rightarrow> u64 \<Rightarrow> VarArgs \<Rightarrow> Recorder \<Rightarrow> (bool \<times> Recorder) checked" where
  "checkPrintFormat peek ck param a va r =
     check_bind (checkCStringRead peek ck param a r)
       (\<lambda>n. if n = 0 then passes (False, r)
            else check_bind (check_conversions peek ck param va 0 (string_at peek a n) 0 r)
              (\<lambda>res. case res of None \<Rightarrow> passes (False, r) | Some next \<Rightarrow> check_argument_count ck va next r))"

section \<open>What a passed check guarantees\<close>

text \<open>A conversion that the C library accepts in this form, and the arguments it takes.\<close>

definition flags_of :: "PrintConversion \<Rightarrow> char set" where
  "flags_of v =
     (if pc_JustifyLeft v then {CHR ''-''} else {}) \<union> (if pc_SignAlwaysPrint v then {CHR ''+''} else {}) \<union>
     (if pc_SignPrintSpace v then {CHR '' ''} else {}) \<union> (if pc_AlternativeForm v then {CHR ''#''} else {}) \<union>
     (if pc_PadWithZero v then {CHR ''0''} else {})"

definition legal_conversion :: "PrintConversion \<Rightarrow> bool" where
  "legal_conversion v \<longleftrightarrow>
     (case pc_Conversion v of
        None \<Rightarrow> False
      | Some p \<Rightarrow>
          flags_of v \<subseteq> set (ps_Flags p) \<and> (pc_WidthSpecified v \<longrightarrow> ps_Width p) \<and>
          (pc_PrecisionSpecified v \<longrightarrow> ps_Prec p) \<and> pc_Length v \<in> fst ` set (ps_Lens p))"

text \<open>The conversions of a format, \<open>None\<close> if one of them cannot be read.\<close>

function conversions :: "nat \<Rightarrow> string \<Rightarrow> PrintConversion list option" where
  "conversions k s =
     (case readNextFrom k s of
        (v, rest) \<Rightarrow>
          if pc_Start v = None then Some []
          else (case pc_End v of None \<Rightarrow> None | Some e \<Rightarrow> map_option (Cons v) (conversions e rest)))"
  by pat_completeness auto
termination
  by (relation "measure (\<lambda>(k, s). length s)") (auto dest: readNextFrom_shorter[OF sym])

declare conversions.simps [simp del]

text \<open>The types of the arguments from number \<open>i\<close> on are those that the conversions ask for, and all
  arguments that the conversions ask for exist.\<close>

fun arguments_typed :: "(IRType \<times> Operand) list \<Rightarrow> nat \<Rightarrow> PrintConversion list \<Rightarrow> bool" where
  "arguments_typed as i [] = (i \<le> length as)"
| "arguments_typed as i (v # vs) =
     (let j = (if pc_WidthAsArgument v then Suc i else i);
          l = (if pc_PrecisionAsArgument v then Suc j else j) in
      (pc_WidthAsArgument v \<longrightarrow> i < length as \<and> type_taken SignedArg (fst (as ! i))) \<and>
      (pc_PrecisionAsArgument v \<longrightarrow> j < length as \<and> type_taken SignedArg (fst (as ! j))) \<and>
      (if is_percent v then arguments_typed as l vs
       else l < length as \<and> (\<exists>t. current_type v = Some t \<and> type_taken t (fst (as ! l))) \<and>
            arguments_typed as (Suc l) vs))"

lemma check_bind_passed:
  "check_bind c f = Some (Inr v) \<longleftrightarrow> (\<exists>u. c = Some (Inr u) \<and> f u = Some (Inr v))"
  by (auto simp: check_bind_def split: option.splits sum.splits)

lemma fatal_passed [simp]: "fatal ck t as r = Some (Inr v) \<longleftrightarrow> False"
  using fatal_not_passed[of ck t as r v] by simp

lemma denied_passed:
  assumes "check_denied ck at v r = passes ()"
  shows "legal_conversion v"
proof -
  have "List.find fst (denied_parts v) = None"
    using assms by (auto simp: check_denied_def passes_def split: option.splits prod.splits)
  then have n: "list_all (\<lambda>d. \<not> fst d) (denied_parts v)" unfolding find_None_iff list_all_iff by blast
  have f: "pc_JustifyLeft v \<longrightarrow> allowed_flag CHR ''-'' v" "pc_SignAlwaysPrint v \<longrightarrow> allowed_flag CHR ''+'' v"
    "pc_SignPrintSpace v \<longrightarrow> allowed_flag CHR '' '' v" "pc_AlternativeForm v \<longrightarrow> allowed_flag CHR ''#'' v"
    "pc_PadWithZero v \<longrightarrow> allowed_flag CHR ''0'' v" "pc_WidthSpecified v \<longrightarrow> allowedWidth v"
    "pc_PrecisionSpecified v \<longrightarrow> allowedPrecision v" "allowedCurrentLength v"
    using n by (simp_all add: denied_parts_def)
  from f(8) obtain p t where p: "pc_Conversion v = Some p" "map_of (ps_Lens p) (pc_Length v) = Some t"
    by (auto simp: allowedCurrentLength_def current_type_def split: option.splits)
  have "pc_Length v \<in> fst ` set (ps_Lens p)" using map_of_SomeD[OF p(2)] by force
  moreover have "flags_of v \<subseteq> set (ps_Flags p)"
    using f(1-5) p(1) by (simp add: flags_of_def allowed_flag_def)
  ultimately show ?thesis
    using f(6,7) p(1) by (simp add: legal_conversion_def allowedWidth_def allowedPrecision_def)
qed

lemma typed_argument:
  assumes "isArgumentTypeOK v va i r = Some True"
  shows "\<exists>t. current_type v = Some t \<and> (t = VoidArg \<or> i < va_size va \<and> type_taken t (fst (va_Args va ! i)))"
  using assms
  by (auto simp: isArgumentTypeOK_def getAs_def value_as_def va_size_def split: option.splits if_splits)

text \<open>Only \<open>%%\<close> takes nothing, and it can have neither a width nor a precision.\<close>

lemma specifier_rows:
  "list_all (\<lambda>p. (VoidArg \<in> snd ` set (ps_Lens p) \<longrightarrow> ps_Char p = CHR ''%'') \<and>
     (ps_Char p = CHR ''%'' \<longrightarrow> \<not> ps_Width p \<and> \<not> ps_Prec p)) print_specifiers"
  by (simp add: print_specifiers_def print_row_def signed_lens_def unsigned_lens_def float_lens_def)

definition read_ok :: "PrintConversion \<Rightarrow> bool" where
  "read_ok v \<longleftrightarrow> (pc_WidthAsArgument v \<longrightarrow> pc_WidthSpecified v) \<and>
     (pc_PrecisionAsArgument v \<longrightarrow> pc_PrecisionSpecified v) \<and>
     (case pc_Conversion v of None \<Rightarrow> True | Some p \<Rightarrow> p \<in> set print_specifiers)"

lemma read_flags_ok: "read_flags s r = (r1, s1) \<Longrightarrow> read_ok r \<Longrightarrow> read_ok r1"
  by (induction s r rule: read_flags.induct) (force simp: read_ok_def split: if_splits)+

lemma read_width_ok: "read_width s r = (r1, s1) \<Longrightarrow> read_ok r \<Longrightarrow> read_ok r1"
  by (cases s) (auto simp: read_ok_def split: if_splits prod.splits)

lemma read_precision_ok: "read_precision s r = (r1, s1) \<Longrightarrow> read_ok r \<Longrightarrow> read_ok r1"
  by (cases s) (auto simp: read_ok_def Let_def split: if_splits prod.splits)

lemma set_specifier_ok: "read_ok r \<Longrightarrow> p \<in> set print_specifiers \<Longrightarrow> read_ok ((set_specifier p r)\<lparr>pc_End := e\<rparr>)"
  by (auto simp: read_ok_def set_specifier_def Let_def)

lemma readNextFrom_ok:
  assumes "readNextFrom k s = (v, rest)"
  shows "read_ok v"
proof (cases "dropWhile (\<lambda>c. c \<noteq> CHR ''%'') s")
  case Nil
  from assms[unfolded readNextFrom_def Nil] show ?thesis by (auto simp: new_PrintConversion_def read_ok_def)
next
  case (Cons p s0)
  define r0 where "r0 = new_PrintConversion\<lparr>pc_Start := Some (k + length s - Suc (length s0))\<rparr>"
  obtain r1 s1 where 1: "read_flags s0 r0 = (r1, s1)" by fastforce
  obtain r2 s2 where 2: "read_width s1 r1 = (r2, s2)" by fastforce
  obtain r3 s3 where 3: "read_precision s2 r2 = (r3, s3)" by fastforce
  obtain m s4 where 4: "readLengthModifier s3 = (m, s4)" by fastforce
  have "read_ok r0" by (simp add: r0_def new_PrintConversion_def read_ok_def)
  from read_precision_ok[OF 3 read_width_ok[OF 2 read_flags_ok[OF 1 this]]]
  have r4: "read_ok (r3\<lparr>pc_Length := m\<rparr>)" by (simp add: read_ok_def)
  have "readNextFrom k s =
      (case s4 of
         [] \<Rightarrow> (r3\<lparr>pc_Length := m\<rparr>, [])
       | c # s5 \<Rightarrow>
           (case List.find (\<lambda>p. ps_Char p = c) print_specifiers of
              None \<Rightarrow> (r3\<lparr>pc_Length := m\<rparr>, s4)
            | Some p \<Rightarrow> ((set_specifier p (r3\<lparr>pc_Length := m\<rparr>))\<lparr>pc_End := Some (k + length s - length s5)\<rparr>, s5)))"
    by (simp only: readNextFrom_def Cons list.case 1[unfolded r0_def] 2 3 4 Let_def prod.case)
  moreover have "p \<in> set print_specifiers" if "List.find (\<lambda>p. ps_Char p = c) print_specifiers = Some p" for p c
    using that by (auto simp: find_Some_iff)
  ultimately show ?thesis using assms r4 set_specifier_ok[OF r4] by (auto split: list.splits option.splits)
qed

lemma percent_takes_nothing:
  assumes "read_ok v" and "legal_conversion v"
  shows "is_percent v \<Longrightarrow> \<not> pc_WidthAsArgument v \<and> \<not> pc_PrecisionAsArgument v"
    and "current_type v = Some VoidArg \<Longrightarrow> is_percent v"
proof -
  from assms obtain p where p: "pc_Conversion v = Some p" "p \<in> set print_specifiers"
    by (auto simp: read_ok_def legal_conversion_def split: option.splits)
  note row = bspec[OF specifier_rows[unfolded list_all_iff] p(2)]
  show "is_percent v \<Longrightarrow> \<not> pc_WidthAsArgument v \<and> \<not> pc_PrecisionAsArgument v"
    using row assms p(1) by (auto simp: is_percent_def read_ok_def legal_conversion_def)
  show "current_type v = Some VoidArg \<Longrightarrow> is_percent v"
    using row p(1) by (force simp: is_percent_def current_type_def dest: map_of_SomeD)
qed

lemma int_argument_passed:
  assumes "check_int_argument ck at present t va i r = passes ()" and "present" and "i < va_size va"
  shows "type_taken SignedArg (fst (va_Args va ! i))"
  using assms by (auto simp: check_int_argument_def passes_def getAs_def value_as_def split: option.splits if_splits)

lemma conversion_passed:
  assumes "check_conversion peek ck at v va next r = Some (Inr ok)" and "read_ok v" and "next \<le> va_size va"
  shows "legal_conversion v \<and> next + arguments_of v \<le> va_size va \<and>
    (arguments_typed (va_Args va) (next + arguments_of v) vs \<longrightarrow> arguments_typed (va_Args va) next (v # vs))"
proof -
  let ?i = "next + (if pc_WidthAsArgument v then 1 else 0)"
  let ?j = "?i + (if pc_PrecisionAsArgument v then 1 else 0)"
  from assms(1) have d: "check_denied ck at v r = passes ()"
    and w: "check_int_argument ck at (pc_WidthAsArgument v) FormatSpecifierWidthArgType va next r = passes ()"
    and p: "check_int_argument ck at (pc_PrecisionAsArgument v) FormatSpecifierPrecisionArgType va ?i r = passes ()"
    and t: "isArgumentTypeOK v va ?j r = Some True"
    unfolding check_conversion_def Let_def check_then_passed
    by (auto split: option.splits bool.splits)
  from denied_passed[OF d] have legal: "legal_conversion v" .
  note P = percent_takes_nothing[OF assms(2) legal]
  show ?thesis
  proof (cases "is_percent v")
    case True
    then show ?thesis using legal P(1) assms(3) by (auto simp: arguments_of_def)
  next
    case False
    with P(2) typed_argument[OF t] have j: "?j < va_size va"
      "\<exists>t. current_type v = Some t \<and> type_taken t (fst (va_Args va ! ?j))" by auto
    have "pc_WidthAsArgument v \<Longrightarrow> type_taken SignedArg (fst (va_Args va ! next))"
      using int_argument_passed[OF w] j(1) by (auto split: if_splits)
    moreover have "pc_PrecisionAsArgument v \<Longrightarrow> type_taken SignedArg (fst (va_Args va ! ?i))"
      using int_argument_passed[OF p] j(1) by (auto split: if_splits)
    ultimately show ?thesis using legal j False
      by (auto simp: arguments_of_def va_size_def Let_def split: if_splits)
  qed
qed

lemma conversions_passed:
  assumes "check_conversions peek ck param va k s nx r = Some (Inr (Some n))" and "nx \<le> va_size va"
  shows "\<exists>vs. conversions k s = Some vs \<and> list_all legal_conversion vs \<and>
    arguments_typed (va_Args va) nx vs \<and> n \<le> va_size va"
  using assms
proof (induction "length s" arbitrary: k s nx rule: less_induct)
  case less
  obtain v rest where v: "readNextFrom k s = (v, rest)" by fastforce
  note C = less.prems(1)[unfolded check_conversions.simps[of peek ck param va k s] v prod.case]
    and D = conversions.simps[of k s, unfolded v prod.case]
  show ?case
  proof (cases "pc_Start v")
    case None
    with C D less.prems(2) show ?thesis by (simp add: passes_def va_size_def)
  next
    case (Some b)
    with C obtain e where e: "pc_End v = Some e" by (auto split: option.splits)
    from C Some e obtain ok where
      ok: "check_conversion peek ck [fn_arg ck, ArgParameter (of_nat param), ArgSize (of_nat b), ArgSize (of_nat e)]
          v va nx r = Some (Inr ok)" and
      rest: "(if ok then check_conversions peek ck param va e rest (nx + arguments_of v) r else passes None) =
          Some (Inr (Some n))"
      by (auto simp: check_bind_passed)
    from rest have rec: "check_conversions peek ck param va e rest (nx + arguments_of v) r = Some (Inr (Some n))"
      by (cases ok) (simp_all add: passes_def)
    note P = conversion_passed[OF ok readNextFrom_ok[OF v] less.prems(2)]
    from less.hyps[OF readNextFrom_shorter[OF v e] rec] P obtain vs where
      "conversions e rest = Some vs" "list_all legal_conversion vs"
      "arguments_typed (va_Args va) (nx + arguments_of v) vs" "n \<le> va_size va" by blast
    then show ?thesis using P[of vs] D Some e by (intro exI[of _ "v # vs"]) simp
  qed
qed

text \<open>C13: A format that is accepted fits its arguments. If the check of a format returns true, the
  whole format can be read; each of its conversions has only flags, a width, a precision and a
  length that its kind supports; every argument that a conversion asks for, also those for \<open>*\<close>, was
  passed and has a type from which a value of the expected type can be taken.\<close>

theorem accepted_format_fits:
  assumes "checkPrintFormat peek ck param a va r = Some (Inr (True, r'))"
  shows "\<exists>n vs. checkCStringRead peek ck param a r = Some (Inr n) \<and>
    conversions 0 (string_at peek a n) = Some vs \<and> list_all legal_conversion vs \<and>
    arguments_typed (va_Args va) 0 vs"
proof -
  from assms obtain n where n: "checkCStringRead peek ck param a r = Some (Inr n)" "n \<noteq> 0"
    by (auto simp: checkPrintFormat_def check_bind_passed passes_def split: if_splits)
  with assms obtain res where res: "check_conversions peek ck param va 0 (string_at peek a n) 0 r = Some (Inr res)"
    "res \<noteq> None"
    by (auto simp: checkPrintFormat_def check_bind_passed passes_def split: option.splits)
  from res obtain m where "check_conversions peek ck param va 0 (string_at peek a n) 0 r = Some (Inr (Some m))" by auto
  from conversions_passed[OF this] n(1) show ?thesis by auto
qed

text \<open>Eight initialised bytes at 16, and a caller whose first instruction has the value 16.\<close>

definition format_recorder :: Recorder where
  "format_recorder =
     ((fst sample_recorder)\<lparr>pl_TraceMemory := [(16, \<lparr>tma_Address = 16, tma_Shadow = [0, 0, 0, 0, 0, 0, 0, 0]\<rparr>)]\<rparr>,
      (snd sample_recorder)\<lparr>tl_FunctionStack :=
        [(new_TracedFunction None 0 [])\<lparr>tf_CurrentValues := [\<lparr>rv_RecordOffset = Some 0, rv_Data = 16, rv_Extra = 0\<rparr>]\<rparr>]\<rparr>)"

definition format_checker :: CStdLibChecker where
  "format_checker =
     \<lparr>ck_Instruction = 4, ck_PermanentNotes = [], ck_TemporaryNotes = [], sc_Function = 0, sc_CallerIdx = 0,
      sc_Call = Some [ValueConstant NullPointer, ValueConstant NullPointer, ValueConstant NullPointer]\<rparr>"

definition text_at :: "string \<Rightarrow> u64 \<Rightarrow> byte" where
  "text_at s a = (if unat (a - 16) < length s then of_nat (of_char (s ! unat (a - 16))) else 0)"

lemma format_argument: "argument_object (addTemporaryNote n format_checker) k format_recorder = Some null_target" if "k < 3"
  using that by (auto simp: argument_object_def format_checker_def addTemporaryNote_def format_recorder_def
      pl_getPointerObject_def less_Suc_eq numeral_3_eq_3 numeral_2_eq_2)

lemma format_memory: "pl_TraceMemory (fst format_recorder) = [(16, \<lparr>tma_Address = 16, tma_Shadow = [0, 0, 0, 0, 0, 0, 0, 0]\<rparr>)]"
  by (simp add: format_recorder_def)

lemma format_area: "containing_area 16 format_recorder = Some (area 16 8)"
proof -
  have "findAllocationContaining 16 [(16, \<lparr>tma_Address = 16, tma_Shadow = [0, 0, 0, 0, 0, 0, 0, 0]\<rparr>)] =
      Some \<lparr>tma_Address = 16, tma_Shadow = [0, 0, 0, 0, 0, 0, 0, 0]\<rparr>" by code_simp
  then show ?thesis
    by (simp add: containing_area_def pl_getContainingMemoryArea_def format_memory tma_getArea_def tma_getLength_def)
qed

lemma sample_format_read:
  "checkCStringRead (text_at ''%5d'') format_checker 0 16 format_recorder = Some (Inr 4)"
proof -
  have str: "getCStringInArea (text_at ''%5d'') 16 (area 16 8) = Some (Some (area 16 4))" by code_simp
  have known: "hasKnownState 16 4 (pl_TraceMemory (fst format_recorder)) = Some True"
    "getLengthOfKnownState 16 4 (pl_TraceMemory (fst format_recorder)) = Some 4"
    unfolding format_memory by code_simp+
  show ?thesis
    by (simp add: checkCStringRead_def with_parameter_note_def createRunError_def fn_arg_def format_argument
        checkCStringRead_object_def memoryExistsForParameter_def checkPointer_def target_set_def pointer_target_def
        format_area str checkCStringIsValid_def known checkMemoryAccessForParameter_def)
      (simp add: passes_def)
qed

lemma sample_format_passes:
  "checkPrintFormat (text_at ''%5d'') format_checker 0 16 \<lparr>va_Offset = 1, va_Args = [(IntegerTy 32, OpConstantInt 7)]\<rparr>
     format_recorder = Some (Inr (True, format_recorder))"
proof -
  have "check_conversions (text_at ''%5d'') format_checker 0 \<lparr>va_Offset = 1, va_Args = [(IntegerTy 32, OpConstantInt 7)]\<rparr>
      0 ''%5d'' 0 format_recorder = Some (Inr (Some 1))" by code_simp
  moreover have "string_at (text_at ''%5d'') 16 4 = ''%5d''" by code_simp
  ultimately show ?thesis
    by (simp add: checkPrintFormat_def sample_format_read check_bind_def check_argument_count_def va_size_def)
      (simp add: passes_def)
qed

theorem accepted_format_fits_witness:
  "\<exists>n vs. conversions 0 (string_at (text_at ''%5d'') 16 n) = Some vs \<and> list_all legal_conversion vs \<and>
     arguments_typed [(IntegerTy 32, OpConstantInt 7)] 0 vs"
  using accepted_format_fits[OF sample_format_passes] by auto

section \<open>A width that is an argument\<close>

lemma limited_to_nothing:
  assumes "checkLimitedCStringRead peek ck k a 0 r = Some (Inr n)"
  shows "n = 0"
proof -
  have "interval_length s = 0" if "getLimitedCStringInArea peek a ar 0 = Some s" for ar s
    using that by (auto simp: getLimitedCStringInArea_def bind_eq_Some_conv area_withLength_def area_with_access_def withStartLength_def
        interval_length_def interval.defs split: option.splits)
  then show ?thesis
    using assms by (auto simp: checkLimitedCStringRead_def with_parameter_note_def check_then_passed passes_def
        split: option.splits)
qed

text \<open>C39: A width that is an argument stops the check of a format. If a format begins with \<open>%*s\<close> and the
  string that is to be printed is readable, the check ends there: it returns false without an error,
  so that neither the rest of the format nor the number of arguments is ever checked. The limit for the
  string is the width, which is zero here, and the empty length is taken for a failure.\<close>

theorem star_width_ends_check:
  assumes "checkCStringRead peek ck param a r = Some (Inr n)" and "n \<noteq> 0"
    and "string_at peek a n = ''%*s'' @ rest"
    and "getAs SignedArg va 0 r = Some (Some w)" and "getAs (PointerArg (Some 1)) va 1 r = Some (Some p)"
    and "checkLimitedCStringRead peek ck (va_Offset va + 1) p 0 r = Some (Inr m)"
  shows "checkPrintFormat peek ck param a va r = Some (Inr (False, r))"
proof -
  let ?p = "print_row CHR ''s'' ''-'' True True 0 [(LM_none, PointerArg (Some 1)), (LM_l, PointerArg (Some 4))]"
  let ?v = "new_PrintConversion\<lparr>pc_Start := Some 0, pc_End := Some 3, pc_Conversion := Some ?p,
    pc_WidthSpecified := True, pc_WidthAsArgument := True\<rparr>"
  have find: "List.find (\<lambda>p. ps_Char p = CHR ''s'') print_specifiers = Some ?p"
    by (simp add: print_specifiers_def print_row_def)
  have v: "readNextFrom 0 (''%*s'' @ rest) = (?v, rest)"
    by (simp add: readNextFrom_def find new_PrintConversion_def set_specifier_def print_row_def)
  have ty: "current_type ?v = Some (PointerArg (Some 1))"
    by (simp add: current_type_def print_row_def new_PrintConversion_def)
  have sz: "1 < va_size va" "0 < va_size va" using assms(4,5) by (auto simp: getAs_def split: if_splits)
  have no: "List.find fst (denied_parts ?v) = None"
    by (simp add: denied_parts_def new_PrintConversion_def allowed_flag_def allowedWidth_def allowedPrecision_def
        allowedCurrentLength_def current_type_def print_row_def)
  have str: "is_string_conversion ?v" by (simp add: is_string_conversion_def print_row_def)
  have flags: "pc_WidthAsArgument ?v" "pc_WidthSpecified ?v" "\<not> pc_PrecisionAsArgument ?v" "pc_Width ?v = 0"
    "pc_Start ?v = Some 0" "pc_End ?v = Some 3" by (simp_all add: new_PrintConversion_def)
  have "check_denied ck at ?v r = passes ()" for at
    by (simp only: check_denied_def no option.case)
  moreover have "isArgumentTypeOK ?v va 1 r = Some True"
    by (simp add: isArgumentTypeOK_def ty assms(5)[simplified] sz[simplified])
  moreover have "check_pointee peek ck ?v va 1 r = passes False"
    using assms(6) limited_to_nothing[OF assms(6)]
    by (simp only: check_pointee_def str flags sz assms(5) if_True option.case check_bind_def sum.case) simp
  ultimately have conv: "check_conversion peek ck at ?v va 0 r = passes False" for at
    by (simp only: check_conversion_def Let_def flags if_True if_False check_int_argument_def sz assms(4)
        option.case check_then_passes bool.case add_0 add_0_right simp_thms)
  then have "check_conversions peek ck param va 0 (''%*s'' @ rest) 0 r = passes None"
    by (subst check_conversions.simps)
      (simp only: v prod.case flags option.case conv check_bind_def passes_def sum.case if_False bool.simps)
  then show ?thesis
    by (simp add: checkPrintFormat_def assms(1,2,3) check_bind_def passes_def)
qed

text \<open>The arguments of \<open>%*s%d\<close> without the last: a width and the format itself.\<close>

theorem star_width_ends_check_witness:
  "checkPrintFormat (text_at ''%*s%d'') format_checker 0 16
     \<lparr>va_Offset = 1, va_Args = [(IntegerTy 32, OpConstantInt 5), (PointerTy, OpInstruction 0)]\<rparr> format_recorder =
   Some (Inr (False, format_recorder))"
proof -
  let ?va = "\<lparr>va_Offset = 1, va_Args = [(IntegerTy 32, OpConstantInt 5), (PointerTy, OpInstruction 0)]\<rparr>"
  have str: "getCStringInArea (text_at ''%*s%d'') 16 (area 16 8) = Some (Some (area 16 6))"
    "getLimitedCStringInArea (text_at ''%*s%d'') 16 (area 16 8) 0 = Some (area 16 0)" by code_simp+
  have known: "hasKnownState 16 6 (pl_TraceMemory (fst format_recorder)) = Some True"
    "getLengthOfKnownState 16 6 (pl_TraceMemory (fst format_recorder)) = Some 6"
    "hasKnownState 16 0 (pl_TraceMemory (fst format_recorder)) = Some True"
    "getLengthOfKnownState 16 0 (pl_TraceMemory (fst format_recorder)) = Some 0"
    unfolding format_memory by code_simp+
  note D = with_parameter_note_def createRunError_def fn_arg_def format_argument memoryExistsForParameter_def
    checkPointer_def target_set_def pointer_target_def format_area checkCStringIsValid_def known
    checkMemoryAccessForParameter_def str
  have read: "checkCStringRead (text_at ''%*s%d'') format_checker 0 16 format_recorder = Some (Inr 6)"
    by (simp add: checkCStringRead_def checkCStringRead_object_def D) (simp add: passes_def)
  have lim: "checkLimitedCStringRead (text_at ''%*s%d'') format_checker (va_Offset ?va + 1) 16 0 format_recorder = Some (Inr 0)"
    by (simp add: checkLimitedCStringRead_def D) (simp add: passes_def)
  have args: "getAs SignedArg ?va 0 format_recorder = Some (Some 5)"
    "getAs (PointerArg (Some 1)) ?va 1 format_recorder = Some (Some 16)"
    by (simp_all add: getAs_def va_size_def value_as_def type_taken_def active_function_def format_recorder_def
        tf_getCurrentRuntimeValue_def operand_unsigned_def)
  have "string_at (text_at ''%*s%d'') 16 6 = ''%*s'' @ ''%d''" by code_simp
  from star_width_ends_check[OF read _ this args lim] show ?thesis by simp
qed

end
