(* ===== verification/DetectedCalls.thy ===== *)
theory DetectedCalls
  imports FormatChecks
begin

text \<open>
  What the recorder does before and after calls of library functions that it knows
  (\<open>lib/Trace/TraceThreadListenerDetectCalls.cpp\<close>), and how a call finds its handlers
  (\<open>include/seec/Trace/DetectCalls.hpp\<close>). A handler \<open>preC\<close> checks the arguments, a handler \<open>postC\<close> records
  what the function has done; they plug into \<open>notifyPreCall\<close> and \<open>notifyPostCall\<close> of theory
  \<open>Notifications\<close>. Pointers, sizes and numbers are the 64-bit values of the arguments. Read and write
  locks of the memory are the same.
\<close>

section \<open>The call\<close>

text \<open>
  The call instruction: its index, its operands as values whose pointer objects are asked for and
  with their types and run-time values, the memory of the program at that moment, and the addresses
  of the standard streams.
\<close>

record CallSite =
  cs_Index :: nat
  cs_Values :: "ValueRef list"
  cs_Operands :: "(IRType \<times> Operand) list"
  cs_Memory :: "u64 \<Rightarrow> byte"
  cs_stdin :: u64
  cs_stdout :: u64
  cs_stderr :: u64

text \<open>\<open>std::strlen\<close> does not end if there is no zero byte; it is \<open>None\<close> then.\<close>

partial_function (option) strlen :: "(u64 \<Rightarrow> byte) \<Rightarrow> u64 \<Rightarrow> u64 option" where
  "strlen peek a = (if peek a = 0 then Some 0 else do { n \<leftarrow> strlen peek (a + 1); Some (n + 1) })"

definition mem_bytes :: "(u64 \<Rightarrow> byte) \<Rightarrow> u64 \<Rightarrow> u64 \<Rightarrow> byte list" where
  "mem_bytes peek a n = map (\<lambda>i. peek (a + of_nat i)) [0..<unat n]"

definition c_string :: "(u64 \<Rightarrow> byte) \<Rightarrow> u64 \<Rightarrow> byte list option" where
  "c_string peek a = do { n \<leftarrow> strlen peek a; Some (mem_bytes peek a (n + 1)) }"

definition read_pointer :: "(u64 \<Rightarrow> byte) \<Rightarrow> u64 \<Rightarrow> u64" where
  "read_pointer peek a = of_nat (of_le_bytes (mem_bytes peek a 8))"

text \<open>\<open>getActiveFunction()->getCurrentRuntimeValue(Call)\<close>, asserted to be assigned.\<close>

definition returned_address :: "CallSite \<Rightarrow> Recorder \<Rightarrow> u64 option" where
  "returned_address cs r = do {
     v \<leftarrow> tl_getCurrentRuntimeValue (cs_Index cs) r;
     require (rv_assigned v);
     Some (rv_Data v)
   }"

definition set_call_object :: "CallSite \<Rightarrow> PointerTarget \<Rightarrow> Recorder \<Rightarrow> Recorder option" where
  "set_call_object cs t r = on_active (\<lambda>f. Some (setInstructionObject (cs_Index cs) t f)) r"

text \<open>\<open>ActiveFunction->setPointerObject(Call, ProcessListener.makePointerObject(Address))\<close>\<close>

definition returns_new_object :: "CallSite \<Rightarrow> u64 \<Rightarrow> Recorder \<Rightarrow> Recorder option" where
  "returns_new_object cs a r = set_call_object cs (makePointerObject a (fst r)) r"

definition transferArgPointerObjectToCall :: "CallSite \<Rightarrow> nat \<Rightarrow> Recorder \<Rightarrow> Recorder option" where
  "transferArgPointerObjectToCall cs k r =
     on_active (\<lambda>f. do {
       require (tf_ActiveInstruction f = Some (cs_Index cs) \<and> k < length (cs_Values cs));
       transferPointerObject (cs_Values cs ! k) (cs_Index cs) (fst r) f
     }) r"

text \<open>The object of the call: that of an argument if the function returned a pointer, else none.\<close>

definition returns_argument :: "CallSite \<Rightarrow> nat \<Rightarrow> Recorder \<Rightarrow> Recorder option" where
  "returns_argument cs k r = do {
     a \<leftarrow> returned_address cs r;
     if a \<noteq> 0 then transferArgPointerObjectToCall cs k r else set_call_object cs null_target r
   }"

definition record_memory :: "CallSite \<Rightarrow> u64 \<Rightarrow> u64 \<Rightarrow> Recorder \<Rightarrow> Recorder option" where
  "record_memory cs a n r = recordUntypedState a (mem_bytes (cs_Memory cs) a n) r"

section \<open>Checkers\<close>

definition with_checker :: "string \<Rightarrow> CallSite \<Rightarrow> (CStdLibChecker \<Rightarrow> unit checked) \<Rightarrow> Recorder \<Rightarrow> run" where
  "with_checker fn cs f r =
     (case new_CStdLibChecker (cs_Index cs) (cstd_function fn) (Some (cs_Values cs)) r of
        None \<Rightarrow> None
      | Some ck \<Rightarrow> run_checked (f ck) r)"

definition new_CIOChecker :: "nat \<Rightarrow> u32 \<Rightarrow> ValueRef list option \<Rightarrow> TraceStreams \<Rightarrow> Recorder \<Rightarrow> CIOChecker option" where
  "new_CIOChecker i f call ss r = do {
     ck \<leftarrow> new_CStdLibChecker i f call r;
     Some (CStdLibChecker.extend ck \<lparr>io_Streams = ss\<rparr>)
   }"

definition with_io_checker :: "string \<Rightarrow> CallSite \<Rightarrow> (CIOChecker \<Rightarrow> unit checked) \<Rightarrow> Recorder \<Rightarrow> run" where
  "with_io_checker fn cs f r =
     (case new_CIOChecker (cs_Index cs) (cstd_function fn) (Some (cs_Values cs)) (pl_Streams (fst r)) r of
        None \<Rightarrow> None
      | Some ck \<Rightarrow> run_checked (f ck) r)"

text \<open>A string argument whose length is not used.\<close>

definition check_string :: "CallSite \<Rightarrow> 'a CStdLibChecker_scheme \<Rightarrow> nat \<Rightarrow> u64 \<Rightarrow> Recorder \<Rightarrow> unit checked" where
  "check_string cs ck k a r = check_bind (checkCStringRead (cs_Memory cs) ck k a r) (\<lambda>_. passes ())"

definition check_limited_string ::
  "CallSite \<Rightarrow> 'a CStdLibChecker_scheme \<Rightarrow> nat \<Rightarrow> u64 \<Rightarrow> u64 \<Rightarrow> Recorder \<Rightarrow> unit checked" where
  "check_limited_string cs ck k a n r =
     check_bind (checkLimitedCStringRead (cs_Memory cs) ck k a n r) (\<lambda>_. passes ())"

definition check_standard_stream :: "CallSite \<Rightarrow> 'a CIOChecker_scheme \<Rightarrow> u64 \<Rightarrow> Recorder \<Rightarrow> unit checked" where
  "check_standard_stream cs = checkStandardStreamIsValid (cs_stdin cs) (cs_stdout cs) (cs_stderr cs)"

text \<open>The handlers of functions that only read one string, or two.\<close>

definition pre_string :: "string \<Rightarrow> CallSite \<Rightarrow> u64 \<Rightarrow> Recorder \<Rightarrow> run" where
  "pre_string fn cs s r =
     (let r1 = acquireGlobalMemoryLock r in with_checker fn cs (\<lambda>ck. check_string cs ck 0 s r1) r1)"

definition pre_two_strings :: "string \<Rightarrow> CallSite \<Rightarrow> u64 \<Rightarrow> u64 \<Rightarrow> Recorder \<Rightarrow> run" where
  "pre_two_strings fn cs s t r =
     (let r1 = acquireGlobalMemoryLock r in
      with_checker fn cs (\<lambda>ck. check_then (check_string cs ck 0 s r1) (check_string cs ck 1 t r1)) r1)"

text \<open>The handlers that only check one stream.\<close>

definition pre_stream :: "string \<Rightarrow> nat \<Rightarrow> CallSite \<Rightarrow> u64 \<Rightarrow> Recorder \<Rightarrow> run" where
  "pre_stream fn k cs fp r =
     (let r1 = acquireStreamsLock r in with_io_checker fn cs (\<lambda>ck. checkStreamIsValid ck k fp r1) r1)"

section \<open>ctype.h\<close>

text \<open>
  The table of properties or conversions that \<open>*Ptr\<close> points into, with elements of \<open>w\<close> bytes, is 384
  elements from 128 before. The pointer object is registered at \<open>*Ptr\<close> itself.
\<close>

definition post_ctype_loc :: "u64 \<Rightarrow> CallSite \<Rightarrow> Recorder \<Rightarrow> Recorder option" where
  "post_ctype_loc w cs r = do {
     a \<leftarrow> returned_address cs r;
     if a = 0 then Some r
     else do {
       let r1 = acquireGlobalMemoryLock r;
       known \<leftarrow> isKnownMemoryRegionAt a r1;
       r2 \<leftarrow> (if known then Some r1 else tl_addKnownMemoryRegion a 8 ReadOnly r1 \<bind> record_memory cs a 8);
       r3 \<leftarrow> returns_new_object cs a r2;
       let arr = read_pointer (cs_Memory cs) a;
       let start = arr - 128 * w;
       known_table \<leftarrow> isKnownMemoryRegionAt start r3;
       r4 \<leftarrow> (if known_table then Some r3
              else tl_addKnownMemoryRegion start (384 * w) ReadOnly r3 \<bind> record_memory cs start (384 * w));
       Some (setInMemoryPointerObject arr (makePointerObject start (fst r4)) (fst r4), snd r4)
     }
   }"

definition postLINUX__ctype_b_loc :: "CallSite \<Rightarrow> Recorder \<Rightarrow> Recorder option" where
  "postLINUX__ctype_b_loc = post_ctype_loc 2"

definition postLINUX__ctype_tolower_loc :: "CallSite \<Rightarrow> Recorder \<Rightarrow> Recorder option" where
  "postLINUX__ctype_tolower_loc = post_ctype_loc 4"

definition postLINUX__ctype_toupper_loc :: "CallSite \<Rightarrow> Recorder \<Rightarrow> Recorder option" where
  "postLINUX__ctype_toupper_loc = post_ctype_loc 4"

section \<open>stdio.h\<close>

definition preCfopen :: "CallSite \<Rightarrow> u64 \<Rightarrow> u64 \<Rightarrow> Recorder \<Rightarrow> run" where
  "preCfopen = pre_two_strings ''fopen''"

definition postCfopen :: "CallSite \<Rightarrow> u64 \<Rightarrow> u64 \<Rightarrow> Recorder \<Rightarrow> Recorder option" where
  "postCfopen cs filename mode r = do {
     a \<leftarrow> returned_address cs r;
     r1 \<leftarrow> (if a = 0 then Some r
       else do {
         n \<leftarrow> c_string (cs_Memory cs) filename;
         m \<leftarrow> c_string (cs_Memory cs) mode;
         with_process (\<lambda>p. Some (incrementRegionTemporalID a p)) (recordStreamOpen a n m r)
       });
     returns_new_object cs a r1
   }"

definition preCfreopen :: "CallSite \<Rightarrow> u64 \<Rightarrow> u64 \<Rightarrow> u64 \<Rightarrow> Recorder \<Rightarrow> run" where
  "preCfreopen cs filename mode stream r =
     (let r1 = acquireStreamsLock (acquireGlobalMemoryLock r) in
      with_io_checker ''fopen'' cs
        (\<lambda>ck. check_then (check_string cs ck 0 filename r1)
           (check_then (check_string cs ck 1 mode r1) (checkStreamIsValid ck 2 stream r1))) r1)"

definition postCfreopen :: "CallSite \<Rightarrow> u64 \<Rightarrow> u64 \<Rightarrow> u64 \<Rightarrow> Recorder \<Rightarrow> Recorder option" where
  "postCfreopen cs filename mode stream r = do {
     a \<leftarrow> returned_address cs r;
     r1 \<leftarrow> (if a = 0 then Some r
       else do {
         (_, r') \<leftarrow> recordStreamClose stream r;
         n \<leftarrow> c_string (cs_Memory cs) filename;
         m \<leftarrow> c_string (cs_Memory cs) mode;
         Some (recordStreamOpen a n m r')
       });
     returns_new_object cs a r1
   }"

definition preCfclose :: "CallSite \<Rightarrow> u64 \<Rightarrow> Recorder \<Rightarrow> run" where
  "preCfclose = pre_stream ''fclose'' 0"

definition postCfclose :: "CallSite \<Rightarrow> u64 \<Rightarrow> Recorder \<Rightarrow> Recorder option" where
  "postCfclose cs stream r = map_option snd (recordStreamClose stream r)"

definition preCfflush :: "CallSite \<Rightarrow> u64 \<Rightarrow> Recorder \<Rightarrow> run" where
  "preCfflush = pre_stream ''fflush'' 0"

definition preCfwide :: "CallSite \<Rightarrow> u64 \<Rightarrow> u64 \<Rightarrow> Recorder \<Rightarrow> run" where
  "preCfwide cs stream mode = pre_stream ''fwide'' 0 cs stream"

definition preCfgetc :: "CallSite \<Rightarrow> u64 \<Rightarrow> Recorder \<Rightarrow> run" where
  "preCfgetc = pre_stream ''fgetc'' 0"

text \<open>\<open>Count\<close> is an \<open>int\<close>, which is converted to a size with its sign.\<close>

definition int_size :: "u64 \<Rightarrow> u64" where
  "int_size v = scast (ucast v :: u32)"

definition preCfgets :: "CallSite \<Rightarrow> u64 \<Rightarrow> u64 \<Rightarrow> u64 \<Rightarrow> Recorder \<Rightarrow> run" where
  "preCfgets cs s count stream r =
     (let r1 = acquireStreamsLock (acquireGlobalMemoryLock r) in
      with_io_checker ''fgets'' cs
        (\<lambda>ck. check_then (checkStreamIsValid ck 2 stream r1)
           (checkMemoryExistsAndAccessibleForParameter ck 0 s (int_size count) WriteAccess r1)) r1)"

definition postCfgets :: "CallSite \<Rightarrow> u64 \<Rightarrow> u64 \<Rightarrow> u64 \<Rightarrow> Recorder \<Rightarrow> Recorder option" where
  "postCfgets cs s count stream r = do {
     a \<leftarrow> returned_address cs r;
     if a = 0 then set_call_object cs null_target r
     else do {
       r1 \<leftarrow> transferArgPointerObjectToCall cs 0 r;
       n \<leftarrow> strlen (cs_Memory cs) s;
       record_memory cs s (n + 1) r1
     }
   }"

definition preCfputc :: "CallSite \<Rightarrow> u64 \<Rightarrow> u64 \<Rightarrow> Recorder \<Rightarrow> run" where
  "preCfputc cs ch stream = pre_stream ''fputc'' 1 cs stream"

definition postCfputc :: "CallSite \<Rightarrow> u64 \<Rightarrow> u64 \<Rightarrow> Recorder \<Rightarrow> Recorder option" where
  "postCfputc cs ch stream r = Some (recordStreamWrite stream [ucast ch] r)"

definition preCfputs :: "CallSite \<Rightarrow> u64 \<Rightarrow> u64 \<Rightarrow> Recorder \<Rightarrow> run" where
  "preCfputs cs s stream r =
     (let r1 = acquireStreamsLock (acquireGlobalMemoryLock r) in
      with_io_checker ''fputs'' cs
        (\<lambda>ck. check_then (check_string cs ck 0 s r1) (checkStreamIsValid ck 1 stream r1)) r1)"

definition postCfputs :: "CallSite \<Rightarrow> u64 \<Rightarrow> u64 \<Rightarrow> Recorder \<Rightarrow> Recorder option" where
  "postCfputs cs s stream r = do {
     n \<leftarrow> strlen (cs_Memory cs) s;
     Some (recordStreamWriteFromMemory stream (area s n) r)
   }"

definition preCgetchar :: "CallSite \<Rightarrow> Recorder \<Rightarrow> run" where
  "preCgetchar cs r =
     (let r1 = acquireStreamsLock r in
      with_io_checker ''getchar'' cs (\<lambda>ck. check_standard_stream cs ck (cs_stdin cs) r1) r1)"

definition preCputchar :: "CallSite \<Rightarrow> u64 \<Rightarrow> Recorder \<Rightarrow> run" where
  "preCputchar cs ch r =
     (let r1 = acquireStreamsLock r in
      with_io_checker ''putchar'' cs (\<lambda>ck. check_standard_stream cs ck (cs_stdout cs) r1) r1)"

definition postCputchar :: "CallSite \<Rightarrow> u64 \<Rightarrow> Recorder \<Rightarrow> Recorder option" where
  "postCputchar cs ch r = Some (recordStreamWrite (cs_stdout cs) [ucast ch] r)"

definition preCputs :: "CallSite \<Rightarrow> u64 \<Rightarrow> Recorder \<Rightarrow> run" where
  "preCputs cs s r =
     (let r1 = acquireStreamsLock (acquireGlobalMemoryLock r) in
      with_io_checker ''puts'' cs
        (\<lambda>ck. check_then (check_string cs ck 0 s r1) (check_standard_stream cs ck (cs_stdout cs) r1)) r1)"

definition postCputs :: "CallSite \<Rightarrow> u64 \<Rightarrow> Recorder \<Rightarrow> Recorder option" where
  "postCputs cs s r = do {
     n \<leftarrow> strlen (cs_Memory cs) s;
     Some (recordStreamWrite (cs_stdout cs) [10] (recordStreamWriteFromMemory (cs_stdout cs) (area s n) r))
   }"

definition preCungetc :: "CallSite \<Rightarrow> u64 \<Rightarrow> u64 \<Rightarrow> Recorder \<Rightarrow> run" where
  "preCungetc cs ch stream = pre_stream ''ungetc'' 1 cs stream"

text \<open>The check of the format may write a warning, and its result is not used.\<close>

definition variadic :: "nat \<Rightarrow> CallSite \<Rightarrow> VarArgs" where
  "variadic k cs = \<lparr>va_Offset = k, va_Args = drop k (cs_Operands cs)\<rparr>"

definition preCsnprintf :: "CallSite \<Rightarrow> u64 \<Rightarrow> u64 \<Rightarrow> u64 \<Rightarrow> Recorder \<Rightarrow> run" where
  "preCsnprintf cs buffer n format r =
     (let r1 = acquireStreamsLock (acquireGlobalMemoryLock r) in
      case new_CIOChecker (cs_Index cs) (cstd_function ''snprintf'') (Some (cs_Values cs)) (pl_Streams (fst r1)) r1 of
        None \<Rightarrow> None
      | Some ck \<Rightarrow>
          (case checkPrintFormat (cs_Memory cs) ck 2 format (variadic 3 cs) r1 of
             None \<Rightarrow> None
           | Some (Inl r') \<Rightarrow> Some (Inl r')
           | Some (Inr (_, r2)) \<Rightarrow>
               run_checked (checkMemoryExistsAndAccessibleForParameter ck 0 buffer n WriteAccess r2) r2))"

definition postCsnprintf :: "CallSite \<Rightarrow> u64 \<Rightarrow> u64 \<Rightarrow> u64 \<Rightarrow> Recorder \<Rightarrow> Recorder option" where
  "postCsnprintf cs buffer n format r = do {
     l \<leftarrow> strlen (cs_Memory cs) buffer;
     record_memory cs buffer (l + 1) r
   }"

section \<open>stdlib.h\<close>

definition preCatof :: "CallSite \<Rightarrow> u64 \<Rightarrow> Recorder \<Rightarrow> run" where
  "preCatof = pre_string ''Atof''"

definition preCatoi :: "CallSite \<Rightarrow> u64 \<Rightarrow> Recorder \<Rightarrow> run" where
  "preCatoi = pre_string ''Atoi''"

definition preCatol :: "CallSite \<Rightarrow> u64 \<Rightarrow> Recorder \<Rightarrow> run" where
  "preCatol = pre_string ''Atol''"

definition preCatoll :: "CallSite \<Rightarrow> u64 \<Rightarrow> Recorder \<Rightarrow> run" where
  "preCatoll = pre_string ''Atol''"

text \<open>The conversions of strings to numbers: \<open>EndPtr\<close> may be null, and receives a pointer into the string.\<close>

definition pre_strto :: "string \<Rightarrow> CallSite \<Rightarrow> u64 \<Rightarrow> u64 \<Rightarrow> Recorder \<Rightarrow> run" where
  "pre_strto fn cs s end r =
     (let r1 = acquireGlobalMemoryLock r in
      with_checker fn cs
        (\<lambda>ck. check_then (check_string cs ck 0 s r1)
           (if end \<noteq> 0 then checkMemoryExistsAndAccessibleForParameter ck 1 end 8 WriteAccess r1 else passes ())) r1)"

definition post_strto :: "CallSite \<Rightarrow> u64 \<Rightarrow> u64 \<Rightarrow> Recorder \<Rightarrow> Recorder option" where
  "post_strto cs s end r =
     (if end = 0 then Some r
      else do {
        f \<leftarrow> active_function r;
        require (cs_Values cs \<noteq> []);
        t \<leftarrow> tf_getPointerObject (hd (cs_Values cs)) (fst r) f;
        record_memory cs end 8 (setInMemoryPointerObject end t (fst r), snd r)
      })"

definition preCstrtol :: "CallSite \<Rightarrow> u64 \<Rightarrow> u64 \<Rightarrow> u64 \<Rightarrow> Recorder \<Rightarrow> run" where
  "preCstrtol cs s end base = pre_strto ''Strtol'' cs s end"

definition postCstrtol :: "CallSite \<Rightarrow> u64 \<Rightarrow> u64 \<Rightarrow> u64 \<Rightarrow> Recorder \<Rightarrow> Recorder option" where
  "postCstrtol cs s end base = post_strto cs s end"

definition preCstrtoll :: "CallSite \<Rightarrow> u64 \<Rightarrow> u64 \<Rightarrow> u64 \<Rightarrow> Recorder \<Rightarrow> run" where
  "preCstrtoll cs s end base = pre_strto ''Strtol'' cs s end"

definition postCstrtoll :: "CallSite \<Rightarrow> u64 \<Rightarrow> u64 \<Rightarrow> u64 \<Rightarrow> Recorder \<Rightarrow> Recorder option" where
  "postCstrtoll cs s end base = post_strto cs s end"

definition preCstrtoul :: "CallSite \<Rightarrow> u64 \<Rightarrow> u64 \<Rightarrow> u64 \<Rightarrow> Recorder \<Rightarrow> run" where
  "preCstrtoul cs s end base = pre_strto ''Strtoul'' cs s end"

definition postCstrtoul :: "CallSite \<Rightarrow> u64 \<Rightarrow> u64 \<Rightarrow> u64 \<Rightarrow> Recorder \<Rightarrow> Recorder option" where
  "postCstrtoul cs s end base = post_strto cs s end"

definition preCstrtoull :: "CallSite \<Rightarrow> u64 \<Rightarrow> u64 \<Rightarrow> u64 \<Rightarrow> Recorder \<Rightarrow> run" where
  "preCstrtoull cs s end base = pre_strto ''Strtoul'' cs s end"

definition postCstrtoull :: "CallSite \<Rightarrow> u64 \<Rightarrow> u64 \<Rightarrow> u64 \<Rightarrow> Recorder \<Rightarrow> Recorder option" where
  "postCstrtoull cs s end base = post_strto cs s end"

definition preCstrtof :: "CallSite \<Rightarrow> u64 \<Rightarrow> u64 \<Rightarrow> Recorder \<Rightarrow> run" where
  "preCstrtof cs s end = pre_strto ''Strtod'' cs s end"

definition postCstrtof :: "CallSite \<Rightarrow> u64 \<Rightarrow> u64 \<Rightarrow> Recorder \<Rightarrow> Recorder option" where
  "postCstrtof cs s end = post_strto cs s end"

definition preCstrtod :: "CallSite \<Rightarrow> u64 \<Rightarrow> u64 \<Rightarrow> Recorder \<Rightarrow> run" where
  "preCstrtod cs s end = pre_strto ''Strtod'' cs s end"

definition postCstrtod :: "CallSite \<Rightarrow> u64 \<Rightarrow> u64 \<Rightarrow> Recorder \<Rightarrow> Recorder option" where
  "postCstrtod cs s end = post_strto cs s end"

definition preCstrtold :: "CallSite \<Rightarrow> u64 \<Rightarrow> u64 \<Rightarrow> Recorder \<Rightarrow> run" where
  "preCstrtold cs s end = pre_strto ''Strtod'' cs s end"

definition postCstrtold :: "CallSite \<Rightarrow> u64 \<Rightarrow> u64 \<Rightarrow> Recorder \<Rightarrow> Recorder option" where
  "postCstrtold cs s end = post_strto cs s end"

definition preCstrtoimax :: "CallSite \<Rightarrow> u64 \<Rightarrow> u64 \<Rightarrow> Recorder \<Rightarrow> run" where
  "preCstrtoimax cs s end = pre_strto ''Strtod'' cs s end"

definition postCstrtoimax :: "CallSite \<Rightarrow> u64 \<Rightarrow> u64 \<Rightarrow> Recorder \<Rightarrow> Recorder option" where
  "postCstrtoimax cs s end = post_strto cs s end"

definition preCstrtoumax :: "CallSite \<Rightarrow> u64 \<Rightarrow> u64 \<Rightarrow> Recorder \<Rightarrow> run" where
  "preCstrtoumax cs s end = pre_strto ''Strtod'' cs s end"

definition postCstrtoumax :: "CallSite \<Rightarrow> u64 \<Rightarrow> u64 \<Rightarrow> Recorder \<Rightarrow> Recorder option" where
  "postCstrtoumax cs s end = post_strto cs s end"

definition preCcalloc :: "CallSite \<Rightarrow> u64 \<Rightarrow> u64 \<Rightarrow> Recorder \<Rightarrow> run" where
  "preCcalloc cs num n r = continue (acquireDynamicMemoryLock (acquireGlobalMemoryLock r))"

definition postCcalloc :: "CallSite \<Rightarrow> u64 \<Rightarrow> u64 \<Rightarrow> Recorder \<Rightarrow> Recorder option" where
  "postCcalloc cs num n r = do {
     a \<leftarrow> returned_address cs r;
     r1 \<leftarrow> (if a \<noteq> 0 then recordMalloc a (num * n) r \<bind> record_memory cs a (num * n) else Some r);
     returns_new_object cs a r1
   }"

definition preCfree :: "CallSite \<Rightarrow> u64 \<Rightarrow> Recorder \<Rightarrow> run" where
  "preCfree cs a r =
     (let r1 = acquireDynamicMemoryLock (acquireGlobalMemoryLock r) in
      if isCurrentDynamicMemoryAllocation a (fst r1) then continue r1
      else run_error BadDynamicMemoryAddress [ArgSelect CStdFunction (cstd_function ''Free''), ArgAddress a]
             (Some (cs_Index cs)) r1)"

definition postCfree :: "CallSite \<Rightarrow> u64 \<Rightarrow> Recorder \<Rightarrow> Recorder option" where
  "postCfree cs a r = do {
     let r1 = emit (Instruction (cs_Index cs)) (next_time r);
     (freed, r2) \<leftarrow> recordFree a r1;
     recordStateClear a (da_Size freed) r2
   }"

definition preCmalloc :: "CallSite \<Rightarrow> u64 \<Rightarrow> Recorder \<Rightarrow> run" where
  "preCmalloc cs n r = continue (acquireDynamicMemoryLock r)"

definition postCmalloc :: "CallSite \<Rightarrow> u64 \<Rightarrow> Recorder \<Rightarrow> Recorder option" where
  "postCmalloc cs n r = do {
     a \<leftarrow> returned_address cs r;
     r1 \<leftarrow> (if a \<noteq> 0 then recordMalloc a n r else Some r);
     returns_new_object cs a r1
   }"

definition preCrealloc :: "CallSite \<Rightarrow> u64 \<Rightarrow> u64 \<Rightarrow> Recorder \<Rightarrow> run" where
  "preCrealloc cs a n r =
     (let r1 = acquireDynamicMemoryLock (acquireGlobalMemoryLock r) in
      if a \<noteq> 0 \<and> \<not> isCurrentDynamicMemoryAllocation a (fst r1)
      then run_error BadDynamicMemoryAddress [ArgSelect CStdFunction (cstd_function ''Realloc''), ArgAddress a]
             (Some (cs_Index cs)) r1
      else continue r1)"

definition realloc_moved :: "u64 \<Rightarrow> u64 \<Rightarrow> u64 \<Rightarrow> Recorder \<Rightarrow> Recorder option" where
  "realloc_moved old new n r = do {
     d \<leftarrow> getCurrentDynamicMemoryAllocation old (fst r);
     let copied = min (da_Size d) n;
     r1 \<leftarrow> recordMalloc new n r;
     r2 \<leftarrow> recordMemmove old new copied r1;
     recordFreeAndClear old r2
   }"

definition postCrealloc :: "CallSite \<Rightarrow> u64 \<Rightarrow> u64 \<Rightarrow> Recorder \<Rightarrow> Recorder option" where
  "postCrealloc cs old n r = do {
     new \<leftarrow> returned_address cs r;
     r1 \<leftarrow> (if old \<noteq> 0
       then if n \<noteq> 0
         then if new \<noteq> 0
           then if new = old then recordRealloc new n r else realloc_moved old new n r
           else Some r
         else recordFreeAndClear old r
       else if new \<noteq> 0 then recordMalloc new n r else Some r);
     returns_new_object cs new r1
   }"

text \<open>A string that the library owns: the old region at its address is forgotten and the new one is
  recorded.\<close>

definition record_library_string :: "CallSite \<Rightarrow> u64 \<Rightarrow> Recorder \<Rightarrow> Recorder option" where
  "record_library_string cs a r = do {
     n \<leftarrow> strlen (cs_Memory cs) a;
     (_, r1) \<leftarrow> tl_removeKnownMemoryRegion a r;
     r2 \<leftarrow> tl_addKnownMemoryRegion a (n + 1) ReadOnly r1;
     record_memory cs a (n + 1) r2
   }"

definition preCgetenv :: "CallSite \<Rightarrow> u64 \<Rightarrow> Recorder \<Rightarrow> run" where
  "preCgetenv = pre_string ''Getenv''"

definition postCgetenv :: "CallSite \<Rightarrow> u64 \<Rightarrow> Recorder \<Rightarrow> Recorder option" where
  "postCgetenv cs name r = do {
     a \<leftarrow> returned_address cs r;
     r1 \<leftarrow> (if a \<noteq> 0 then record_library_string cs a r else Some r);
     returns_new_object cs a r1
   }"

definition preCsystem :: "CallSite \<Rightarrow> u64 \<Rightarrow> Recorder \<Rightarrow> run" where
  "preCsystem cs command r =
     (if command = 0 then continue (acquireGlobalMemoryLock r) else pre_string ''System'' cs command r)"

section \<open>string.h\<close>

definition preCmemchr :: "CallSite \<Rightarrow> u64 \<Rightarrow> u64 \<Rightarrow> u64 \<Rightarrow> Recorder \<Rightarrow> run" where
  "preCmemchr cs p value n r =
     (let r1 = acquireGlobalMemoryLock r in
      with_checker ''Memchr'' cs (\<lambda>ck. checkMemoryExistsAndAccessibleForParameter ck 0 p n ReadAccess r1) r1)"

definition postCmemchr :: "CallSite \<Rightarrow> u64 \<Rightarrow> u64 \<Rightarrow> u64 \<Rightarrow> Recorder \<Rightarrow> Recorder option" where
  "postCmemchr cs p value n = returns_argument cs 0"

definition preCmemcmp :: "CallSite \<Rightarrow> u64 \<Rightarrow> u64 \<Rightarrow> u64 \<Rightarrow> Recorder \<Rightarrow> run" where
  "preCmemcmp cs p q n r =
     (let r1 = acquireGlobalMemoryLock r in
      with_checker ''Memcmp'' cs
        (\<lambda>ck. check_then (checkMemoryExistsAndAccessibleForParameter ck 0 p n ReadAccess r1)
           (checkMemoryExistsAndAccessibleForParameter ck 1 q n ReadAccess r1)) r1)"

definition preCmemcpy :: "CallSite \<Rightarrow> u64 \<Rightarrow> u64 \<Rightarrow> u64 \<Rightarrow> Recorder \<Rightarrow> run" where
  "preCmemcpy cs dst src n r =
     (let r1 = acquireGlobalMemoryLock r in
      with_checker ''Memcpy'' cs
        (\<lambda>ck. check_then (checkMemoryExistsAndAccessibleForParameter ck 1 src n CopyAccess r1)
           (check_then (checkMemoryExistsAndAccessibleForParameter ck 0 dst n WriteAccess r1)
             (checkMemoryDoesNotOverlap ck (area dst n) (area src n) r1))) r1)"

definition postCmemcpy :: "CallSite \<Rightarrow> u64 \<Rightarrow> u64 \<Rightarrow> u64 \<Rightarrow> Recorder \<Rightarrow> Recorder option" where
  "postCmemcpy cs dst src n r = do {
     r1 \<leftarrow> transferArgPointerObjectToCall cs 0 r;
     if intersects (area dst n) (area src n) then record_memory cs dst n r1 else recordMemmove src dst n r1
   }"

definition preCmemmove :: "CallSite \<Rightarrow> u64 \<Rightarrow> u64 \<Rightarrow> u64 \<Rightarrow> Recorder \<Rightarrow> run" where
  "preCmemmove cs dst src n r =
     (let r1 = acquireGlobalMemoryLock r in
      with_checker ''Memmove'' cs
        (\<lambda>ck. check_then (checkMemoryExistsAndAccessibleForParameter ck 1 src n ReadAccess r1)
           (checkMemoryExistsAndAccessibleForParameter ck 0 dst n WriteAccess r1)) r1)"

definition postCmemmove :: "CallSite \<Rightarrow> u64 \<Rightarrow> u64 \<Rightarrow> u64 \<Rightarrow> Recorder \<Rightarrow> Recorder option" where
  "postCmemmove cs dst src n r = transferArgPointerObjectToCall cs 0 r \<bind> recordMemmove src dst n"

definition preCmemset :: "CallSite \<Rightarrow> u64 \<Rightarrow> u64 \<Rightarrow> u64 \<Rightarrow> Recorder \<Rightarrow> run" where
  "preCmemset cs dst value n r =
     (let r1 = acquireGlobalMemoryLock r in
      with_checker ''Memset'' cs (\<lambda>ck. checkMemoryExistsAndAccessibleForParameter ck 0 dst n WriteAccess r1) r1)"

definition postCmemset :: "CallSite \<Rightarrow> u64 \<Rightarrow> u64 \<Rightarrow> u64 \<Rightarrow> Recorder \<Rightarrow> Recorder option" where
  "postCmemset cs dst value n r = transferArgPointerObjectToCall cs 0 r \<bind> record_memory cs dst n"

text \<open>A check that returns a length of zero ends the handler.\<close>

definition check_length :: "u64 checked \<Rightarrow> (u64 \<Rightarrow> unit checked) \<Rightarrow> unit checked" where
  "check_length c f = check_bind c (\<lambda>n. if n = 0 then passes () else f n)"

definition preCstrcat :: "CallSite \<Rightarrow> u64 \<Rightarrow> u64 \<Rightarrow> Recorder \<Rightarrow> run" where
  "preCstrcat cs dst src r =
     (let r1 = acquireGlobalMemoryLock r in
      with_checker ''Strcat'' cs
        (\<lambda>ck. check_length (checkCStringRead (cs_Memory cs) ck 1 src r1)
           (\<lambda>m. check_length (checkCStringRead (cs_Memory cs) ck 0 dst r1)
             (\<lambda>n. checkMemoryExistsAndAccessibleForParameter ck 0 (dst + n - 1) m WriteAccess r1))) r1)"

definition postCstrcat :: "CallSite \<Rightarrow> u64 \<Rightarrow> u64 \<Rightarrow> Recorder \<Rightarrow> Recorder option" where
  "postCstrcat cs dst src r = do {
     r1 \<leftarrow> transferArgPointerObjectToCall cs 0 r;
     m \<leftarrow> strlen (cs_Memory cs) src;
     n \<leftarrow> strlen (cs_Memory cs) dst;
     let unchanged = (n + 1) - (m + 1);
     record_memory cs (dst + unchanged) (m + 1) r1
   }"

definition preCstrchr :: "CallSite \<Rightarrow> u64 \<Rightarrow> u64 \<Rightarrow> Recorder \<Rightarrow> run" where
  "preCstrchr cs s c = pre_string ''Strchr'' cs s"

definition postCstrchr :: "CallSite \<Rightarrow> u64 \<Rightarrow> u64 \<Rightarrow> Recorder \<Rightarrow> Recorder option" where
  "postCstrchr cs s c = returns_argument cs 0"

definition preCstrcmp :: "CallSite \<Rightarrow> u64 \<Rightarrow> u64 \<Rightarrow> Recorder \<Rightarrow> run" where
  "preCstrcmp = pre_two_strings ''Strcmp''"

definition preCstrcoll :: "CallSite \<Rightarrow> u64 \<Rightarrow> u64 \<Rightarrow> Recorder \<Rightarrow> run" where
  "preCstrcoll = pre_two_strings ''Strcoll''"

definition preCstrcpy :: "CallSite \<Rightarrow> u64 \<Rightarrow> u64 \<Rightarrow> Recorder \<Rightarrow> run" where
  "preCstrcpy cs dst src r =
     (let r1 = acquireGlobalMemoryLock r in
      with_checker ''Strcpy'' cs
        (\<lambda>ck. check_length (checkCStringRead (cs_Memory cs) ck 1 src r1)
           (\<lambda>m. check_then (checkMemoryExistsAndAccessibleForParameter ck 0 dst m WriteAccess r1)
             (checkMemoryDoesNotOverlap ck (area dst m) (area src m) r1))) r1)"

definition postCstrcpy :: "CallSite \<Rightarrow> u64 \<Rightarrow> u64 \<Rightarrow> Recorder \<Rightarrow> Recorder option" where
  "postCstrcpy cs dst src r = do {
     r1 \<leftarrow> transferArgPointerObjectToCall cs 0 r;
     m \<leftarrow> strlen (cs_Memory cs) src;
     record_memory cs dst (m + 1) r1
   }"

definition preCstrcspn :: "CallSite \<Rightarrow> u64 \<Rightarrow> u64 \<Rightarrow> Recorder \<Rightarrow> run" where
  "preCstrcspn = pre_two_strings ''Strspn''"

definition preCstrerror :: "CallSite \<Rightarrow> u64 \<Rightarrow> Recorder \<Rightarrow> run" where
  "preCstrerror cs errnum r = continue (acquireGlobalMemoryLock r)"

definition postCstrerror :: "CallSite \<Rightarrow> u64 \<Rightarrow> Recorder \<Rightarrow> Recorder option" where
  "postCstrerror cs errnum r = do {
     a \<leftarrow> returned_address cs r;
     r1 \<leftarrow> record_library_string cs a r;
     returns_new_object cs a r1
   }"

definition preCstrlen :: "CallSite \<Rightarrow> u64 \<Rightarrow> Recorder \<Rightarrow> run" where
  "preCstrlen = pre_string ''Strlen''"

definition preCstrncat :: "CallSite \<Rightarrow> u64 \<Rightarrow> u64 \<Rightarrow> u64 \<Rightarrow> Recorder \<Rightarrow> run" where
  "preCstrncat cs dst src lim r =
     (let r1 = acquireGlobalMemoryLock r in
      with_checker ''Strncat'' cs
        (\<lambda>ck. check_length (checkLimitedCStringRead (cs_Memory cs) ck 1 src lim r1)
           (\<lambda>m. check_length (checkCStringRead (cs_Memory cs) ck 0 dst r1)
             (\<lambda>n. checkMemoryExistsAndAccessibleForParameter ck 0 (dst + n - 1) m WriteAccess r1))) r1)"

text \<open>The length of the source: up to a zero byte among its first \<open>Size\<close> bytes (\<open>std::memchr\<close>), or all
  of them; one for the final zero byte is added.\<close>

definition strncat_length :: "(u64 \<Rightarrow> byte) \<Rightarrow> u64 \<Rightarrow> u64 \<Rightarrow> u64" where
  "strncat_length peek src lim =
     (case string_end peek src 0 (unat lim) of Some i \<Rightarrow> of_nat i | None \<Rightarrow> lim) + 1"

definition postCstrncat :: "CallSite \<Rightarrow> u64 \<Rightarrow> u64 \<Rightarrow> u64 \<Rightarrow> Recorder \<Rightarrow> Recorder option" where
  "postCstrncat cs dst src lim r = do {
     r1 \<leftarrow> transferArgPointerObjectToCall cs 0 r;
     let m = strncat_length (cs_Memory cs) src lim;
     n \<leftarrow> strlen (cs_Memory cs) dst;
     let unchanged = (n + 1) - m;
     record_memory cs (dst + unchanged) m r1
   }"

definition preCstrncmp :: "CallSite \<Rightarrow> u64 \<Rightarrow> u64 \<Rightarrow> u64 \<Rightarrow> Recorder \<Rightarrow> run" where
  "preCstrncmp cs s t n r =
     (let r1 = acquireGlobalMemoryLock r in
      with_checker ''Strncmp'' cs
        (\<lambda>ck. check_then (check_limited_string cs ck 0 s n r1) (check_limited_string cs ck 1 t n r1)) r1)"

definition preCstrncpy :: "CallSite \<Rightarrow> u64 \<Rightarrow> u64 \<Rightarrow> u64 \<Rightarrow> Recorder \<Rightarrow> run" where
  "preCstrncpy cs dst src lim r =
     (let r1 = acquireGlobalMemoryLock r in
      with_checker ''Strncpy'' cs
        (\<lambda>ck. check_then (checkMemoryExistsAndAccessibleForParameter ck 0 dst lim WriteAccess r1)
           (check_bind (checkLimitedCStringRead (cs_Memory cs) ck 1 src lim r1)
             (\<lambda>m. checkMemoryDoesNotOverlap ck (area dst lim) (area src m) r1))) r1)"

definition postCstrncpy :: "CallSite \<Rightarrow> u64 \<Rightarrow> u64 \<Rightarrow> u64 \<Rightarrow> Recorder \<Rightarrow> Recorder option" where
  "postCstrncpy cs dst src lim r = transferArgPointerObjectToCall cs 0 r \<bind> record_memory cs dst lim"

text \<open>Both strings are checked as parameter 0.\<close>

definition preCstrpbrk :: "CallSite \<Rightarrow> u64 \<Rightarrow> u64 \<Rightarrow> Recorder \<Rightarrow> run" where
  "preCstrpbrk cs s t r =
     (let r1 = acquireGlobalMemoryLock r in
      with_checker ''Strpbrk'' cs (\<lambda>ck. check_then (check_string cs ck 0 s r1) (check_string cs ck 0 t r1)) r1)"

definition postCstrpbrk :: "CallSite \<Rightarrow> u64 \<Rightarrow> u64 \<Rightarrow> Recorder \<Rightarrow> Recorder option" where
  "postCstrpbrk cs s t = returns_argument cs 0"

definition preCstrrchr :: "CallSite \<Rightarrow> u64 \<Rightarrow> u64 \<Rightarrow> Recorder \<Rightarrow> run" where
  "preCstrrchr cs s c = pre_string ''Strrchr'' cs s"

definition postCstrrchr :: "CallSite \<Rightarrow> u64 \<Rightarrow> u64 \<Rightarrow> Recorder \<Rightarrow> Recorder option" where
  "postCstrrchr cs s c = returns_argument cs 0"

definition preCstrspn :: "CallSite \<Rightarrow> u64 \<Rightarrow> u64 \<Rightarrow> Recorder \<Rightarrow> run" where
  "preCstrspn = pre_two_strings ''Strspn''"

definition preCstrstr :: "CallSite \<Rightarrow> u64 \<Rightarrow> u64 \<Rightarrow> Recorder \<Rightarrow> run" where
  "preCstrstr = pre_two_strings ''Strstr''"

definition postCstrstr :: "CallSite \<Rightarrow> u64 \<Rightarrow> u64 \<Rightarrow> Recorder \<Rightarrow> Recorder option" where
  "postCstrstr cs s t = returns_argument cs 0"

definition preCstrxfrm :: "CallSite \<Rightarrow> u64 \<Rightarrow> u64 \<Rightarrow> u64 \<Rightarrow> Recorder \<Rightarrow> run" where
  "preCstrxfrm cs dst src n r =
     (let r1 = acquireGlobalMemoryLock r in
      with_checker ''Strxfrm'' cs
        (\<lambda>ck. if dst \<noteq> 0
           then check_then (check_limited_string cs ck 1 src n r1)
                  (checkMemoryExistsAndAccessibleForParameter ck 0 dst n WriteAccess r1)
           else check_string cs ck 1 src r1) r1)"

definition postCstrxfrm :: "CallSite \<Rightarrow> u64 \<Rightarrow> u64 \<Rightarrow> u64 \<Rightarrow> Recorder \<Rightarrow> Recorder option" where
  "postCstrxfrm cs dst src n r =
     (if dst = 0 then Some r
      else do {
        l \<leftarrow> strlen (cs_Memory cs) (dst + 1);
        record_memory cs dst l r
      })"

section \<open>Dispatch\<close>

text \<open>The run-time values of the arguments with the given types; a value that is not known is an assertion.\<close>

fun argument_values :: "ProcessListener \<Rightarrow> TracedFunction \<Rightarrow> ArgType list \<Rightarrow> (IRType \<times> Operand) list \<Rightarrow> u64 list option" where
  "argument_values p f [] ops = Some []"
| "argument_values p f (t # ts) [] = None"
| "argument_values p f (t # ts) (x # ops) = do {
     v \<leftarrow> value_as t x p f;
     w \<leftarrow> v;
     ws \<leftarrow> argument_values p f ts ops;
     Some (w # ws)
   }"

text \<open>A handler with the types of its arguments.\<close>

type_synonym handler = "ArgType list \<times> (CallSite \<Rightarrow> u64 list \<Rightarrow> Recorder \<Rightarrow> run)"

definition none :: "(CallSite \<Rightarrow> Recorder \<Rightarrow> run) \<Rightarrow> CallSite \<Rightarrow> u64 list \<Rightarrow> Recorder \<Rightarrow> run" where
  "none h cs xs = h cs"

definition one :: "(CallSite \<Rightarrow> u64 \<Rightarrow> Recorder \<Rightarrow> run) \<Rightarrow> CallSite \<Rightarrow> u64 list \<Rightarrow> Recorder \<Rightarrow> run" where
  "one h cs xs = h cs (xs ! 0)"

definition two :: "(CallSite \<Rightarrow> u64 \<Rightarrow> u64 \<Rightarrow> Recorder \<Rightarrow> run) \<Rightarrow> CallSite \<Rightarrow> u64 list \<Rightarrow> Recorder \<Rightarrow> run" where
  "two h cs xs = h cs (xs ! 0) (xs ! 1)"

definition three :: "(CallSite \<Rightarrow> u64 \<Rightarrow> u64 \<Rightarrow> u64 \<Rightarrow> Recorder \<Rightarrow> run) \<Rightarrow> CallSite \<Rightarrow> u64 list \<Rightarrow> Recorder \<Rightarrow> run" where
  "three h cs xs = h cs (xs ! 0) (xs ! 1) (xs ! 2)"

abbreviation ptr_arg :: ArgType where
  "ptr_arg \<equiv> PointerArg (Some 1)"

definition pre_handlers :: "(string \<times> handler) list" where
  "pre_handlers =
     [(''fopen'', [ptr_arg, ptr_arg], two preCfopen),
      (''freopen'', [ptr_arg, ptr_arg, ptr_arg], three preCfreopen),
      (''fclose'', [ptr_arg], one preCfclose),
      (''fflush'', [ptr_arg], one preCfflush),
      (''fwide'', [ptr_arg, SignedArg], two preCfwide),
      (''fgetc'', [ptr_arg], one preCfgetc),
      (''fgets'', [ptr_arg, SignedArg, ptr_arg], three preCfgets),
      (''fputc'', [SignedArg, ptr_arg], two preCfputc),
      (''fputs'', [ptr_arg, ptr_arg], two preCfputs),
      (''getchar'', [], none preCgetchar),
      (''putchar'', [SignedArg], one preCputchar),
      (''puts'', [ptr_arg], one preCputs),
      (''ungetc'', [SignedArg, ptr_arg], two preCungetc),
      (''snprintf'', [ptr_arg, UIntPtrArg, ptr_arg], three preCsnprintf),
      (''atof'', [ptr_arg], one preCatof),
      (''atoi'', [ptr_arg], one preCatoi),
      (''atol'', [ptr_arg], one preCatol),
      (''atoll'', [ptr_arg], one preCatoll),
      (''strtol'', [ptr_arg, ptr_arg, SignedArg], three preCstrtol),
      (''strtoll'', [ptr_arg, ptr_arg, SignedArg], three preCstrtoll),
      (''strtoul'', [ptr_arg, ptr_arg, SignedArg], three preCstrtoul),
      (''strtoull'', [ptr_arg, ptr_arg, SignedArg], three preCstrtoull),
      (''strtof'', [ptr_arg, ptr_arg], two preCstrtof),
      (''strtod'', [ptr_arg, ptr_arg], two preCstrtod),
      (''strtold'', [ptr_arg, ptr_arg], two preCstrtold),
      (''strtoimax'', [ptr_arg, ptr_arg], two preCstrtoimax),
      (''strtoumax'', [ptr_arg, ptr_arg], two preCstrtoumax),
      (''calloc'', [UIntPtrArg, UIntPtrArg], two preCcalloc),
      (''free'', [ptr_arg], one preCfree),
      (''malloc'', [UIntPtrArg], one preCmalloc),
      (''realloc'', [ptr_arg, UIntPtrArg], two preCrealloc),
      (''getenv'', [ptr_arg], one preCgetenv),
      (''system'', [ptr_arg], one preCsystem),
      (''memchr'', [ptr_arg, SignedArg, UIntPtrArg], three preCmemchr),
      (''memcmp'', [ptr_arg, ptr_arg, UIntPtrArg], three preCmemcmp),
      (''memcpy'', [ptr_arg, ptr_arg, UIntPtrArg], three preCmemcpy),
      (''memmove'', [ptr_arg, ptr_arg, UIntPtrArg], three preCmemmove),
      (''memset'', [ptr_arg, SignedArg, UIntPtrArg], three preCmemset),
      (''strcat'', [ptr_arg, ptr_arg], two preCstrcat),
      (''strncat'', [ptr_arg, ptr_arg, UIntPtrArg], three preCstrncat),
      (''strchr'', [ptr_arg, SignedArg], two preCstrchr),
      (''strcmp'', [ptr_arg, ptr_arg], two preCstrcmp),
      (''strncmp'', [ptr_arg, ptr_arg, UIntPtrArg], three preCstrncmp),
      (''strcoll'', [ptr_arg, ptr_arg], two preCstrcoll),
      (''strcpy'', [ptr_arg, ptr_arg], two preCstrcpy),
      (''strncpy'', [ptr_arg, ptr_arg, UIntPtrArg], three preCstrncpy),
      (''strcspn'', [ptr_arg, ptr_arg], two preCstrcspn),
      (''strerror'', [SignedArg], one preCstrerror),
      (''strlen'', [ptr_arg], one preCstrlen),
      (''strpbrk'', [ptr_arg, ptr_arg], two preCstrpbrk),
      (''strrchr'', [ptr_arg, SignedArg], two preCstrrchr),
      (''strspn'', [ptr_arg, ptr_arg], two preCstrspn),
      (''strstr'', [ptr_arg, ptr_arg], two preCstrstr),
      (''strxfrm'', [ptr_arg, ptr_arg, UIntPtrArg], three preCstrxfrm)]"

definition post_handlers :: "(string \<times> handler) list" where
  "post_handlers =
     [(''fopen'', [ptr_arg, ptr_arg], two (\<lambda>cs a b r. run_defined (postCfopen cs a b r))),
      (''freopen'', [ptr_arg, ptr_arg, ptr_arg], three (\<lambda>cs a b c r. run_defined (postCfreopen cs a b c r))),
      (''fclose'', [ptr_arg], one (\<lambda>cs a r. run_defined (postCfclose cs a r))),
      (''fgets'', [ptr_arg, SignedArg, ptr_arg], three (\<lambda>cs a b c r. run_defined (postCfgets cs a b c r))),
      (''fputc'', [SignedArg, ptr_arg], two (\<lambda>cs a b r. run_defined (postCfputc cs a b r))),
      (''fputs'', [ptr_arg, ptr_arg], two (\<lambda>cs a b r. run_defined (postCfputs cs a b r))),
      (''putchar'', [SignedArg], one (\<lambda>cs a r. run_defined (postCputchar cs a r))),
      (''puts'', [ptr_arg], one (\<lambda>cs a r. run_defined (postCputs cs a r))),
      (''snprintf'', [ptr_arg, UIntPtrArg, ptr_arg], three (\<lambda>cs a b c r. run_defined (postCsnprintf cs a b c r))),
      (''strtol'', [ptr_arg, ptr_arg, SignedArg], three (\<lambda>cs a b c r. run_defined (postCstrtol cs a b c r))),
      (''strtoll'', [ptr_arg, ptr_arg, SignedArg], three (\<lambda>cs a b c r. run_defined (postCstrtoll cs a b c r))),
      (''strtoul'', [ptr_arg, ptr_arg, SignedArg], three (\<lambda>cs a b c r. run_defined (postCstrtoul cs a b c r))),
      (''strtoull'', [ptr_arg, ptr_arg, SignedArg], three (\<lambda>cs a b c r. run_defined (postCstrtoull cs a b c r))),
      (''strtof'', [ptr_arg, ptr_arg], two (\<lambda>cs a b r. run_defined (postCstrtof cs a b r))),
      (''strtod'', [ptr_arg, ptr_arg], two (\<lambda>cs a b r. run_defined (postCstrtod cs a b r))),
      (''strtold'', [ptr_arg, ptr_arg], two (\<lambda>cs a b r. run_defined (postCstrtold cs a b r))),
      (''strtoimax'', [ptr_arg, ptr_arg], two (\<lambda>cs a b r. run_defined (postCstrtoimax cs a b r))),
      (''strtoumax'', [ptr_arg, ptr_arg], two (\<lambda>cs a b r. run_defined (postCstrtoumax cs a b r))),
      (''calloc'', [UIntPtrArg, UIntPtrArg], two (\<lambda>cs a b r. run_defined (postCcalloc cs a b r))),
      (''free'', [ptr_arg], one (\<lambda>cs a r. run_defined (postCfree cs a r))),
      (''malloc'', [UIntPtrArg], one (\<lambda>cs a r. run_defined (postCmalloc cs a r))),
      (''realloc'', [ptr_arg, UIntPtrArg], two (\<lambda>cs a b r. run_defined (postCrealloc cs a b r))),
      (''getenv'', [ptr_arg], one (\<lambda>cs a r. run_defined (postCgetenv cs a r))),
      (''memchr'', [ptr_arg, SignedArg, UIntPtrArg], three (\<lambda>cs a b c r. run_defined (postCmemchr cs a b c r))),
      (''memcpy'', [ptr_arg, ptr_arg, UIntPtrArg], three (\<lambda>cs a b c r. run_defined (postCmemcpy cs a b c r))),
      (''memmove'', [ptr_arg, ptr_arg, UIntPtrArg], three (\<lambda>cs a b c r. run_defined (postCmemmove cs a b c r))),
      (''memset'', [ptr_arg, SignedArg, UIntPtrArg], three (\<lambda>cs a b c r. run_defined (postCmemset cs a b c r))),
      (''strcat'', [ptr_arg, ptr_arg], two (\<lambda>cs a b r. run_defined (postCstrcat cs a b r))),
      (''strncat'', [ptr_arg, ptr_arg, UIntPtrArg], three (\<lambda>cs a b c r. run_defined (postCstrncat cs a b c r))),
      (''strchr'', [ptr_arg, SignedArg], two (\<lambda>cs a b r. run_defined (postCstrchr cs a b r))),
      (''strcpy'', [ptr_arg, ptr_arg], two (\<lambda>cs a b r. run_defined (postCstrcpy cs a b r))),
      (''strncpy'', [ptr_arg, ptr_arg, UIntPtrArg], three (\<lambda>cs a b c r. run_defined (postCstrncpy cs a b c r))),
      (''strerror'', [SignedArg], one (\<lambda>cs a r. run_defined (postCstrerror cs a r))),
      (''strpbrk'', [ptr_arg, ptr_arg], two (\<lambda>cs a b r. run_defined (postCstrpbrk cs a b r))),
      (''strrchr'', [ptr_arg, SignedArg], two (\<lambda>cs a b r. run_defined (postCstrrchr cs a b r))),
      (''strstr'', [ptr_arg, ptr_arg], two (\<lambda>cs a b r. run_defined (postCstrstr cs a b r))),
      (''strxfrm'', [ptr_arg, ptr_arg, UIntPtrArg], three (\<lambda>cs a b c r. run_defined (postCstrxfrm cs a b c r)))]"

definition linux_post_handlers :: "(string \<times> handler) list" where
  "linux_post_handlers =
     [(''__ctype_b_loc'', [], none (\<lambda>cs r. run_defined (postLINUX__ctype_b_loc cs r))),
      (''__ctype_tolower_loc'', [], none (\<lambda>cs r. run_defined (postLINUX__ctype_tolower_loc cs r))),
      (''__ctype_toupper_loc'', [], none (\<lambda>cs r. run_defined (postLINUX__ctype_toupper_loc cs r)))]"

text \<open>\<open>ExtractAndNotify\<close>\<close>

definition extract_and_notify :: "handler \<Rightarrow> CallSite \<Rightarrow> Recorder \<Rightarrow> run" where
  "extract_and_notify h cs r =
     (case active_function r of
        None \<Rightarrow> None
      | Some f \<Rightarrow>
          (case argument_values (fst r) f (fst h) (cs_Operands cs) of
             None \<Rightarrow> None
           | Some xs \<Rightarrow> snd h cs xs r))"

text \<open>A call that is not known, or has no handler of its own, is left alone.\<close>

definition detect_call :: "(string \<times> handler) list \<Rightarrow> (string \<times> handler) list \<Rightarrow> CallSite \<Rightarrow> u64 \<Rightarrow> Recorder \<Rightarrow> run" where
  "detect_call c_handlers linux_handlers cs a r =
     (case lookup_Check a (pl_DetectCallsLookup (fst r)) of
        None \<Rightarrow> continue r
      | Some (prefix, name) \<Rightarrow>
          (case map_of (if prefix = ''C'' then c_handlers else linux_handlers) name of
             None \<Rightarrow> continue r
           | Some h \<Rightarrow> extract_and_notify h cs r))"

definition detectPreCall :: "CallSite \<Rightarrow> u64 \<Rightarrow> Recorder \<Rightarrow> run" where
  "detectPreCall = detect_call pre_handlers []"

definition detectPostCall :: "CallSite \<Rightarrow> u64 \<Rightarrow> Recorder \<Rightarrow> run" where
  "detectPostCall = detect_call post_handlers linux_post_handlers"

text \<open>Intrinsic functions that are forwarded to a call.\<close>

definition detectAndForwardIntrinsics :: "(string \<times> handler) list \<Rightarrow> string \<Rightarrow> CallSite \<Rightarrow> Recorder \<Rightarrow> run" where
  "detectAndForwardIntrinsics hs name cs r =
     (if name \<in> {''memcpy'', ''memmove'', ''memset''}
      then (case map_of hs name of None \<Rightarrow> continue r | Some h \<Rightarrow> extract_and_notify h cs r)
      else continue r)"

text \<open>Calls of known functions, from the notification to the handler.\<close>

definition detected_pre_call :: "CallSite \<Rightarrow> u64 \<Rightarrow> Recorder \<Rightarrow> run" where
  "detected_pre_call cs a = notifyPreCall (detectPreCall cs a) (cs_Index cs)"

definition detected_post_call :: "CallSite \<Rightarrow> u64 \<Rightarrow> Recorder \<Rightarrow> run" where
  "detected_post_call cs a = notifyPostCall (detectPostCall cs a)"

end
