(* ===== verification/CallLaws.thy ===== *)
theory CallLaws
  imports DetectedCalls
begin

text \<open>
  What the handlers of library calls guarantee together: \<open>free\<close> undoes \<open>malloc\<close> and a second \<open>free\<close> is
  an error, a string copy that passes its check is recorded, and where \<open>strpbrk\<close> checks the wrong
  argument.
\<close>

section \<open>Allocation\<close>

lemma erase_insert: "om_erase k (om_insert k v m) = om_erase k m"
  by (induction k v m rule: om_insert.induct) (auto simp: om_erase_def)

lemma erase_absent: "om_find m k = None \<Longrightarrow> om_erase k m = m"
  by (induction m) (auto simp: om_erase_def om_find_Cons split: if_splits)

lemma find_inserted: "om_find (om_insert k v m) k = Some v"
  by (induction k v m rule: om_insert.induct) (auto simp: om_find_Cons)

lemma time_taken_parts [simp]:
  "pl_TraceMemory (fst (take_time r)) = pl_TraceMemory (fst r)"
  "pl_DynamicMemoryAllocations (fst (take_time r)) = pl_DynamicMemoryAllocations (fst r)"
  "tl_GlobalMemoryLock (snd (take_time r)) = tl_GlobalMemoryLock (snd r)"
  "tl_Open (snd (take_time r)) = tl_Open (snd r)"
  "tl_FunctionStack (snd (take_time r)) = tl_FunctionStack (snd r)"
  by (simp_all add: take_time_def getCIProcessTime_def getNewTime_def Let_def split: option.splits)

lemma emit_parts [simp]:
  "fst (emit e r) = fst r" "tl_GlobalMemoryLock (snd (emit e r)) = tl_GlobalMemoryLock (snd r)"
  "tl_FunctionStack (snd (emit e r)) = tl_FunctionStack (snd r)"
  "tl_ProcessTime (snd (emit e r)) = tl_ProcessTime (snd r)"
  "tl_Open (snd (emit e r)) = tl_Open (snd r)"
  by (simp_all add: emit_def write_event_def)

lemma malloc_recorded:
  assumes "recordMalloc a n r = Some r1" and "om_find (pl_DynamicMemoryAllocations (fst r)) a = None"
  shows "om_find (pl_TraceMemory (fst r)) a = None"
    and "pl_TraceMemory (fst r1) = om_insert a (new_TraceMemoryAllocation a n) (pl_TraceMemory (fst r))"
    and "\<exists>d. pl_DynamicMemoryAllocations (fst r1) = om_insert a d (pl_DynamicMemoryAllocations (fst r))"
    and "tl_FunctionStack (snd r1) = tl_FunctionStack (snd r)"
proof -
  define q where "q = snd (write_event (Malloc n (tl_ProcessTime (snd (take_time r)))) (take_time r))"
  have q: "pl_TraceMemory (fst q) = pl_TraceMemory (fst r)"
    "pl_DynamicMemoryAllocations (fst q) = pl_DynamicMemoryAllocations (fst r)"
    "tl_FunctionStack (snd q) = tl_FunctionStack (snd r)"
    by (simp_all add: q_def emit_def[symmetric])
  from assms(1) obtain off where "with_process (setCurrentDynamicMemoryAllocation a (tl_ThreadID (snd q)) off n) q = Some r1"
    by (auto simp: recordMalloc_def Let_def split_beta q_def)
  with assms(2) q show "om_find (pl_TraceMemory (fst r)) a = None"
    "pl_TraceMemory (fst r1) = om_insert a (new_TraceMemoryAllocation a n) (pl_TraceMemory (fst r))"
    "\<exists>d. pl_DynamicMemoryAllocations (fst r1) = om_insert a d (pl_DynamicMemoryAllocations (fst r))"
    "tl_FunctionStack (snd r1) = tl_FunctionStack (snd r)"
    by (auto simp: with_process_def setCurrentDynamicMemoryAllocation_def with_memory_def addAllocation_def
        incrementRegionTemporalID_def bind_eq_Some_conv require_def split: if_splits)
qed

lemma on_active_process: "on_active f r = Some r1 \<Longrightarrow> fst r1 = fst r"
  by (auto simp: on_active_def Let_def bind_eq_Some_conv)

lemma free_recorded:
  assumes "om_find (pl_DynamicMemoryAllocations (fst r)) a = Some d" and "om_find (pl_TraceMemory (fst r)) a \<noteq> None"
    and "tl_GlobalMemoryLock (snd r)"
  obtains r1 where "postCfree cs a r = Some r1"
    and "pl_TraceMemory (fst r1) = om_erase a (pl_TraceMemory (fst r))"
    and "pl_DynamicMemoryAllocations (fst r1) = om_erase a (pl_DynamicMemoryAllocations (fst r))"
proof -
  let ?r = "emit (Instruction (cs_Index cs)) (next_time r)"
  have p: "fst ?r = fst r" "tl_GlobalMemoryLock (snd ?r)" using assms(3) by (simp_all add: next_time_def)
  obtain q where q: "recordFree a ?r = Some (d, q)"
    "pl_TraceMemory (fst q) = om_erase a (pl_TraceMemory (fst r))"
    "pl_DynamicMemoryAllocations (fst q) = om_erase a (pl_DynamicMemoryAllocations (fst r))"
    "tl_GlobalMemoryLock (snd q)"
    using assms p
    by (auto simp: recordFree_def getCurrentDynamicMemoryAllocation_def with_process_def emit_timed_def
        removeCurrentDynamicMemoryAllocation_def with_memory_def removeAllocation_def require_def)
  obtain r1 where "recordStateClear a (da_Size d) q = Some r1" "pl_TraceMemory (fst r1) = pl_TraceMemory (fst q)"
    "pl_DynamicMemoryAllocations (fst r1) = pl_DynamicMemoryAllocations (fst q)"
    using q(4) by (auto simp: recordStateClear_def require_def emit_timed_def)
  with q show ?thesis by (intro that[of r1]) (simp_all add: postCfree_def Let_def)
qed

lemma free_of_unknown:
  assumes "om_find (pl_DynamicMemoryAllocations (fst r)) a = None"
  shows "\<exists>r1. preCfree cs a r = Some (Inl r1)"
  using assms
  by (simp add: preCfree_def isCurrentDynamicMemoryAllocation_def acquireDynamicMemoryLock_def
      acquireGlobalMemoryLock_def run_error_def createRunError_def handleRunError_def Let_def require_def)

lemma malloc_defined:
  assumes "om_find (pl_DynamicMemoryAllocations (fst r)) a = None" and "om_find (pl_TraceMemory (fst r)) a = None"
  shows "recordMalloc a n r \<noteq> None"
  using assms
  by (simp add: recordMalloc_def Let_def split_beta emit_def[symmetric] with_process_def
      setCurrentDynamicMemoryAllocation_def with_memory_def addAllocation_def require_def)

text \<open>C14: Freeing undoes allocating, and freeing twice is an error. After a call of \<open>malloc\<close> that returned
  an address without an allocation, the checks of \<open>free\<close> accept this address; when \<open>free\<close> has been
  recorded, the recorder's memory and its dynamic allocations are as before the call of \<open>malloc\<close>;
  and another \<open>free\<close> of the address ends the program with an error.\<close>

theorem free_undoes_malloc:
  assumes "postCmalloc cs n r = Some r1" and "returned_address cs r = Some a" and "a \<noteq> 0"
    and "getCurrentDynamicMemoryAllocation a (fst r) = None"
  shows "\<exists>r2 r3 r4. preCfree cs' a r1 = Some (Inr r2) \<and> postCfree cs' a r2 = Some r3 \<and>
    pl_TraceMemory (fst r3) = pl_TraceMemory (fst r) \<and>
    pl_DynamicMemoryAllocations (fst r3) = pl_DynamicMemoryAllocations (fst r) \<and>
    preCfree cs'' a r3 = Some (Inl r4)"
proof -
  have none: "om_find (pl_DynamicMemoryAllocations (fst r)) a = None"
    using assms(4) by (simp add: getCurrentDynamicMemoryAllocation_def)
  from assms(1-3) obtain q where q: "recordMalloc a n r = Some q" "fst r1 = fst q"
    by (auto simp: postCmalloc_def returns_new_object_def set_call_object_def bind_eq_Some_conv dest: on_active_process)
  note M = malloc_recorded[OF q(1) none]
  from M(3) obtain d where d: "pl_DynamicMemoryAllocations (fst r1) = om_insert a d (pl_DynamicMemoryAllocations (fst r))"
    using q(2) by auto
  define r2 where "r2 = acquireDynamicMemoryLock (acquireGlobalMemoryLock r1)"
  have r2: "fst r2 = fst r1" "tl_GlobalMemoryLock (snd r2)"
    by (simp_all add: r2_def acquireDynamicMemoryLock_def acquireGlobalMemoryLock_def)
  have pre: "preCfree cs' a r1 = Some (Inr r2)"
    using d r2(1) by (simp add: preCfree_def r2_def[symmetric] isCurrentDynamicMemoryAllocation_def find_inserted continue_def)
  obtain r3 where r3: "postCfree cs' a r2 = Some r3"
    "pl_TraceMemory (fst r3) = om_erase a (pl_TraceMemory (fst r2))"
    "pl_DynamicMemoryAllocations (fst r3) = om_erase a (pl_DynamicMemoryAllocations (fst r2))"
    using free_recorded[of r2 a d cs'] d q(2) M(2) r2 by (auto simp: find_inserted)
  have "pl_TraceMemory (fst r3) = pl_TraceMemory (fst r)"
    "pl_DynamicMemoryAllocations (fst r3) = pl_DynamicMemoryAllocations (fst r)"
    using r3 r2(1) q(2) M(1,2) d none by (simp_all add: erase_insert erase_absent)
  moreover from this(2) none obtain r4 where "preCfree cs'' a r3 = Some (Inl r4)" using free_of_unknown by metis
  ultimately show ?thesis using pre r3(1) by blast
qed

definition sample_call :: CallSite where
  "sample_call =
     \<lparr>cs_Index = 0, cs_Values = [ValueConstant NullPointer], cs_Operands = [], cs_Memory = (\<lambda>_. 0),
      cs_stdin = 1, cs_stdout = 2, cs_stderr = 3\<rparr>"

definition sample_malloc :: Recorder where
  "sample_malloc =
     (fst sample_recorder, (snd sample_recorder)\<lparr>tl_FunctionStack :=
        [(new_TracedFunction None 0 [])\<lparr>tf_CurrentValues := [\<lparr>rv_RecordOffset = Some 0, rv_Data = 64, rv_Extra = 0\<rparr>]\<rparr>]\<rparr>)"

theorem free_undoes_malloc_witness:
  "\<exists>r1 r2 r3 r4. postCmalloc sample_call 8 sample_malloc = Some r1 \<and> preCfree sample_call 64 r1 = Some (Inr r2) \<and>
     postCfree sample_call 64 r2 = Some r3 \<and> preCfree sample_call 64 r3 = Some (Inl r4)"
proof -
  have none: "om_find (pl_DynamicMemoryAllocations (fst sample_malloc)) 64 = None"
    by (simp add: sample_malloc_def sample_recorder_def new_ThreadListener_def new_ProcessListener_def
        open_standard_stream_def recordData_def registerThreadListener_def Let_def)
  have "recordMalloc 64 8 sample_malloc \<noteq> None"
    by (rule malloc_defined[OF none]) (simp add: sample_malloc_def sample_memory_def om_find_Cons)
  then obtain q where q: "recordMalloc 64 8 sample_malloc = Some q" by blast
  have ret: "returned_address sample_call sample_malloc = Some 64"
    by (simp add: returned_address_def sample_call_def sample_malloc_def tl_getCurrentRuntimeValue_def active_function_def
        tf_getCurrentRuntimeValue_def rv_assigned_def)
  from malloc_recorded(4)[OF q none] have "tl_FunctionStack (snd q) \<noteq> []" by (simp add: sample_malloc_def)
  then have "postCmalloc sample_call 8 sample_malloc \<noteq> None"
    by (simp add: postCmalloc_def ret q returns_new_object_def set_call_object_def on_active_def Let_def require_def)
  then obtain r1 where r1: "postCmalloc sample_call 8 sample_malloc = Some r1" by blast
  from free_undoes_malloc[OF r1 ret, of sample_call sample_call] none r1 show ?thesis
    by (auto simp: getCurrentDynamicMemoryAllocation_def)
qed

section \<open>Strings\<close>

lemma strlen_end:
  "\<forall>i < k. peek (a + of_nat i) \<noteq> 0 \<Longrightarrow> peek (a + of_nat k) = 0 \<Longrightarrow> strlen peek a = Some (of_nat k)"
proof (induction k arbitrary: a)
  case 0
  then show ?case by (subst strlen.simps) simp
next
  case (Suc k)
  have "peek a \<noteq> 0" using spec[OF Suc.prems(1), of 0] by simp
  moreover have "peek (a + 1 + of_nat i) \<noteq> 0" if "i < k" for i
    using spec[OF Suc.prems(1), of "Suc i"] that by (simp add: add.assoc)
  moreover have "peek (a + 1 + of_nat k) = 0" using Suc.prems(2) by (simp add: add.assoc)
  ultimately show ?case using Suc.IH[of "a + 1"] by (subst strlen.simps) (simp add: add.commute)
qed

lemma strlen_c_string:
  assumes "c_string_at peek a n"
  shows "strlen peek a = Some (n - 1)"
proof -
  have n: "unat (n - 1) = unat n - 1" using assms by (simp add: c_string_at_def unat_minus_one)
  then have w: "of_nat (unat n - 1) = n - 1" by (metis of_nat_unat ucast_id)
  have "\<forall>i < unat n - 1. peek (a + of_nat i) \<noteq> 0" "peek (a + of_nat (unat n - 1)) = 0"
    using assms w by (auto simp: c_string_at_def list_all_iff)
  from strlen_end[OF this] w show ?thesis by simp
qed

lemma c_string_unique:
  assumes "c_string_at peek a n" and "c_string_at peek a m"
  shows "m = n"
  using strlen_c_string[OF assms(1)] strlen_c_string[OF assms(2)] by simp

lemma run_checked_passed: "run_checked c r = Some (Inr r1) \<longleftrightarrow> c = passes () \<and> r1 = r"
  by (auto simp: run_checked_def passes_def split: option.splits sum.splits)

lemma checked_string_read:
  assumes "checkCStringRead peek ck k a r = Some (Inr n)"
  shows "c_string_at peek a n"
proof -
  from assms obtain nt obj where "checkCStringRead_object peek (addTemporaryNote nt ck) k a obj r = Some (Inr n)"
    by (auto simp: checkCStringRead_def with_parameter_note_def split: option.splits)
  then obtain ar s where s: "getCStringInArea peek a ar = Some (Some s)" and n: "n = interval_length s"
    by (auto simp: checkCStringRead_object_def check_then_passed passes_def split: option.splits)
  with found_string[OF s] show ?thesis by auto
qed

lemma write_parameter_passed:
  assumes "checkMemoryExistsAndAccessibleForParameter ck k a n WriteAccess r = passes ()"
  obtains t where "findAllocationContaining a (pl_TraceMemory (fst r)) = Some t"
    and "contains_interval (tma_getArea t) (area a n)"
proof -
  from assms obtain nt ar where ar: "containing_area a r = Some ar" and
    c: "checkMemoryAccessForParameter (addTemporaryNote nt ck) k a n WriteAccess ar r = passes ()"
    by (auto simp: checkMemoryExistsAndAccessibleForParameter_def with_parameter_note_def passes_def check_then_passed
        split: option.splits)
  from c have "contains_interval ar (area a n)"
    by (auto simp: checkMemoryAccessForParameter_def passes_def split: if_splits option.splits)
  moreover from ar obtain t where "findAllocationContaining a (pl_TraceMemory (fst r)) = Some t" "ar = tma_getArea t"
    by (auto simp: containing_area_def pl_getContainingMemoryArea_def)
  ultimately show ?thesis using that by simp
qed

text \<open>C12: A string copy that passes its check is recorded as it happened. If the checks before
  \<open>strcpy\<close> pass, its source is a string, and this string is still there after the call, then the
  recorder finds its length again and records exactly the bytes of the destination, the final zero
  byte included, without failing; afterwards all these bytes count as initialised.\<close>

theorem checked_strcpy_recorded:
  assumes "shadow_wf (pl_TraceMemory (fst r))" and "tl_Open (snd r)"
    and "preCstrcpy cs dst src r = Some (Inr r1)" and "transferArgPointerObjectToCall cs' 0 r1 = Some r2"
    and "c_string_at (cs_Memory cs') src m" and "c_string_at (cs_Memory cs) src m" and "unat dst + unat m < 2 ^ 64"
  shows "\<exists>r3 e. postCstrcpy cs' dst src r1 = Some r3 \<and>
    recordUntypedState dst (mem_bytes (cs_Memory cs') dst m) r2 = Some r3 \<and>
    tl_Events (snd r3) = tl_Events (snd r2) @ [e] \<and> known_range (pl_TraceMemory (fst r3)) dst (unat m)"
proof -
  let ?r = "acquireGlobalMemoryLock r"
  have p: "pl_TraceMemory (fst ?r) = pl_TraceMemory (fst r)" "tl_Open (snd ?r)" "tl_GlobalMemoryLock (snd ?r)"
    using assms(2) by (simp_all add: acquireGlobalMemoryLock_def)
  from assms(3) obtain ck :: CStdLibChecker where r1: "r1 = ?r" and
    c: "check_length (checkCStringRead (cs_Memory cs) ck 1 src ?r)
      (\<lambda>m. check_then (checkMemoryExistsAndAccessibleForParameter ck 0 dst m WriteAccess ?r)
        (checkMemoryDoesNotOverlap ck (area dst m) (area src m) ?r)) = passes ()"
    by (auto simp: preCstrcpy_def with_checker_def Let_def run_checked_passed split: option.splits)
  from c obtain n where n: "checkCStringRead (cs_Memory cs) ck 1 src ?r = Some (Inr n)" and
    w: "n = 0 \<or> checkMemoryExistsAndAccessibleForParameter ck 0 dst n WriteAccess ?r = passes ()"
    by (auto simp: check_length_def check_bind_passed passes_def check_then_passed split: if_splits)
  have m: "n = m" by (rule c_string_unique[OF assms(6) checked_string_read[OF n]])
  have m0: "m \<noteq> 0" using assms(6) by (simp add: c_string_at_def)
  from w m m0 obtain t where t: "findAllocationContaining dst (pl_TraceMemory (fst r)) = Some t"
    "contains_interval (tma_getArea t) (area dst m)"
    using write_parameter_passed p(1) by metis
  from assms(4) have r2: "fst r2 = fst r1" "tl_Open (snd r2) = tl_Open (snd r1)"
    "tl_GlobalMemoryLock (snd r2) = tl_GlobalMemoryLock (snd r1)"
    by (auto simp: transferArgPointerObjectToCall_def on_active_def Let_def bind_eq_Some_conv)
  let ?d = "mem_bytes (cs_Memory cs') dst m"
  have d: "length ?d = unat m" "?d \<noteq> []" using m0 by (auto simp: mem_bytes_def unat_eq_0)
  have "shadow_wf (pl_TraceMemory (fst r2))" "findAllocationContaining dst (pl_TraceMemory (fst r2)) = Some t"
    using assms(1) t(1) r2(1) r1 p(1) by simp_all
  then obtain r3 e where r3: "recordUntypedState dst ?d r2 = Some r3" "tl_Events (snd r3) = tl_Events (snd r2) @ [e]"
    "known_range (pl_TraceMemory (fst r3)) dst (unat m)"
    using store_recorded[of r2 ?d dst t] r2 r1 p d assms(7) t(2) by (simp only: d(1) of_nat_unat ucast_id) metis
  have "strlen (cs_Memory cs') src = Some (m - 1)" using strlen_c_string assms(5,6) by blast
  then have "postCstrcpy cs' dst src r1 = Some r3"
    using assms(4) r3(1) by (simp add: postCstrcpy_def record_memory_def)
  with r3 show ?thesis by blast
qed

text \<open>When the checks pass.\<close>

lemma string_check_passes:
  assumes "argument_object ck k r = Some obj" and "checkPointer ck obj a r = passes ()"
    and "containing_area a r = Some ar" and "getCStringInArea peek a ar = Some (Some (area a n))"
    and "hasKnownState a n (pl_TraceMemory (fst r)) = Some True"
    and "getLengthOfKnownState a n (pl_TraceMemory (fst r)) = Some (unat n)"
  shows "checkCStringRead peek ck k a r = Some (Inr n)"
proof -
  have "argument_object (addTemporaryNote nt ck) k r = Some obj" for nt
    using assms(1) by (simp add: argument_object_def addTemporaryNote_def)
  then show ?thesis
    using assms(3-6)
    by (simp add: checkCStringRead_def with_parameter_note_def createRunError_def fn_arg_def require_def
        checkCStringRead_object_def memoryExistsForParameter_def checkPointer_any[OF assms(2)]
        checkCStringIsValid_def checkMemoryAccessForParameter_def)
      (simp add: passes_def)
qed

lemma write_check_passes:
  assumes "argument_object ck k r = Some obj" and "checkPointer ck obj a r = passes ()"
    and "containing_area a r = Some ar" and "contains_interval ar (area a n)"
  shows "checkMemoryExistsAndAccessibleForParameter ck k a n WriteAccess r = passes ()"
proof -
  have "argument_object (addTemporaryNote nt ck) k r = Some obj" for nt
    using assms(1) by (simp add: argument_object_def addTemporaryNote_def)
  then show ?thesis
    using assms(3,4)
    by (simp add: checkMemoryExistsAndAccessibleForParameter_def with_parameter_note_def createRunError_def fn_arg_def
        require_def memoryExistsForParameter_def checkPointer_any[OF assms(2)] checkMemoryAccessForParameter_def)
qed

lemma checkPointer_null: "checkPointer ck null_target a r = passes ()"
  by (simp add: checkPointer_def target_set_def pointer_target_def)

text \<open>The checker of a call whose operands are null constants.\<close>

lemma null_operands:
  assumes "new_CStdLibChecker i fn (Some (replicate m (ValueConstant NullPointer))) r = Some ck"
    and "tl_FunctionStack (snd r) \<noteq> []" and "k < m"
  shows "argument_object ck k r = Some null_target"
  using assms
  by (auto simp: new_CStdLibChecker_def bind_eq_Some_conv addPermanentNote_def argument_object_def require_def
      pl_getPointerObject_def)

lemma new_checker_defined: "\<exists>ck. new_CStdLibChecker i fn call r = Some ck"
  by (simp add: new_CStdLibChecker_def createRunError_def require_def)

text \<open>The string \<open>"aa"\<close> at 16, room for it at 32, and a call with the index 0.\<close>

definition copy_recorder :: Recorder where
  "copy_recorder =
     ((fst sample_recorder)\<lparr>pl_TraceMemory :=
        [(16, \<lparr>tma_Address = 16, tma_Shadow = [0, 0, 0, 255]\<rparr>), (32, \<lparr>tma_Address = 32, tma_Shadow = [255, 255, 255, 255]\<rparr>)]\<rparr>,
      (snd sample_recorder)\<lparr>tl_FunctionStack := [(new_TracedFunction None 0 [])\<lparr>tf_ActiveInstruction := Some 0\<rparr>]\<rparr>)"

definition copy_call :: "(u64 \<Rightarrow> byte) \<Rightarrow> CallSite" where
  "copy_call peek = sample_call\<lparr>cs_Values := replicate 2 (ValueConstant NullPointer), cs_Memory := peek\<rparr>"

definition copied_bytes :: "u64 \<Rightarrow> byte" where
  "copied_bytes a = (if a = 18 \<or> a = 34 then 0 else 97)"

lemma copy_memory:
  "pl_TraceMemory (fst copy_recorder) =
     [(16, \<lparr>tma_Address = 16, tma_Shadow = [0, 0, 0, 255]\<rparr>), (32, \<lparr>tma_Address = 32, tma_Shadow = [255, 255, 255, 255]\<rparr>)]"
  by (simp add: copy_recorder_def)

lemma copy_areas:
  "containing_area 16 copy_recorder = Some (area 16 4)" "containing_area 32 copy_recorder = Some (area 32 4)"
proof -
  have "map_option tma_getArea (findAllocationContaining 16 (pl_TraceMemory (fst copy_recorder))) = Some (area 16 4)"
    "map_option tma_getArea (findAllocationContaining 32 (pl_TraceMemory (fst copy_recorder))) = Some (area 32 4)"
    unfolding copy_memory by code_simp+
  then show "containing_area 16 copy_recorder = Some (area 16 4)" "containing_area 32 copy_recorder = Some (area 32 4)"
    by (simp_all add: containing_area_def pl_getContainingMemoryArea_def)
qed

lemma sample_strcpy_passes:
  "preCstrcpy (copy_call sample_bytes) 32 16 copy_recorder = Some (Inr (acquireGlobalMemoryLock copy_recorder))"
proof -
  let ?r = "acquireGlobalMemoryLock copy_recorder"
  have fst: "fst ?r = fst copy_recorder" "tl_FunctionStack (snd ?r) \<noteq> []"
    by (simp_all add: acquireGlobalMemoryLock_def copy_recorder_def)
  obtain ck where ck: "new_CStdLibChecker 0 (cstd_function ''Strcpy'') (Some (replicate 2 (ValueConstant NullPointer))) ?r = Some ck"
    using new_checker_defined by blast
  have obj: "argument_object ck 0 ?r = Some null_target" "argument_object ck 1 ?r = Some null_target"
    using null_operands[OF ck fst(2)] by simp_all
  have ar: "containing_area 16 ?r = Some (area 16 4)" "containing_area 32 ?r = Some (area 32 4)"
    using copy_areas fst(1) by (simp_all add: containing_area_def)
  have str: "getCStringInArea sample_bytes 16 (area 16 4) = Some (Some (area 16 3))" by code_simp
  have known: "hasKnownState 16 3 (pl_TraceMemory (fst ?r)) = Some True"
    "getLengthOfKnownState 16 3 (pl_TraceMemory (fst ?r)) = Some 3"
    unfolding fst(1) copy_memory by code_simp+
  have read: "checkCStringRead sample_bytes ck 1 16 ?r = Some (Inr 3)"
    using string_check_passes[OF obj(2) checkPointer_null ar(1) str known(1)] known(2) by simp
  have wr: "checkMemoryExistsAndAccessibleForParameter ck 0 32 3 WriteAccess ?r = passes ()"
    by (rule write_check_passes[OF obj(1) checkPointer_null ar(2)]) code_simp
  have "map_option interval_length (intersection (area 32 3) (area 16 3)) = Some 0" by code_simp
  then have ov: "checkMemoryDoesNotOverlap ck (area 32 3) (area 16 3) ?r = passes ()"
    by (auto simp: checkMemoryDoesNotOverlap_def)
  show ?thesis
    using ck read wr ov
    by (simp add: preCstrcpy_def with_checker_def copy_call_def sample_call_def check_length_def check_bind_def
        run_checked_def)
      (simp add: passes_def)
qed

theorem checked_strcpy_recorded_witness:
  "\<exists>r2 r3. transferArgPointerObjectToCall (copy_call copied_bytes) 0 (acquireGlobalMemoryLock copy_recorder) = Some r2 \<and>
     postCstrcpy (copy_call copied_bytes) 32 16 (acquireGlobalMemoryLock copy_recorder) = Some r3 \<and>
     recordUntypedState 32 [97, 97, 0] r2 = Some r3 \<and> known_range (pl_TraceMemory (fst r3)) 32 3"
proof -
  let ?r = "acquireGlobalMemoryLock copy_recorder"
  obtain r2 where r2: "transferArgPointerObjectToCall (copy_call copied_bytes) 0 ?r = Some r2"
    by (simp add: transferArgPointerObjectToCall_def on_active_def copy_recorder_def acquireGlobalMemoryLock_def
        copy_call_def sample_call_def transferPointerObject_def pl_getPointerObject_def require_def Let_def)
  have str: "c_string_at (cs_Memory (copy_call copied_bytes)) 16 3" "c_string_at (cs_Memory (copy_call sample_bytes)) 16 3"
    by code_simp+
  have "shadow_wf (pl_TraceMemory (fst copy_recorder))" unfolding copy_memory
    by (simp add: shadow_wf_def om_wf_Cons om_all_def)
  moreover have "tl_Open (snd copy_recorder)" by (simp add: copy_recorder_def)
  moreover have "mem_bytes (cs_Memory (copy_call copied_bytes)) 32 3 = [97, 97, 0]" by code_simp
  ultimately show ?thesis
    using checked_strcpy_recorded[OF _ _ sample_strcpy_passes r2 str] r2 by auto
qed

section \<open>The wrong parameter\<close>

lemma fatal_ends:
  assumes "map kind_of as = error_signature t"
  shows "\<exists>r1. fatal c t as r = Some (Inl r1)"
  using fatal_Inl[OF assms] by blast

lemma new_checker_parts:
  assumes "new_CStdLibChecker i fn call r = Some ck"
  shows "sc_Call ck = call" and "sc_CallerIdx ck = length (tl_FunctionStack (snd r)) - 1"
  using assms by (auto simp: new_CStdLibChecker_def bind_eq_Some_conv addPermanentNote_def)

lemma other_object_rejected:
  assumes "argument_object ck k r = Some obj" and "target_set obj"
    and "containing_area (tgt_Base obj) r = Some ar" and "\<not> contains_value ar a" and "sc_Call ck \<noteq> None"
  shows "\<exists>r1. checkCStringRead peek ck k a r = Some (Inl r1)"
proof -
  have obj: "argument_object (addTemporaryNote nt ck) k r = Some obj" "sc_Call (addTemporaryNote nt ck) \<noteq> None" for nt
    using assms(1,5) by (simp_all add: argument_object_def addTemporaryNote_def)
  have "\<exists>r1. checkPointer c obj a r = Some (Inl r1)" for c :: "'a CStdLibChecker_scheme"
    using assms(2-4)
      fatal_ends[of "[ArgSize (tgt_Time obj), ArgSize (getRegionTemporalID (tgt_Base obj) (fst r))]" PointerObjectOutdated c r]
      fatal_ends[of "[ArgAddress (tgt_Base obj), ArgAddress a]" PointerObjectMismatch c r]
    by (cases "getRegionTemporalID (tgt_Base obj) (fst r) = tgt_Time obj") (simp_all add: checkPointer_def)
  then have "\<exists>r1. check_then (memoryExistsForParameter (addTemporaryNote nt ck) k a (containing_area a r) obj r) d =
      (Some (Inl r1) :: u64 checked)" for nt d
    using obj(2)[of nt] by (simp add: memoryExistsForParameter_def) (metis check_then_ended)
  then show ?thesis
    by (simp add: checkCStringRead_def with_parameter_note_def createRunError_def fn_arg_def require_def obj(1)
        checkCStringRead_object_def)
qed

text \<open>C40: \<open>strpbrk\<close> is checked with the wrong parameter. If both strings of a call pass the checks that
  other functions of two strings make, each with its own parameter, but the second string is not in
  the object that the first argument points to, then the check before \<open>strpbrk\<close> ends the program: it
  compares the second string with the pointer object of the first argument.\<close>

theorem strpbrk_other_object_rejected:
  assumes "pre_two_strings ''Strpbrk'' cs s t r = Some (Inr r1)"
    and "tl_FunctionStack (snd r) \<noteq> []" and "cs_Values cs \<noteq> []"
    and "tf_getPointerObject (cs_Values cs ! 0) (fst r) (last (tl_FunctionStack (snd r))) = Some obj"
    and "target_set obj" and "containing_area (tgt_Base obj) r = Some ar" and "\<not> contains_value ar t"
  shows "\<exists>r2. preCstrpbrk cs s t r = Some (Inl r2)"
proof -
  let ?r = "acquireGlobalMemoryLock r"
  have f: "fst ?r = fst r" "tl_FunctionStack (snd ?r) = tl_FunctionStack (snd r)"
    by (simp_all add: acquireGlobalMemoryLock_def)
  from assms(1) obtain ck where ck: "new_CStdLibChecker (cs_Index cs) (cstd_function ''Strpbrk'') (Some (cs_Values cs)) ?r = Some ck"
    and one: "check_string cs ck 0 s ?r = passes ()"
    by (auto simp: pre_two_strings_def with_checker_def Let_def run_checked_passed passes_def check_then_passed split: option.splits)
  have call: "sc_Call ck \<noteq> None" "argument_object ck 0 ?r = Some obj"
    using new_checker_parts[OF ck] assms(2,3,4) f by (simp_all add: argument_object_def require_def last_conv_nth)
  have "containing_area (tgt_Base obj) ?r = Some ar" using assms(6) f by (simp add: containing_area_def)
  from other_object_rejected[OF call(2) assms(5) this assms(7) call(1)] obtain r2 where
    "checkCStringRead (cs_Memory cs) ck 0 t ?r = Some (Inl r2)" by blast
  then have "check_string cs ck 0 t ?r = Some (Inl r2)" by (simp add: check_string_def check_bind_def)
  with ck one show ?thesis by (simp add: preCstrpbrk_def with_checker_def run_checked_def)
qed

text \<open>The strings at 16 and 48, to which the two arguments of the caller point.\<close>

definition two_strings_recorder :: Recorder where
  "two_strings_recorder =
     ((fst sample_recorder)\<lparr>pl_TraceMemory :=
        [(16, \<lparr>tma_Address = 16, tma_Shadow = [0, 0, 0]\<rparr>), (48, \<lparr>tma_Address = 48, tma_Shadow = [0, 0]\<rparr>)]\<rparr>,
      (snd sample_recorder)\<lparr>tl_FunctionStack :=
        [new_TracedFunction None 0 [(0, pointer_target 16 0), (1, pointer_target 48 0)]]\<rparr>)"

definition two_strings_call :: CallSite where
  "two_strings_call =
     sample_call\<lparr>cs_Values := [ValueArgument 0, ValueArgument 1], cs_Memory := (\<lambda>a. if a = 18 \<or> a = 49 then 0 else 97)\<rparr>"

theorem strpbrk_other_object_rejected_witness:
  "\<exists>r1 r2. pre_two_strings ''Strpbrk'' two_strings_call 16 48 two_strings_recorder = Some (Inr r1) \<and>
     preCstrpbrk two_strings_call 16 48 two_strings_recorder = Some (Inl r2)"
proof -
  let ?r = "acquireGlobalMemoryLock two_strings_recorder" and ?cs = two_strings_call
  have f: "fst ?r = fst two_strings_recorder" "tl_FunctionStack (snd ?r) = tl_FunctionStack (snd two_strings_recorder)"
    by (simp_all add: acquireGlobalMemoryLock_def)
  have mem: "pl_TraceMemory (fst ?r) =
      [(16, \<lparr>tma_Address = 16, tma_Shadow = [0, 0, 0]\<rparr>), (48, \<lparr>tma_Address = 48, tma_Shadow = [0, 0]\<rparr>)]"
    by (simp only: f(1)) (simp add: two_strings_recorder_def)
  have "map_option tma_getArea (findAllocationContaining 16 (pl_TraceMemory (fst ?r))) = Some (area 16 3)"
    "map_option tma_getArea (findAllocationContaining 48 (pl_TraceMemory (fst ?r))) = Some (area 48 2)"
    unfolding mem by code_simp+
  then have ar: "containing_area 16 ?r = Some (area 16 3)" "containing_area 48 ?r = Some (area 48 2)"
    by (simp_all add: containing_area_def pl_getContainingMemoryArea_def)
  obtain ck where ck: "new_CStdLibChecker (cs_Index ?cs) (cstd_function ''Strpbrk'') (Some (cs_Values ?cs)) ?r = Some ck"
    using new_checker_defined by blast
  have obj: "argument_object ck 0 ?r = Some (pointer_target 16 0)" "argument_object ck 1 ?r = Some (pointer_target 48 0)"
    unfolding argument_object_def new_checker_parts[OF ck] f
    by (simp_all add: require_def two_strings_call_def two_strings_recorder_def new_TracedFunction_def
        target_of_def om_find_Cons)
  have t0: "getRegionTemporalID a (fst ?r) = 0" for a
    by (simp only: f(1)) (simp add: two_strings_recorder_def sample_recorder_def new_ThreadListener_def new_ProcessListener_def
        open_standard_stream_def recordData_def registerThreadListener_def getRegionTemporalID_def Let_def)
  have ptr: "checkPointer ck (pointer_target 16 0) 16 ?r = passes ()" "checkPointer ck (pointer_target 48 0) 48 ?r = passes ()"
    by (simp_all add: checkPointer_def pointer_target_def target_set_def t0 ar contains_value_def)
  have str: "getCStringInArea (cs_Memory ?cs) 16 (area 16 3) = Some (Some (area 16 3))"
    "getCStringInArea (cs_Memory ?cs) 48 (area 48 2) = Some (Some (area 48 2))" by code_simp+
  have known: "hasKnownState 16 3 (pl_TraceMemory (fst ?r)) = Some True"
    "getLengthOfKnownState 16 3 (pl_TraceMemory (fst ?r)) = Some 3"
    "hasKnownState 48 2 (pl_TraceMemory (fst ?r)) = Some True"
    "getLengthOfKnownState 48 2 (pl_TraceMemory (fst ?r)) = Some 2"
    unfolding mem by code_simp+
  have "checkCStringRead (cs_Memory ?cs) ck 0 16 ?r = Some (Inr 3)" "checkCStringRead (cs_Memory ?cs) ck 1 48 ?r = Some (Inr 2)"
    using string_check_passes[OF obj(1) ptr(1) ar(1) str(1) known(1)] string_check_passes[OF obj(2) ptr(2) ar(2) str(2) known(3)]
      known(2,4) by simp_all
  then have pre: "pre_two_strings ''Strpbrk'' ?cs 16 48 two_strings_recorder = Some (Inr ?r)"
    by (simp add: pre_two_strings_def with_checker_def ck check_string_def check_bind_def run_checked_def)
      (simp add: passes_def)
  have "containing_area 16 two_strings_recorder = Some (area 16 3)" using ar(1) f(1) by (simp add: containing_area_def)
  then have "containing_area (tgt_Base (pointer_target 16 0)) two_strings_recorder = Some (area 16 3)"
    by (simp add: pointer_target_def)
  moreover have "tf_getPointerObject (cs_Values ?cs ! 0) (fst two_strings_recorder) (last (tl_FunctionStack (snd two_strings_recorder))) =
      Some (pointer_target 16 0)"
    by (simp add: two_strings_call_def two_strings_recorder_def new_TracedFunction_def target_of_def om_find_Cons)
  moreover have "\<not> contains_value (area 16 3) 48" "target_set (pointer_target 16 0)"
    by (simp_all add: contains_value_def target_set_def pointer_target_def)
  moreover have "tl_FunctionStack (snd two_strings_recorder) \<noteq> []" "cs_Values ?cs \<noteq> []"
    by (simp_all add: two_strings_recorder_def two_strings_call_def)
  ultimately show ?thesis using strpbrk_other_object_rejected[OF pre] pre by blast
qed

end
