(* ===== verification/Spec2Isabelle.thy ===== *)
theory Spec2Isabelle
  imports MovementLaws FunctionLaws PointerObjects RecorderReplay CallLaws
begin

text \<open>
  SeeC records the execution of a C program and lets a novice walk through the recording. An
  instrumented program calls the \<^emph>\<open>recorder\<close> (\<open>TraceProcessListener\<close>, \<open>TraceThreadListener\<close>), which
  checks each operation for run-time errors, keeps a shadow of the program's memory and writes one
  sequence of events per thread. The \<^emph>\<open>viewer\<close> (\<open>ProcessState\<close>, \<open>ThreadState\<close>, \<open>FunctionState\<close>,
  \<open>MemoryState\<close>) recreates the program's state from the events and moves it forwards and backwards in
  time (\<open>StateMovement\<close>). This development models both sides of \<open>src/lib/Trace\<close> and
  \<open>src/include/seec/Trace\<close>, and shows that they fit together.

  \<^bold>\<open>Theories and sources\<close> (paths below \<open>src/include/seec\<close> and \<open>src/lib\<close>)

  \<^item> \<open>Prelude\<close>: machine types, \<open>None\<close> as failure, bounded byte vectors, the locale \<open>reversible\<close>.
  \<open>OrderedMap\<close>: \<open>std::map\<close> as a sorted association list behind the locale \<open>ordered_map\<close>.
  \<^item> \<open>Interval\<close>: \<open>DSA/Interval.hpp\<close>, \<open>DSA/MemoryArea.hpp\<close>. \<open>IntervalMap\<close>: \<open>DSA/IntervalMapVector.hpp\<close>,
  searches, insertions and erasures against a set of disjoint intervals.
  \<^item> \<open>MemoryAllocation\<close>, \<open>MemoryState\<close>: \<open>Trace/MemoryState\<close>, allocations with stacks of saved areas.
  \<open>MemoryView\<close> relates them to a flat memory, \<open>MemoryProgress\<close> shows when they are defined.
  \<^item> \<open>Streams\<close>: \<open>Trace/StreamState\<close>, \<open>Trace/TraceStreams\<close>. \<open>BlockStore\<close>: \<open>Trace/BlockValueStore\<close>.
  \<^item> \<open>Events\<close>: \<open>Trace/Events.def\<close>, \<open>TraceFormat\<close>, \<open>TraceSearch.hpp\<close> and \<open>deserializeRuntimeError\<close>.
  \<^item> \<open>ProcessState\<close>, \<open>FunctionState\<close>, \<open>ThreadState\<close>: the files of these names in \<open>Trace\<close>;
  \<open>ThreadState\<close> has the \<open>addEvent\<close> and \<open>removeEvent\<close> of every event. \<open>ProcessLaws\<close>,
  \<open>FunctionLaws\<close>, \<open>ThreadLaws\<close> and \<open>ThreadRuns\<close> hold their invariants and the undo of each event.
  \<^item> \<open>StateMovement\<close>: \<open>Trace/StateMovement\<close>, the worker threads as a step function and a step
  relation; \<open>MovementLaws\<close>: the invariant of all workers under any schedule.
  \<^item> \<open>ShadowMemory\<close>: \<open>Trace/TraceMemory\<close>. \<open>ProcessRecorder\<close>: \<open>Trace/TraceProcessListener\<close>,
  \<open>TracePointer.hpp\<close>, \<open>DetectCallsLookup\<close>. \<open>ThreadRecorder\<close>: \<open>Trace/TraceThreadListener\<close>,
  \<open>TracedFunction\<close>, \<open>RuntimeValue.hpp\<close>, \<open>TraceEventWriter.hpp\<close>. \<open>PointerObjects\<close>: laws of the pointer
  objects in memory.
  \<^item> \<open>RuntimeErrors\<close>: \<open>RuntimeErrors/*\<close>. \<open>RuntimeChecks\<close>: \<open>Trace/TraceThreadMemCheck\<close>.
  \<open>Notifications\<close>: \<open>Trace/TraceThreadListenerNotify.cpp\<close>, \<open>GetCurrentRuntimeValue.hpp\<close>. \<open>CheckLaws\<close>: what
  a passed check guarantees.
  \<^item> \<open>FormatChecks\<close>: \<open>Trace/PrintFormatSpecifiers.hpp\<close> and \<open>checkPrintFormat\<close>. \<open>DetectedCalls\<close>:
  \<open>Trace/TraceThreadListenerDetectCalls.cpp\<close>, \<open>Trace/DetectCalls.hpp\<close>, the handlers of the C library functions
  that the recorder knows. \<open>CallLaws\<close>: what these handlers guarantee.
  \<^item> \<open>RecorderLaws\<close>, \<open>RecorderGrowth\<close>, \<open>RecorderRuns\<close>, \<open>RecorderReplay\<close>: what the recorder writes can be
  replayed by the viewer and recreates what the recorder knew, operation by operation, for runs of
  operations, and from the construction of the listeners to the end of the recording.

  \<^bold>\<open>How code becomes definitions\<close>

  \<^item> A class is a \<open>record\<close> with the source's members, a method a function of the same name that returns
  the updated record. \<open>uint64_t\<close>, \<open>uintptr_t\<close> and sizes are 64-bit words and wrap as in the source.
  Vectors are lists, \<open>std::map\<close> and \<open>DenseMap\<close> are \<open>omap\<close>, the head of a list that models a
  \<open>std::stack\<close> is its top, iterators are keys or positions. An event reference and an offset in an
  event file are a position in the list of the thread's events.
  \<^item> A failed assertion, \<open>llvm_unreachable\<close>, an access out of range, \<open>memcpy\<close> on overlapping blocks and other
  undefined behaviour is \<open>None\<close>. So a theorem that an operation returns \<open>Some\<close> is a theorem that
  the assertions hold. Errors that the source reports by a value keep that value. A run-time error
  of the recorded program that is fatal ends the recording: \<open>Inl\<close> the recorder at that moment;
  \<open>Inr\<close> is a run that goes on.
  \<^item> What the source asks of LLVM (types, sizes, indices of globals, functions, instructions) is a
  parameter: \<open>ModuleInfo\<close>, \<open>FunctionIndex\<close>, \<open>GlobalType\<close> or an argument of a notification. The memory
  of the recorded program is an argument where the recorder reads it. Floating-point values are
  their bit patterns.
  \<^item> \<open>memcpy\<close> of values that are not initialised is not observable, so rewinding restores a state up to
  the values of bytes that are not initialised (\<open>alloc_eqv\<close>, \<open>mem_eqv\<close>, \<open>proc_eqv\<close>).
  \<^item> The workers of \<open>StateMovement\<close> take steps in any order. What a worker does between two accesses to
  shared state is one step. The condition variable wakes all sleepers; a sleeper rechecks its
  condition when it gets the mutex.
  \<^item> Loops are structural recursion, or \<open>function\<close> with a measure. The schedules of workers
  are lists of thread numbers, so movements are finite by construction and that they complete or hang is
  stated as such; no definition is cut off by fuel.

  \<^bold>\<open>Interfaces\<close>

  \<^item> \<open>ordered_map\<close>: lookup, update, deletion and the entry at or before a key; interpreted as \<open>om\<close> on sorted
  association lists.
  \<^item> \<open>reversible\<close>: a forward and a backward operation with the invariant they keep and the equivalence the pair
  restores; interpreted on memory, process and thread states. Rewinding any run follows once.
  \<^item> \<open>simulation\<close>: two components stay related; interpreted as \<open>shadow\<close> for the recorder's and the viewer's memory.
  \<^item> \<open>worker_invariant\<close>: an invariant of single steps holds in all reachable movements.
  \<^item> \<open>recording\<close>: a recorder that writes any number of events for one operation, and a viewer
  that moves over them one by one; interpreted as \<open>recorder\<close>.

  \<^bold>\<open>What is shown\<close>

  \<^item> Recorder and viewer: every recording replays (C1, C2), the shadow memory is the initialisation of the
  recreated memory (C7, C8), types of recorded errors (C16), errors are read back (C17, C22).
  \<^item> Viewer: rewinding undoes moving (C3, C4), memory refines a flat memory (C5) and never
  fails on recorded histories (C6), values read back (C20), backwards jumps (C21), ownership of
  areas (C23 to C25), highest process time (C31), streams (C30).
  \<^item> Checks: reads (C9), stores (C10), strings (C11), pointer objects (C15) and formats of \<open>printf\<close> (C13).
  \<^item> Detected calls: a copied string is recorded (C12), \<open>free\<close> undoes \<open>malloc\<close> (C14).
  \<^item> Concurrency: shared updates happen in the order of their times (C18); a movement whose
  predicate never holds reaches the end (C19).
  \<^item> Data structures: interval maps (C26 to C28) and the slots of a block store (C29).
  \<^item> Behaviour that the code does not mean: stale values after rewinding (C32), the allocating instruction
  of reallocated memory (C33), lost and missing wake-ups (C34, C35), wrapping sizes (C36), limited string
  checks (C37), overlapping upward copies of pointer objects (C38), formats with a star as width (C39), the
  second argument of \<open>strpbrk\<close> (C40).

  \<^bold>\<open>Not modelled\<close>

  Format specifiers of \<open>scanf\<close>, printers, texts for the user, signals, the error callback, mutexes of the
  recorder and the bytes of trace files are left out. A known function without a handler of its own changes
  nothing in the recorder, as in the source. The length of a string in the recorded program's memory, where the
  source calls \<open>strlen\<close>, is \<open>None\<close> when there is no terminator. The mapping to Clang's AST, the
  instrumentation passes, the wrappers of the C library and the graphical viewer
  rest on Clang, LLVM, wxWidgets and ICU, none of which is part of the repository, and hold little logic of their own.
\<close>

end
